(* ===== verification/Prelude.thy ===== *)
theory Prelude
  imports Main "HOL-Library.Word" "HOL-Library.List_Lexorder" "HOL-Library.Char_ord"
    "HOL-Library.Product_Lexorder"
begin

text \<open>
  Shared vocabulary of the development: names for the identifiers the server passes around, the
  tables it keeps in SQLite as lists of records in rowid order, the few JavaScript string
  operations several components use, and the lemma collections the component theories extend.
\<close>

unbundle bit_operations_syntax

section \<open>Names\<close>

text \<open>Ids are decimal text (snowflakes) on the wire and in the tables; times are epoch milliseconds.\<close>

type_synonym user_id = string
type_synonym space_id = string
type_synonym channel_id = string
type_synonym role_id = string
type_synonym origin = string
type_synonym millis = int

text \<open>Facts a preservation proof rewrites with, and facts a table operation is rewritten with.\<close>

named_theorems preserved
named_theorems table_simps

section \<open>Tables\<close>

text \<open>
  A table is its rows in rowid order. \<open>SELECT ... WHERE key = k LIMIT 1\<close>, \<open>UPDATE\<close> and
  \<open>DELETE\<close> by key, as the query builder runs them.
\<close>

definition tbl_get :: "('r \<Rightarrow> 'k) \<Rightarrow> 'k \<Rightarrow> 'r list \<Rightarrow> 'r option" where
  "tbl_get key k rows = find (\<lambda>r. key r = k) rows"

definition tbl_update :: "('r \<Rightarrow> 'k) \<Rightarrow> 'k \<Rightarrow> ('r \<Rightarrow> 'r) \<Rightarrow> 'r list \<Rightarrow> 'r list" where
  "tbl_update key k f rows = map (\<lambda>r. if key r = k then f r else r) rows"

definition tbl_delete :: "('r \<Rightarrow> 'k) \<Rightarrow> 'k \<Rightarrow> 'r list \<Rightarrow> 'r list" where
  "tbl_delete key k rows = filter (\<lambda>r. key r \<noteq> k) rows"

lemma tbl_get_Nil [simp]: "tbl_get key k [] = None"
  by (simp add: tbl_get_def)

lemma tbl_get_Cons [simp]:
  "tbl_get key k (r # rows) = (if key r = k then Some r else tbl_get key k rows)"
  by (simp add: tbl_get_def)

lemma tbl_get_SomeD: "tbl_get key k rows = Some r \<Longrightarrow> r \<in> set rows \<and> key r = k"
  by (induction rows) (auto split: if_splits)

lemma tbl_get_None_iff: "tbl_get key k rows = None \<longleftrightarrow> k \<notin> key ` set rows"
  by (induction rows) auto

lemma tbl_get_append:
  "tbl_get key k (rows @ rows') =
     (case tbl_get key k rows of None \<Rightarrow> tbl_get key k rows' | Some r \<Rightarrow> Some r)"
  by (induction rows) auto

lemma tbl_get_update [table_simps]:
  assumes "\<And>r. key (f r) = key r"
  shows "tbl_get key k (tbl_update key k' f rows) =
    (if k = k' then map_option f (tbl_get key k rows) else tbl_get key k rows)"
  using assms by (induction rows) (auto simp: tbl_update_def)

lemma tbl_get_delete [table_simps]:
  "tbl_get key k (tbl_delete key k' rows) = (if k = k' then None else tbl_get key k rows)"
  by (induction rows) (auto simp: tbl_delete_def)

lemma keys_tbl_update [table_simps]:
  assumes "\<And>r. key (f r) = key r"
  shows "map key (tbl_update key k f rows) = map key rows"
  using assms by (induction rows) (auto simp: tbl_update_def)

lemma length_tbl_update [simp]: "length (tbl_update key k f rows) = length rows"
  by (simp add: tbl_update_def)

lemma set_tbl_delete [simp]: "set (tbl_delete key k rows) = {r \<in> set rows. key r \<noteq> k}"
  by (auto simp: tbl_delete_def)

lemma tbl_get_distinct:
  "distinct (map key rows) \<Longrightarrow> r \<in> set rows \<Longrightarrow> tbl_get key (key r) rows = Some r"
  by (induction rows) auto

lemma distinct_tbl_delete: "distinct (map key rows) \<Longrightarrow> distinct (map key (tbl_delete key k rows))"
  by (simp add: tbl_delete_def distinct_map_filter)

lemma list_all_tbl_update:
  "list_all P rows \<Longrightarrow> (\<And>r. r \<in> set rows \<Longrightarrow> P r \<Longrightarrow> key r = k \<Longrightarrow> P (f r))
   \<Longrightarrow> list_all P (tbl_update key k f rows)"
  by (auto simp: tbl_update_def list_all_iff)

text \<open>
  The contract a component relies on when it works on a table by key: what a read sees after an
  update or a delete, and that neither makes two rows share a key.
\<close>

locale keyed_table =
  fixes key :: "'r \<Rightarrow> 'k"
    and get :: "'k \<Rightarrow> 'r list \<Rightarrow> 'r option"
    and update :: "'k \<Rightarrow> ('r \<Rightarrow> 'r) \<Rightarrow> 'r list \<Rightarrow> 'r list"
    and delete :: "'k \<Rightarrow> 'r list \<Rightarrow> 'r list"
  assumes get_key: "get k rows = Some r \<Longrightarrow> r \<in> set rows \<and> key r = k"
    and get_update: "(\<And>r. key (f r) = key r) \<Longrightarrow>
      get k (update k' f rows) = (if k = k' then map_option f (get k rows) else get k rows)"
    and get_delete: "get k (delete k' rows) = (if k = k' then None else get k rows)"
    and keys_update: "(\<And>r. key (f r) = key r) \<Longrightarrow> map key (update k f rows) = map key rows"
    and delete_keys: "set (map key (delete k rows)) = set (map key rows) - {k}"
begin

lemma update_same:
  assumes "\<And>r. key (f r) = key r" and "get k rows = Some r"
  shows "get k (update k f rows) = Some (f r)"
  using assms(2) get_update[of f k k rows] assms(1) by simp

lemma update_other:
  assumes "\<And>r. key (f r) = key r" and "k \<noteq> k'"
  shows "get k (update k' f rows) = get k rows"
  using get_update[of f k k' rows] assms by simp

lemma distinct_update:
  assumes "\<And>r. key (f r) = key r" and "distinct (map key rows)"
  shows "distinct (map key (update k f rows))"
  using keys_update[of f k rows] assms by simp

end

section \<open>JavaScript strings\<close>

text \<open>
  The strings these components compare are ASCII: ids, codes, origins. A \<open>string\<close> here is a list
  of 8-bit characters, so its length is the number of UTF-16 code units of the JavaScript string
  for every text in the Latin-1 range, and \<open><\<close> (code by code) is JavaScript's comparison.
\<close>

definition js_space :: "char \<Rightarrow> bool" where
  "js_space c \<longleftrightarrow> of_char c \<in> {9, 10, 11, 12, 13, 32, 160 :: nat}"

definition js_trim :: "string \<Rightarrow> string" where
  "js_trim s = rev (dropWhile js_space (rev (dropWhile js_space s)))"

text \<open>A string is falsy exactly when it is empty; a missing one is falsy too.\<close>

fun truthy :: "string option \<Rightarrow> bool" where
  "truthy None = False"
| "truthy (Some s) = (s \<noteq> [])"

definition starts_with :: "string \<Rightarrow> string \<Rightarrow> bool" where
  "starts_with p s \<longleftrightarrow> take (length p) s = p"

lemma js_trim_idem: "js_trim (js_trim s) = js_trim s"
proof -
  define t where "t = dropWhile js_space s"
  have hd: "t = [] \<or> \<not> js_space (hd t)"
    unfolding t_def by (metis hd_dropWhile)
  define u where "u = rev (dropWhile js_space (rev t))"
  have "u = [] \<or> \<not> js_space (hd u)"
  proof (cases "u = []")
    case False
    have "\<exists>ys. rev t = ys @ dropWhile js_space (rev t)"
      by (metis takeWhile_dropWhile_id)
    then obtain ys where "t = u @ rev ys"
      unfolding u_def by (metis rev_append rev_rev_ident)
    then have "hd t = hd u" and "t \<noteq> []" using False by auto
    with hd show ?thesis by simp
  qed simp
  then have "dropWhile js_space u = u" by (cases u) auto
  moreover have "dropWhile js_space (rev u) = rev u"
    unfolding u_def by simp
  ultimately show ?thesis
    unfolding js_trim_def u_def[symmetric] t_def[symmetric] by simp
qed

section \<open>Decimal text\<close>

definition digit_char :: "nat \<Rightarrow> char" where
  "digit_char d = char_of (48 + d)"

definition is_digit :: "char \<Rightarrow> bool" where
  "is_digit c \<longleftrightarrow> 48 \<le> (of_char c :: nat) \<and> (of_char c :: nat) \<le> 57"

definition digit_val :: "char \<Rightarrow> nat" where
  "digit_val c = of_char c - 48"

fun nat_to_dec :: "nat \<Rightarrow> string" where
  "nat_to_dec n = (if n < 10 then [digit_char n] else nat_to_dec (n div 10) @ [digit_char (n mod 10)])"

declare nat_to_dec.simps [simp del]

definition dec_to_nat :: "string \<Rightarrow> nat" where
  "dec_to_nat s = foldl (\<lambda>acc c. 10 * acc + digit_val c) 0 s"

lemma of_char_digit: "d < 10 \<Longrightarrow> of_char (digit_char d) = 48 + d"
  by (simp add: digit_char_def of_char_of)

lemma is_digit_digit_char [simp]: "d < 10 \<Longrightarrow> is_digit (digit_char d)"
  by (simp add: is_digit_def of_char_digit)

lemma digit_val_digit_char [simp]: "d < 10 \<Longrightarrow> digit_val (digit_char d) = d"
  by (simp add: digit_val_def of_char_digit)

lemma digit_char_digit_val: "is_digit c \<Longrightarrow> digit_char (digit_val c) = c"
  by (simp add: is_digit_def digit_char_def digit_val_def)

lemma digit_val_less: "is_digit c \<Longrightarrow> digit_val c < 10"
  unfolding is_digit_def digit_val_def by linarith

lemma dec_to_nat_snoc: "dec_to_nat (s @ [c]) = 10 * dec_to_nat s + digit_val c"
  by (simp add: dec_to_nat_def)

lemma nat_to_dec_digits: "list_all is_digit (nat_to_dec n)"
proof (induction n rule: nat_to_dec.induct)
  case (1 n)
  then show ?case by (subst nat_to_dec.simps) auto
qed

lemma nat_to_dec_nonempty [simp]: "nat_to_dec n \<noteq> []"
  by (subst nat_to_dec.simps) simp

lemma dec_nat_roundtrip [simp]: "dec_to_nat (nat_to_dec n) = n"
proof (induction n rule: nat_to_dec.induct)
  case (1 n)
  show ?case
  proof (cases "n < 10")
    case True
    then show ?thesis by (subst nat_to_dec.simps) (simp add: dec_to_nat_def)
  next
    case False
    with 1 show ?thesis
      by (subst nat_to_dec.simps) (simp add: dec_to_nat_snoc)
  qed
qed

lemma nat_to_dec_hd: "0 < n \<Longrightarrow> hd (nat_to_dec n) \<noteq> CHR ''0''"
proof (induction n rule: nat_to_dec.induct)
  case (1 n)
  show ?case
  proof (cases "n < 10")
    case True
    with 1(2) show ?thesis
      by (subst nat_to_dec.simps) (auto dest!: arg_cong[where f = digit_val] simp: digit_val_def digit_char_def)
  next
    case False
    with 1 have "hd (nat_to_dec (n div 10)) \<noteq> CHR ''0''" by simp
    with False show ?thesis by (subst nat_to_dec.simps) simp
  qed
qed

lemma nat_to_dec_0 [simp]: "nat_to_dec 0 = ''0''"
  by (subst nat_to_dec.simps) (simp add: digit_char_def char_of_eq_iff)

text \<open>A digit string without a leading zero is what printing its value gives back.\<close>

lemma nat_to_dec_dec_to_nat:
  assumes "list_all is_digit s" and "s \<noteq> []" and "s = ''0'' \<or> hd s \<noteq> CHR ''0''"
  shows "nat_to_dec (dec_to_nat s) = s"
  using assms
proof (induction s rule: rev_induct)
  case Nil
  then show ?case by simp
next
  case (snoc c s)
  have c: "is_digit c" using snoc.prems by simp
  show ?case
  proof (cases "s = []")
    case True
    with c show ?thesis
      by (subst nat_to_dec.simps) (simp add: dec_to_nat_def digit_val_less digit_char_digit_val)
  next
    case False
    have hd: "hd s \<noteq> CHR ''0''" using snoc.prems False by (auto simp: hd_append)
    have digs: "list_all is_digit s" using snoc.prems by simp
    have IH: "nat_to_dec (dec_to_nat s) = s" using snoc.IH digs False hd by simp
    have pos: "dec_to_nat s \<noteq> 0"
    proof
      assume "dec_to_nat s = 0"
      with IH have "s = ''0''" by simp
      with hd show False by simp
    qed
    then have big: "\<not> 10 * dec_to_nat s + digit_val c < 10" by simp
    have "(10 * dec_to_nat s + digit_val c) div 10 = dec_to_nat s"
      and "(10 * dec_to_nat s + digit_val c) mod 10 = digit_val c"
      using digit_val_less[OF c] by auto
    with big IH c show ?thesis
      by (subst nat_to_dec.simps) (simp add: dec_to_nat_snoc digit_char_digit_val)
  qed
qed

end
