(* ===== verification/Json.thy ===== *)
theory Json
  imports Prelude
begin

text \<open>
  What the modelled files use of JavaScript's \<open>JSON\<close> object: \<open>JSON.parse\<close> of a text into a value
  (\<open>json_parse\<close>, \<open>None\<close> for a SyntaxError) and \<open>JSON.stringify\<close> of an array of strings and nulls
  (\<open>json_strings\<close>), which is how composite keys are written. A parsed string is the list of its
  UTF-16 code units, because \<open>\\u\<close> escapes go beyond the 8-bit characters of a source text; a
  number is kept as its source text. The parser is a scanner followed by a machine with an explicit
  stack, which consumes one token per step, so both are total without fuel.
\<close>

type_synonym units = "nat list"

definition units_of :: "string \<Rightarrow> units" where
  "units_of s = map of_char s"

datatype json =
    JNull
  | JBool bool
  | JNum string
  | JStr units
  | JArr "json list"
  | JObj "(units \<times> json) list"

datatype tok = TLB | TRB | TLC | TRC | TComma | TColon | TNull | TTrue | TFalse | TNum string | TStr units

section \<open>Scanner\<close>

definition hex_val :: "char \<Rightarrow> nat option" where
  "hex_val c = (let n = of_char c :: nat in
     if 48 \<le> n \<and> n \<le> 57 then Some (n - 48)
     else if 97 \<le> n \<and> n \<le> 102 then Some (n - 87)
     else if 65 \<le> n \<and> n \<le> 70 then Some (n - 55)
     else None)"

definition hex4 :: "char \<Rightarrow> char \<Rightarrow> char \<Rightarrow> char \<Rightarrow> nat option" where
  "hex4 a b c d = (case (hex_val a, hex_val b, hex_val c, hex_val d) of
     (Some w, Some x, Some y, Some z) \<Rightarrow> Some (4096 * w + 256 * x + 16 * y + z)
   | _ \<Rightarrow> None)"

definition simple_escape :: "char \<Rightarrow> nat option" where
  "simple_escape c =
    (if c = CHR 0x22 then Some 34 else if c = CHR 0x5C then Some 92 else if c = CHR ''/'' then Some 47
     else if c = CHR ''b'' then Some 8 else if c = CHR ''f'' then Some 12 else if c = CHR ''n'' then Some 10
     else if c = CHR ''r'' then Some 13 else if c = CHR ''t'' then Some 9 else None)"

text \<open>The rest of a string after its opening quote: its code units and what follows the closing quote.\<close>

fun lex_str :: "string \<Rightarrow> units \<Rightarrow> (units \<times> string) option" where
  "lex_str [] acc = None"
| "lex_str (c # cs) acc =
     (if c = CHR 0x22 then Some (rev acc, cs)
      else if c = CHR 0x5C then
        (case cs of
           [] \<Rightarrow> None
         | e # cs' \<Rightarrow>
             if e = CHR ''u'' then
               (case cs' of
                  h1 # h2 # h3 # h4 # cs'' \<Rightarrow>
                    (case hex4 h1 h2 h3 h4 of None \<Rightarrow> None | Some u \<Rightarrow> lex_str cs'' (u # acc))
                | _ \<Rightarrow> None)
             else (case simple_escape e of None \<Rightarrow> None | Some u \<Rightarrow> lex_str cs' (u # acc)))
      else if (of_char c :: nat) < 32 then None
      else lex_str cs (of_char c # acc))"

declare lex_str.simps [simp del]

lemma lex_str_shorter: "lex_str s acc = Some (u, r) \<Longrightarrow> length r < length s"
proof (induction s arbitrary: acc rule: length_induct)
  case (1 s)
  show ?case
  proof (cases s)
    case Nil
    with "1.prems" show ?thesis by (simp add: lex_str.simps)
  next
    case (Cons c cs)
    have IH: "lex_str t a = Some (u, r) \<Longrightarrow> length t \<le> length cs \<Longrightarrow> length r < Suc (length cs)" for t a
      using "1.IH" Cons by (metis length_Cons le_imp_less_Suc less_trans)
    from Cons "1.prems" have "lex_str (c # cs) acc = Some (u, r)" by simp
    then have "length r < Suc (length cs)"
      by (subst (asm) lex_str.simps)
         (auto split: if_splits list.splits option.splits
           dest: IH[simplified] IH[of "tl cs", simplified] IH[of "drop 5 cs", simplified])
    with Cons show ?thesis by simp
  qed
qed

text \<open>A number: optional minus, an integer part without leading zeros, optional fraction and exponent.\<close>

definition lex_sign :: "char list \<Rightarrow> string \<Rightarrow> string \<times> string" where
  "lex_sign signs s = (case s of c # t \<Rightarrow> if c \<in> set signs then ([c], t) else ([], s) | [] \<Rightarrow> ([], s))"

definition lex_digits :: "string \<Rightarrow> (string \<times> string) option" where
  "lex_digits s = (if takeWhile is_digit s = [] then None
     else Some (takeWhile is_digit s, dropWhile is_digit s))"

definition lex_frac :: "string \<Rightarrow> (string \<times> string) option" where
  "lex_frac s = (case s of
       c # t \<Rightarrow> if c = CHR ''.'' then map_option (\<lambda>(ds, r). (c # ds, r)) (lex_digits t) else Some ([], s)
     | [] \<Rightarrow> Some ([], s))"

definition lex_exp :: "string \<Rightarrow> (string \<times> string) option" where
  "lex_exp s = (case s of
       c # t \<Rightarrow> if c = CHR ''e'' \<or> c = CHR ''E''
         then (let (es, t') = lex_sign [CHR ''+'', CHR ''-''] t
               in map_option (\<lambda>(ds, r). (c # es @ ds, r)) (lex_digits t'))
         else Some ([], s)
     | [] \<Rightarrow> Some ([], s))"

definition lex_num :: "string \<Rightarrow> (string \<times> string) option" where
  "lex_num s =
    (let (sg, r) = lex_sign [CHR ''-''] s in
     case lex_digits r of None \<Rightarrow> None | Some (ds, r1) \<Rightarrow>
       if hd ds = CHR ''0'' \<and> length ds > 1 then None
       else (case lex_frac r1 of None \<Rightarrow> None | Some (fs, r2) \<Rightarrow>
             (case lex_exp r2 of None \<Rightarrow> None | Some (es, r3) \<Rightarrow> Some (sg @ ds @ fs @ es, r3))))"

lemma lex_sign_le: "lex_sign cs s = (u, r) \<Longrightarrow> length r \<le> length s"
  by (auto simp: lex_sign_def split: list.splits if_splits)

lemma lex_digits_shorter: "lex_digits s = Some (u, r) \<Longrightarrow> length r < length s"
  by (cases s) (auto simp: lex_digits_def length_dropWhile_le le_imp_less_Suc split: if_splits)

lemma lex_frac_le: "lex_frac s = Some (u, r) \<Longrightarrow> length r \<le> length s"
  by (auto simp: lex_frac_def split: list.splits if_splits dest!: lex_digits_shorter)

lemma lex_exp_le: "lex_exp s = Some (u, r) \<Longrightarrow> length r \<le> length s"
  by (auto simp: lex_exp_def split: list.splits if_splits prod.splits
      dest!: lex_digits_shorter lex_sign_le)

lemma lex_num_shorter: "lex_num s = Some (u, r) \<Longrightarrow> length r < length s"
  unfolding lex_num_def
  by (auto split: prod.splits option.splits if_splits
      dest!: lex_sign_le lex_digits_shorter lex_frac_le lex_exp_le)

definition strip_word :: "string \<Rightarrow> string \<Rightarrow> string option" where
  "strip_word w s = (if starts_with w s then Some (drop (length w) s) else None)"

definition punct :: "char \<Rightarrow> tok option" where
  "punct c =
    (if c = CHR ''['' then Some TLB else if c = CHR '']'' then Some TRB
     else if c = CHR ''{'' then Some TLC else if c = CHR ''}'' then Some TRC
     else if c = CHR '','' then Some TComma else if c = CHR '':'' then Some TColon else None)"

definition json_ws :: "char \<Rightarrow> bool" where
  "json_ws c \<longleftrightarrow> of_char c \<in> {9, 10, 13, 32 :: nat}"

text \<open>One token and the rest of the text.\<close>

definition lex_one :: "string \<Rightarrow> (tok \<times> string) option" where
  "lex_one s = (case s of [] \<Rightarrow> None | c # cs \<Rightarrow>
     (case punct c of
        Some t \<Rightarrow> Some (t, cs)
      | None \<Rightarrow>
          if c = CHR 0x22 then (case lex_str cs [] of None \<Rightarrow> None | Some (u, r) \<Rightarrow> Some (TStr u, r))
          else (case strip_word ''null'' s of Some r \<Rightarrow> Some (TNull, r) | None \<Rightarrow>
               (case strip_word ''true'' s of Some r \<Rightarrow> Some (TTrue, r) | None \<Rightarrow>
               (case strip_word ''false'' s of Some r \<Rightarrow> Some (TFalse, r) | None \<Rightarrow>
               (case lex_num s of None \<Rightarrow> None | Some (n, r) \<Rightarrow> Some (TNum n, r)))))))"

lemma lex_one_shorter: "lex_one s = Some (t, r) \<Longrightarrow> length r < length s"
  unfolding lex_one_def strip_word_def starts_with_def
  by (cases s) (auto split: if_splits option.splits dest!: lex_str_shorter dest: lex_num_shorter)

function lex :: "string \<Rightarrow> tok list option" where
  "lex s = (case s of
      [] \<Rightarrow> Some []
    | c # cs \<Rightarrow> if json_ws c then lex cs
        else (case lex_one s of None \<Rightarrow> None | Some (t, r) \<Rightarrow> map_option ((#) t) (lex r)))"
  by pat_completeness auto
termination
  by (relation "measure length") (auto dest: lex_one_shorter)

declare lex.simps [simp del]

section \<open>Parser\<close>

datatype frame = InArr "json list" | InObj "(units \<times> json) list" units

datatype mode =
    Want
  | WantOrClose
  | KeyOrClose
  | Key "(units \<times> json) list"
  | Colon "(units \<times> json) list" units
  | Done json

fun json_start :: "tok \<Rightarrow> frame list \<Rightarrow> (mode \<times> frame list) option" where
  "json_start TLB st = Some (WantOrClose, st)"
| "json_start TLC st = Some (KeyOrClose, st)"
| "json_start TNull st = Some (Done JNull, st)"
| "json_start TTrue st = Some (Done (JBool True), st)"
| "json_start TFalse st = Some (Done (JBool False), st)"
| "json_start (TNum n) st = Some (Done (JNum n), st)"
| "json_start (TStr u) st = Some (Done (JStr u), st)"
| "json_start _ st = None"

fun json_done :: "tok \<Rightarrow> json \<Rightarrow> frame list \<Rightarrow> (mode \<times> frame list) option" where
  "json_done TComma v (InArr xs # st) = Some (Want, InArr (xs @ [v]) # st)"
| "json_done TRB v (InArr xs # st) = Some (Done (JArr (xs @ [v])), st)"
| "json_done TComma v (InObj ms k # st) = Some (Key (ms @ [(k, v)]), st)"
| "json_done TRC v (InObj ms k # st) = Some (Done (JObj (ms @ [(k, v)])), st)"
| "json_done _ v st = None"

definition json_step :: "tok \<Rightarrow> mode \<Rightarrow> frame list \<Rightarrow> (mode \<times> frame list) option" where
  "json_step t m st = (case m of
     Want \<Rightarrow> json_start t st
   | WantOrClose \<Rightarrow> if t = TRB then Some (Done (JArr []), st) else json_start t (InArr [] # st)
   | KeyOrClose \<Rightarrow> (case t of TRC \<Rightarrow> Some (Done (JObj []), st) | TStr k \<Rightarrow> Some (Colon [] k, st) | _ \<Rightarrow> None)
   | Key ms \<Rightarrow> (case t of TStr k \<Rightarrow> Some (Colon ms k, st) | _ \<Rightarrow> None)
   | Colon ms k \<Rightarrow> if t = TColon then Some (Want, InObj ms k # st) else None
   | Done v \<Rightarrow> json_done t v st)"

primrec json_run :: "tok list \<Rightarrow> mode \<Rightarrow> frame list \<Rightarrow> json option" where
  "json_run [] m st = (case m of Done v \<Rightarrow> if st = [] then Some v else None | _ \<Rightarrow> None)"
| "json_run (t # ts) m st =
     (case json_step t m st of None \<Rightarrow> None | Some (m', st') \<Rightarrow> json_run ts m' st')"

definition json_parse :: "string \<Rightarrow> json option" where
  "json_parse s = (case lex s of None \<Rightarrow> None | Some ts \<Rightarrow> json_run ts Want [])"

text \<open>A property of an object: the last member of that name wins.\<close>

definition json_get :: "json \<Rightarrow> string \<Rightarrow> json option" where
  "json_get j k = (case j of JObj ms \<Rightarrow> map_of (rev ms) (units_of k) | _ \<Rightarrow> None)"

text \<open>The 8-bit text of a parsed string, when it has one.\<close>

definition latin1 :: "units \<Rightarrow> string option" where
  "latin1 u = (if list_all (\<lambda>n. n < 256) u then Some (map char_of u) else None)"

lemma latin1_units_of [simp]: "latin1 (units_of s) = Some s"
  by (simp add: latin1_def units_of_def list_all_iff comp_def)

lemma units_of_inj: "units_of s = units_of t \<Longrightarrow> s = t"
  by (metis latin1_units_of option.inject)

section \<open>Writing arrays of strings\<close>

definition hex_digit :: "nat \<Rightarrow> char" where
  "hex_digit d = (if d < 10 then char_of (48 + d) else char_of (87 + d))"

definition json_escape :: "char \<Rightarrow> string" where
  "json_escape c = (let n = of_char c :: nat in
     if n = 34 \<or> n = 92 then [CHR 0x5C, c]
     else if n = 8 then [CHR 0x5C, CHR ''b''] else if n = 12 then [CHR 0x5C, CHR ''f'']
     else if n = 10 then [CHR 0x5C, CHR ''n''] else if n = 13 then [CHR 0x5C, CHR ''r'']
     else if n = 9 then [CHR 0x5C, CHR ''t'']
     else if n < 32 then [CHR 0x5C, CHR ''u'', CHR ''0'', CHR ''0'', hex_digit (n div 16), hex_digit (n mod 16)]
     else [c])"

definition json_quote :: "string \<Rightarrow> string" where
  "json_quote s = CHR 0x22 # concat (map json_escape s) @ [CHR 0x22]"

definition json_elem :: "string option \<Rightarrow> string" where
  "json_elem x = (case x of None \<Rightarrow> ''null'' | Some s \<Rightarrow> json_quote s)"

fun json_join :: "string list \<Rightarrow> string" where
  "json_join [] = []"
| "json_join [s] = s"
| "json_join (s # t # ss) = s @ '','' @ json_join (t # ss)"

definition json_strings :: "string option list \<Rightarrow> string" where
  "json_strings xs = ''['' @ json_join (map json_elem xs) @ '']''"

subsection \<open>Reading back what was written\<close>

lemma hex_val_hex_digit: "d < 16 \<Longrightarrow> hex_val (hex_digit d) = Some d"
  by (auto simp: hex_val_def hex_digit_def Let_def of_char_of)

lemma hex4_of_byte: "n < 256 \<Longrightarrow>
    hex4 (CHR ''0'') (CHR ''0'') (hex_digit (n div 16)) (hex_digit (n mod 16)) = Some n"
  by (simp add: hex4_def hex_val_hex_digit) (simp add: hex_val_def)

lemma lex_str_escape: "lex_str (json_escape c @ r) acc = lex_str r (of_char c # acc)"
proof -
  have code: "c = CHR 0x22 \<longleftrightarrow> (of_char c :: nat) = 34" "c = CHR 0x5C \<longleftrightarrow> (of_char c :: nat) = 92"
    using of_char_eq_iff[of c "CHR 0x22", where ?'a = nat] of_char_eq_iff[of c "CHR 0x5C", where ?'a = nat]
    by simp_all
  show ?thesis
    by (simp add: json_escape_def Let_def, subst lex_str.simps)
       (auto simp: lex_str.simps simple_escape_def code hex4_of_byte)
qed

lemma lex_str_body:
  "lex_str (concat (map json_escape s) @ CHR 0x22 # r) acc = Some (rev acc @ units_of s, r)"
proof (induction s arbitrary: acc)
  case Nil
  then show ?case by (simp add: lex_str.simps units_of_def)
next
  case (Cons c s)
  then show ?case by (simp add: lex_str_escape units_of_def)
qed

definition elem_tok :: "string option \<Rightarrow> tok" where
  "elem_tok x = (case x of None \<Rightarrow> TNull | Some s \<Rightarrow> TStr (units_of s))"

definition elem_json :: "string option \<Rightarrow> json" where
  "elem_json x = (case x of None \<Rightarrow> JNull | Some s \<Rightarrow> JStr (units_of s))"

lemma lex_one_elem: "lex_one (json_elem x @ r) = Some (elem_tok x, r)"
  by (cases x)
     (simp_all add: json_elem_def elem_tok_def lex_one_def punct_def json_quote_def lex_str_body
        strip_word_def starts_with_def)

lemma lex_elem: "lex (json_elem x @ r) = map_option ((#) (elem_tok x)) (lex r)"
proof -
  obtain c cs where s: "json_elem x = c # cs" and ws: "\<not> json_ws c"
    by (cases x) (auto simp: json_elem_def json_quote_def json_ws_def)
  show ?thesis
    using lex_one_elem[of x r] ws by (subst lex.simps) (simp add: s)
qed

lemma lex_punct: "punct c = Some t \<Longrightarrow> \<not> json_ws c \<Longrightarrow> lex (c # r) = map_option ((#) t) (lex r)"
  by (subst lex.simps) (simp add: lex_one_def)

fun join_toks :: "tok list \<Rightarrow> tok list" where
  "join_toks [] = []"
| "join_toks [t] = [t]"
| "join_toks (t # u # ts) = t # TComma # join_toks (u # ts)"

lemma lex_join:
  "lex (json_join (map json_elem xs) @ r) = map_option ((@) (join_toks (map elem_tok xs))) (lex r)"
proof (induction xs rule: induct_list012)
  case 1
  then show ?case by (cases "lex r") auto
next
  case (2 x)
  then show ?case by (cases "lex r") (auto simp: lex_elem)
next
  case (3 x y zs)
  have "lex ('','' @ s) = map_option ((#) TComma) (lex s)" for s
    using lex_punct[of "CHR '',''" TComma s] by (simp add: punct_def json_ws_def)
  with 3(2) show ?case
    by (cases "lex r") (auto simp: lex_elem)
qed

lemma run_join:
  "xs \<noteq> [] \<Longrightarrow> json_run (join_toks (map elem_tok xs) @ [TRB]) Want (InArr acc # st) =
     json_run [] (Done (JArr (acc @ map elem_json xs))) st"
proof (induction xs arbitrary: acc rule: induct_list012)
  case 1
  then show ?case by simp
next
  case (2 x)
  then show ?case by (cases x) (auto simp: json_step_def elem_tok_def elem_json_def)
next
  case (3 x y zs)
  then show ?case by (cases x) (auto simp: json_step_def elem_tok_def elem_json_def)
qed

lemma run_join_open:
  "xs \<noteq> [] \<Longrightarrow> json_run (join_toks (map elem_tok xs) @ [TRB]) WantOrClose st =
     json_run (join_toks (map elem_tok xs) @ [TRB]) Want (InArr [] # st)"
proof -
  assume "xs \<noteq> []"
  then obtain x ys where xs: "xs = x # ys" by (cases xs) auto
  then have "hd (join_toks (map elem_tok xs)) = elem_tok x" and "join_toks (map elem_tok xs) \<noteq> []"
    by (cases ys; simp)+
  then obtain ts where ts: "join_toks (map elem_tok xs) = elem_tok x # ts"
    by (metis list.collapse)
  show ?thesis
    by (cases x) (simp_all add: ts json_step_def elem_tok_def)
qed

text \<open>\<open>JSON.parse(JSON.stringify(xs))\<close> is \<open>xs\<close> for an array of strings and nulls, so such keys are never confused.\<close>

lemma json_parse_strings: "json_parse (json_strings xs) = Some (JArr (map elem_json xs))"
proof -
  have close: "lex '']'' = Some [TRB]"
    using lex_punct[of "CHR '']''" TRB "[]"] by (simp add: punct_def json_ws_def lex.simps[of "[]"])
  have toks: "lex (json_strings xs) = Some (TLB # join_toks (map elem_tok xs) @ [TRB])"
    using lex_punct[of "CHR ''[''" TLB "json_join (map json_elem xs) @ '']''"]
    by (simp add: json_strings_def punct_def json_ws_def lex_join close)
  show ?thesis
  proof (cases "xs = []")
    case True
    with toks show ?thesis by (simp add: json_parse_def json_step_def)
  next
    case False
    with toks run_join[OF False, of "[]" "[]"] run_join_open[OF False, of "[]"] show ?thesis
      by (simp add: json_parse_def json_step_def)
  qed
qed

lemma elem_json_inj: "elem_json x = elem_json y \<Longrightarrow> x = y"
  by (auto simp: elem_json_def split: option.splits dest: units_of_inj)

lemma json_strings_inj: "json_strings xs = json_strings ys \<Longrightarrow> xs = ys"
proof -
  assume "json_strings xs = json_strings ys"
  then have "map elem_json xs = map elem_json ys"
    using json_parse_strings[of xs] json_parse_strings[of ys] by simp
  moreover have "inj elem_json" by (auto intro: injI elem_json_inj)
  ultimately show ?thesis by (simp add: inj_map_eq_map)
qed

end
