(* ===== verification/Permissions.thy ===== *)
theory Permissions
  imports Json
begin

text \<open>
  \<open>packages/shared/src/permissions.ts\<close>: the permission bits and their stored form, the role
  hierarchy rule, the held-bits rule, private channels, and the edit versions. A JavaScript
  \<open>bigint\<close> is an \<open>int\<close>: both have two's complement bitwise operations without a width.
\<close>

section \<open>Permission bits\<close>

definition ADMINISTRATOR :: int where "ADMINISTRATOR = push_bit 0 1"
definition VIEW_CHANNEL :: int where "VIEW_CHANNEL = push_bit 1 1"
definition MANAGE_CHANNELS :: int where "MANAGE_CHANNELS = push_bit 2 1"
definition MANAGE_ROLES :: int where "MANAGE_ROLES = push_bit 3 1"
definition MANAGE_SPACE :: int where "MANAGE_SPACE = push_bit 4 1"
definition CREATE_INVITE :: int where "CREATE_INVITE = push_bit 5 1"
definition KICK_MEMBERS :: int where "KICK_MEMBERS = push_bit 6 1"
definition BAN_MEMBERS :: int where "BAN_MEMBERS = push_bit 7 1"
definition SEND_MESSAGES :: int where "SEND_MESSAGES = push_bit 10 1"
definition MANAGE_MESSAGES :: int where "MANAGE_MESSAGES = push_bit 11 1"
definition ATTACH_FILES :: int where "ATTACH_FILES = push_bit 12 1"
definition READ_MESSAGE_HISTORY :: int where "READ_MESSAGE_HISTORY = push_bit 13 1"
definition ADD_REACTIONS :: int where "ADD_REACTIONS = push_bit 14 1"
definition MENTION_EVERYONE :: int where "MENTION_EVERYONE = push_bit 15 1"
definition CONNECT :: int where "CONNECT = push_bit 20 1"
definition SPEAK :: int where "SPEAK = push_bit 21 1"
definition MUTE_MEMBERS :: int where "MUTE_MEMBERS = push_bit 22 1"
definition DEAFEN_MEMBERS :: int where "DEAFEN_MEMBERS = push_bit 23 1"
definition MOVE_MEMBERS :: int where "MOVE_MEMBERS = push_bit 24 1"
definition STREAM :: int where "STREAM = push_bit 25 1"
definition DISCONNECT_MEMBERS :: int where "DISCONNECT_MEMBERS = push_bit 26 1"

lemmas perm_bit_defs = ADMINISTRATOR_def VIEW_CHANNEL_def MANAGE_CHANNELS_def MANAGE_ROLES_def
  MANAGE_SPACE_def CREATE_INVITE_def KICK_MEMBERS_def BAN_MEMBERS_def SEND_MESSAGES_def
  MANAGE_MESSAGES_def ATTACH_FILES_def READ_MESSAGE_HISTORY_def ADD_REACTIONS_def
  MENTION_EVERYONE_def CONNECT_def SPEAK_def MUTE_MEMBERS_def DEAFEN_MEMBERS_def
  MOVE_MEMBERS_def STREAM_def DISCONNECT_MEMBERS_def

definition PermissionBits :: "(string \<times> int) list" where
  "PermissionBits =
    [(''ADMINISTRATOR'', ADMINISTRATOR), (''VIEW_CHANNEL'', VIEW_CHANNEL),
     (''MANAGE_CHANNELS'', MANAGE_CHANNELS), (''MANAGE_ROLES'', MANAGE_ROLES),
     (''MANAGE_SPACE'', MANAGE_SPACE), (''CREATE_INVITE'', CREATE_INVITE),
     (''KICK_MEMBERS'', KICK_MEMBERS), (''BAN_MEMBERS'', BAN_MEMBERS),
     (''SEND_MESSAGES'', SEND_MESSAGES), (''MANAGE_MESSAGES'', MANAGE_MESSAGES),
     (''ATTACH_FILES'', ATTACH_FILES), (''READ_MESSAGE_HISTORY'', READ_MESSAGE_HISTORY),
     (''ADD_REACTIONS'', ADD_REACTIONS), (''MENTION_EVERYONE'', MENTION_EVERYONE),
     (''CONNECT'', CONNECT), (''SPEAK'', SPEAK), (''MUTE_MEMBERS'', MUTE_MEMBERS),
     (''DEAFEN_MEMBERS'', DEAFEN_MEMBERS), (''MOVE_MEMBERS'', MOVE_MEMBERS),
     (''STREAM'', STREAM), (''DISCONNECT_MEMBERS'', DISCONNECT_MEMBERS)]"

definition ALL_PERMISSIONS :: int where
  "ALL_PERMISSIONS = foldl (OR) 0 (map snd PermissionBits)"

definition DEFAULT_EVERYONE_PERMISSIONS :: int where
  "DEFAULT_EVERYONE_PERMISSIONS =
     VIEW_CHANNEL OR SEND_MESSAGES OR CREATE_INVITE OR CONNECT OR SPEAK OR ATTACH_FILES
     OR READ_MESSAGE_HISTORY OR ADD_REACTIONS OR STREAM"

lemma ALL_PERMISSIONS_value: "ALL_PERMISSIONS = 133233919"
  by (simp add: ALL_PERMISSIONS_def PermissionBits_def perm_bit_defs push_bit_eq_mult)

lemma ADMINISTRATOR_value: "ADMINISTRATOR = 1"
  by (simp add: ADMINISTRATOR_def)

section \<open>Reading and writing a permissions value\<close>

text \<open>
  \<open>BigInt(text)\<close>: surrounding white space is dropped, the empty text is 0, \<open>0x\<close>, \<open>0o\<close> and \<open>0b\<close>
  literals take no sign, a decimal takes one. \<open>None\<close> is the SyntaxError.
\<close>

definition radix_digits :: "nat \<Rightarrow> string \<Rightarrow> int option" where
  "radix_digits b s =
    (if s = [] \<or> \<not> list_all (\<lambda>c. case hex_val c of None \<Rightarrow> False | Some d \<Rightarrow> d < b) s then None
     else Some (int (foldl (\<lambda>acc c. b * acc + the (hex_val c)) 0 s)))"

definition dec_digits :: "string \<Rightarrow> int option" where
  "dec_digits s = (if s = [] \<or> \<not> list_all is_digit s then None else Some (int (dec_to_nat s)))"

definition js_BigInt :: "string \<Rightarrow> int option" where
  "js_BigInt text =
    (let s = js_trim text in
     case s of
       [] \<Rightarrow> Some 0
     | a # rest \<Rightarrow>
         if a = CHR ''0'' \<and> rest \<noteq> [] \<and> hd rest \<in> {CHR ''x'', CHR ''X''} then radix_digits 16 (tl rest)
         else if a = CHR ''0'' \<and> rest \<noteq> [] \<and> hd rest \<in> {CHR ''o'', CHR ''O''} then radix_digits 8 (tl rest)
         else if a = CHR ''0'' \<and> rest \<noteq> [] \<and> hd rest \<in> {CHR ''b'', CHR ''B''} then radix_digits 2 (tl rest)
         else if a = CHR ''-'' then map_option uminus (dec_digits rest)
         else if a = CHR ''+'' then dec_digits rest
         else dec_digits s)"

text \<open>An argument that is a bigint, a string, or missing (\<open>undefined\<close> or \<open>null\<close>).\<close>

datatype perms_arg = PBits int | PText string | PMissing

text \<open>\<open>None\<close> when \<open>BigInt\<close> throws on the string.\<close>

fun hasPermissionBit :: "perms_arg \<Rightarrow> int \<Rightarrow> bool option" where
  "hasPermissionBit PMissing b = Some False"
| "hasPermissionBit (PBits p) b = Some ((p AND ADMINISTRATOR) \<noteq> 0 \<or> (p AND b) = b)"
| "hasPermissionBit (PText s) b =
     map_option (\<lambda>p. (p AND ADMINISTRATOR) \<noteq> 0 \<or> (p AND b) = b) (js_BigInt s)"

definition permissionsToString :: "int \<Rightarrow> string" where
  "permissionsToString p = (if p < 0 then CHR ''-'' # nat_to_dec (nat (- p)) else nat_to_dec (nat p))"

definition CANONICAL_PERMISSIONS :: "string \<Rightarrow> bool" where
  "CANONICAL_PERMISSIONS s \<longleftrightarrow>
     s = ''0'' \<or> (s \<noteq> [] \<and> is_digit (hd s) \<and> hd s \<noteq> CHR ''0'' \<and> list_all is_digit (tl s))"

text \<open>A request field: \<open>None\<close> when it is absent. \<open>BigInt\<close> does not throw on a canonical string.\<close>

definition parsePermissionString :: "json option \<Rightarrow> int option" where
  "parsePermissionString value = (case value of
       Some (JStr u) \<Rightarrow> (case latin1 u of
           Some s \<Rightarrow> if CANONICAL_PERMISSIONS s then js_BigInt s else None
         | None \<Rightarrow> None)
     | _ \<Rightarrow> None)"

text \<open>
  The property key a list element becomes when it indexes \<open>PermissionBits\<close>, and what that read
  gives: a bit, nothing, or a member every object inherits from \<open>Object.prototype\<close>. OR-ing such a
  member into a bigint throws a TypeError.
\<close>

fun json_key :: "json \<Rightarrow> units" and json_keys :: "json list \<Rightarrow> units" where
  "json_key JNull = units_of ''null''"
| "json_key (JBool b) = units_of (if b then ''true'' else ''false'')"
| "json_key (JNum n) = units_of n"
| "json_key (JStr u) = u"
| "json_key (JArr xs) = json_keys xs"
| "json_key (JObj ms) = units_of ''[object Object]''"
| "json_keys [] = []"
| "json_keys [x] = (if x = JNull then [] else json_key x)"
| "json_keys (x # y # xs) = (if x = JNull then [] else json_key x) @ units_of '','' @ json_keys (y # xs)"

definition object_prototype_members :: "string list" where
  "object_prototype_members =
    [''constructor'', ''__defineGetter__'', ''__defineSetter__'', ''hasOwnProperty'',
     ''__lookupGetter__'', ''__lookupSetter__'', ''isPrototypeOf'', ''propertyIsEnumerable'',
     ''toString'', ''valueOf'', ''__proto__'', ''toLocaleString'']"

fun name_bits :: "json list \<Rightarrow> int \<Rightarrow> int option" where
  "name_bits [] result = Some result"
| "name_bits (k # ks) result =
     (let u = json_key k in
      case map_of (map (\<lambda>(n, b). (units_of n, b)) PermissionBits) u of
        Some b \<Rightarrow> name_bits ks (result OR b)
      | None \<Rightarrow> if u \<in> units_of ` set object_prototype_members then None else name_bits ks result)"

definition stringToPermissions :: "string option \<Rightarrow> int" where
  "stringToPermissions str = (case str of
       None \<Rightarrow> 0
     | Some s \<Rightarrow> if s = [] then 0 else
         (case js_BigInt s of
            Some n \<Rightarrow> n
          | None \<Rightarrow> (case json_parse s of
                Some (JArr parsed) \<Rightarrow> (case name_bits parsed 0 of Some r \<Rightarrow> r | None \<Rightarrow> 0)
              | _ \<Rightarrow> 0)))"

definition canonicalPermissionString :: "string option \<Rightarrow> string" where
  "canonicalPermissionString stored =
    (let bits = stringToPermissions stored
     in permissionsToString (if bits < 0 then bits AND ALL_PERMISSIONS else bits))"

subsection \<open>Round trips\<close>

lemma digit_no_space: "is_digit c \<Longrightarrow> \<not> js_space c"
  by (auto simp: is_digit_def js_space_def)

lemma js_trim_digits: "list_all is_digit s \<Longrightarrow> js_trim s = s"
proof -
  assume d: "list_all is_digit s"
  have "dropWhile js_space t = t" if "list_all is_digit t" for t
    using that by (cases t) (auto simp: digit_no_space)
  with d show ?thesis by (simp add: js_trim_def)
qed

lemma canonical_digits: "CANONICAL_PERMISSIONS s \<Longrightarrow> list_all is_digit s \<and> s \<noteq> []"
  by (cases s) (auto simp: CANONICAL_PERMISSIONS_def is_digit_def)

lemma js_BigInt_digits:
  assumes "list_all is_digit s" and "s \<noteq> []"
  shows "js_BigInt s = Some (int (dec_to_nat s))"
proof -
  obtain a rest where s: "s = a # rest" using assms(2) by (cases s) auto
  have "\<not> is_digit CHR ''x''" "\<not> is_digit CHR ''X''" "\<not> is_digit CHR ''o''" "\<not> is_digit CHR ''O''"
    "\<not> is_digit CHR ''b''" "\<not> is_digit CHR ''B''" "\<not> is_digit CHR ''-''" "\<not> is_digit CHR ''+''"
    by (simp_all add: is_digit_def)
  then have "a \<noteq> CHR ''-''" "a \<noteq> CHR ''+''"
    and "rest \<noteq> [] \<Longrightarrow> hd rest \<notin> {CHR ''x'', CHR ''X'', CHR ''o'', CHR ''O'', CHR ''b'', CHR ''B''}"
    using assms(1) s by (cases rest; auto)+
  then show ?thesis
    using assms js_trim_digits[OF assms(1)] s by (auto simp: js_BigInt_def dec_digits_def)
qed

lemma permissionsToString_nonneg: "0 \<le> p \<Longrightarrow> permissionsToString p = nat_to_dec (nat p)"
  by (simp add: permissionsToString_def)

lemma permissionsToString_canonical: "0 \<le> p \<Longrightarrow> CANONICAL_PERMISSIONS (permissionsToString p)"
proof -
  assume p: "0 \<le> p"
  show ?thesis
  proof (cases "p = 0")
    case True
    then show ?thesis by (simp add: permissionsToString_def CANONICAL_PERMISSIONS_def)
  next
    case False
    with p have "hd (nat_to_dec (nat p)) \<noteq> CHR ''0''" by (intro nat_to_dec_hd) simp
    with p show ?thesis
      using nat_to_dec_digits[of "nat p"] nat_to_dec_nonempty[of "nat p"]
      by (cases "nat_to_dec (nat p)") (auto simp: permissionsToString_nonneg CANONICAL_PERMISSIONS_def)
  qed
qed

lemma js_BigInt_permissionsToString: "0 \<le> p \<Longrightarrow> js_BigInt (permissionsToString p) = Some p"
  by (simp add: permissionsToString_nonneg js_BigInt_digits nat_to_dec_digits)

lemma canonical_print:
  assumes "CANONICAL_PERMISSIONS s"
  shows "permissionsToString (int (dec_to_nat s)) = s"
  using assms canonical_digits[OF assms]
  by (auto simp: permissionsToString_def CANONICAL_PERMISSIONS_def intro!: nat_to_dec_dec_to_nat)

lemma stringToPermissions_print:
  "0 \<le> p \<Longrightarrow> stringToPermissions (Some (permissionsToString p)) = p"
  using js_BigInt_permissionsToString[of p]
  by (simp add: stringToPermissions_def permissionsToString_nonneg)

lemma canonical_bits_nonneg: "0 \<le> (if bits < 0 then bits AND ALL_PERMISSIONS else bits)"
  by (simp add: ALL_PERMISSIONS_value)

text \<open>
  The wire form of a permissions value: a request field is accepted exactly when it is the
  string \<open>permissionsToString\<close> writes for a non-negative value, and it then reads as that value.
\<close>

theorem parsePermissionString_iff:
  "parsePermissionString v = Some p \<longleftrightarrow> 0 \<le> p \<and> v = Some (JStr (units_of (permissionsToString p)))"
proof
  assume "parsePermissionString v = Some p"
  then obtain u s where v: "v = Some (JStr u)" and s: "latin1 u = Some s"
    and can: "CANONICAL_PERMISSIONS s" and p: "js_BigInt s = Some p"
    by (auto simp: parsePermissionString_def split: option.splits json.splits if_splits)
  from can canonical_digits[OF can] p have "p = int (dec_to_nat s)"
    by (simp add: js_BigInt_digits)
  moreover from s have "u = units_of s"
    by (auto simp: latin1_def units_of_def list_all_iff map_idI split: if_splits)
  ultimately show "0 \<le> p \<and> v = Some (JStr (units_of (permissionsToString p)))"
    using v canonical_print[OF can] by simp
next
  assume "0 \<le> p \<and> v = Some (JStr (units_of (permissionsToString p)))"
  then show "parsePermissionString v = Some p"
    by (simp add: parsePermissionString_def permissionsToString_canonical js_BigInt_permissionsToString)
qed

lemma canonicalPermissionString_idem:
  "canonicalPermissionString (Some (canonicalPermissionString x)) = canonicalPermissionString x"
proof -
  define b where "b = (let bits = stringToPermissions x in if bits < 0 then bits AND ALL_PERMISSIONS else bits)"
  have nn: "0 \<le> b" unfolding b_def Let_def by (rule canonical_bits_nonneg)
  have "canonicalPermissionString x = permissionsToString b"
    by (simp add: canonicalPermissionString_def b_def Let_def)
  with nn show ?thesis
    by (simp add: canonicalPermissionString_def[of "Some (permissionsToString b)"] stringToPermissions_print)
qed

text \<open>
  The boot pass that rewrites stored values to \<open>canonicalPermissionString\<close> is safe to run on
  any text: the result is canonical, a second pass leaves it alone, and every defined permission bit
  reads as it did before.
\<close>

theorem canonicalPermissionString_safe:
  "CANONICAL_PERMISSIONS (canonicalPermissionString s)
   \<and> canonicalPermissionString (Some (canonicalPermissionString s)) = canonicalPermissionString s
   \<and> stringToPermissions (Some (canonicalPermissionString s)) AND ALL_PERMISSIONS
       = stringToPermissions s AND ALL_PERMISSIONS"
proof -
  define bits where "bits = stringToPermissions s"
  define b where "b = (if bits < 0 then bits AND ALL_PERMISSIONS else bits)"
  have nn: "0 \<le> b" unfolding b_def by (rule canonical_bits_nonneg)
  have c: "canonicalPermissionString s = permissionsToString b"
    by (simp add: canonicalPermissionString_def b_def bits_def Let_def)
  have rd: "stringToPermissions (Some (permissionsToString b)) = b"
    by (rule stringToPermissions_print[OF nn])
  have "b AND ALL_PERMISSIONS = bits AND ALL_PERMISSIONS"
    by (simp add: b_def and.assoc)
  with nn show ?thesis
    using canonicalPermissionString_idem[of s] by (simp add: c rd permissionsToString_canonical bits_def)
qed

text \<open>The bit a name stands for, 0 for a name that is not a permission.\<close>

definition name_bit :: "string \<Rightarrow> int" where
  "name_bit n = (case map_of PermissionBits n of Some b \<Rightarrow> b | None \<Rightarrow> 0)"

lemma map_of_units: "map_of (map (\<lambda>(n, b). (units_of n, b)) ps) (units_of k) = map_of ps k"
  by (induction ps) (auto dest: units_of_inj)

lemma permission_names_no_members:
  "map_of PermissionBits n \<noteq> None \<Longrightarrow> n \<notin> set object_prototype_members"
  by (auto simp: PermissionBits_def object_prototype_members_def split: if_splits)

lemma name_bits_names:
  "name_bits (map elem_json (map Some names)) r =
    (if set names \<inter> set object_prototype_members = {} then Some (foldl (OR) r (map name_bit names)) else None)"
proof (induction names arbitrary: r)
  case Nil
  then show ?case by simp
next
  case (Cons n names)
  have mem: "units_of n \<in> units_of ` set object_prototype_members \<longleftrightarrow> n \<in> set object_prototype_members"
    by (auto dest: units_of_inj)
  show ?case
    using Cons.IH permission_names_no_members[of n]
    by (cases "map_of PermissionBits n")
       (auto simp: elem_json_def map_of_units mem name_bit_def[of n] Let_def)
qed

lemma js_BigInt_bracket: "js_BigInt (CHR ''['' # s @ '']'') = None"
proof -
  have "js_trim (CHR ''['' # s @ '']'') = CHR ''['' # s @ '']''"
    by (simp add: js_trim_def js_space_def)
  then show ?thesis by (simp add: js_BigInt_def dec_digits_def is_digit_def)
qed

text \<open>
  The legacy stored form, a JSON list of permission names, reads as the union of the named bits,
  names that are not permissions dropped; but a list that names a member every JavaScript object
  inherits (\<open>toString\<close>, \<open>constructor\<close>, ...) reads as no permission at all, because OR-ing that
  member throws and the catch answers 0.
\<close>

theorem stringToPermissions_legacy_list:
  "stringToPermissions (Some (json_strings (map Some names))) =
    (if set names \<inter> set object_prototype_members = {} then foldl (OR) 0 (map name_bit names) else 0)"
proof -
  have "js_BigInt (json_strings (map Some names)) = None"
    using js_BigInt_bracket by (simp add: json_strings_def)
  moreover have "json_strings (map Some names) \<noteq> []" by (simp add: json_strings_def)
  ultimately show ?thesis
    by (simp add: stringToPermissions_def json_parse_strings name_bits_names del: map_map)
qed

section \<open>Role hierarchy\<close>

record HierarchyStanding =
  isOwner :: bool
  isInstanceAdmin :: bool
  topPosition :: int

fun topRolePosition_loop :: "(role_id \<times> int) list \<Rightarrow> space_id \<Rightarrow> int \<Rightarrow> int" where
  "topRolePosition_loop [] spaceId best = best"
| "topRolePosition_loop ((rid, position) # roles) spaceId best =
     topRolePosition_loop roles spaceId (if rid \<noteq> spaceId \<and> position > best then position else best)"

definition topRolePosition :: "(role_id \<times> int) list \<Rightarrow> space_id \<Rightarrow> int" where
  "topRolePosition roles spaceId = topRolePosition_loop roles spaceId 0"

definition canActOnMember :: "HierarchyStanding \<Rightarrow> HierarchyStanding \<Rightarrow> bool" where
  "canActOnMember actor target =
    (if isOwner target then False
     else if isOwner actor \<or> isInstanceAdmin actor then True
     else topPosition actor > topPosition target)"

definition canManageRoleAt :: "HierarchyStanding \<Rightarrow> int \<Rightarrow> bool" where
  "canManageRoleAt actor rolePosition =
    (if isOwner actor \<or> isInstanceAdmin actor then True else rolePosition < topPosition actor)"

lemma Max_insert_insert:
  "finite P \<Longrightarrow> Max (insert (x :: int) (insert y P)) = Max (insert (max x y) P)"
  by (cases "P = {}") (auto simp: max.assoc)

lemma topRolePosition_loop_Max:
  "topRolePosition_loop roles s best = Max (insert best {p. \<exists>r. (r, p) \<in> set roles \<and> r \<noteq> s})"
proof (induction roles s best rule: topRolePosition_loop.induct)
  case (1 s best)
  then show ?case by simp
next
  case (2 rid position roles s best)
  let ?P = "{p. \<exists>r. (r, p) \<in> set roles \<and> r \<noteq> s}"
  have fin: "finite ?P"
    by (rule finite_subset[of _ "snd ` set roles"]) force+
  have split: "{p. \<exists>r. (r, p) \<in> set ((rid, position) # roles) \<and> r \<noteq> s} =
      (if rid \<noteq> s then insert position ?P else ?P)"
    by auto
  show ?case
    unfolding split using 2 by (simp add: Max_insert_insert[OF fin] max_def)
qed

lemma topRolePosition_Max:
  "topRolePosition roles s = Max (insert 0 {p. \<exists>r. (r, p) \<in> set roles \<and> r \<noteq> s})"
  by (simp add: topRolePosition_def topRolePosition_loop_Max)

text \<open>
  The contract moderation relies on: who may act on whom. The hierarchy rule gives it, and the
  lemmas that follow are about any rule with these laws.
\<close>

locale moderation_order =
  fixes acts :: "'m \<Rightarrow> 'm \<Rightarrow> bool" and exempt :: "'m \<Rightarrow> bool" and shielded :: "'m \<Rightarrow> bool"
    and rank :: "'m \<Rightarrow> int"
  assumes shielded_safe: "shielded t \<Longrightarrow> \<not> acts a t"
    and exempt_acts: "exempt a \<Longrightarrow> \<not> shielded t \<Longrightarrow> acts a t"
    and ranked: "\<not> exempt a \<Longrightarrow> \<not> shielded t \<Longrightarrow> acts a t \<longleftrightarrow> rank t < rank a"
begin

lemma no_mutual: "\<not> exempt a \<Longrightarrow> \<not> exempt b \<Longrightarrow> acts a b \<Longrightarrow> \<not> acts b a"
  using ranked shielded_safe by (meson less_asym)

lemma not_self: "\<not> exempt a \<Longrightarrow> \<not> acts a a"
  using ranked shielded_safe by blast

lemma chain: "\<not> exempt a \<Longrightarrow> \<not> exempt b \<Longrightarrow> acts a b \<Longrightarrow> acts b c \<Longrightarrow> acts a c"
  using ranked shielded_safe by (meson less_trans)

end

interpretation hierarchy: moderation_order canActOnMember
  "\<lambda>m. isOwner m \<or> isInstanceAdmin m" isOwner topPosition
  by unfold_locales (auto simp: canActOnMember_def)

section \<open>Held-bits rule\<close>

datatype HeldBitsRefusal =
    Cannot_grant_unowned_permissions
  | Cannot_deny_unowned_permissions
  | Cannot_change_unowned_permissions

record OverrideBits =
  ob_allow :: int
  ob_deny :: int

definition unheldBits :: "int \<Rightarrow> int" where
  "unheldBits held = (if (held AND ALL_PERMISSIONS) = ALL_PERMISSIONS then 0 else NOT held)"

definition roleBitsChangeRefusal :: "int \<Rightarrow> int \<Rightarrow> int \<Rightarrow> HeldBitsRefusal option" where
  "roleBitsChangeRefusal held before after =
    (let unheld = unheldBits held in
     if (after AND NOT before AND unheld) \<noteq> 0 then Some Cannot_grant_unowned_permissions
     else if (before AND NOT after AND unheld) \<noteq> 0 then Some Cannot_change_unowned_permissions
     else None)"

definition overrideChangeRefusal ::
    "int \<Rightarrow> OverrideBits option \<Rightarrow> OverrideBits option \<Rightarrow> HeldBitsRefusal option" where
  "overrideChangeRefusal held before after =
    (let oldAllow = (case before of None \<Rightarrow> 0 | Some ov \<Rightarrow> ob_allow ov);
         oldDeny = (case before of None \<Rightarrow> 0 | Some ov \<Rightarrow> ob_deny ov);
         newAllow = (case after of None \<Rightarrow> 0 | Some ov \<Rightarrow> ob_allow ov);
         newDeny = (case after of None \<Rightarrow> 0 | Some ov \<Rightarrow> ob_deny ov);
         unheld = unheldBits held in
     if (newAllow AND NOT oldAllow AND unheld) \<noteq> 0 then Some Cannot_grant_unowned_permissions
     else if (newDeny AND NOT oldDeny AND unheld) \<noteq> 0 then Some Cannot_deny_unowned_permissions
     else if (((oldAllow AND NOT newAllow) OR (oldDeny AND NOT newDeny)) AND unheld) \<noteq> 0
       then Some Cannot_change_unowned_permissions
     else None)"

lemma int_zero_iff_bits: "(x :: int) = 0 \<longleftrightarrow> (\<forall>n. \<not> bit x n)"
  by (auto simp: bit_eq_iff)

definition allow_of :: "OverrideBits option \<Rightarrow> int" where
  "allow_of x = (case x of None \<Rightarrow> 0 | Some b \<Rightarrow> ob_allow b)"

definition deny_of :: "OverrideBits option \<Rightarrow> int" where
  "deny_of x = (case x of None \<Rightarrow> 0 | Some b \<Rightarrow> ob_deny b)"

text \<open>The bits an actor may switch: all of them for a holder of every permission, else the held ones.\<close>

definition may_switch :: "int \<Rightarrow> nat \<Rightarrow> bool" where
  "may_switch held n \<longleftrightarrow> (held AND ALL_PERMISSIONS) = ALL_PERMISSIONS \<or> bit held n"

lemma bit_unheld: "bit (unheldBits held) n \<longleftrightarrow> \<not> may_switch held n"
  by (simp add: unheldBits_def may_switch_def bit_not_iff)

lemma roleBits_None: "roleBitsChangeRefusal held before after = None
    \<longleftrightarrow> (\<forall>n. bit before n \<noteq> bit after n \<longrightarrow> may_switch held n)"
  by (auto simp: roleBitsChangeRefusal_def Let_def int_zero_iff_bits bit_and_iff bit_not_iff bit_unheld)

lemma overrideBits_None: "overrideChangeRefusal held before after = None
    \<longleftrightarrow> (\<forall>n. bit (allow_of before) n \<noteq> bit (allow_of after) n \<or> bit (deny_of before) n \<noteq> bit (deny_of after) n
          \<longrightarrow> may_switch held n)"
  by (auto simp: overrideChangeRefusal_def allow_of_def deny_of_def Let_def int_zero_iff_bits
      bit_and_iff bit_or_iff bit_not_iff bit_unheld)

text \<open>
  No privilege escalation through a role: a change of a role's permissions is accepted exactly
  when every bit it switches, in either direction, is one the actor may switch; a refusal is a grant
  when it turns such a bit on.
\<close>

theorem roleBitsChangeRefusal_exact:
  "(roleBitsChangeRefusal held before after = None
      \<longleftrightarrow> {n. bit before n \<noteq> bit after n} \<subseteq> {n. may_switch held n})
   \<and> (roleBitsChangeRefusal held before after = Some Cannot_grant_unowned_permissions
      \<longleftrightarrow> (\<exists>n. bit after n \<and> \<not> bit before n \<and> \<not> may_switch held n))"
  by (auto simp: roleBitsChangeRefusal_def Let_def int_zero_iff_bits bit_and_iff bit_not_iff bit_unheld)

text \<open>
  The same for an override: it is accepted exactly when every allow bit and every deny bit it
  switches is one the actor may switch, a missing override counting as no bits.
\<close>

theorem overrideChangeRefusal_exact:
  "overrideChangeRefusal held before after = None
    \<longleftrightarrow> {n. bit (allow_of before) n \<noteq> bit (allow_of after) n}
        \<union> {n. bit (deny_of before) n \<noteq> bit (deny_of after) n} \<subseteq> {n. may_switch held n}"
  by (auto simp: overrideBits_None)

section \<open>Private channels and categories\<close>

record OverrideDenyRow =
  odr_targetType :: string
  odr_targetId :: string
  odr_deny :: string

definition isHiddenFromEveryone :: "'a OverrideDenyRow_scheme list \<Rightarrow> space_id \<Rightarrow> bool" where
  "isHiddenFromEveryone overrides spaceId =
    (case find (\<lambda>r. odr_targetType r = ''role'' \<and> odr_targetId r = spaceId) overrides of
       None \<Rightarrow> False
     | Some everyone \<Rightarrow> (stringToPermissions (Some (odr_deny everyone)) AND VIEW_CHANNEL) \<noteq> 0)"

text \<open>A \<open>Map\<close> of row groups, in the order its keys were first set.\<close>

fun group_add :: "'k \<Rightarrow> 'r \<Rightarrow> ('k \<times> 'r list) list \<Rightarrow> ('k \<times> 'r list) list" where
  "group_add k r [] = [(k, [r])]"
| "group_add k r ((k', rs) # gs) =
     (if k = k' then (k', rs @ [r]) # gs else (k', rs) # group_add k r gs)"

fun group_rows :: "('r \<Rightarrow> 'k) \<Rightarrow> 'r list \<Rightarrow> ('k \<times> 'r list) list \<Rightarrow> ('k \<times> 'r list) list" where
  "group_rows entityIdOf [] byEntity = byEntity"
| "group_rows entityIdOf (r # rows) byEntity =
     group_rows entityIdOf rows (group_add (entityIdOf r) r byEntity)"

definition idsHiddenFromEveryone ::
    "'a OverrideDenyRow_scheme list \<Rightarrow> ('a OverrideDenyRow_scheme \<Rightarrow> string)
     \<Rightarrow> (string \<Rightarrow> space_id option) \<Rightarrow> string list" where
  "idsHiddenFromEveryone rows entityIdOf spaceIdOf =
    map fst (filter (\<lambda>(eid, group). case spaceIdOf eid of
        None \<Rightarrow> False
      | Some spaceId \<Rightarrow> isHiddenFromEveryone group spaceId) (group_rows entityIdOf rows []))"

lemma map_of_group_add:
  "map_of (group_add k r gs) k' =
    (if k' = k then Some (case map_of gs k of None \<Rightarrow> [r] | Some rs \<Rightarrow> rs @ [r]) else map_of gs k')"
  by (induction k r gs rule: group_add.induct) auto

lemma keys_group_add: "set (map fst (group_add k r gs)) = insert k (set (map fst gs))"
  by (induction k r gs rule: group_add.induct) auto

lemma distinct_group_add: "distinct (map fst gs) \<Longrightarrow> distinct (map fst (group_add k r gs))"
proof (induction k r gs rule: group_add.induct)
  case (2 k r k' rs gs)
  then show ?case using keys_group_add[of k r gs] by auto
qed simp

lemma distinct_group_rows: "distinct (map fst gs) \<Longrightarrow> distinct (map fst (group_rows f rows gs))"
  by (induction f rows gs rule: group_rows.induct) (auto simp: distinct_group_add)

lemma map_of_group_rows:
  "map_of (group_rows f rows gs) k =
    (let own = filter (\<lambda>r. f r = k) rows in
     case map_of gs k of None \<Rightarrow> if own = [] then None else Some own | Some rs \<Rightarrow> Some (rs @ own))"
  by (induction f rows gs rule: group_rows.induct)
     (auto simp: map_of_group_add Let_def split: option.splits)

text \<open>
  One pass over the override rows of many channels finds exactly the private ones: an id is
  reported when its space is known and its own rows, read alone, hide it from everyone.
\<close>

theorem idsHiddenFromEveryone_exact:
  "eid \<in> set (idsHiddenFromEveryone rows f sp) \<longleftrightarrow>
    eid \<in> f ` set rows \<and> (\<exists>s. sp eid = Some s \<and> isHiddenFromEveryone (filter (\<lambda>r. f r = eid) rows) s)"
proof -
  let ?gs = "group_rows f rows []"
  have d: "distinct (map fst ?gs)" by (rule distinct_group_rows) simp
  have m: "map_of ?gs eid = (if filter (\<lambda>r. f r = eid) rows = [] then None else Some (filter (\<lambda>r. f r = eid) rows))"
    by (simp add: map_of_group_rows Let_def)
  have "(eid, g) \<in> set ?gs \<longleftrightarrow> map_of ?gs eid = Some g" for g
    using d by (metis map_of_eq_Some_iff)
  then have "(eid, g) \<in> set ?gs \<longleftrightarrow> eid \<in> f ` set rows \<and> g = filter (\<lambda>r. f r = eid) rows" for g
    unfolding m by (auto simp: filter_empty_conv)
  then show ?thesis
    by (auto simp: idsHiddenFromEveryone_def image_iff split: option.splits)
qed

section \<open>Edit versions\<close>

definition NO_OVERRIDE_VERSION :: string where "NO_OVERRIDE_VERSION = ''none''"

text \<open>The hash is masked to 64 bits after every step, so it is a 64-bit word.\<close>

definition fnv1a64_step :: "64 word \<Rightarrow> char \<Rightarrow> 64 word" where
  "fnv1a64_step hash c = (hash XOR of_nat (of_char c)) * 0x100000001b3"

definition fnv1a64 :: "string \<Rightarrow> string" where
  "fnv1a64 text =
    (let hash = foldl fnv1a64_step 0xcbf29ce484222325 text
     in map (\<lambda>i. hex_digit (unat ((drop_bit (4 * i) hash) AND 15))) (rev [0..<16]))"

definition rolePermissionsVersion :: "string option \<Rightarrow> string" where
  "rolePermissionsVersion permissions = fnv1a64 (''role:'' @ canonicalPermissionString permissions)"

definition overrideVersion :: "(string option \<times> string option) option \<Rightarrow> string" where
  "overrideVersion row = (case row of
       None \<Rightarrow> NO_OVERRIDE_VERSION
     | Some (allow, deny) \<Rightarrow> fnv1a64 (''override:'' @ canonicalPermissionString allow @ '':''
         @ canonicalPermissionString deny))"

lemma length_fnv1a64 [simp]: "length (fnv1a64 s) = 16"
  by (simp add: fnv1a64_def Let_def)

text \<open>
  The edit version of an override never takes a missing override for an existing one, and it
  depends on the stored texts only through the bits they mean: rewriting both columns to their
  canonical form keeps the version an editor loaded.
\<close>

theorem overrideVersion_stable:
  "overrideVersion (Some (a, d)) \<noteq> overrideVersion None
   \<and> overrideVersion (Some (Some (canonicalPermissionString a), Some (canonicalPermissionString d)))
       = overrideVersion (Some (a, d))"
proof -
  have "overrideVersion (Some (a, d)) \<noteq> overrideVersion None"
    by (rule notI, drule arg_cong[where f = length])
       (simp add: overrideVersion_def NO_OVERRIDE_VERSION_def)
  then show ?thesis by (simp add: overrideVersion_def canonicalPermissionString_idem)
qed

end
