(* ===== verification/Schema.thy ===== *)
theory Schema
  imports Prelude
begin

text \<open>
  The tables of \<open>packages/server/src/db/schema.ts\<close> that hold spaces, roles, channels and DMs: one
  record per row type, with the columns of the file in its order. A nullable column is an option; an
  integer flag keeps its integer. A table is the list of its rows in rowid order.
\<close>

record user_row =
  us_id :: user_id
  us_username :: string
  us_displayName :: "string option"
  us_passwordHash :: string
  us_avatar :: "string option"
  us_status :: "string option"
  us_chosenStatus :: string
  us_customStatus :: "string option"
  us_isAdmin :: "int option"
  us_homeInstance :: "string option"
  us_homeUserId :: "string option"
  us_replicatedInstances :: "string option"
  us_banner :: "string option"
  us_accentColor :: "string option"
  us_avatarColor :: "string option"
  us_bio :: "string option"
  us_isDeleted :: "int option"
  us_discoverable :: "int option"
  us_profileUpdatedAt :: "int option"
  us_passwordChangedAt :: "int option"
  us_showActivity :: int
  us_federationRegistryUpdatedAt :: "int option"
  us_federationHealPending :: "int option"
  us_federationHomeOrphaned :: "int option"
  us_detachedHomeInstance :: "string option"
  us_detachedHomeUserId :: "string option"
  us_lastActiveDay :: "string option"
  us_lastClient :: "string option"
  us_createdAt :: millis

record space_row =
  sp_id :: space_id
  sp_name :: string
  sp_icon :: "string option"
  sp_banner :: "string option"
  sp_avatarColor :: "string option"
  sp_ownerId :: user_id
  sp_ownerTitle :: "string option"
  sp_inviteCode :: "string option"
  sp_visibility :: "string option"
  sp_directoryListed :: int
  sp_description :: "string option"
  sp_createdAt :: millis

record space_member_row =
  sm_spaceId :: space_id
  sm_userId :: user_id
  sm_nickname :: "string option"
  sm_joinedAt :: millis

record channel_row =
  ch_id :: channel_id
  ch_spaceId :: space_id
  ch_name :: string
  ch_type :: string
  ch_topic :: "string option"
  ch_position :: "int option"
  ch_categoryId :: "string option"
  ch_createdAt :: millis

record dm_channel_row =
  dc_id :: channel_id
  dc_ownerId :: "user_id option"
  dc_federatedId :: "string option"
  dc_ownerHomeUserId :: "string option"
  dc_ownerHomeInstance :: "string option"
  dc_deletedAt :: "int option"
  dc_createdAt :: millis
  dc_name :: "string option"
  dc_icon :: "string option"
  dc_metadataUpdatedAt :: millis

record dm_member_row =
  dm_dmChannelId :: channel_id
  dm_userId :: user_id
  dm_closed :: "int option"
  dm_closedChangedAt :: millis

record role_row =
  ro_id :: role_id
  ro_spaceId :: space_id
  ro_name :: string
  ro_color :: "string option"
  ro_position :: "int option"
  ro_permissions :: "string option"
  ro_createdAt :: millis

record member_role_row =
  mr_spaceId :: space_id
  mr_userId :: user_id
  mr_roleId :: role_id

record override_row =
  ov_entityId :: string
  ov_targetType :: string
  ov_targetId :: string
  ov_allow :: string
  ov_deny :: string

record ban_row =
  ban_spaceId :: space_id
  ban_userId :: user_id
  ban_reason :: "string option"
  ban_bannedBy :: "user_id option"
  ban_createdAt :: millis

record category_row =
  ca_id :: string
  ca_spaceId :: space_id
  ca_name :: string
  ca_position :: "int option"
  ca_createdAt :: millis

record join_request_row =
  jr_id :: string
  jr_spaceId :: space_id
  jr_userId :: user_id
  jr_message :: "string option"
  jr_status :: string
  jr_decidedBy :: "user_id option"
  jr_createdAt :: millis
  jr_decidedAt :: "int option"

record voice_restriction_row =
  vr_spaceId :: space_id
  vr_userId :: user_id
  vr_restrictionType :: string
  vr_moderatorId :: "user_id option"
  vr_createdAt :: millis

record read_state_row =
  rs_userId :: user_id
  rs_channelId :: channel_id
  rs_lastReadMessageId :: string
  rs_updatedAt :: millis

text \<open>The part of the database the permission code reads; both override tables have one row type.\<close>

record space_db =
  db_users :: "user_row list"
  db_spaces :: "space_row list"
  db_spaceMembers :: "space_member_row list"
  db_channels :: "channel_row list"
  db_roles :: "role_row list"
  db_memberRoles :: "member_role_row list"
  db_channelOverrides :: "override_row list"
  db_categoryOverrides :: "override_row list"
  db_bans :: "ban_row list"
  db_categories :: "category_row list"
  db_joinRequests :: "join_request_row list"
  db_voiceRestrictions :: "voice_restriction_row list"
  db_readStates :: "read_state_row list"
  db_dmChannels :: "dm_channel_row list"
  db_dmMembers :: "dm_member_row list"

definition find_user :: "user_id \<Rightarrow> space_db \<Rightarrow> user_row option" where
  "find_user u db = tbl_get us_id u (db_users db)"

definition find_space :: "space_id \<Rightarrow> space_db \<Rightarrow> space_row option" where
  "find_space s db = tbl_get sp_id s (db_spaces db)"

definition find_channel :: "channel_id \<Rightarrow> space_db \<Rightarrow> channel_row option" where
  "find_channel c db = tbl_get ch_id c (db_channels db)"

definition find_category :: "string \<Rightarrow> space_db \<Rightarrow> category_row option" where
  "find_category c db = tbl_get ca_id c (db_categories db)"

definition find_dm_channel :: "channel_id \<Rightarrow> space_db \<Rightarrow> dm_channel_row option" where
  "find_dm_channel c db = tbl_get dc_id c (db_dmChannels db)"

end
