(* ===== verification/Hierarchy.thy ===== *)
theory Hierarchy
  imports Schema Permissions "HOL-Library.Multiset"
begin

text \<open>
  \<open>packages/server/src/utils/roleHierarchy.ts\<close> (where a user stands in a space) and
  \<open>packages/server/src/db/rolePositions.ts\<close> (the order of a space's roles). The first group of lemmas
  gives the closed form of a rewrite of the positions; the properties are that every rewrite leaves
  the positions n..1 in the intended order and touches nothing else.
\<close>

section \<open>Standing\<close>

definition standing_positions :: "space_db \<Rightarrow> space_id \<Rightarrow> user_id \<Rightarrow> (role_id \<times> int) list" where
  "standing_positions db spaceId userId =
    concat (map (\<lambda>mr. map (\<lambda>ro. (ro_id ro, case ro_position ro of None \<Rightarrow> 0 | Some p \<Rightarrow> p))
        (filter (\<lambda>ro. ro_id ro = mr_roleId mr \<and> ro_spaceId ro = spaceId) (db_roles db)))
      (filter (\<lambda>mr. mr_spaceId mr = spaceId \<and> mr_userId mr = userId) (db_memberRoles db)))"

definition getHierarchyStanding :: "space_db \<Rightarrow> space_id \<Rightarrow> user_id \<Rightarrow> HierarchyStanding" where
  "getHierarchyStanding db spaceId userId =
    \<lparr> isOwner = (case find_space spaceId db of None \<Rightarrow> False | Some space \<Rightarrow> sp_ownerId space = userId),
      isInstanceAdmin = (case find_user userId db of None \<Rightarrow> False | Some user \<Rightarrow> us_isAdmin user = Some 1),
      topPosition = topRolePosition_loop (standing_positions db spaceId userId) spaceId 0 \<rparr>"

definition canActOnMemberInSpace :: "space_db \<Rightarrow> space_id \<Rightarrow> user_id \<Rightarrow> user_id \<Rightarrow> bool" where
  "canActOnMemberInSpace db spaceId actorId targetId =
    canActOnMember (getHierarchyStanding db spaceId actorId) (getHierarchyStanding db spaceId targetId)"

definition canManageRoleInSpace :: "space_db \<Rightarrow> space_id \<Rightarrow> user_id \<Rightarrow> int \<Rightarrow> bool" where
  "canManageRoleInSpace db spaceId actorId rolePosition =
    canManageRoleAt (getHierarchyStanding db spaceId actorId) rolePosition"

section \<open>Role order\<close>

text \<open>
  \<open>ORDER BY position DESC, created_at ASC, rowid ASC\<close>: SQLite sorts a NULL below every integer, so
  it comes last in a descending order; a stable sort keeps rowid order among equals.
\<close>

definition role_order_key :: "role_row \<Rightarrow> (nat \<times> int) \<times> int" where
  "role_order_key r =
    ((case ro_position r of Some p \<Rightarrow> (0, - p) | None \<Rightarrow> (1, 0)), ro_createdAt r)"

definition is_space_role :: "space_id \<Rightarrow> role_row \<Rightarrow> bool" where
  "is_space_role spaceId r \<longleftrightarrow> ro_spaceId r = spaceId \<and> ro_id r \<noteq> spaceId"

definition orderedRoles :: "role_row list \<Rightarrow> space_id \<Rightarrow> role_row list" where
  "orderedRoles rows spaceId = sort_key role_order_key (filter (is_space_role spaceId) rows)"

definition update_position :: "role_id \<Rightarrow> space_id \<Rightarrow> int \<Rightarrow> role_row list \<Rightarrow> role_row list" where
  "update_position rid spaceId p rows =
    map (\<lambda>r. if ro_id r = rid \<and> ro_spaceId r = spaceId then r\<lparr>ro_position := Some p\<rparr> else r) rows"

text \<open>\<open>ordered.forEach\<close> with the positions n, n-1, .. counted down.\<close>

fun write_positions :: "space_id \<Rightarrow> role_row list \<Rightarrow> role_row list \<Rightarrow> role_row list" where
  "write_positions spaceId [] rows = rows"
| "write_positions spaceId (role # rest) rows =
    (let position = int (Suc (length rest)) in
     write_positions spaceId rest
       (if ro_position role \<noteq> Some position then update_position (ro_id role) spaceId position rows else rows))"

definition reset_everyone :: "space_id \<Rightarrow> role_row list \<Rightarrow> role_row list" where
  "reset_everyone spaceId rows =
    map (\<lambda>r. if ro_id r = spaceId \<and> ro_spaceId r = spaceId \<and> ro_position r \<noteq> Some 0
             then r\<lparr>ro_position := Some 0\<rparr> else r) rows"

definition writeOrder :: "role_row list \<Rightarrow> space_id \<Rightarrow> role_row list \<Rightarrow> role_row list" where
  "writeOrder rows spaceId ordered = reset_everyone spaceId (write_positions spaceId ordered rows)"

definition normalizeRolePositions :: "role_row list \<Rightarrow> space_id \<Rightarrow> role_row list" where
  "normalizeRolePositions rows spaceId = writeOrder rows spaceId (orderedRoles rows spaceId)"

fun find_index :: "('a \<Rightarrow> bool) \<Rightarrow> 'a list \<Rightarrow> nat option" where
  "find_index P [] = None"
| "find_index P (x # xs) = (if P x then Some 0 else map_option Suc (find_index P xs))"

definition moveRoleToPosition :: "role_row list \<Rightarrow> space_id \<Rightarrow> role_id \<Rightarrow> int \<Rightarrow> role_row list" where
  "moveRoleToPosition rows spaceId roleId position =
    (let ordered = orderedRoles rows spaceId in
     case find_index (\<lambda>r. ro_id r = roleId) ordered of
       None \<Rightarrow> rows
     | Some from_ix \<Rightarrow>
         (let moving = ordered ! from_ix;
              others = take from_ix ordered @ drop (Suc from_ix) ordered;
              clamped = min (max position 1) (int (length others) + 1);
              at = nat (int (length others) + 1 - clamped)
          in writeOrder rows spaceId (take at others @ moving # drop at others)))"

datatype side = Above | Below

definition positionNextTo :: "role_row list \<Rightarrow> space_id \<Rightarrow> role_id \<Rightarrow> role_id \<Rightarrow> side \<Rightarrow> int option" where
  "positionNextTo rows spaceId roleId anchorId sd =
    (if anchorId = roleId then None
     else let others = filter (\<lambda>r. ro_id r \<noteq> roleId) (orderedRoles rows spaceId) in
       if anchorId = spaceId then
         (if sd = Below then None else Some (int (length others) + 1 - int (length others)))
       else (case find_index (\<lambda>r. ro_id r = anchorId) others of
           None \<Rightarrow> None
         | Some i \<Rightarrow> Some (int (length others) + 1 - int (if sd = Above then i else Suc i))))"

definition normalizeAllRolePositions :: "space_row list \<Rightarrow> role_row list \<Rightarrow> role_row list" where
  "normalizeAllRolePositions spaces rows = foldl normalizeRolePositions rows (map sp_id spaces)"

subsection \<open>What a rewrite of the positions does\<close>

definition renumbered :: "role_row list \<Rightarrow> role_row list" where
  "renumbered xs = map (\<lambda>i. (xs ! i)\<lparr>ro_position := Some (int (length xs - i))\<rparr>) [0..<length xs]"

definition place :: "space_id \<Rightarrow> role_row list \<Rightarrow> role_row \<Rightarrow> role_row" where
  "place spaceId xs r =
    (if ro_spaceId r = spaceId then
       (case find_index (\<lambda>q. ro_id q = ro_id r) xs of
          Some i \<Rightarrow> r\<lparr>ro_position := Some (int (length xs - i))\<rparr>
        | None \<Rightarrow> r)
     else r)"

lemma find_index_None_iff: "find_index P xs = None \<longleftrightarrow> (\<forall>x\<in>set xs. \<not> P x)"
  by (induction xs) auto

lemma find_index_SomeD:
  "find_index P xs = Some i \<Longrightarrow> i < length xs \<and> P (xs ! i) \<and> (\<forall>x\<in>set (take i xs). \<not> P x)"
  by (induction xs arbitrary: i) (auto split: if_splits)

lemma find_index_nth:
  "distinct (map f xs) \<Longrightarrow> i < length xs \<Longrightarrow> find_index (\<lambda>x. f x = f (xs ! i)) xs = Some i"
proof (induction xs arbitrary: i)
  case (Cons x xs)
  then show ?case by (cases i) (auto simp: image_iff)
qed simp

lemma place_keeps [simp]:
  "ro_id (place s xs r) = ro_id r" "ro_spaceId (place s xs r) = ro_spaceId r"
  by (simp_all add: place_def split: option.split)

lemma place_Nil [simp]: "place s [] r = r"
  by (simp add: place_def)

lemma place_other: "ro_spaceId r \<noteq> s \<Longrightarrow> place s xs r = r"
  by (simp add: place_def)

lemma write_positions_place:
  assumes "distinct (map ro_id xs)"
    and "\<And>x r. x \<in> set xs \<Longrightarrow> r \<in> set rows \<Longrightarrow> ro_id r = ro_id x \<Longrightarrow> ro_spaceId r = s
           \<Longrightarrow> ro_position r = ro_position x"
  shows "write_positions s xs rows = map (place s xs) rows"
  using assms
proof (induction s xs rows rule: write_positions.induct)
  case (1 s rows)
  then show ?case by (simp add: map_idI)
next
  case (2 s role rest rows)
  define p where "p = int (Suc (length rest))"
  define rows' where "rows' = (if ro_position role \<noteq> Some p then update_position (ro_id role) s p rows else rows)"
  have new: "ro_id role \<notin> ro_id ` set rest" and dist: "distinct (map ro_id rest)" using "2.prems"(1) by auto
  have rows': "rows' = map (\<lambda>r. if ro_id r = ro_id role \<and> ro_spaceId r = s
      then r\<lparr>ro_position := Some p\<rparr> else r) rows"
    using "2.prems"(2)[of role] by (auto simp: rows'_def update_position_def intro!: map_idI[symmetric])
  have "write_positions s (role # rest) rows = write_positions s rest rows'"
    by (simp add: rows'_def p_def Let_def)
  also have "\<dots> = map (place s rest) rows'"
  proof (unfold rows'_def p_def, rule "2.IH")
    show "int (Suc (length rest)) = int (Suc (length rest))" ..
    show "distinct (map ro_id rest)" by (rule dist)
    fix x r
    assume x: "x \<in> set rest" and eq: "ro_id r = ro_id x" "ro_spaceId r = s"
      and r: "r \<in> set (if ro_position role \<noteq> Some (int (Suc (length rest)))
                     then update_position (ro_id role) s (int (Suc (length rest))) rows else rows)"
    then have "r \<in> set rows'" by (simp only: rows'_def p_def)
    moreover have "ro_id r \<noteq> ro_id role" using x eq new by (metis imageI)
    ultimately have "r \<in> set rows" by (auto simp: rows' split: if_splits)
    then show "ro_position r = ro_position x" using "2.prems"(2)[of x r] x eq by simp
  qed
  also have "\<dots> = map (place s (role # rest)) rows"
  proof (simp add: rows', rule ballI)
    fix r assume "r \<in> set rows"
    have "find_index (\<lambda>q. ro_id q = ro_id role) rest = None"
      using new by (simp add: find_index_None_iff) (metis imageI)
    then show "(ro_id r = ro_id role \<and> ro_spaceId r = s \<longrightarrow>
          place s rest (r\<lparr>ro_position := Some p\<rparr>) = place s (role # rest) r) \<and>
        ((ro_id r = ro_id role \<longrightarrow> ro_spaceId r \<noteq> s) \<longrightarrow> place s rest r = place s (role # rest) r)"
      by (auto simp: place_def p_def split: option.splits)
  qed
  finally show ?case .
qed

lemma map_place: "distinct (map ro_id xs) \<Longrightarrow> \<forall>x\<in>set xs. ro_spaceId x = s \<Longrightarrow> map (place s xs) xs = renumbered xs"
  by (rule nth_equalityI) (auto simp: renumbered_def place_def find_index_nth)

lemma renumbered_ids [simp]: "map ro_id (renumbered xs) = map ro_id xs"
  by (rule nth_equalityI) (auto simp: renumbered_def)

lemma renumbered_positions:
  "map ro_position (renumbered xs) = map (\<lambda>i. Some (int (length xs - i))) [0..<length xs]"
  by (simp add: renumbered_def)

lemma renumbered_strict:
  "sorted_wrt (\<lambda>a b. role_order_key a < role_order_key b) (renumbered xs)"
  by (auto simp: renumbered_def sorted_wrt_iff_nth_less role_order_key_def less_prod_def)

lemma renumbered_sorted: "sorted (map role_order_key (renumbered xs))"
  and renumbered_inj: "inj_on role_order_key (set (renumbered xs))"
proof -
  have strict: "sorted_wrt (<) (map role_order_key (renumbered xs))"
    using renumbered_strict[of xs] by (simp add: sorted_wrt_map)
  then show "sorted (map role_order_key (renumbered xs))" by (rule strict_sorted_imp_sorted)
  from strict have "distinct (map role_order_key (renumbered xs))" by (simp add: strict_sorted_iff)
  then show "inj_on role_order_key (set (renumbered xs))" by (simp add: distinct_map)
qed

lemma reset_everyone_filter: "filter (is_space_role s) (reset_everyone s rows) = filter (is_space_role s) rows"
  by (induction rows) (auto simp: reset_everyone_def is_space_role_def)

lemma orderedRoles_set: "set (orderedRoles rows s) = {r \<in> set rows. is_space_role s r}"
  by (simp add: orderedRoles_def)

lemma orderedRoles_distinct: "distinct (map ro_id rows) \<Longrightarrow> distinct (map ro_id (orderedRoles rows s))"
  by (simp add: orderedRoles_def distinct_map distinct_filter inj_on_def)

lemma same_row: "distinct (map ro_id rows) \<Longrightarrow> r \<in> set rows \<Longrightarrow> r' \<in> set rows \<Longrightarrow> ro_id r = ro_id r' \<Longrightarrow> r = r'"
  by (simp add: distinct_map inj_on_def)

text \<open>Any rearrangement of a space's roles, written back, is what the roles are read in afterwards.\<close>

lemma writeOrder_closed:
  assumes "distinct (map ro_id rows)" and "mset xs = mset (orderedRoles rows s)"
  shows "writeOrder rows s xs = reset_everyone s (map (place s xs) rows)"
proof -
  have set: "set xs = {r \<in> set rows. is_space_role s r}"
    using mset_eq_setD[OF assms(2)] by (simp add: orderedRoles_set)
  have "distinct (map ro_id xs)"
    using assms orderedRoles_distinct[OF assms(1), of s]
    by (metis distinct_map mset_eq_imp_distinct_iff mset_eq_setD)
  moreover have "ro_position r = ro_position x"
    if "x \<in> set xs" "r \<in> set rows" "ro_id r = ro_id x" for x r
    using that set same_row[OF assms(1), of r x] by auto
  ultimately show ?thesis by (simp add: writeOrder_def write_positions_place)
qed

lemma orderedRoles_writeOrder:
  assumes "distinct (map ro_id rows)" and "mset xs = mset (orderedRoles rows s)"
  shows "orderedRoles (writeOrder rows s xs) s = renumbered xs"
proof -
  have set: "set xs = {r \<in> set rows. is_space_role s r}"
    using mset_eq_setD[OF assms(2)] by (simp add: orderedRoles_set)
  have d: "distinct (map ro_id xs)"
    using assms orderedRoles_distinct[OF assms(1), of s]
    by (metis distinct_map mset_eq_imp_distinct_iff mset_eq_setD)
  have sp: "\<forall>x\<in>set xs. ro_spaceId x = s" using set by (auto simp: is_space_role_def)
  have "is_space_role s \<circ> place s xs = is_space_role s" by (auto simp: is_space_role_def fun_eq_iff)
  then have "filter (is_space_role s) (map (place s xs) rows) = map (place s xs) (filter (is_space_role s) rows)"
    by (simp add: filter_map)
  then have "mset (filter (is_space_role s) (writeOrder rows s xs)) = mset (map (place s xs) xs)"
    using assms(2) by (simp add: writeOrder_closed[OF assms] reset_everyone_filter orderedRoles_def)
  also have "\<dots> = mset (renumbered xs)" using map_place[OF d sp] by simp
  finally have m: "mset (filter (is_space_role s) (writeOrder rows s xs)) = mset (renumbered xs)" .
  show ?thesis
    unfolding orderedRoles_def
    by (rule sort_key_inj_key_eq[OF m])
       (use mset_eq_setD[OF m] renumbered_inj renumbered_sorted in auto)
qed

lemma writeOrder_ids [simp]: "map ro_id (write_positions s xs rows) = map ro_id rows"
proof (induction s xs rows rule: write_positions.induct)
  case (2 s role rest rows)
  then show ?case by (auto simp: Let_def update_position_def)
qed simp

lemma writeOrder_row_ids: "map ro_id (writeOrder rows s xs) = map ro_id rows"
proof -
  have "map ro_id (reset_everyone s rs) = map ro_id rs" for rs by (simp add: reset_everyone_def)
  then show ?thesis by (simp add: writeOrder_def)
qed

lemma writeOrder_others:
  assumes "distinct (map ro_id rows)" and "mset xs = mset (orderedRoles rows s)"
  shows "filter (\<lambda>r. ro_spaceId r \<noteq> s) (writeOrder rows s xs) = filter (\<lambda>r. ro_spaceId r \<noteq> s) rows"
  unfolding writeOrder_closed[OF assms] reset_everyone_def
  by (induction rows) (auto simp: place_other)

lemma renumbered_again: "renumbered (renumbered xs) = renumbered xs"
  by (rule nth_equalityI) (simp_all add: renumbered_def)

text \<open>Writing an order whose rows already carry their positions changes no row.\<close>

lemma write_positions_renumbered: "write_positions s (renumbered xs) rows = rows"
proof (induction xs arbitrary: rows)
  case Nil
  then show ?case by (simp add: renumbered_def)
next
  case (Cons x xs)
  have "renumbered (x # xs) = x\<lparr>ro_position := Some (int (Suc (length xs)))\<rparr> # renumbered xs"
    by (simp add: renumbered_def map_upt_Suc del: upt_Suc)
  then show ?case using Cons by (simp add: renumbered_def)
qed

lemma reset_everyone_idem: "reset_everyone s (reset_everyone s rows) = reset_everyone s rows"
  by (simp add: reset_everyone_def)

text \<open>
  Normalising a space's roles keeps the order they are shown in, numbers them n down to 1, leaves
  the roles of every other space alone, and does nothing the second time.
\<close>

theorem normalizeRolePositions_order:
  assumes "distinct (map ro_id rows)"
  shows "map ro_id (orderedRoles (normalizeRolePositions rows s) s) = map ro_id (orderedRoles rows s)
    \<and> map ro_position (orderedRoles (normalizeRolePositions rows s) s)
        = map (\<lambda>i. Some (int (length (orderedRoles rows s) - i))) [0..<length (orderedRoles rows s)]
    \<and> filter (\<lambda>r. ro_spaceId r \<noteq> s) (normalizeRolePositions rows s) = filter (\<lambda>r. ro_spaceId r \<noteq> s) rows
    \<and> normalizeRolePositions (normalizeRolePositions rows s) s = normalizeRolePositions rows s"
proof -
  let ?o = "orderedRoles rows s"
  have o: "orderedRoles (normalizeRolePositions rows s) s = renumbered ?o"
    by (simp add: normalizeRolePositions_def orderedRoles_writeOrder assms)
  have "normalizeRolePositions (normalizeRolePositions rows s) s
      = reset_everyone s (normalizeRolePositions rows s)"
    using o by (simp add: normalizeRolePositions_def[of "normalizeRolePositions rows s"] writeOrder_def
        write_positions_renumbered)
  then have "normalizeRolePositions (normalizeRolePositions rows s) s = normalizeRolePositions rows s"
    by (simp add: normalizeRolePositions_def writeOrder_def reset_everyone_idem)
  with o show ?thesis
    by (simp add: renumbered_positions normalizeRolePositions_def writeOrder_others assms)
qed

subsection \<open>Moving one role\<close>

lemma take_drop_filter:
  assumes "distinct (map f xs)" and "i < length xs" and "f (xs ! i) = k"
  shows "take i xs @ drop (Suc i) xs = filter (\<lambda>x. f x \<noteq> k) xs"
proof -
  have xs: "xs = take i xs @ xs ! i # drop (Suc i) xs" using assms(2) by (rule id_take_nth_drop)
  have d: "distinct (map f (take i xs) @ k # map f (drop (Suc i) xs))"
    using assms(1,3) by (metis xs list.simps(9) map_append)
  have "filter (\<lambda>x. f x \<noteq> k) (take i xs) = take i xs" "filter (\<lambda>x. f x \<noteq> k) (drop (Suc i) xs) = drop (Suc i) xs"
    using d by (auto simp: filter_id_conv)
  with assms(3) show ?thesis by (subst (3) xs) simp
qed

definition insert_at :: "nat \<Rightarrow> 'a \<Rightarrow> 'a list \<Rightarrow> 'a list" where
  "insert_at k x xs = take k xs @ x # drop k xs"

lemma map_insert_at: "map f (insert_at k x xs) = insert_at k (f x) (map f xs)"
  by (simp add: insert_at_def take_map drop_map)

lemma filter_insert_at: "\<not> P x \<Longrightarrow> filter P (insert_at k x xs) = filter P xs"
  by (simp add: insert_at_def) (metis append_take_drop_id filter_append)

lemma mset_insert_at [simp]: "mset (insert_at k x xs) = add_mset x (mset xs)"
  by (simp add: insert_at_def) (metis append_take_drop_id mset_append)

text \<open>Where a move puts a role among the other roles, counted from the top.\<close>

definition slot :: "nat \<Rightarrow> int \<Rightarrow> nat" where
  "slot n position = nat (int n + 1 - min (max position 1) (int n + 1))"

lemma move_unfold:
  assumes "distinct (map ro_id rows)" and "r \<in> set (orderedRoles rows s)"
  shows "moveRoleToPosition rows s (ro_id r) p =
    (let others = filter (\<lambda>q. ro_id q \<noteq> ro_id r) (orderedRoles rows s)
     in writeOrder rows s (insert_at (slot (length others) p) r others))"
proof -
  let ?o = "orderedRoles rows s"
  have d: "distinct (map ro_id ?o)" by (rule orderedRoles_distinct[OF assms(1)])
  obtain i where i: "i < length ?o" "?o ! i = r" using assms(2) by (auto simp: in_set_conv_nth)
  have fi: "find_index (\<lambda>q. ro_id q = ro_id r) ?o = Some i"
    using find_index_nth[OF d i(1)] i(2) by simp
  have "take i ?o @ drop (Suc i) ?o = filter (\<lambda>q. ro_id q \<noteq> ro_id r) ?o"
    using take_drop_filter[OF d i(1)] i(2) by simp
  then show ?thesis
    by (simp only: moveRoleToPosition_def fi Let_def option.case i(2) insert_at_def slot_def)
qed

lemma mset_without:
  assumes "distinct (map ro_id xs)" and "r \<in> set xs"
  shows "add_mset r (mset (filter (\<lambda>q. ro_id q \<noteq> ro_id r) xs)) = mset xs"
proof -
  obtain i where i: "i < length xs" "xs ! i = r" using assms(2) by (auto simp: in_set_conv_nth)
  have xs: "xs = take i xs @ r # drop (Suc i) xs" using id_take_nth_drop[OF i(1)] i(2) by simp
  have "filter (\<lambda>q. ro_id q \<noteq> ro_id r) xs = take i xs @ drop (Suc i) xs"
    using take_drop_filter[OF assms(1) i(1)] i(2) by simp
  then show ?thesis by (subst (2) xs) simp
qed

lemma orderedRoles_move:
  assumes "distinct (map ro_id rows)" and "r \<in> set (orderedRoles rows s)"
  shows "orderedRoles (moveRoleToPosition rows s (ro_id r) p) s =
    (let others = filter (\<lambda>q. ro_id q \<noteq> ro_id r) (orderedRoles rows s)
     in renumbered (insert_at (slot (length others) p) r others))"
  unfolding move_unfold[OF assms] Let_def
  by (rule orderedRoles_writeOrder[OF assms(1)])
     (simp add: mset_without[OF orderedRoles_distinct[OF assms(1)] assms(2)] del: mset_filter)

lemma move_ids:
  assumes "distinct (map ro_id rows)" and "rid \<in> ro_id ` set (orderedRoles rows s)"
  shows "map ro_id (orderedRoles (moveRoleToPosition rows s rid p) s) =
    (let others = filter (\<lambda>q. q \<noteq> rid) (map ro_id (orderedRoles rows s))
     in insert_at (slot (length others) p) rid others)"
proof -
  obtain r where r: "rid = ro_id r" "r \<in> set (orderedRoles rows s)" using assms(2) by auto
  show ?thesis
    unfolding r(1) orderedRoles_move[OF assms(1) r(2)] Let_def renumbered_ids map_insert_at
    by (simp add: filter_map comp_def)
qed

lemma slot_bounds: "slot n p \<le> n" "1 \<le> p \<Longrightarrow> p \<le> int n + 1 \<Longrightarrow> int (slot n p) = int n + 1 - p"
  by (auto simp: slot_def)

text \<open>
  Moving a role puts it at the asked position, clamped to the positions that exist, keeps the
  other roles in their order, and renumbers n down to 1; other spaces are untouched.
\<close>

theorem moveRoleToPosition_lands:
  assumes "distinct (map ro_id rows)" and "rid \<in> ro_id ` set (orderedRoles rows s)"
  shows "let before = map ro_id (orderedRoles rows s);
             rows' = moveRoleToPosition rows s rid p;
             after = orderedRoles rows' s;
             n = length before
         in filter (\<lambda>q. q \<noteq> rid) (map ro_id after) = filter (\<lambda>q. q \<noteq> rid) before
          \<and> map ro_position after = map (\<lambda>i. Some (int (n - i))) [0..<n]
          \<and> (rid, Some (min (max p 1) (int n))) \<in> set (map (\<lambda>r. (ro_id r, ro_position r)) after)
          \<and> filter (\<lambda>r. ro_spaceId r \<noteq> s) rows' = filter (\<lambda>r. ro_spaceId r \<noteq> s) rows"
proof -
  obtain r where r: "rid = ro_id r" "r \<in> set (orderedRoles rows s)" using assms(2) by auto
  define xs where "xs = filter (\<lambda>q. ro_id q \<noteq> ro_id r) (orderedRoles rows s)"
  define k where "k = slot (length xs) p"
  have d: "distinct (map ro_id (orderedRoles rows s))" by (rule orderedRoles_distinct[OF assms(1)])
  have m: "mset (insert_at k r xs) = mset (orderedRoles rows s)"
    unfolding xs_def by (simp add: mset_without[OF d r(2)] del: mset_filter)
  have len: "length (orderedRoles rows s) = Suc (length xs)"
    using arg_cong[OF m, of size] by simp
  have after: "orderedRoles (moveRoleToPosition rows s rid p) s = renumbered (insert_at k r xs)"
    unfolding r(1) orderedRoles_move[OF assms(1) r(2)] Let_def k_def xs_def ..
  have rows': "moveRoleToPosition rows s rid p = writeOrder rows s (insert_at k r xs)"
    unfolding r(1) move_unfold[OF assms(1) r(2)] Let_def k_def xs_def ..
  have k: "k \<le> length xs" unfolding k_def by (rule slot_bounds)
  have ids: "filter (\<lambda>q. q \<noteq> rid) (map ro_id (renumbered (insert_at k r xs)))
      = filter (\<lambda>q. q \<noteq> rid) (map ro_id (orderedRoles rows s))"
    unfolding renumbered_ids map_insert_at
    by (simp add: filter_insert_at r(1) xs_def filter_map comp_def)
  have lenk: "length (insert_at k r xs) = Suc (length xs)" using k by (simp add: insert_at_def)
  have at: "renumbered (insert_at k r xs) ! k = r\<lparr>ro_position := Some (int (Suc (length xs) - k))\<rparr>"
    using k by (simp add: renumbered_def lenk del: upt_Suc) (simp add: insert_at_def nth_append)
  have pos: "int (Suc (length xs) - k) = min (max p 1) (int (Suc (length xs)))"
    using k by (auto simp: k_def slot_def)
  have "r\<lparr>ro_position := Some (int (Suc (length xs) - k))\<rparr> \<in> set (renumbered (insert_at k r xs))"
    using at k lenk by (metis le_imp_less_Suc length_map nth_mem renumbered_ids)
  then have "(rid, Some (min (max p 1) (int (Suc (length xs)))))
      \<in> set (map (\<lambda>r. (ro_id r, ro_position r)) (renumbered (insert_at k r xs)))"
    unfolding set_map r(1) pos[symmetric] by (rule rev_image_eqI) simp
  then show ?thesis
    using ids writeOrder_others[OF assms(1) m]
    by (simp add: Let_def after[unfolded rows'] rows' renumbered_positions lenk len del: upt_Suc)
qed

lemma insert_at_split: "k \<le> length xs \<Longrightarrow> insert_at k x xs = take k xs @ x # drop k xs"
  by (simp add: insert_at_def)

lemma find_index_map: "find_index P (map f xs) = find_index (P \<circ> f) xs"
  by (induction xs) auto

text \<open>
  \<open>positionNextTo\<close> answers the position that, given to \<open>moveRoleToPosition\<close>, puts the role
  directly above or below the anchor, and at the bottom for the anchor \<open>@everyone\<close>.
\<close>

theorem positionNextTo_adjacent:
  assumes "distinct (map ro_id rows)" and "rid \<in> ro_id ` set (orderedRoles rows s)"
    and "positionNextTo rows s rid anchor sd = Some p"
  shows "let after = map ro_id (orderedRoles (moveRoleToPosition rows s rid p) s) in
    \<exists>xs ys. after = (if anchor = s then xs @ [rid] else
                 case sd of Above \<Rightarrow> xs @ [rid, anchor] @ ys | Below \<Rightarrow> xs @ [anchor, rid] @ ys)"
proof -
  define others where "others = filter (\<lambda>q. q \<noteq> rid) (map ro_id (orderedRoles rows s))"
  have o: "map ro_id (filter (\<lambda>r. ro_id r \<noteq> rid) (orderedRoles rows s)) = others"
    by (simp add: others_def filter_map comp_def)
  have len: "length (filter (\<lambda>r. ro_id r \<noteq> rid) (orderedRoles rows s)) = length others"
    using arg_cong[OF o, of length] by simp
  have after: "map ro_id (orderedRoles (moveRoleToPosition rows s rid p) s)
      = insert_at (slot (length others) p) rid others"
    using move_ids[OF assms(1,2), of p] by (simp add: Let_def others_def)
  have fi: "find_index (\<lambda>r. ro_id r = anchor) (filter (\<lambda>r. ro_id r \<noteq> rid) (orderedRoles rows s))
      = find_index (\<lambda>q. q = anchor) others"
    unfolding o[symmetric] find_index_map comp_def ..
  show ?thesis
  proof (cases "anchor = s")
    case True
    with assms(3) have "p = 1" by (auto simp: positionNextTo_def Let_def split: if_splits)
    then have "insert_at (slot (length others) p) rid others = others @ [rid]"
      by (simp add: slot_def insert_at_def)
    then show ?thesis using True by (simp only: after Let_def) auto
  next
    case False
    with assms(3) obtain i where i: "find_index (\<lambda>q. q = anchor) others = Some i"
      and p: "p = int (length others) + 1 - int (if sd = Above then i else Suc i)"
      by (auto simp: positionNextTo_def Let_def fi len split: if_splits option.splits)
    from find_index_SomeD[OF i] have lt: "i < length others" and at: "others ! i = anchor" by auto
    have sl: "slot (length others) p = (if sd = Above then i else Suc i)"
      using lt by (auto simp: slot_def p)
    have os: "others = take i others @ anchor # drop (Suc i) others"
      using id_take_nth_drop[OF lt] at by simp
    have "insert_at i rid others = take i others @ [rid, anchor] @ drop (Suc i) others"
      using lt at by (simp add: insert_at_def Cons_nth_drop_Suc[symmetric])
    moreover have "insert_at (Suc i) rid others = take i others @ [anchor, rid] @ drop (Suc i) others"
      using lt at by (simp add: insert_at_def take_Suc_conv_app_nth)
    ultimately show ?thesis
      using False sl by (cases sd) (auto simp: after)
  qed
qed

subsection \<open>Examples\<close>

definition sample_role :: "role_id \<Rightarrow> space_id \<Rightarrow> int option \<Rightarrow> millis \<Rightarrow> role_row" where
  "sample_role i s p t = \<lparr> ro_id = i, ro_spaceId = s, ro_name = i, ro_color = None, ro_position = p,
     ro_permissions = None, ro_createdAt = t \<rparr>"

definition sample_roles :: "role_row list" where
  "sample_roles = [sample_role ''s'' ''s'' None 1, sample_role ''a'' ''s'' (Some 0) 2,
     sample_role ''b'' ''s'' (Some 0) 3, sample_role ''c'' ''s'' None 4, sample_role ''x'' ''t'' (Some 7) 5]"

lemma normalizeRolePositions_order_witness:
  "map ro_id (orderedRoles (normalizeRolePositions sample_roles ''s'') ''s'') = [''a'', ''b'', ''c'']"
proof -
  have "distinct (map ro_id sample_roles)" by (simp add: sample_roles_def sample_role_def)
  from normalizeRolePositions_order[OF this, of "''s''"]
  have "map ro_id (orderedRoles (normalizeRolePositions sample_roles ''s'') ''s'')
    = map ro_id (orderedRoles sample_roles ''s'')" by simp
  also have "\<dots> = [''a'', ''b'', ''c'']"
    by (simp add: orderedRoles_def sample_roles_def sample_role_def is_space_role_def role_order_key_def
        less_prod_def less_eq_prod_def)
  finally show ?thesis .
qed

lemma sample_ordered: "map ro_id (orderedRoles sample_roles ''s'') = [''a'', ''b'', ''c'']"
  by (simp add: orderedRoles_def sample_roles_def sample_role_def is_space_role_def role_order_key_def
      less_prod_def less_eq_prod_def)

lemma sample_distinct: "distinct (map ro_id sample_roles)"
  by (simp add: sample_roles_def sample_role_def)

lemma sample_in: "''c'' \<in> ro_id ` set (orderedRoles sample_roles ''s'')"
  using arg_cong[OF sample_ordered, of set] by simp

lemma moveRoleToPosition_lands_witness:
  "(''c'', Some 3) \<in> set (map (\<lambda>r. (ro_id r, ro_position r))
     (orderedRoles (moveRoleToPosition sample_roles ''s'' ''c'' 99) ''s''))"
  using moveRoleToPosition_lands[OF sample_distinct sample_in, of 99] arg_cong[OF sample_ordered, of length]
  by (simp add: Let_def)

lemma positionNextTo_adjacent_witness:
  "\<exists>xs ys p. positionNextTo sample_roles ''s'' ''c'' ''b'' Above = Some p \<and>
    map ro_id (orderedRoles (moveRoleToPosition sample_roles ''s'' ''c'' p) ''s'') = xs @ [''c'', ''b''] @ ys"
proof -
  have p: "positionNextTo sample_roles ''s'' ''c'' ''b'' Above = Some 2"
    by (simp add: positionNextTo_def orderedRoles_def sample_roles_def sample_role_def is_space_role_def
        role_order_key_def less_prod_def less_eq_prod_def)
  show ?thesis
    using positionNextTo_adjacent[OF sample_distinct sample_in p] p by (auto simp: Let_def)
qed

end
