(* ===== verification/SpacePerms.thy ===== *)
theory SpacePerms
  imports Hierarchy
begin

text \<open>
  \<open>packages/server/src/utils/permissions.ts\<close> (what a user may do in a space or channel) and
  \<open>permissionDataView.ts\<close> (what a viewer is told about roles). The refinement lemmas compare the
  bit-mask arithmetic of \<open>computePermissions\<close> with the rule it stands for, one bit at a time: the last
  of the six override tiers that mentions a bit decides it.
\<close>

section \<open>Membership\<close>

definition getMember :: "space_db \<Rightarrow> space_id \<Rightarrow> user_id \<Rightarrow> space_member_row option" where
  "getMember db spaceId userId =
    find (\<lambda>m. sm_spaceId m = spaceId \<and> sm_userId m = userId) (db_spaceMembers db)"

definition isMember :: "space_db \<Rightarrow> space_id \<Rightarrow> user_id \<Rightarrow> bool" where
  "isMember db spaceId userId \<longleftrightarrow> getMember db spaceId userId \<noteq> None"

definition isSpaceOwner :: "space_db \<Rightarrow> space_id \<Rightarrow> user_id \<Rightarrow> bool" where
  "isSpaceOwner db spaceId userId =
    (case find_space spaceId db of None \<Rightarrow> False | Some space \<Rightarrow> sp_ownerId space = userId)"

definition getChannelSpaceId :: "space_db \<Rightarrow> channel_id \<Rightarrow> space_id option" where
  "getChannelSpaceId db channelId = map_option ch_spaceId (find_channel channelId db)"

definition isDmMember :: "space_db \<Rightarrow> channel_id \<Rightarrow> user_id \<Rightarrow> bool" where
  "isDmMember db dmChannelId userId \<longleftrightarrow>
    find (\<lambda>m. dm_dmChannelId m = dmChannelId \<and> dm_userId m = userId) (db_dmMembers db) \<noteq> None"

definition isDeadOneOnOne :: "space_db \<Rightarrow> channel_id \<Rightarrow> user_id \<Rightarrow> bool" where
  "isDeadOneOnOne db dmChannelId requesterId =
    (case find_dm_channel dmChannelId db of
       None \<Rightarrow> False
     | Some channel \<Rightarrow>
         if dc_ownerId channel \<noteq> None then False
         else let others = concat (map (\<lambda>m. filter (\<lambda>u. us_id u = dm_userId m) (db_users db))
                    (filter (\<lambda>m. dm_dmChannelId m = dmChannelId \<and> dm_userId m \<noteq> requesterId)
                       (db_dmMembers db)))
              in if length others = 0 then False else list_all (\<lambda>u. us_isDeleted u = Some 1) others)"

definition isBanned :: "space_db \<Rightarrow> space_id \<Rightarrow> user_id \<Rightarrow> bool" where
  "isBanned db spaceId userId \<longleftrightarrow>
    find (\<lambda>b. ban_spaceId b = spaceId \<and> ban_userId b = userId) (db_bans db) \<noteq> None"

section \<open>Effective permissions\<close>

definition find_role :: "space_db \<Rightarrow> role_id \<Rightarrow> role_row option" where
  "find_role db roleId = tbl_get ro_id roleId (db_roles db)"

definition everyone_role :: "space_db \<Rightarrow> space_id \<Rightarrow> role_row option" where
  "everyone_role db spaceId = find (\<lambda>r. ro_id r = spaceId \<and> ro_spaceId r = spaceId) (db_roles db)"

definition assignedRoleIds :: "space_db \<Rightarrow> space_id \<Rightarrow> user_id \<Rightarrow> role_id list" where
  "assignedRoleIds db spaceId userId =
    map mr_roleId (filter (\<lambda>mr. mr_spaceId mr = spaceId \<and> mr_userId mr = userId) (db_memberRoles db))"

fun or_roles :: "space_db \<Rightarrow> role_id list \<Rightarrow> int \<Rightarrow> int" where
  "or_roles db [] base = base"
| "or_roles db (roleId # rest) base =
     or_roles db rest (case find_role db roleId of
         None \<Rightarrow> base
       | Some role \<Rightarrow> base OR stringToPermissions (ro_permissions role))"

definition base_permissions :: "space_db \<Rightarrow> user_id \<Rightarrow> space_id \<Rightarrow> int" where
  "base_permissions db userId spaceId =
    or_roles db (assignedRoleIds db spaceId userId)
      (case everyone_role db spaceId of
         None \<Rightarrow> 0
       | Some role \<Rightarrow> stringToPermissions (ro_permissions role))"

definition find_override :: "string \<Rightarrow> string \<Rightarrow> override_row list \<Rightarrow> override_row option" where
  "find_override tt ti rows = find (\<lambda>r. ov_targetType r = tt \<and> ov_targetId r = ti) rows"

definition apply_bits :: "int \<Rightarrow> int \<Rightarrow> int \<Rightarrow> int" where
  "apply_bits allow deny base = (base AND NOT deny) OR allow"

definition apply_override :: "override_row option \<Rightarrow> int \<Rightarrow> int" where
  "apply_override row base = (case row of
       None \<Rightarrow> base
     | Some r \<Rightarrow> apply_bits (stringToPermissions (Some (ov_allow r))) (stringToPermissions (Some (ov_deny r))) base)"

fun combine_overrides :: "override_row list \<Rightarrow> role_id list \<Rightarrow> int \<Rightarrow> int \<Rightarrow> int \<times> int" where
  "combine_overrides rows [] allow deny = (allow, deny)"
| "combine_overrides rows (roleId # rest) allow deny =
     (case find_override ''role'' roleId rows of
        None \<Rightarrow> combine_overrides rows rest allow deny
      | Some r \<Rightarrow> combine_overrides rows rest (allow OR stringToPermissions (Some (ov_allow r)))
          (deny OR stringToPermissions (Some (ov_deny r))))"

definition apply_roles :: "override_row list \<Rightarrow> role_id list \<Rightarrow> int \<Rightarrow> int" where
  "apply_roles rows ids base =
    (let (allow, deny) = combine_overrides rows ids 0 0 in apply_bits allow deny base)"

definition channel_permissions ::
    "override_row list \<Rightarrow> override_row list \<Rightarrow> user_id \<Rightarrow> space_id \<Rightarrow> role_id list \<Rightarrow> int \<Rightarrow> int" where
  "channel_permissions cat chan userId spaceId ids base =
    (let b1 = apply_override (find_override ''role'' spaceId cat) base;
         b2 = apply_override (find_override ''role'' spaceId chan) b1;
         b3 = apply_roles cat ids b2;
         b4 = apply_roles chan ids b3;
         b5 = apply_override (find_override ''member'' userId cat) b4
     in apply_override (find_override ''member'' userId chan) b5)"

definition overrides_of :: "string \<Rightarrow> override_row list \<Rightarrow> override_row list" where
  "overrides_of eid rows = filter (\<lambda>r. ov_entityId r = eid) rows"

definition category_overrides :: "space_db \<Rightarrow> channel_row \<Rightarrow> override_row list" where
  "category_overrides db channel = (case ch_categoryId channel of
       None \<Rightarrow> []
     | Some cat \<Rightarrow> if cat = [] then [] else overrides_of cat (db_categoryOverrides db))"

definition computePermissions :: "space_db \<Rightarrow> user_id \<Rightarrow> space_id \<Rightarrow> channel_id option \<Rightarrow> int" where
  "computePermissions db userId spaceId channelId =
    (case find_space spaceId db of
       None \<Rightarrow> 0
     | Some space \<Rightarrow>
         if sp_ownerId space = userId then ALL_PERMISSIONS
         else if (case find_user userId db of None \<Rightarrow> False | Some u \<Rightarrow> us_isAdmin u = Some 1) then ALL_PERMISSIONS
         else if getMember db spaceId userId = None then 0
         else let base = base_permissions db userId spaceId in
           if (base AND ADMINISTRATOR) \<noteq> 0 then ALL_PERMISSIONS
           else if \<not> truthy channelId then base
           else (case find_channel (the channelId) db of
               None \<Rightarrow> base
             | Some channel \<Rightarrow>
                 let cat = category_overrides db channel;
                     chan = overrides_of (the channelId) (db_channelOverrides db)
                 in if length cat = 0 \<and> length chan = 0 then base
                    else channel_permissions cat chan userId spaceId (assignedRoleIds db spaceId userId) base))"

definition hasPermission :: "space_db \<Rightarrow> user_id \<Rightarrow> space_id \<Rightarrow> int \<Rightarrow> channel_id option \<Rightarrow> bool" where
  "hasPermission db userId spaceId permission channelId =
    (let perms = computePermissions db userId spaceId channelId in
     if (perms AND ADMINISTRATOR) \<noteq> 0 then True else (perms AND permission) = permission)"

section \<open>What a viewer is told\<close>

record role_view =
  rv_id :: role_id
  rv_spaceId :: space_id
  rv_name :: string
  rv_color :: string
  rv_position :: int
  rv_isEveryone :: bool
  rv_createdAt :: millis
  rv_permissions :: "string option"

definition viewerReadsPermissionData :: "int \<Rightarrow> bool" where
  "viewerReadsPermissionData perms = (case hasPermissionBit (PBits perms) MANAGE_ROLES of
     None \<Rightarrow> False | Some b \<Rightarrow> b)"

definition roleView :: "role_row \<Rightarrow> bool \<Rightarrow> role_view" where
  "roleView row withPermissions =
    \<lparr> rv_id = ro_id row, rv_spaceId = ro_spaceId row, rv_name = ro_name row,
      rv_color = (case ro_color row of None \<Rightarrow> ''#b9bbbe'' | Some c \<Rightarrow> c),
      rv_position = (case ro_position row of None \<Rightarrow> 0 | Some p \<Rightarrow> p),
      rv_isEveryone = (ro_id row = ro_spaceId row), rv_createdAt = ro_createdAt row,
      rv_permissions = (if withPermissions
        then Some (case ro_permissions row of None \<Rightarrow> ''0'' | Some p \<Rightarrow> p) else None) \<rparr>"

definition rolesForViewer :: "role_row list \<Rightarrow> int \<Rightarrow> role_view list" where
  "rolesForViewer rows viewerSpacePermissions =
    (let withPermissions = viewerReadsPermissionData viewerSpacePermissions
     in map (\<lambda>row. roleView row withPermissions) rows)"

definition memberRolesView :: "role_row list \<Rightarrow> role_id set \<Rightarrow> role_view list" where
  "memberRolesView rows ids = map (\<lambda>row. roleView row False) (filter (\<lambda>row. ro_id row \<in> ids) rows)"

section \<open>The rule the bit masks implement\<close>

text \<open>What the overrides of a set of targets say about one permission: allow beats deny, and no mention says nothing.\<close>

definition says :: "override_row list \<Rightarrow> string \<Rightarrow> string set \<Rightarrow> nat \<Rightarrow> bool option" where
  "says rows tt ids n =
    (if \<exists>i\<in>ids. \<exists>r. find_override tt i rows = Some r \<and> bit (stringToPermissions (Some (ov_allow r))) n
     then Some True
     else if \<exists>i\<in>ids. \<exists>r. find_override tt i rows = Some r \<and> bit (stringToPermissions (Some (ov_deny r))) n
     then Some False else None)"

definition last_word :: "bool option list \<Rightarrow> bool \<Rightarrow> bool" where
  "last_word ws b = (case filter (\<lambda>w. w \<noteq> None) (rev ws) of Some v # _ \<Rightarrow> v | _ \<Rightarrow> b)"

definition words_on :: "space_db \<Rightarrow> user_id \<Rightarrow> space_id \<Rightarrow> channel_id option \<Rightarrow> nat \<Rightarrow> bool option list" where
  "words_on db u s c n =
    (if truthy c then (case find_channel (the c) db of
        None \<Rightarrow> []
      | Some channel \<Rightarrow>
          let cat = category_overrides db channel;
              chan = overrides_of (the c) (db_channelOverrides db);
              ids = set (assignedRoleIds db s u)
          in [says cat ''role'' {s} n, says chan ''role'' {s} n,
              says cat ''role'' ids n, says chan ''role'' ids n,
              says cat ''member'' {u} n, says chan ''member'' {u} n])
     else [])"

definition base_bit :: "space_db \<Rightarrow> user_id \<Rightarrow> space_id \<Rightarrow> nat \<Rightarrow> bool" where
  "base_bit db u s n \<longleftrightarrow>
    (\<exists>r. everyone_role db s = Some r \<and> bit (stringToPermissions (ro_permissions r)) n) \<or>
    (\<exists>i\<in>set (assignedRoleIds db s u). \<exists>r. find_role db i = Some r \<and> bit (stringToPermissions (ro_permissions r)) n)"

definition privileged :: "space_db \<Rightarrow> user_id \<Rightarrow> space_id \<Rightarrow> bool" where
  "privileged db u s \<longleftrightarrow> isSpaceOwner db s u \<or> (\<exists>r. find_user u db = Some r \<and> us_isAdmin r = Some 1)"

lemma last_word_Nil [simp]: "last_word [] b = b"
  by (simp add: last_word_def)

lemma last_word_snoc: "last_word (ws @ [w]) b = (case w of None \<Rightarrow> last_word ws b | Some v \<Rightarrow> v)"
  by (auto simp: last_word_def split: option.splits)

lemma last_word_Cons: "last_word (w # ws) b = last_word ws (case w of None \<Rightarrow> b | Some v \<Rightarrow> v)"
proof (induction ws rule: rev_induct)
  case Nil
  then show ?case using last_word_snoc[of "[]" w b] by (simp split: option.splits)
next
  case (snoc x xs)
  then show ?case
    using last_word_snoc[of "w # xs" x b] last_word_snoc[of xs x] by (simp split: option.splits)
qed

lemma last_word_silent: "set ws \<subseteq> {None} \<Longrightarrow> last_word ws b = b"
  by (induction ws arbitrary: b) (auto simp: last_word_Cons)

lemma bit_apply_bits: "bit (apply_bits allow deny base) n \<longleftrightarrow> bit allow n \<or> (bit base n \<and> \<not> bit deny n)"
  by (auto simp: apply_bits_def bit_or_iff bit_and_iff bit_not_iff)

lemma bit_apply_override:
  "bit (apply_override (find_override tt i rows) b) n = (case says rows tt {i} n of None \<Rightarrow> bit b n | Some v \<Rightarrow> v)"
  by (auto simp: apply_override_def says_def bit_apply_bits split: option.splits)

lemma bit_or_roles:
  "bit (or_roles db ids b) n \<longleftrightarrow> bit b n \<or>
    (\<exists>i\<in>set ids. \<exists>r. find_role db i = Some r \<and> bit (stringToPermissions (ro_permissions r)) n)"
  by (induction db ids b rule: or_roles.induct) (auto simp: bit_or_iff split: option.splits)

lemma bit_combine_overrides:
  "(bit (fst (combine_overrides rows ids a d)) n \<longleftrightarrow> bit a n \<or>
     (\<exists>i\<in>set ids. \<exists>r. find_override ''role'' i rows = Some r \<and> bit (stringToPermissions (Some (ov_allow r))) n))
   \<and> (bit (snd (combine_overrides rows ids a d)) n \<longleftrightarrow> bit d n \<or>
     (\<exists>i\<in>set ids. \<exists>r. find_override ''role'' i rows = Some r \<and> bit (stringToPermissions (Some (ov_deny r))) n))"
  by (induction rows ids a d rule: combine_overrides.induct) (auto simp: bit_or_iff split: option.splits)

lemma bit_apply_roles:
  "bit (apply_roles rows ids b) n = (case says rows ''role'' (set ids) n of None \<Rightarrow> bit b n | Some v \<Rightarrow> v)"
  using bit_combine_overrides[of rows ids 0 0 n]
  by (auto simp: apply_roles_def says_def bit_apply_bits split: prod.splits)

lemma bit_channel_permissions:
  "bit (channel_permissions cat chan u s ids b) n = last_word
    [says cat ''role'' {s} n, says chan ''role'' {s} n, says cat ''role'' (set ids) n,
     says chan ''role'' (set ids) n, says cat ''member'' {u} n, says chan ''member'' {u} n] (bit b n)"
  by (simp add: channel_permissions_def Let_def bit_apply_override bit_apply_roles last_word_Cons
      split: option.split)

lemma says_Nil [simp]: "says [] tt ids n = None"
  by (simp add: says_def find_override_def)

lemma bit_base_permissions: "bit (base_permissions db u s) n = base_bit db u s n"
  by (auto simp: base_permissions_def bit_or_roles base_bit_def split: option.splits)

lemma ADMINISTRATOR_bit: "(x AND ADMINISTRATOR) \<noteq> 0 \<longleftrightarrow> bit x 0"
  by (simp add: ADMINISTRATOR_value and_one_eq odd_iff_mod_2_eq_one bit_0)

text \<open>
  The specification: nothing in a space that does not exist; everything to the owner, an instance
  admin and a member whose roles carry ADMINISTRATOR; nothing to anyone else who is not a member; and
  for a member the last of the six tiers that mentions the bit decides it, their roles otherwise.
\<close>

definition granted :: "space_db \<Rightarrow> user_id \<Rightarrow> space_id \<Rightarrow> channel_id option \<Rightarrow> nat set" where
  "granted db u s c = {n.
     if find_space s db = None then False
     else if privileged db u s then bit ALL_PERMISSIONS n
     else if isMember db s u then
       (if base_bit db u s 0 then bit ALL_PERMISSIONS n
        else last_word (words_on db u s c n) (base_bit db u s n))
     else False}"

lemma bit_computePermissions: "bit (computePermissions db u s c) n \<longleftrightarrow> n \<in> granted db u s c"
proof (cases "find_space s db")
  case None
  then show ?thesis by (simp add: computePermissions_def granted_def)
next
  case (Some space)
  define base where "base = base_permissions db u s"
  have b: "bit base n = base_bit db u s n" "bit base 0 = base_bit db u s 0"
    by (simp_all add: base_def bit_base_permissions)
  have p: "privileged db u s \<longleftrightarrow> sp_ownerId space = u
      \<or> (case find_user u db of None \<Rightarrow> False | Some x \<Rightarrow> us_isAdmin x = Some 1)"
    using Some by (auto simp: privileged_def isSpaceOwner_def split: option.splits)
  have chan: "bit (case find_channel (the c) db of
               None \<Rightarrow> base
             | Some channel \<Rightarrow>
                 let cat = category_overrides db channel;
                     chan = overrides_of (the c) (db_channelOverrides db)
                 in if length cat = 0 \<and> length chan = 0 then base
                    else channel_permissions cat chan u s (assignedRoleIds db s u) base) n
      = last_word (words_on db u s c n) (bit base n)" if "truthy c"
    using that
    by (auto simp: words_on_def Let_def bit_channel_permissions last_word_silent split: option.splits)
  show ?thesis
  proof (cases "privileged db u s")
    case True
    with p Some show ?thesis by (auto simp: computePermissions_def granted_def)
  next
    case False
    with p Some have cp: "computePermissions db u s c =
        (if getMember db s u = None then 0
         else if bit base 0 then ALL_PERMISSIONS
         else if \<not> truthy c then base
         else (case find_channel (the c) db of
               None \<Rightarrow> base
             | Some channel \<Rightarrow>
                 let cat = category_overrides db channel;
                     chan = overrides_of (the c) (db_channelOverrides db)
                 in if length cat = 0 \<and> length chan = 0 then base
                    else channel_permissions cat chan u s (assignedRoleIds db s u) base))"
      by (simp add: computePermissions_def Let_def ADMINISTRATOR_bit base_def[symmetric])
    show ?thesis
      using False Some chan b
      by (auto simp: cp isMember_def words_on_def granted_def)
  qed
qed

text \<open>
  C38. \<open>computePermissions\<close> implements the rule: the bits of its answer are exactly the permissions the
  specification grants, tier by tier (everyone, roles, member; the category's row before the channel's
  in each), whatever the order of the assigned roles.
\<close>

theorem computePermissions_bits: "{n. bit (computePermissions db u s c) n} = granted db u s c"
  by (auto simp: bit_computePermissions)

end
