(* ===== verification/RoleRoutes.thy ===== *)
theory RoleRoutes
  imports SpacePerms
begin

text \<open>
  The HTTP handlers that change who may do what in a space: role create, patch and delete, giving and
  taking roles, the member patch, ownership transfer, kick, ban and unban, joining by invite
  (\<open>routes/spaces.ts\<close>, \<open>routes/spaceMemberUpdate.ts\<close>) and the override writes
  (\<open>routes/channels.ts\<close>). A handler takes the database, the authenticated user and the request, and
  answers a refusal or the new database with the events it sends and its body. The database calls of
  a handler run without an await between them, so a handler is one step.
\<close>

section \<open>Answers\<close>

datatype notice =
    AccessChanged space_id "user_id list"
  | MemberLeft space_id user_id
  | MemberBanned user_id space_id "string option"
  | MemberJoined space_id user_id
  | MemberUpdated space_id user_id
  | SpaceUpdated space_id
  | OverrideChanged space_id string

datatype 'b outcome = Refused nat string | Done space_db "notice list" 'b

text \<open>The state after a request: a refusal changes nothing.\<close>

fun db_after :: "space_db \<Rightarrow> 'b outcome \<Rightarrow> space_db" where
  "db_after db (Refused st code) = db"
| "db_after db (Done db' ns b) = db'"

section \<open>Shared checks\<close>

definition nocase :: "string \<Rightarrow> string" where
  "nocase s = map (\<lambda>c. let n = of_char c :: nat in if 65 \<le> n \<and> n \<le> 90 then char_of (n + 32) else c) s"

definition find_space_role :: "space_db \<Rightarrow> role_id \<Rightarrow> space_id \<Rightarrow> role_row option" where
  "find_space_role db roleId spaceId = find (\<lambda>r. ro_id r = roleId \<and> ro_spaceId r = spaceId) (db_roles db)"

definition role_position :: "role_row \<Rightarrow> int" where
  "role_position r = (case ro_position r of None \<Rightarrow> 0 | Some p \<Rightarrow> p)"

definition refusal_code :: "HeldBitsRefusal \<Rightarrow> string" where
  "refusal_code r = (case r of
     Cannot_grant_unowned_permissions \<Rightarrow> ''cannot_grant_unowned_permissions''
   | Cannot_deny_unowned_permissions \<Rightarrow> ''cannot_deny_unowned_permissions''
   | Cannot_change_unowned_permissions \<Rightarrow> ''cannot_change_unowned_permissions'')"

definition membersHoldingRole :: "space_db \<Rightarrow> space_id \<Rightarrow> role_id \<Rightarrow> user_id list" where
  "membersHoldingRole db spaceId roleId =
    (if roleId = spaceId
     then map sm_userId (filter (\<lambda>m. sm_spaceId m = spaceId) (db_spaceMembers db))
     else map mr_userId (filter (\<lambda>m. mr_spaceId m = spaceId \<and> mr_roleId m = roleId) (db_memberRoles db)))"

definition roleGrantRefusal :: "space_db \<Rightarrow> space_id \<Rightarrow> user_id \<Rightarrow> string option \<Rightarrow> HeldBitsRefusal option" where
  "roleGrantRefusal db spaceId actorId rolePermissions =
    roleBitsChangeRefusal (computePermissions db actorId spaceId None) 0 (stringToPermissions rolePermissions)"

datatype change = AddRole | RemoveRole

text \<open>\<open>roleId\<close> is \<open>None\<close> when the body carries no string.\<close>

definition checkSingleRoleChange ::
    "space_db \<Rightarrow> space_id \<Rightarrow> user_id \<Rightarrow> user_id \<Rightarrow> role_id option \<Rightarrow> change \<Rightarrow> (nat \<times> string) option" where
  "checkSingleRoleChange db spaceId actorId targetId roleId chg =
    (if \<not> hasPermission db actorId spaceId MANAGE_ROLES None then Some (403, ''missing_permission'')
     else if targetId = actorId then Some (400, ''cannot_change_own_roles'')
     else if isSpaceOwner db spaceId targetId then Some (403, ''space_owner_only'')
     else if \<not> isMember db spaceId targetId then Some (404, ''member_not_found'')
     else case (case roleId of None \<Rightarrow> None | Some rid \<Rightarrow> find_space_role db rid spaceId) of
       None \<Rightarrow> Some (400, ''role_not_in_space'')
     | Some role \<Rightarrow>
         if ro_id role = spaceId then Some (400, ''everyone_role_not_assignable'')
         else let actor = getHierarchyStanding db spaceId actorId in
           if \<not> canActOnMember actor (getHierarchyStanding db spaceId targetId)
              \<or> \<not> canManageRoleAt actor (role_position role) then Some (403, ''role_hierarchy'')
           else if chg = AddRole then
             (case roleGrantRefusal db spaceId actorId (ro_permissions role) of
                None \<Rightarrow> None
              | Some refusal \<Rightarrow> Some (403, refusal_code refusal))
           else None)"

section \<open>Roles\<close>

definition createRole ::
    "space_db \<Rightarrow> user_id \<Rightarrow> space_id \<Rightarrow> string option \<Rightarrow> string option \<Rightarrow> json option \<Rightarrow> role_id \<Rightarrow> millis
     \<Rightarrow> role_view outcome" where
  "createRole db userId sid name color permissions roleId now =
    (if \<not> hasPermission db userId sid MANAGE_ROLES None then Refused 403 ''missing_permission''
     else let actorPerms = computePermissions db userId sid None in
       case (if permissions = None \<or> permissions = Some JNull
             then Inr (permissionsToString (DEFAULT_EVERYONE_PERMISSIONS AND actorPerms))
             else (case parsePermissionString permissions of
                 None \<Rightarrow> Inl (400, ''permissions_invalid'')
               | Some requested \<Rightarrow> (case roleBitsChangeRefusal actorPerms 0 requested of
                     Some refusal \<Rightarrow> Inl (403, refusal_code refusal)
                   | None \<Rightarrow> Inr (permissionsToString requested)))) of
         Inl (st, code) \<Rightarrow> Refused st code
       | Inr permStr \<Rightarrow>
           let n1 = js_trim (case name of None \<Rightarrow> ''new role'' | Some n \<Rightarrow> if n = [] then ''new role'' else n);
               roleName = (if n1 = [] then ''new role'' else n1) in
           if list_ex (\<lambda>r. ro_spaceId r = sid \<and> nocase (ro_name r) = nocase roleName) (db_roles db)
           then Refused 409 ''role_name_taken''
           else if \<not> canManageRoleInSpace db sid userId 1 then Refused 403 ''role_hierarchy''
           else
             let row = \<lparr> ro_id = roleId, ro_spaceId = sid, ro_name = roleName,
                   ro_color = Some (case color of None \<Rightarrow> ''#b9bbbe'' | Some c \<Rightarrow> if c = [] then ''#b9bbbe'' else c),
                   ro_position = Some 0, ro_permissions = Some permStr, ro_createdAt = now \<rparr>;
                 db' = db\<lparr>db_roles := normalizeRolePositions (db_roles db @ [row]) sid\<rparr> in
             (case find_role db' roleId of
                None \<Rightarrow> Refused 500 ''internal_error''
              | Some role \<Rightarrow> Done db' [AccessChanged sid []]
                  (roleView role (viewerReadsPermissionData (computePermissions db' userId sid None)))))"

text \<open>The anchor and position fields of a role patch; \<open>None\<close> is a field that was not sent.\<close>

record role_patch =
  rp_name :: "string option"
  rp_color :: "string option"
  rp_position :: "int option"
  rp_above :: "json option"
  rp_below :: "json option"
  rp_permissions :: "json option"
  rp_permissionsVersion :: "json option"

text \<open>A string that no stored id can equal (one with a code unit above 255) finds no role.\<close>

definition patch_position ::
    "space_db \<Rightarrow> space_id \<Rightarrow> role_id \<Rightarrow> role_patch \<Rightarrow> (nat \<times> string) + int option" where
  "patch_position db sid roleId p =
    (if rp_above p = None \<and> rp_below p = None then Inr (rp_position p)
     else
       let sd = (if rp_above p \<noteq> None then Above else Below);
           anchor = (case rp_above p of Some a \<Rightarrow> if a = JNull then rp_below p else Some a | None \<Rightarrow> rp_below p) in
       if roleId = sid \<or> (rp_above p \<noteq> None \<and> rp_below p \<noteq> None) then Inl (400, ''validation_failed'')
       else (case anchor of
           Some (JStr u) \<Rightarrow>
             (case latin1 u of
                None \<Rightarrow> Inl (400, ''role_not_in_space'')
              | Some anchorId \<Rightarrow> (case find_space_role db anchorId sid of
                   None \<Rightarrow> Inl (400, ''role_not_in_space'')
                 | Some _ \<Rightarrow> (case positionNextTo (db_roles db) sid roleId anchorId sd of
                      None \<Rightarrow> Inl (400, ''validation_failed'')
                    | Some placed \<Rightarrow> Inr (Some placed))))
         | _ \<Rightarrow> Inl (400, ''validation_failed'')))"

definition patch_name :: "space_db \<Rightarrow> space_id \<Rightarrow> role_id \<Rightarrow> role_patch \<Rightarrow> (nat \<times> string) + string option" where
  "patch_name db sid roleId p =
    (case rp_name p of
       None \<Rightarrow> Inr None
     | Some n \<Rightarrow>
         let trimmed = js_trim n in
         if trimmed = [] then Inl (400, ''role_name_required'')
         else if list_ex (\<lambda>r. ro_spaceId r = sid \<and> nocase (ro_name r) = nocase trimmed \<and> ro_id r \<noteq> roleId) (db_roles db)
         then Inl (409, ''role_name_taken'') else Inr (Some trimmed))"

text \<open>A \<open>JStr\<close> with a code unit above 255 is a string too: it is compared, and differs from every version.\<close>

definition stale_version :: "json option \<Rightarrow> string \<Rightarrow> (nat \<times> string) option" where
  "stale_version v current = (case v of
       None \<Rightarrow> None
     | Some (JStr u) \<Rightarrow> if u = [] then Some (400, ''validation_failed'')
         else if u \<noteq> units_of current then Some (409, ''role_permissions_conflict'') else None
     | Some _ \<Rightarrow> Some (400, ''validation_failed''))"

definition patch_permissions ::
    "space_db \<Rightarrow> user_id \<Rightarrow> space_id \<Rightarrow> role_row \<Rightarrow> role_patch \<Rightarrow> (nat \<times> string) + string option" where
  "patch_permissions db userId sid role p =
    (if rp_permissions p = None then Inr None
     else (case parsePermissionString (rp_permissions p) of
         None \<Rightarrow> Inl (400, ''permissions_invalid'')
       | Some requested \<Rightarrow>
           (case stale_version (rp_permissionsVersion p) (rolePermissionsVersion (ro_permissions role)) of
              Some e \<Rightarrow> Inl e
            | None \<Rightarrow> (case roleBitsChangeRefusal (computePermissions db userId sid None)
                        (stringToPermissions (ro_permissions role)) requested of
                 Some refusal \<Rightarrow> Inl (403, refusal_code refusal)
               | None \<Rightarrow> Inr (Some (permissionsToString requested))))))"

definition update_role_row :: "string option \<Rightarrow> string option \<Rightarrow> string option \<Rightarrow> role_row \<Rightarrow> role_row" where
  "update_role_row name color perms r =
    r\<lparr>ro_name := (case name of None \<Rightarrow> ro_name r | Some n \<Rightarrow> n),
      ro_color := (case color of None \<Rightarrow> ro_color r | Some c \<Rightarrow> Some c),
      ro_permissions := (case perms of None \<Rightarrow> ro_permissions r | Some p \<Rightarrow> Some p)\<rparr>"

definition write_role :: "space_db \<Rightarrow> space_id \<Rightarrow> role_id \<Rightarrow> (role_row \<Rightarrow> role_row) \<Rightarrow> int option \<Rightarrow> role_row list" where
  "write_role db sid roleId f position =
    (let rows = map (\<lambda>r. if ro_id r = roleId \<and> ro_spaceId r = sid then f r else r) (db_roles db)
     in case position of None \<Rightarrow> rows | Some pos \<Rightarrow> moveRoleToPosition rows sid roleId pos)"

definition patchRole ::
    "space_db \<Rightarrow> user_id \<Rightarrow> space_id \<Rightarrow> role_id \<Rightarrow> role_patch \<Rightarrow> role_view outcome" where
  "patchRole db userId sid roleId p =
    (if \<not> hasPermission db userId sid MANAGE_ROLES None then Refused 403 ''missing_permission''
     else case find_space_role db roleId sid of
       None \<Rightarrow> Refused 404 ''role_not_in_space''
     | Some role \<Rightarrow>
         let actor = getHierarchyStanding db sid userId in
         if \<not> canManageRoleAt actor (role_position role) then Refused 403 ''role_hierarchy''
         else case patch_position db sid roleId p of
           Inl (st, code) \<Rightarrow> Refused st code
         | Inr position \<Rightarrow>
             if (case position of None \<Rightarrow> False | Some pos \<Rightarrow> roleId = sid \<or> pos < 1) then Refused 400 ''validation_failed''
             else if (case position of None \<Rightarrow> False | Some pos \<Rightarrow> \<not> canManageRoleAt actor pos) then Refused 403 ''role_hierarchy''
             else case patch_name db sid roleId p of
               Inl (st, code) \<Rightarrow> Refused st code
             | Inr name \<Rightarrow>
                 (case patch_permissions db userId sid role p of
                    Inl (st, code) \<Rightarrow> Refused st code
                  | Inr perms \<Rightarrow>
                      if name = None \<and> rp_color p = None \<and> perms = None \<and> position = None
                      then Refused 400 ''no_fields_to_update''
                      else
                        let db' = db\<lparr>db_roles := write_role db sid roleId (update_role_row name (rp_color p) perms) position\<rparr> in
                        (case find_role db' roleId of
                           None \<Rightarrow> Refused 404 ''role_not_in_space''
                         | Some updated \<Rightarrow> Done db' [AccessChanged sid (membersHoldingRole db' sid roleId)]
                             (roleView updated (viewerReadsPermissionData (computePermissions db' userId sid None))))))"

text \<open>The delete of a role takes its \<open>member_roles\<close> rows with it (the foreign key cascades).\<close>

definition deleteRole :: "space_db \<Rightarrow> user_id \<Rightarrow> space_id \<Rightarrow> role_id \<Rightarrow> unit outcome" where
  "deleteRole db userId sid roleId =
    (if \<not> hasPermission db userId sid MANAGE_ROLES None then Refused 403 ''missing_permission''
     else if roleId = sid then Refused 400 ''everyone_role_not_deletable''
     else case find_space_role db roleId sid of
       None \<Rightarrow> Refused 404 ''role_not_in_space''
     | Some role \<Rightarrow>
         if \<not> canManageRoleInSpace db sid userId (role_position role) then Refused 403 ''role_hierarchy''
         else (case roleBitsChangeRefusal (computePermissions db userId sid None)
                     (stringToPermissions (ro_permissions role)) 0 of
             Some refusal \<Rightarrow> Refused 403 (refusal_code refusal)
           | None \<Rightarrow>
               let holders = membersHoldingRole db sid roleId;
                   aimed = (\<lambda>r. \<not> (ov_targetType r = ''role'' \<and> ov_targetId r = roleId));
                   rows = filter (\<lambda>r. \<not> (ro_id r = roleId \<and> ro_spaceId r = sid)) (db_roles db)
               in Done (db\<lparr>db_channelOverrides := filter aimed (db_channelOverrides db),
                          db_categoryOverrides := filter aimed (db_categoryOverrides db),
                          db_memberRoles := filter (\<lambda>m. mr_roleId m \<noteq> roleId) (db_memberRoles db),
                          db_roles := normalizeRolePositions rows sid\<rparr>)
                    [AccessChanged sid holders] ()))"

section \<open>Member roles\<close>

definition has_member_role :: "space_db \<Rightarrow> space_id \<Rightarrow> user_id \<Rightarrow> role_id \<Rightarrow> bool" where
  "has_member_role db sid uid roleId \<longleftrightarrow>
    list_ex (\<lambda>m. mr_spaceId m = sid \<and> mr_userId m = uid \<and> mr_roleId m = roleId) (db_memberRoles db)"

definition addMemberRole :: "space_db \<Rightarrow> user_id \<Rightarrow> space_id \<Rightarrow> user_id \<Rightarrow> role_id option \<Rightarrow> unit outcome" where
  "addMemberRole db userId sid uid roleId =
    (case checkSingleRoleChange db sid userId uid roleId AddRole of
       Some (st, code) \<Rightarrow> Refused st code
     | None \<Rightarrow>
         let rid = the roleId;
             rows = (if has_member_role db sid uid rid then db_memberRoles db
                     else db_memberRoles db @ [\<lparr>mr_spaceId = sid, mr_userId = uid, mr_roleId = rid\<rparr>])
         in Done (db\<lparr>db_memberRoles := rows\<rparr>) [AccessChanged sid [uid]] ())"

definition removeMemberRole :: "space_db \<Rightarrow> user_id \<Rightarrow> space_id \<Rightarrow> user_id \<Rightarrow> role_id \<Rightarrow> unit outcome" where
  "removeMemberRole db userId sid uid roleId =
    (case checkSingleRoleChange db sid userId uid (Some roleId) RemoveRole of
       Some (st, code) \<Rightarrow> Refused st code
     | None \<Rightarrow>
         Done (db\<lparr>db_memberRoles := filter (\<lambda>m. \<not> (mr_spaceId m = sid \<and> mr_userId m = uid \<and> mr_roleId m = roleId))
                 (db_memberRoles db)\<rparr>) [AccessChanged sid [uid]] ())"

text \<open>
  \<open>roleIds\<close> is \<open>None\<close> when it is not a list of strings. The checks of the requested ids run one id at
  a time; a refusal is the first one met.
\<close>

fun check_role_ids :: "role_row list \<Rightarrow> space_id \<Rightarrow> role_id list \<Rightarrow> (nat \<times> string) option" where
  "check_role_ids spaceRoles sid [] = None"
| "check_role_ids spaceRoles sid (rid # rest) =
     (if tbl_get ro_id rid spaceRoles = None then Some (400, ''role_not_in_space'')
      else if rid = sid then Some (400, ''everyone_role_not_assignable'')
      else check_role_ids spaceRoles sid rest)"

fun check_grants :: "space_db \<Rightarrow> user_id \<Rightarrow> space_id \<Rightarrow> role_row list \<Rightarrow> role_id list \<Rightarrow> (nat \<times> string) option" where
  "check_grants db actorId sid spaceRoles [] = None"
| "check_grants db actorId sid spaceRoles (rid # rest) =
     (case roleGrantRefusal db sid actorId
             (case tbl_get ro_id rid spaceRoles of None \<Rightarrow> None | Some r \<Rightarrow> ro_permissions r) of
        Some refusal \<Rightarrow> Some (403, refusal_code refusal)
      | None \<Rightarrow> check_grants db actorId sid spaceRoles rest)"

definition position_of :: "role_row list \<Rightarrow> role_id \<Rightarrow> int" where
  "position_of spaceRoles rid = (case tbl_get ro_id rid spaceRoles of None \<Rightarrow> 0 | Some r \<Rightarrow> role_position r)"

definition validateRoleUpdate ::
    "space_db \<Rightarrow> space_id \<Rightarrow> user_id \<Rightarrow> user_id \<Rightarrow> user_id \<Rightarrow> role_id list option \<Rightarrow> (nat \<times> string) option" where
  "validateRoleUpdate db sid actorId targetId ownerId roleIds =
    (if \<not> hasPermission db actorId sid MANAGE_ROLES None then Some (403, ''missing_permission'')
     else if targetId = actorId then Some (400, ''cannot_change_own_roles'')
     else if targetId = ownerId then Some (403, ''space_owner_only'')
     else case roleIds of
       None \<Rightarrow> Some (400, ''role_ids_invalid'')
     | Some ids \<Rightarrow>
         if \<not> distinct ids then Some (400, ''role_ids_invalid'')
         else
           let spaceRoles = filter (\<lambda>r. ro_spaceId r = sid) (db_roles db) in
           case check_role_ids spaceRoles sid ids of
             Some e \<Rightarrow> Some e
           | None \<Rightarrow>
               let actor = getHierarchyStanding db sid actorId;
                   current = assignedRoleIds db sid targetId;
                   added = filter (\<lambda>r. r \<notin> set current) ids;
                   removed = filter (\<lambda>r. r \<notin> set ids) (remdups current) in
               if \<not> canActOnMember actor (getHierarchyStanding db sid targetId) then Some (403, ''role_hierarchy'')
               else if list_ex (\<lambda>r. \<not> canManageRoleAt actor (position_of spaceRoles r)) (added @ removed)
               then Some (403, ''role_hierarchy'')
               else check_grants db actorId sid spaceRoles added)"

text \<open>
  A nickname in a request: null, an 8-bit text, or anything that is not a string. Of the 8-bit
  characters the controls are forbidden; white space and the soft hyphen draw nothing.
\<close>

datatype nickname = NickNull | NickText string | NickOther

definition isVisibleSingleLine :: "string \<Rightarrow> bool" where
  "isVisibleSingleLine trimmed \<longleftrightarrow>
    \<not> list_ex (\<lambda>c. let n = of_char c :: nat in n < 32 \<or> (127 \<le> n \<and> n \<le> 159)) trimmed
    \<and> list_ex (\<lambda>c. \<not> (let n = of_char c :: nat in n = 173 \<or> n = 32 \<or> n = 160 \<or> (9 \<le> n \<and> n \<le> 13) \<or> n = 133)) trimmed"

text \<open>\<open>None\<close> is a refused value; \<open>Some None\<close> clears the nickname.\<close>

definition normalizeMemberNickname :: "nickname \<Rightarrow> string option option" where
  "normalizeMemberNickname v = (case v of
       NickNull \<Rightarrow> Some None
     | NickOther \<Rightarrow> None
     | NickText t \<Rightarrow>
         let trimmed = js_trim t in
         if length trimmed = 0 then Some None
         else if length trimmed > 32 then None
         else if isVisibleSingleLine trimmed then Some (Some trimmed) else None)"

definition validateNicknameUpdate ::
    "space_db \<Rightarrow> space_id \<Rightarrow> user_id \<Rightarrow> user_id \<Rightarrow> user_id \<Rightarrow> nickname \<Rightarrow> (nat \<times> string) + string option" where
  "validateNicknameUpdate db sid actorId targetId ownerId nick =
    (if actorId \<noteq> targetId \<and> \<not> hasPermission db actorId sid MANAGE_SPACE None then Inl (403, ''missing_permission'')
     else if actorId \<noteq> targetId \<and> targetId = ownerId then Inl (403, ''space_owner_only'')
     else if actorId \<noteq> targetId \<and> \<not> canActOnMember (getHierarchyStanding db sid actorId) (getHierarchyStanding db sid targetId)
     then Inl (403, ''role_hierarchy'')
     else (case normalizeMemberNickname nick of
         None \<Rightarrow> Inl (400, ''member_nickname_invalid'')
       | Some stored \<Rightarrow> Inr stored))"

record member_patch =
  mp_roleIds :: "role_id list option option"
  mp_nickname :: "nickname option"

record member_write =
  mw_roleIds :: "role_id list option"
  mw_nickname :: "string option option"

definition validateMemberPatch ::
    "space_db \<Rightarrow> space_id \<Rightarrow> user_id \<Rightarrow> user_id \<Rightarrow> user_id \<Rightarrow> member_patch \<Rightarrow> (nat \<times> string) + member_write" where
  "validateMemberPatch db sid actorId targetId ownerId p =
    (if mp_roleIds p = None \<and> mp_nickname p = None then Inl (400, ''validation_failed'')
     else case (case mp_roleIds p of
         None \<Rightarrow> Inr None
       | Some ids \<Rightarrow> (case validateRoleUpdate db sid actorId targetId ownerId ids of
             Some e \<Rightarrow> Inl e
           | None \<Rightarrow> Inr ids)) of
       Inl e \<Rightarrow> Inl e
     | Inr roleIds \<Rightarrow>
         (case mp_nickname p of
            None \<Rightarrow> Inr \<lparr>mw_roleIds = roleIds, mw_nickname = None\<rparr>
          | Some nick \<Rightarrow> (case validateNicknameUpdate db sid actorId targetId ownerId nick of
                Inl e \<Rightarrow> Inl e
              | Inr stored \<Rightarrow> Inr \<lparr>mw_roleIds = roleIds, mw_nickname = Some stored\<rparr>)))"

definition persistMemberUpdate :: "space_db \<Rightarrow> space_id \<Rightarrow> user_id \<Rightarrow> member_write \<Rightarrow> space_db" where
  "persistMemberUpdate db sid uid w =
    (let db1 = (case mw_roleIds w of
           None \<Rightarrow> db
         | Some ids \<Rightarrow> db\<lparr>db_memberRoles :=
             filter (\<lambda>m. \<not> (mr_spaceId m = sid \<and> mr_userId m = uid)) (db_memberRoles db)
             @ map (\<lambda>rid. \<lparr>mr_spaceId = sid, mr_userId = uid, mr_roleId = rid\<rparr>) ids\<rparr>)
     in case mw_nickname w of
          None \<Rightarrow> db1
        | Some nick \<Rightarrow> db1\<lparr>db_spaceMembers :=
            map (\<lambda>m. if sm_spaceId m = sid \<and> sm_userId m = uid then m\<lparr>sm_nickname := nick\<rparr> else m)
              (db_spaceMembers db1)\<rparr>)"

definition patchMember :: "space_db \<Rightarrow> user_id \<Rightarrow> space_id \<Rightarrow> user_id \<Rightarrow> member_patch \<Rightarrow> unit outcome" where
  "patchMember db userId sid uid p =
    (case find_space sid db of
       None \<Rightarrow> Refused 404 ''space_not_found''
     | Some server \<Rightarrow>
         (case validateMemberPatch db sid userId uid (sp_ownerId server) p of
            Inl (st, code) \<Rightarrow> Refused st code
          | Inr w \<Rightarrow>
              if getMember db sid uid = None then Refused 404 ''member_not_found''
              else Done (persistMemberUpdate db sid uid w)
                ((if mw_roleIds w \<noteq> None then [AccessChanged sid [uid]] else []) @ [MemberUpdated sid uid]) ()))"

section \<open>Ownership, kick and ban\<close>

definition set_owner :: "user_id \<Rightarrow> space_row \<Rightarrow> space_row" where
  "set_owner u r = r\<lparr>sp_ownerId := u, sp_ownerTitle := None\<rparr>"

definition transferOwnership :: "space_db \<Rightarrow> user_id \<Rightarrow> space_id \<Rightarrow> string option \<Rightarrow> unit outcome" where
  "transferOwnership db userId sid newOwnerId =
    (if \<not> truthy newOwnerId then Refused 400 ''new_owner_required''
     else if find_space sid db = None then Refused 404 ''space_not_found''
     else if \<not> isSpaceOwner db sid userId then Refused 403 ''space_owner_only''
     else if the newOwnerId = userId then Refused 400 ''already_owner''
     else if \<not> isMember db sid (the newOwnerId) then Refused 400 ''new_owner_not_member''
     else Done (db\<lparr>db_spaces := tbl_update sp_id sid (set_owner (the newOwnerId)) (db_spaces db)\<rparr>)
            [SpaceUpdated sid, AccessChanged sid [userId, the newOwnerId]] ())"

definition remove_space_member :: "space_db \<Rightarrow> space_id \<Rightarrow> user_id \<Rightarrow> space_db" where
  "remove_space_member db sid uid =
    db\<lparr>db_spaceMembers := filter (\<lambda>m. \<not> (sm_spaceId m = sid \<and> sm_userId m = uid)) (db_spaceMembers db)\<rparr>"

definition clear_voice_and_reads :: "space_db \<Rightarrow> space_id \<Rightarrow> user_id \<Rightarrow> space_db" where
  "clear_voice_and_reads db sid uid =
    (let chans = map ch_id (filter (\<lambda>c. ch_spaceId c = sid) (db_channels db))
     in db\<lparr>db_voiceRestrictions :=
            filter (\<lambda>v. \<not> (vr_spaceId v = sid \<and> vr_userId v = uid)) (db_voiceRestrictions db),
          db_readStates :=
            filter (\<lambda>r. \<not> (rs_userId r = uid \<and> rs_channelId r \<in> set chans)) (db_readStates db)\<rparr>)"

definition removeMember :: "space_db \<Rightarrow> user_id \<Rightarrow> space_id \<Rightarrow> user_id \<Rightarrow> unit outcome" where
  "removeMember db userId sid uid =
    (if find_space sid db = None then Refused 404 ''space_not_found''
     else
       let isSelf = (uid = userId);
           isOwnerUser = isSpaceOwner db sid userId;
           canKick = hasPermission db userId sid KICK_MEMBERS None in
       if \<not> isSelf \<and> \<not> canKick then Refused 403 ''missing_permission''
       else if isSelf \<and> isOwnerUser then Refused 400 ''space_owner_cannot_leave''
       else if getMember db sid uid = None then Refused 404 ''member_not_found''
       else if isSpaceOwner db sid uid then Refused 400 ''cannot_target_owner''
       else if \<not> isSelf \<and> \<not> canActOnMemberInSpace db sid userId uid then Refused 403 ''role_hierarchy''
       else Done (clear_voice_and_reads (remove_space_member db sid uid) sid uid) [MemberLeft sid uid] ())"

definition trimmed_or_null :: "string option \<Rightarrow> string option" where
  "trimmed_or_null r = (case r of None \<Rightarrow> None | Some t \<Rightarrow> if js_trim t = [] then None else Some (js_trim t))"

definition banMember :: "space_db \<Rightarrow> user_id \<Rightarrow> space_id \<Rightarrow> string option \<Rightarrow> string option \<Rightarrow> millis \<Rightarrow> unit outcome" where
  "banMember db userId sid target reason now =
    (if \<not> truthy target then Refused 400 ''user_id_required''
     else let targetId = the target in
       if \<not> hasPermission db userId sid BAN_MEMBERS None then Refused 403 ''missing_permission''
       else if isSpaceOwner db sid targetId then Refused 400 ''cannot_target_owner''
       else if targetId = userId then Refused 400 ''cannot_target_self''
       else if \<not> canActOnMemberInSpace db sid userId targetId then Refused 403 ''role_hierarchy''
       else if isBanned db sid targetId then Refused 409 ''already_banned''
       else
         let row = \<lparr>ban_spaceId = sid, ban_userId = targetId, ban_reason = trimmed_or_null reason,
               ban_bannedBy = Some userId, ban_createdAt = now\<rparr>;
             db1 = db\<lparr>db_bans := db_bans db @ [row]\<rparr>;
             db2 = remove_space_member db1 sid targetId;
             db3 = db2\<lparr>db_memberRoles :=
               filter (\<lambda>m. \<not> (mr_spaceId m = sid \<and> mr_userId m = targetId)) (db_memberRoles db2)\<rparr>
         in Done (clear_voice_and_reads db3 sid targetId)
              [MemberLeft sid targetId, MemberBanned targetId sid (trimmed_or_null reason)] ())"

definition unbanMember :: "space_db \<Rightarrow> user_id \<Rightarrow> space_id \<Rightarrow> user_id \<Rightarrow> unit outcome" where
  "unbanMember db userId sid uid =
    (if \<not> hasPermission db userId sid BAN_MEMBERS None then Refused 403 ''missing_permission''
     else if \<not> isBanned db sid uid then Refused 404 ''ban_not_found''
     else Done (db\<lparr>db_bans := filter (\<lambda>b. \<not> (ban_spaceId b = sid \<and> ban_userId b = uid)) (db_bans db)\<rparr>) [] ())"

section \<open>Joining by invite\<close>

definition inviteJoinRefusal :: "space_db \<Rightarrow> space_row \<Rightarrow> user_id \<Rightarrow> (nat \<times> string) option" where
  "inviteJoinRefusal db space userId =
    (if isBanned db (sp_id space) userId then Some (403, ''user_banned'')
     else if isMember db (sp_id space) userId then Some (409, ''already_member'')
     else if sp_visibility space = Some ''request'' then
       (if list_ex (\<lambda>j. jr_spaceId j = sp_id space \<and> jr_userId j = userId \<and> jr_status j = ''pending'') (db_joinRequests db)
        then Some (409, ''join_request_pending'') else Some (403, ''join_request_required''))
     else None)"

definition admitByInvite :: "space_db \<Rightarrow> space_id \<Rightarrow> user_id \<Rightarrow> millis \<Rightarrow> unit outcome" where
  "admitByInvite db spaceId userId now =
    Done (db\<lparr>db_spaceMembers := db_spaceMembers db @
        [\<lparr>sm_spaceId = spaceId, sm_userId = userId, sm_nickname = None, sm_joinedAt = now\<rparr>]\<rparr>)
      (if find_user userId db = None then [] else [MemberJoined spaceId userId]) ()"

definition joinSpace :: "space_db \<Rightarrow> user_id \<Rightarrow> space_id \<Rightarrow> string option \<Rightarrow> millis \<Rightarrow> unit outcome" where
  "joinSpace db userId sid inviteCode now =
    (if \<not> truthy inviteCode then Refused 400 ''invite_code_required''
     else case find_space sid db of
       None \<Rightarrow> Refused 404 ''space_not_found''
     | Some server \<Rightarrow>
         if sp_inviteCode server \<noteq> inviteCode then Refused 400 ''invite_not_found''
         else (case inviteJoinRefusal db server userId of
             Some (st, code) \<Rightarrow> Refused st code
           | None \<Rightarrow> admitByInvite db (sp_id server) userId now))"

definition joinByCode :: "space_db \<Rightarrow> user_id \<Rightarrow> string option \<Rightarrow> millis \<Rightarrow> unit outcome" where
  "joinByCode db userId inviteCode now =
    (if \<not> truthy inviteCode then Refused 400 ''invite_code_required''
     else case find (\<lambda>s. sp_inviteCode s = inviteCode) (db_spaces db) of
       None \<Rightarrow> Refused 404 ''invite_not_found''
     | Some server \<Rightarrow>
         (case inviteJoinRefusal db server userId of
            Some (st, code) \<Rightarrow> Refused st code
          | None \<Rightarrow> admitByInvite db (sp_id server) userId now))"

section \<open>Overrides\<close>

datatype override_mode = WriteMode | DeleteMode

definition overrideTargetRefusal ::
    "space_db \<Rightarrow> user_id \<Rightarrow> space_id \<Rightarrow> string \<Rightarrow> string \<Rightarrow> override_mode \<Rightarrow> (nat \<times> string) option" where
  "overrideTargetRefusal db actorId spaceId targetType targetId mode =
    (if targetType = ''role'' then
       (case find_space_role db targetId spaceId of
          None \<Rightarrow> if mode = WriteMode then Some (400, ''role_not_in_space'') else None
        | Some role \<Rightarrow> if canManageRoleInSpace db spaceId actorId (role_position role) then None
                        else Some (403, ''role_hierarchy''))
     else if targetType = ''member'' \<and> targetId \<noteq> actorId \<and> \<not> canActOnMemberInSpace db spaceId actorId targetId
     then Some (403, ''role_hierarchy'') else None)"

definition parse_override_field :: "json option \<Rightarrow> int option" where
  "parse_override_field v = (if v = None then Some 0 else parsePermissionString v)"

definition parseOverrideBits :: "json option \<Rightarrow> json option \<Rightarrow> OverrideBits option" where
  "parseOverrideBits allow deny = (case (parse_override_field allow, parse_override_field deny) of
       (Some a, Some d) \<Rightarrow> Some \<lparr>ob_allow = a, ob_deny = d\<rparr> | _ \<Rightarrow> None)"

definition storedOverrideBits :: "override_row option \<Rightarrow> OverrideBits option" where
  "storedOverrideBits row = map_option (\<lambda>r. \<lparr>ob_allow = stringToPermissions (Some (ov_allow r)),
       ob_deny = stringToPermissions (Some (ov_deny r))\<rparr>) row"

definition overrideWriteRefusal ::
    "space_db \<Rightarrow> user_id \<Rightarrow> space_id \<Rightarrow> override_row option \<Rightarrow> OverrideBits option \<Rightarrow> HeldBitsRefusal option" where
  "overrideWriteRefusal db actorId spaceId before after =
    overrideChangeRefusal (computePermissions db actorId spaceId None) (storedOverrideBits before) after"

text \<open>The outer \<open>None\<close> is a malformed version, the inner one a request without a version.\<close>

definition parseExpectedVersion :: "json option \<Rightarrow> units option option" where
  "parseExpectedVersion v = (case v of
       None \<Rightarrow> Some None
     | Some (JStr u) \<Rightarrow> if u = [] then None else Some (Some u)
     | Some _ \<Rightarrow> None)"

definition isStaleOverrideWrite :: "override_row option \<Rightarrow> units option \<Rightarrow> bool" where
  "isStaleOverrideWrite stored expected = (case expected of
       None \<Rightarrow> False
     | Some v \<Rightarrow> units_of (overrideVersion (map_option (\<lambda>r. (Some (ov_allow r), Some (ov_deny r))) stored)) \<noteq> v)"

definition at_target :: "string \<Rightarrow> string \<Rightarrow> string \<Rightarrow> override_row \<Rightarrow> bool" where
  "at_target eid tt ti r \<longleftrightarrow> ov_entityId r = eid \<and> ov_targetType r = tt \<and> ov_targetId r = ti"

definition upsert_override :: "override_row \<Rightarrow> override_row list \<Rightarrow> override_row list" where
  "upsert_override row rows =
    filter (\<lambda>r. \<not> at_target (ov_entityId row) (ov_targetType row) (ov_targetId row) r) rows @ [row]"

definition override_text :: "OverrideBits \<Rightarrow> string \<Rightarrow> string \<Rightarrow> string \<Rightarrow> override_row" where
  "override_text bits eid tt ti = \<lparr>ov_entityId = eid, ov_targetType = tt, ov_targetId = ti,
     ov_allow = permissionsToString (ob_allow bits), ov_deny = permissionsToString (ob_deny bits)\<rparr>"

text \<open>The body of an override PUT.\<close>

record override_body =
  obd_targetType :: string
  obd_targetId :: "string option"
  obd_allow :: "json option"
  obd_deny :: "json option"
  obd_version :: "json option"

text \<open>The checks of an override PUT after its channel or category has been found, on the rows of that table.\<close>

definition override_put ::
    "space_db \<Rightarrow> user_id \<Rightarrow> space_id \<Rightarrow> string \<Rightarrow> override_body \<Rightarrow> override_row list
     \<Rightarrow> (nat \<times> string) + override_row" where
  "override_put db userId spaceId eid b rows =
    (let tt = obd_targetType b; ti = the (obd_targetId b) in
     if \<not> viewerReadsPermissionData (computePermissions db userId spaceId None) then Inl (403, ''missing_permission'')
     else case parseOverrideBits (obd_allow b) (obd_deny b) of
       None \<Rightarrow> Inl (400, ''override_bits_invalid'')
     | Some bits \<Rightarrow>
         (case parseExpectedVersion (obd_version b) of
            None \<Rightarrow> Inl (400, ''validation_failed'')
          | Some expected \<Rightarrow>
              (case overrideTargetRefusal db userId spaceId tt ti WriteMode of
                 Some e \<Rightarrow> Inl e
               | None \<Rightarrow>
                   let existing = find (at_target eid tt ti) rows in
                   if isStaleOverrideWrite existing expected then Inl (409, ''overrides_conflict'')
                   else (case overrideWriteRefusal db userId spaceId existing (Some bits) of
                       Some refusal \<Rightarrow> Inl (403, refusal_code refusal)
                     | None \<Rightarrow> Inr (override_text bits eid tt ti)))))"

definition row_version :: "override_row \<Rightarrow> string" where
  "row_version r = overrideVersion (Some (Some (ov_allow r), Some (ov_deny r)))"

definition putChannelOverride :: "space_db \<Rightarrow> user_id \<Rightarrow> channel_id \<Rightarrow> override_body \<Rightarrow> string outcome" where
  "putChannelOverride db userId cid b =
    (if obd_targetType b \<noteq> ''role'' \<and> obd_targetType b \<noteq> ''member'' then Refused 400 ''override_target_invalid''
     else if \<not> truthy (obd_targetId b) then Refused 400 ''override_target_required''
     else case find_channel cid db of
       None \<Rightarrow> Refused 404 ''channel_not_found''
     | Some channel \<Rightarrow>
         (case override_put db userId (ch_spaceId channel) cid b (db_channelOverrides db) of
            Inl (st, code) \<Rightarrow> Refused st code
          | Inr row \<Rightarrow> Done (db\<lparr>db_channelOverrides := upsert_override row (db_channelOverrides db)\<rparr>)
              [OverrideChanged (ch_spaceId channel) cid] (row_version row)))"

definition putCategoryOverride :: "space_db \<Rightarrow> user_id \<Rightarrow> string \<Rightarrow> override_body \<Rightarrow> string outcome" where
  "putCategoryOverride db userId cid b =
    (if obd_targetType b \<noteq> ''role'' \<and> obd_targetType b \<noteq> ''member'' then Refused 400 ''override_target_invalid''
     else if \<not> truthy (obd_targetId b) then Refused 400 ''override_target_required''
     else case find_category cid db of
       None \<Rightarrow> Refused 404 ''category_not_found''
     | Some category \<Rightarrow>
         (case override_put db userId (ca_spaceId category) cid b (db_categoryOverrides db) of
            Inl (st, code) \<Rightarrow> Refused st code
          | Inr row \<Rightarrow> Done (db\<lparr>db_categoryOverrides := upsert_override row (db_categoryOverrides db)\<rparr>)
              [OverrideChanged (ca_spaceId category) cid] (row_version row)))"

definition override_delete ::
    "space_db \<Rightarrow> user_id \<Rightarrow> space_id \<Rightarrow> string \<Rightarrow> string \<Rightarrow> string \<Rightarrow> units option \<Rightarrow> override_row list
     \<Rightarrow> (nat \<times> string) + override_row list" where
  "override_delete db userId spaceId eid tt ti expected rows =
    (if \<not> viewerReadsPermissionData (computePermissions db userId spaceId None) then Inl (403, ''missing_permission'')
     else case overrideTargetRefusal db userId spaceId tt ti DeleteMode of
       Some e \<Rightarrow> Inl e
     | None \<Rightarrow>
         let existing = find (at_target eid tt ti) rows in
         if existing \<noteq> None \<and> isStaleOverrideWrite existing expected then Inl (409, ''overrides_conflict'')
         else (case overrideWriteRefusal db userId spaceId existing None of
             Some refusal \<Rightarrow> Inl (403, refusal_code refusal)
           | None \<Rightarrow> Inr (filter (\<lambda>r. \<not> at_target eid tt ti r) rows)))"

definition deleteChannelOverride ::
    "space_db \<Rightarrow> user_id \<Rightarrow> channel_id \<Rightarrow> string \<Rightarrow> string \<Rightarrow> json option \<Rightarrow> unit outcome" where
  "deleteChannelOverride db userId cid tt ti version =
    (case parseExpectedVersion version of
       None \<Rightarrow> Refused 400 ''validation_failed''
     | Some expected \<Rightarrow> (case find_channel cid db of
           None \<Rightarrow> Refused 404 ''channel_not_found''
         | Some channel \<Rightarrow>
             (case override_delete db userId (ch_spaceId channel) cid tt ti expected (db_channelOverrides db) of
                Inl (st, code) \<Rightarrow> Refused st code
              | Inr rows \<Rightarrow> Done (db\<lparr>db_channelOverrides := rows\<rparr>) [OverrideChanged (ch_spaceId channel) cid] ())))"

definition deleteCategoryOverride ::
    "space_db \<Rightarrow> user_id \<Rightarrow> string \<Rightarrow> string \<Rightarrow> string \<Rightarrow> json option \<Rightarrow> unit outcome" where
  "deleteCategoryOverride db userId cid tt ti version =
    (case parseExpectedVersion version of
       None \<Rightarrow> Refused 400 ''validation_failed''
     | Some expected \<Rightarrow> (case find_category cid db of
           None \<Rightarrow> Refused 404 ''category_not_found''
         | Some category \<Rightarrow>
             (case override_delete db userId (ca_spaceId category) cid tt ti expected (db_categoryOverrides db) of
                Inl (st, code) \<Rightarrow> Refused st code
              | Inr rows \<Rightarrow> Done (db\<lparr>db_categoryOverrides := rows\<rparr>) [OverrideChanged (ca_spaceId category) cid] ())))"

end
