(* ===== verification/RoleSafety.thy ===== *)
theory RoleSafety
  imports RoleRoutes
begin

text \<open>
  What the handlers of \<open>RoleRoutes\<close> promise together. A step relation collects them; a state's role
  facts and holdings give its base permissions as sets, so each handler is described by what it does
  to the two sets, and the safety properties follow by rule induction.
\<close>

section \<open>Facts of a state\<close>

type_synonym role_fact = "role_id \<times> space_id \<times> string option"

definition role_sig :: "role_row \<Rightarrow> role_fact" where
  "role_sig r = (ro_id r, ro_spaceId r, ro_permissions r)"

definition facts :: "role_row list \<Rightarrow> role_fact set" where
  "facts rows = role_sig ` set rows"

definition holdings :: "member_role_row list \<Rightarrow> (space_id \<times> user_id \<times> role_id) set" where
  "holdings rows = (\<lambda>m. (mr_spaceId m, mr_userId m, mr_roleId m)) ` set rows"

lemma holdings_simps [simp]:
  "holdings [] = {}"
  "holdings (m # rows) = insert (mr_spaceId m, mr_userId m, mr_roleId m) (holdings rows)"
  "holdings (rows @ rows') = holdings rows \<union> holdings rows'"
  "holdings (map (\<lambda>i. \<lparr>mr_spaceId = s, mr_userId = u, mr_roleId = i\<rparr>) ids) = (\<lambda>i. (s, u, i)) ` set ids"
  by (simp_all add: holdings_def image_Un image_image)

lemma holdings_without [simp]:
  "(t, v, i) \<in> holdings (filter (\<lambda>m. mr_spaceId m = s \<longrightarrow> mr_userId m \<noteq> u) rows)
    \<longleftrightarrow> (t, v, i) \<in> holdings rows \<and> \<not> (t = s \<and> v = u)"
  by (auto simp: holdings_def)

text \<open>Role ids are a primary key, and a member's role is a role of that space.\<close>

definition wf_roles :: "space_db \<Rightarrow> bool" where
  "wf_roles db \<longleftrightarrow> distinct (map ro_id (db_roles db)) \<and>
    (\<forall>(s, u, i) \<in> holdings (db_memberRoles db). \<exists>p. (i, s, p) \<in> facts (db_roles db))"

lemma fact_unique:
  assumes "distinct (map ro_id rows)" and "(i, s, p) \<in> facts rows" and "(i, t, q) \<in> facts rows"
  shows "s = t \<and> p = q"
  using assms same_row[OF assms(1)] by (auto simp: facts_def role_sig_def)

lemma find_role_fact:
  assumes "distinct (map ro_id (db_roles db))"
  shows "(\<exists>r. find_role db i = Some r \<and> P (ro_permissions r)) \<longleftrightarrow> (\<exists>s p. (i, s, p) \<in> facts (db_roles db) \<and> P p)"
proof
  assume "\<exists>r. find_role db i = Some r \<and> P (ro_permissions r)"
  then show "\<exists>s p. (i, s, p) \<in> facts (db_roles db) \<and> P p"
    by (auto simp: find_role_def facts_def role_sig_def image_iff dest!: tbl_get_SomeD)
next
  assume "\<exists>s p. (i, s, p) \<in> facts (db_roles db) \<and> P p"
  then obtain r where "r \<in> set (db_roles db)" "ro_id r = i" "P (ro_permissions r)"
    by (auto simp: facts_def role_sig_def)
  then show "\<exists>r. find_role db i = Some r \<and> P (ro_permissions r)"
    using tbl_get_distinct[OF assms] by (auto simp: find_role_def)
qed

lemma everyone_role_fact:
  assumes "distinct (map ro_id (db_roles db))"
  shows "(\<exists>r. everyone_role db s = Some r \<and> P (ro_permissions r)) \<longleftrightarrow> (\<exists>p. (s, s, p) \<in> facts (db_roles db) \<and> P p)"
proof
  assume "\<exists>r. everyone_role db s = Some r \<and> P (ro_permissions r)"
  then show "\<exists>p. (s, s, p) \<in> facts (db_roles db) \<and> P p"
    by (auto simp: everyone_role_def facts_def role_sig_def image_iff find_Some_iff)
       (metis nth_mem)
next
  assume "\<exists>p. (s, s, p) \<in> facts (db_roles db) \<and> P p"
  then obtain r where r: "r \<in> set (db_roles db)" "ro_id r = s" "ro_spaceId r = s" "P (ro_permissions r)"
    by (auto simp: facts_def role_sig_def)
  then obtain q where q: "everyone_role db s = Some q"
    by (cases "everyone_role db s") (auto simp: everyone_role_def find_None_iff)
  then have "q \<in> set (db_roles db)" "ro_id q = s"
    by (auto simp: everyone_role_def find_Some_iff)
  then have "q = r" using same_row[OF assms] r by metis
  with q r show "\<exists>r. everyone_role db s = Some r \<and> P (ro_permissions r)" by auto
qed

lemma base_bit_facts:
  assumes "distinct (map ro_id (db_roles db))"
  shows "base_bit db u s n \<longleftrightarrow> (\<exists>i t p. (i, t, p) \<in> facts (db_roles db)
    \<and> ((i = s \<and> t = s) \<or> (s, u, i) \<in> holdings (db_memberRoles db)) \<and> bit (stringToPermissions p) n)"
proof -
  have a: "(\<exists>r. everyone_role db s = Some r \<and> bit (stringToPermissions (ro_permissions r)) n)
      \<longleftrightarrow> (\<exists>p. (s, s, p) \<in> facts (db_roles db) \<and> bit (stringToPermissions p) n)"
    by (rule everyone_role_fact[OF assms])
  have b: "(\<exists>r. find_role db i = Some r \<and> bit (stringToPermissions (ro_permissions r)) n)
      \<longleftrightarrow> (\<exists>t p. (i, t, p) \<in> facts (db_roles db) \<and> bit (stringToPermissions p) n)" for i
    by (rule find_role_fact[OF assms])
  have c: "i \<in> set (assignedRoleIds db s u) \<longleftrightarrow> (s, u, i) \<in> holdings (db_memberRoles db)" for i
    by (auto simp: assignedRoleIds_def holdings_def image_iff)
  show ?thesis
    unfolding base_bit_def a b Bex_def c by blast
qed

lemma sig_write_positions: "map role_sig (write_positions s xs rows) = map role_sig rows"
proof (induction s xs rows rule: write_positions.induct)
  case (2 s role rest rows)
  have "map role_sig (update_position i s p rows) = map role_sig rows" for i p
    by (simp add: update_position_def role_sig_def)
  with 2 show ?case by (auto simp: Let_def)
qed simp

lemma sig_writeOrder: "map role_sig (writeOrder rows s xs) = map role_sig rows"
proof -
  have "map role_sig (reset_everyone s rs) = map role_sig rs" for rs
    by (simp add: reset_everyone_def role_sig_def)
  then show ?thesis by (simp add: writeOrder_def sig_write_positions)
qed

lemma sig_normalize: "map role_sig (normalizeRolePositions rows s) = map role_sig rows"
  by (simp add: normalizeRolePositions_def sig_writeOrder)

lemma sig_move: "map role_sig (moveRoleToPosition rows s i p) = map role_sig rows"
  by (auto simp: moveRoleToPosition_def Let_def sig_writeOrder split: option.split)

lemma sig_same:
  assumes "map role_sig rows = map role_sig rows'"
  shows "facts rows = facts rows'" "map ro_id rows = map ro_id rows'"
proof -
  show "facts rows = facts rows'" using arg_cong[OF assms, of set] by (simp add: facts_def)
  have "map (fst \<circ> role_sig) rows = map (fst \<circ> role_sig) rows'"
    using arg_cong[OF assms, of "map fst"] by simp
  then show "map ro_id rows = map ro_id rows'" by (simp add: comp_def role_sig_def)
qed

lemmas sig_facts = sig_same[OF sig_normalize] sig_same[OF sig_move]

section \<open>What each handler does to the facts\<close>

text \<open>The bits an actor may hand out in a space.\<close>

definition switchable :: "space_db \<Rightarrow> user_id \<Rightarrow> space_id \<Rightarrow> nat set" where
  "switchable db a s = {n. may_switch (computePermissions db a s None) n}"

definition gains_only :: "space_db \<Rightarrow> space_db \<Rightarrow> space_id \<Rightarrow> nat set \<Rightarrow> bool" where
  "gains_only db db' s B \<longleftrightarrow> (\<forall>u t n. base_bit db' u t n \<longrightarrow> base_bit db u t n \<or> (t = s \<and> n \<in> B))"

text \<open>A step is safe when it keeps the invariant and gives nobody a bit its actor may not switch.\<close>

definition safe_step :: "space_db \<Rightarrow> user_id \<Rightarrow> space_id \<Rightarrow> space_db \<Rightarrow> bool" where
  "safe_step db a s db' \<longleftrightarrow> wf_roles db' \<and> gains_only db db' s (switchable db a s)
    \<and> db_users db' = db_users db \<and> (\<forall>t u. isSpaceOwner db' t u \<longrightarrow> isSpaceOwner db t u \<or> (t = s \<and> isSpaceOwner db s a))"

lemma safe_stepI:
  assumes "wf_roles db'" and "gains_only db db' s (switchable db a s)"
    and "db_users db' = db_users db" and "db_spaces db' = db_spaces db"
  shows "safe_step db a s db'"
proof -
  have "isSpaceOwner db' t u = isSpaceOwner db t u" for t u
    using assms(4) by (simp add: isSpaceOwner_def find_space_def)
  with assms show ?thesis by (simp add: safe_step_def)
qed

lemma wf_distinct: "wf_roles db \<Longrightarrow> distinct (map ro_id (db_roles db))"
  by (simp add: wf_roles_def)

lemma wf_holding: "wf_roles db \<Longrightarrow> (s, u, i) \<in> holdings (db_memberRoles db) \<Longrightarrow> \<exists>p. (i, s, p) \<in> facts (db_roles db)"
  by (auto simp: wf_roles_def)

text \<open>
  The two ways a base bit is gained: a role of the space has new bits, or someone holds a role they
  did not hold.
\<close>

lemma gains_onlyI:
  assumes "wf_roles db" and "wf_roles db'"
    and "\<And>i t p n u. (i, t, p) \<in> facts (db_roles db') \<Longrightarrow> (i = t \<or> (t, u, i) \<in> holdings (db_memberRoles db'))
           \<Longrightarrow> bit (stringToPermissions p) n
           \<Longrightarrow> (t = s \<and> n \<in> B) \<or> (\<exists>q. (i, t, q) \<in> facts (db_roles db) \<and> bit (stringToPermissions q) n
                 \<and> (i = t \<or> (t, u, i) \<in> holdings (db_memberRoles db)))"
  shows "gains_only db db' s B"
  unfolding gains_only_def
proof (intro allI impI)
  fix u t n assume "base_bit db' u t n"
  then obtain i t' p where f: "(i, t', p) \<in> facts (db_roles db')" and b: "bit (stringToPermissions p) n"
    and l: "(i = t \<and> t' = t) \<or> (t, u, i) \<in> holdings (db_memberRoles db')"
    using base_bit_facts[OF wf_distinct[OF assms(2)]] by blast
  have t': "t' = t"
    using l f wf_holding[OF assms(2)] fact_unique[OF wf_distinct[OF assms(2)]] by blast
  from assms(3)[OF _ _ b, of i t u] f l t'
  have "(t = s \<and> n \<in> B) \<or> (\<exists>q. (i, t, q) \<in> facts (db_roles db) \<and> bit (stringToPermissions q) n
      \<and> (i = t \<or> (t, u, i) \<in> holdings (db_memberRoles db)))" by blast
  then show "base_bit db u t n \<or> t = s \<and> n \<in> B"
    using base_bit_facts[OF wf_distinct[OF assms(1)]] by blast
qed

lemma wf_rolesI:
  assumes "distinct (map ro_id (db_roles db'))"
    and "\<And>s u i. (s, u, i) \<in> holdings (db_memberRoles db') \<Longrightarrow> \<exists>p. (i, s, p) \<in> facts (db_roles db')"
  shows "wf_roles db'"
  using assms by (auto simp: wf_roles_def)

lemma safe_refl: "wf_roles db \<Longrightarrow> safe_step db a s db"
  by (simp add: safe_step_def gains_only_def)

text \<open>Steps that only take roles away, or touch neither table.\<close>

lemma safe_shrink:
  assumes "wf_roles db" and "db_roles db' = db_roles db"
    and "holdings (db_memberRoles db') \<subseteq> holdings (db_memberRoles db)"
    and "db_spaces db' = db_spaces db" and "db_users db' = db_users db"
  shows "safe_step db a s db'"
proof -
  have wf: "wf_roles db'"
    using assms(1-3) by (intro wf_rolesI) (auto dest: wf_distinct wf_holding)
  have "gains_only db db' s (switchable db a s)"
    using assms(2,3) by (intro gains_onlyI[OF assms(1) wf]) auto
  then show ?thesis using assms(4,5) by (intro safe_stepI[OF wf])
qed

lemma holdings_filter: "holdings (filter P rows) \<subseteq> holdings rows"
  by (auto simp: holdings_def)

lemma find_space_role_fact:
  "find_space_role db rid s = Some r \<Longrightarrow> r \<in> set (db_roles db) \<and> ro_id r = rid \<and> ro_spaceId r = s
     \<and> (rid, s, ro_permissions r) \<in> facts (db_roles db)"
  by (auto simp: find_space_role_def find_Some_iff facts_def role_sig_def image_iff)

lemma grant_bits:
  assumes "roleGrantRefusal db s a p = None" and "bit (stringToPermissions p) n"
  shows "n \<in> switchable db a s"
  using assms by (auto simp: roleGrantRefusal_def roleBits_None switchable_def)

lemma safe_afterI:
  assumes "wf_roles db" and "\<And>db' ns b. r = Done db' ns b \<Longrightarrow> safe_step db a s db'"
  shows "safe_step db a s (db_after db r)"
  using assms safe_refl by (cases r) auto

lemma createRole_Done:
  assumes "createRole db a s name color perms rid now = Done db' ns b"
  shows "\<exists>row. db' = db\<lparr>db_roles := normalizeRolePositions (db_roles db @ [row]) s\<rparr>
    \<and> ro_id row = rid \<and> ro_spaceId row = s"
  using assms unfolding createRole_def Let_def
  by (simp split: if_split_asm option.split_asm sum.split_asm prod.split_asm) force+

lemma patchRole_Done:
  assumes "patchRole db a s rid p = Done db' ns b"
  shows "\<exists>role name perms pos. find_space_role db rid s = Some role \<and> patch_permissions db a s role p = Inr perms
    \<and> db' = db\<lparr>db_roles := write_role db s rid (update_role_row name (rp_color p) perms) pos\<rparr>"
  using assms unfolding patchRole_def Let_def
  by (simp split: if_split_asm option.split_asm sum.split_asm prod.split_asm) blast+

lemma create_safe:
  assumes "wf_roles db" and "rid \<noteq> s" and "rid \<notin> ro_id ` set (db_roles db)"
  shows "safe_step db a s (db_after db (createRole db a s name color perms rid now))"
proof -
  have step: "safe_step db a s (db\<lparr>db_roles := normalizeRolePositions (db_roles db @ [row]) s\<rparr>)"
    if row: "ro_id row = rid" "ro_spaceId row = s" for row
  proof -
    let ?db' = "db\<lparr>db_roles := normalizeRolePositions (db_roles db @ [row]) s\<rparr>"
    have f: "facts (db_roles ?db') = insert (role_sig row) (facts (db_roles db))"
      by (simp add: sig_facts) (simp add: facts_def)
    have d: "distinct (map ro_id (db_roles ?db'))"
      using assms(3) row(1) wf_distinct[OF assms(1)] by (simp add: sig_facts)
    have wf: "wf_roles ?db'"
      by (rule wf_rolesI[OF d], unfold f) (use wf_holding[OF assms(1)] in force)
    have fresh: "(rid, t, p) \<notin> facts (db_roles db)" for t p
      using assms(3) by (auto simp: facts_def role_sig_def)
    then have "(t, u, rid) \<notin> holdings (db_memberRoles db)" for t u
      using wf_holding[OF assms(1)] by blast
    then have "gains_only db ?db' s (switchable db a s)"
      using f row assms(2) by (intro gains_onlyI[OF assms(1) wf]) (auto simp: role_sig_def)
    then show ?thesis by (rule safe_stepI[OF wf]) simp_all
  qed
  show ?thesis
    by (rule safe_afterI[OF assms(1)]) (use createRole_Done step in metis)
qed

lemma facts_update:
  assumes "distinct (map ro_id rows)" and "role \<in> set rows" and "ro_id role = rid" and "ro_spaceId role = s"
  shows "(i, t, q) \<in> facts (map (\<lambda>r. if ro_id r = rid \<and> ro_spaceId r = s
              then update_role_row name color perms r else r) rows) \<longleftrightarrow>
    (if i = rid \<and> t = s then q = (case perms of None \<Rightarrow> ro_permissions role | Some x \<Rightarrow> Some x)
     else (i, t, q) \<in> facts rows)"
proof -
  define p' where "p' r = (case perms of None \<Rightarrow> ro_permissions r | Some x \<Rightarrow> Some x)" for r :: role_row
  have sg: "role_sig (if ro_id r = rid \<and> ro_spaceId r = s then update_role_row name color perms r else r)
      = (ro_id r, ro_spaceId r, if ro_id r = rid \<and> ro_spaceId r = s then p' r else ro_permissions r)" for r
    by (simp add: role_sig_def update_role_row_def p'_def)
  have mem: "(i, t, q) \<in> facts (map (\<lambda>r. if ro_id r = rid \<and> ro_spaceId r = s
              then update_role_row name color perms r else r) rows) \<longleftrightarrow>
      (\<exists>r\<in>set rows. ro_id r = i \<and> ro_spaceId r = t \<and>
        q = (if ro_id r = rid \<and> ro_spaceId r = s then p' r else ro_permissions r))"
    unfolding facts_def set_map image_image sg by auto
  show ?thesis
  proof (cases "i = rid \<and> t = s")
    case True
    have "r = role" if "r \<in> set rows" "ro_id r = i" for r
      using same_row[OF assms(1) that(1) assms(2)] that(2) True assms(3) by simp
    then have "(\<exists>r\<in>set rows. ro_id r = i \<and> ro_spaceId r = t \<and> P r) \<longleftrightarrow> P role" for P
      using True assms(2-4) by metis
    then show ?thesis unfolding mem using True assms(3,4) by (simp add: p'_def)
  next
    case False
    then show ?thesis unfolding mem by (auto simp: facts_def role_sig_def image_iff)
  qed
qed

lemma patch_safe:
  assumes "wf_roles db"
  shows "safe_step db a s (db_after db (patchRole db a s rid p))"
proof -
  have step: "safe_step db a s (db\<lparr>db_roles := write_role db s rid (update_role_row name color perms) pos\<rparr>)"
    if role: "find_space_role db rid s = Some role" and ok: "patch_permissions db a s role p = Inr perms"
    for role name color perms pos
  proof -
    let ?f = "update_role_row name color perms"
    let ?rows = "map (\<lambda>r. if ro_id r = rid \<and> ro_spaceId r = s then ?f r else r) (db_roles db)"
    let ?db' = "db\<lparr>db_roles := write_role db s rid ?f pos\<rparr>"
    note rf = find_space_role_fact[OF role]
    have sg: "map role_sig (db_roles ?db') = map role_sig ?rows"
      by (simp add: write_role_def Let_def sig_move del: map_map split: option.split)
    have ids: "map ro_id (db_roles ?db') = map ro_id (db_roles db)"
      using sig_same(2)[OF sg] by (simp add: comp_def update_role_row_def if_distrib cong: if_cong)
    have F: "facts (db_roles ?db') = facts ?rows" by (rule sig_same(1)[OF sg])
    have sub: "(i, t, q) \<in> facts ?rows \<longleftrightarrow>
        (if i = rid \<and> t = s then q = (case perms of None \<Rightarrow> ro_permissions role | Some x \<Rightarrow> Some x)
         else (i, t, q) \<in> facts (db_roles db))" for i t q
      by (rule facts_update[OF wf_distinct[OF assms]]) (use rf in auto)
    have wf: "wf_roles ?db'"
    proof (rule wf_rolesI)
      show "distinct (map ro_id (db_roles ?db'))" using wf_distinct[OF assms] ids by simp
      fix t u i assume "(t, u, i) \<in> holdings (db_memberRoles ?db')"
      then obtain q where "(i, t, q) \<in> facts (db_roles db)" using wf_holding[OF assms] by fastforce
      then show "\<exists>q. (i, t, q) \<in> facts (db_roles ?db')" unfolding F sub by auto
    qed
    have new: "bit (stringToPermissions (ro_permissions role)) n \<or> n \<in> switchable db a s"
      if "bit (stringToPermissions (Some x)) n" "perms = Some x" for x n
    proof -
      from ok that(2) obtain req where x: "x = permissionsToString req"
        and none: "roleBitsChangeRefusal (computePermissions db a s None)
            (stringToPermissions (ro_permissions role)) req = None"
        and ps: "parsePermissionString (rp_permissions p) = Some req"
        by (auto simp: patch_permissions_def split: if_splits option.splits)
      from ps have "0 \<le> req"
        using canonical_digits js_BigInt_digits
        by (fastforce simp: parsePermissionString_def split: option.splits json.splits if_splits)
      then have "bit req n" using that(1) x stringToPermissions_print by simp
      with none show ?thesis by (auto simp: roleBits_None switchable_def)
    qed
    have "gains_only db ?db' s (switchable db a s)"
    proof (rule gains_onlyI[OF assms wf])
      fix i t q n u
      assume A: "(i, t, q) \<in> facts (db_roles ?db')" "bit (stringToPermissions q) n"
        "i = t \<or> (t, u, i) \<in> holdings (db_memberRoles ?db')"
      show "(t = s \<and> n \<in> switchable db a s) \<or> (\<exists>q. (i, t, q) \<in> facts (db_roles db)
          \<and> bit (stringToPermissions q) n \<and> (i = t \<or> (t, u, i) \<in> holdings (db_memberRoles db)))"
        using A rf new unfolding F sub by (cases perms) (auto split: if_splits)
    qed
    then show ?thesis by (rule safe_stepI[OF wf]) simp_all
  qed
  show ?thesis
    by (rule safe_afterI[OF assms]) (auto dest!: patchRole_Done intro!: step)
qed

lemma deleteRole_Done:
  assumes "deleteRole db a s rid = Done db' ns b"
  shows "db_roles db' = normalizeRolePositions (filter (\<lambda>r. \<not> (ro_id r = rid \<and> ro_spaceId r = s)) (db_roles db)) s
    \<and> db_memberRoles db' = filter (\<lambda>m. mr_roleId m \<noteq> rid) (db_memberRoles db)
    \<and> db_users db' = db_users db \<and> db_spaces db' = db_spaces db"
  using assms unfolding deleteRole_def Let_def
  by (auto split: if_split_asm option.split_asm)

lemma delete_safe:
  assumes "wf_roles db"
  shows "safe_step db a s (db_after db (deleteRole db a s rid))"
proof (rule safe_afterI[OF assms])
  fix db' ns b assume "deleteRole db a s rid = Done db' ns b"
  note d = deleteRole_Done[OF this]
  let ?rows = "filter (\<lambda>r. \<not> (ro_id r = rid \<and> ro_spaceId r = s)) (db_roles db)"
  have F: "facts (db_roles db') = facts ?rows" and ids: "map ro_id (db_roles db') = map ro_id ?rows"
    using d by (simp_all add: sig_facts)
  have sub: "(i, t, q) \<in> facts ?rows \<longleftrightarrow> (i, t, q) \<in> facts (db_roles db) \<and> \<not> (i = rid \<and> t = s)" for i t q
    by (auto simp: facts_def role_sig_def image_iff)
  have H: "(t, u, i) \<in> holdings (db_memberRoles db') \<longleftrightarrow> (t, u, i) \<in> holdings (db_memberRoles db) \<and> i \<noteq> rid" for t u i
    using d by (auto simp: holdings_def image_iff)
  have wf: "wf_roles db'"
  proof (rule wf_rolesI)
    show "distinct (map ro_id (db_roles db'))"
      unfolding ids using wf_distinct[OF assms] by (simp add: distinct_map_filter)
    fix t u i assume "(t, u, i) \<in> holdings (db_memberRoles db')"
    then show "\<exists>p. (i, t, p) \<in> facts (db_roles db')"
      unfolding F sub H using wf_holding[OF assms] by blast
  qed
  have "gains_only db db' s (switchable db a s)"
    by (rule gains_onlyI[OF assms wf], unfold F sub H) blast
  then show "safe_step db a s db'" using d by (intro safe_stepI[OF wf]) simp_all
qed

lemma assigned_safe:
  assumes "wf_roles db" and "db_roles db' = db_roles db"
    and "\<And>t u i. (t, u, i) \<in> holdings (db_memberRoles db') \<Longrightarrow> (t, u, i) \<in> holdings (db_memberRoles db)
           \<or> (t = s \<and> (\<exists>p. (i, s, p) \<in> facts (db_roles db) \<and> roleGrantRefusal db s a p = None))"
    and "db_spaces db' = db_spaces db" and "db_users db' = db_users db"
  shows "safe_step db a s db'"
proof -
  have wf: "wf_roles db'"
    by (rule wf_rolesI) (use assms(1-3) wf_distinct wf_holding in \<open>auto, blast\<close>)
  have "gains_only db db' s (switchable db a s)"
  proof (rule gains_onlyI[OF assms(1) wf])
    fix i t p n u
    assume A: "(i, t, p) \<in> facts (db_roles db')" "i = t \<or> (t, u, i) \<in> holdings (db_memberRoles db')"
      "bit (stringToPermissions p) n"
    show "(t = s \<and> n \<in> switchable db a s) \<or> (\<exists>q. (i, t, q) \<in> facts (db_roles db)
        \<and> bit (stringToPermissions q) n \<and> (i = t \<or> (t, u, i) \<in> holdings (db_memberRoles db)))"
      using A assms(2) assms(3)[of t u i] grant_bits[of db s a p n] fact_unique[OF wf_distinct[OF assms(1)]]
      by metis
  qed
  then show ?thesis using assms(4,5) by (intro safe_stepI[OF wf])
qed

lemma addMemberRole_Done:
  assumes "addMemberRole db a s uid roleId = Done db' ns b"
  shows "\<exists>rid role. find_space_role db rid s = Some role \<and> roleGrantRefusal db s a (ro_permissions role) = None
    \<and> (db' = db\<lparr>db_memberRoles := db_memberRoles db\<rparr>
       \<or> db' = db\<lparr>db_memberRoles := db_memberRoles db @ [\<lparr>mr_spaceId = s, mr_userId = uid, mr_roleId = rid\<rparr>]\<rparr>)"
  using assms unfolding addMemberRole_def checkSingleRoleChange_def Let_def
  by (auto split: if_split_asm option.split_asm)

lemma add_safe:
  assumes "wf_roles db"
  shows "safe_step db a s (db_after db (addMemberRole db a s uid roleId))"
proof (rule safe_afterI[OF assms])
  fix db' ns b assume "addMemberRole db a s uid roleId = Done db' ns b"
  from addMemberRole_Done[OF this] obtain rid role where r: "find_space_role db rid s = Some role"
    "roleGrantRefusal db s a (ro_permissions role) = None"
    and d: "db' = db\<lparr>db_memberRoles := db_memberRoles db\<rparr>
       \<or> db' = db\<lparr>db_memberRoles := db_memberRoles db @ [\<lparr>mr_spaceId = s, mr_userId = uid, mr_roleId = rid\<rparr>]\<rparr>" by blast
  have "(t, u, i) \<in> holdings (db_memberRoles db') \<Longrightarrow> (t, u, i) \<in> holdings (db_memberRoles db) \<or> (t = s \<and> i = rid)" for t u i
    using d by (auto simp: holdings_def)
  then show "safe_step db a s db'"
    using d r find_space_role_fact[OF r(1)] by (intro assigned_safe[OF assms]) auto
qed

lemma remove_safe:
  assumes "wf_roles db"
  shows "safe_step db a s (db_after db (removeMemberRole db a s uid rid))"
  by (rule safe_afterI[OF assms])
     (auto simp: removeMemberRole_def split: option.split_asm intro!: safe_shrink[OF assms]
       dest: subsetD[OF holdings_filter])

lemma check_role_ids_None:
  "check_role_ids rows s ids = None \<Longrightarrow> i \<in> set ids \<Longrightarrow> \<exists>r. tbl_get ro_id i rows = Some r"
  by (induction ids) (auto split: if_split_asm)

lemma check_grants_None:
  "check_grants db a s rows ids = None \<Longrightarrow> i \<in> set ids \<Longrightarrow> tbl_get ro_id i rows = Some r
    \<Longrightarrow> roleGrantRefusal db s a (ro_permissions r) = None"
  by (induction ids) (auto split: option.split_asm)

lemma validateRoleUpdate_ok:
  assumes "validateRoleUpdate db s a uid owner (Some ids) = None" and "i \<in> set ids"
  shows "(s, uid, i) \<in> holdings (db_memberRoles db)
    \<or> (\<exists>p. (i, s, p) \<in> facts (db_roles db) \<and> roleGrantRefusal db s a p = None)"
proof (cases "i \<in> set (assignedRoleIds db s uid)")
  case True
  then show ?thesis by (auto simp: assignedRoleIds_def holdings_def image_iff)
next
  case False
  let ?rows = "filter (\<lambda>r. ro_spaceId r = s) (db_roles db)"
  from assms(1) have c: "check_role_ids ?rows s ids = None"
    and g: "check_grants db a s ?rows (filter (\<lambda>r. r \<notin> set (assignedRoleIds db s uid)) ids) = None"
    by (auto simp: validateRoleUpdate_def Let_def split: if_split_asm option.split_asm)
  obtain r where r: "tbl_get ro_id i ?rows = Some r" using check_role_ids_None[OF c assms(2)] by blast
  have "roleGrantRefusal db s a (ro_permissions r) = None"
    by (rule check_grants_None[OF g _ r]) (use assms(2) False in simp)
  then show ?thesis using tbl_get_SomeD[OF r] by (auto simp: facts_def role_sig_def image_iff)
qed

lemma validateMemberPatch_Inr:
  "validateMemberPatch db s a uid owner p = Inr w \<Longrightarrow> mw_roleIds w = Some ids
    \<Longrightarrow> validateRoleUpdate db s a uid owner (Some ids) = None"
  by (auto simp: validateMemberPatch_def split: option.split_asm sum.split_asm if_split_asm)

lemma patchMember_Done:
  assumes "patchMember db a s uid p = Done db' ns b"
  shows "\<exists>w owner. db' = persistMemberUpdate db s uid w
    \<and> (\<forall>ids. mw_roleIds w = Some ids \<longrightarrow> validateRoleUpdate db s a uid owner (Some ids) = None)"
proof -
  from assms obtain owner w where "validateMemberPatch db s a uid owner p = Inr w"
    and "db' = persistMemberUpdate db s uid w"
    by (auto simp: patchMember_def split: option.split_asm sum.split_asm if_split_asm)
  then show ?thesis using validateMemberPatch_Inr by blast
qed

lemma persist_frames [simp]:
  "db_roles (persistMemberUpdate db s uid w) = db_roles db"
  "db_spaces (persistMemberUpdate db s uid w) = db_spaces db"
  "db_users (persistMemberUpdate db s uid w) = db_users db"
  by (simp_all add: persistMemberUpdate_def Let_def split: option.split)

lemma patchMember_safe:
  assumes "wf_roles db"
  shows "safe_step db a s (db_after db (patchMember db a s uid p))"
proof (rule safe_afterI[OF assms])
  fix db' ns b assume "patchMember db a s uid p = Done db' ns b"
  from patchMember_Done[OF this] obtain w owner where d: "db' = persistMemberUpdate db s uid w"
    and v: "\<And>ids. mw_roleIds w = Some ids \<Longrightarrow> validateRoleUpdate db s a uid owner (Some ids) = None" by blast
  have "(t, u, i) \<in> holdings (db_memberRoles db') \<Longrightarrow> (t, u, i) \<in> holdings (db_memberRoles db)
      \<or> (t = s \<and> u = uid \<and> (\<exists>ids. mw_roleIds w = Some ids \<and> i \<in> set ids))" for t u i
    by (auto simp: d persistMemberUpdate_def Let_def holdings_def split: option.split_asm)
  then show "safe_step db a s db'"
    using validateRoleUpdate_ok[OF v] by (intro assigned_safe[OF assms]) (auto simp: d, blast)
qed

lemma transfer_safe:
  assumes "wf_roles db"
  shows "safe_step db a s (db_after db (transferOwnership db a s new))"
proof (rule safe_afterI[OF assms])
  fix db' ns b assume t: "transferOwnership db a s new = Done db' ns b"
  then have owner: "isSpaceOwner db s a" and d: "db' = db\<lparr>db_spaces := tbl_update sp_id s (set_owner (the new)) (db_spaces db)\<rparr>"
    by (auto simp: transferOwnership_def split: if_split_asm)
  have own: "isSpaceOwner db' t u \<longrightarrow> isSpaceOwner db t u \<or> (t = s \<and> isSpaceOwner db s a)" for t u
    using owner
    by (auto simp: d isSpaceOwner_def find_space_def tbl_get_update set_owner_def split: option.splits if_split_asm)
  have wf: "wf_roles db'" using assms by (simp add: d wf_roles_def)
  have "gains_only db db' s (switchable db a s)"
    by (rule gains_onlyI[OF assms wf]) (auto simp: d)
  with wf own show "safe_step db a s db'" by (simp add: safe_step_def d)
qed

lemma member_frames [simp]:
  "db_roles (clear_voice_and_reads db s u) = db_roles db" "db_memberRoles (clear_voice_and_reads db s u) = db_memberRoles db"
  "db_spaces (clear_voice_and_reads db s u) = db_spaces db" "db_users (clear_voice_and_reads db s u) = db_users db"
  "db_roles (remove_space_member db s u) = db_roles db" "db_memberRoles (remove_space_member db s u) = db_memberRoles db"
  "db_spaces (remove_space_member db s u) = db_spaces db" "db_users (remove_space_member db s u) = db_users db"
  by (simp_all add: clear_voice_and_reads_def remove_space_member_def Let_def)

lemma removeMember_safe: "wf_roles db \<Longrightarrow> safe_step db a s (db_after db (removeMember db a s uid))"
  by (rule safe_afterI, assumption)
     (auto simp: removeMember_def Let_def split: if_split_asm intro!: safe_shrink)

lemma ban_safe: "wf_roles db \<Longrightarrow> safe_step db a s (db_after db (banMember db a s target reason now))"
  by (rule safe_afterI, assumption)
     (auto simp: banMember_def Let_def split: if_split_asm intro!: safe_shrink dest: subsetD[OF holdings_filter])

lemma unban_safe: "wf_roles db \<Longrightarrow> safe_step db a s (db_after db (unbanMember db a s uid))"
  by (rule safe_afterI, assumption) (auto simp: unbanMember_def split: if_split_asm intro!: safe_shrink)

lemma join_safe: "wf_roles db \<Longrightarrow> safe_step db a s (db_after db (joinSpace db a s code now))"
  by (rule safe_afterI, assumption)
     (auto simp: joinSpace_def admitByInvite_def split: if_split_asm option.split_asm intro!: safe_shrink)

lemma join_code_safe: "wf_roles db \<Longrightarrow> safe_step db a s (db_after db (joinByCode db a code now))"
  by (rule safe_afterI, assumption)
     (auto simp: joinByCode_def admitByInvite_def split: if_split_asm option.split_asm intro!: safe_shrink)

lemma channel_put_safe: "wf_roles db \<Longrightarrow> safe_step db a s (db_after db (putChannelOverride db a c body))"
  by (rule safe_afterI, assumption)
     (auto simp: putChannelOverride_def split: if_split_asm option.split_asm sum.split_asm intro!: safe_shrink)

lemma category_put_safe: "wf_roles db \<Longrightarrow> safe_step db a s (db_after db (putCategoryOverride db a c body))"
  by (rule safe_afterI, assumption)
     (auto simp: putCategoryOverride_def split: if_split_asm option.split_asm sum.split_asm intro!: safe_shrink)

lemma channel_delete_safe: "wf_roles db \<Longrightarrow> safe_step db a s (db_after db (deleteChannelOverride db a c tt ti v))"
  by (rule safe_afterI, assumption)
     (auto simp: deleteChannelOverride_def split: option.split_asm sum.split_asm intro!: safe_shrink)

lemma category_delete_safe: "wf_roles db \<Longrightarrow> safe_step db a s (db_after db (deleteCategoryOverride db a c tt ti v))"
  by (rule safe_afterI, assumption)
     (auto simp: deleteCategoryOverride_def split: option.split_asm sum.split_asm intro!: safe_shrink)

section \<open>Sequences of requests\<close>

text \<open>
  One request by a user against a space. A new role's id is fresh (ids are never reused) and is not
  the id of its space.
\<close>

inductive request :: "user_id \<Rightarrow> space_id \<Rightarrow> space_db \<Rightarrow> space_db \<Rightarrow> bool" where
  create: "rid \<noteq> s \<Longrightarrow> rid \<notin> ro_id ` set (db_roles db)
    \<Longrightarrow> request a s db (db_after db (createRole db a s name color perms rid now))"
| patch: "request a s db (db_after db (patchRole db a s rid p))"
| delete: "request a s db (db_after db (deleteRole db a s rid))"
| add: "request a s db (db_after db (addMemberRole db a s uid roleId))"
| remove: "request a s db (db_after db (removeMemberRole db a s uid rid))"
| member: "request a s db (db_after db (patchMember db a s uid mp))"
| transfer: "request a s db (db_after db (transferOwnership db a s new))"
| kick: "request a s db (db_after db (removeMember db a s uid))"
| ban: "request a s db (db_after db (banMember db a s target reason now))"
| unban: "request a s db (db_after db (unbanMember db a s uid))"
| join: "request a s db (db_after db (joinSpace db a s code now))"
| join_code: "request a s db (db_after db (joinByCode db a code now))"
| put_channel: "request a s db (db_after db (putChannelOverride db a c body))"
| put_category: "request a s db (db_after db (putCategoryOverride db a c body))"
| delete_channel: "request a s db (db_after db (deleteChannelOverride db a c tt ti v))"
| delete_category: "request a s db (db_after db (deleteCategoryOverride db a c tt ti v))"

inductive_cases requestE: "request a s db db'"

lemma request_safe: "request a s db db' \<Longrightarrow> wf_roles db \<Longrightarrow> safe_step db a s db'"
  by (induction rule: request.induct)
     (simp_all add: create_safe patch_safe delete_safe add_safe remove_safe patchMember_safe transfer_safe
       removeMember_safe ban_safe unban_safe join_safe join_code_safe channel_put_safe category_put_safe
       channel_delete_safe category_delete_safe)

text \<open>Runs: requests by the users of a coalition in one space, by anyone in the others.\<close>

inductive run :: "user_id set \<Rightarrow> space_id \<Rightarrow> space_db \<Rightarrow> space_db \<Rightarrow> bool" for A s where
  start: "run A s db db"
| act: "run A s db db1 \<Longrightarrow> request a t db1 db2 \<Longrightarrow> (t = s \<longrightarrow> a \<in> A) \<Longrightarrow> run A s db db2"

text \<open>A user who is neither owner nor instance admin has only base bits, unless one of them is ADMINISTRATOR.\<close>

lemma space_bits:
  assumes "\<not> privileged db u s" and "\<not> base_bit db u s 0" and "bit (computePermissions db u s None) n"
  shows "base_bit db u s n"
  using assms
  by (auto simp: computePermissions_def privileged_def isSpaceOwner_def Let_def ADMINISTRATOR_bit bit_base_permissions
      split: option.splits if_splits)

lemma not_all_without_admin: "(x AND ALL_PERMISSIONS) = ALL_PERMISSIONS \<Longrightarrow> bit x 0"
proof -
  assume "(x AND ALL_PERMISSIONS) = ALL_PERMISSIONS"
  then have "bit (x AND ALL_PERMISSIONS) 0 = bit ALL_PERMISSIONS 0" by simp
  moreover have "bit ALL_PERMISSIONS 0" by (simp add: ALL_PERMISSIONS_value bit_0)
  ultimately show "bit x 0" by (simp add: bit_and_iff)
qed

lemma switchable_base:
  assumes "\<not> privileged db a s" and "\<not> base_bit db a s 0" and "n \<in> switchable db a s"
  shows "base_bit db a s n"
  using assms space_bits[OF assms(1,2)] not_all_without_admin
  by (auto simp: switchable_def may_switch_def)

text \<open>What a coalition holds in a space, or would hold as members: the bits of @everyone and of the roles assigned to them.\<close>

definition coalition_bits :: "space_db \<Rightarrow> user_id set \<Rightarrow> space_id \<Rightarrow> nat set" where
  "coalition_bits db A s = {n. \<exists>a\<in>A. base_bit db a s n}"

definition powerless :: "space_db \<Rightarrow> user_id set \<Rightarrow> space_id \<Rightarrow> bool" where
  "powerless db A s \<longleftrightarrow> (\<forall>a\<in>A. \<not> privileged db a s) \<and> 0 \<notin> coalition_bits db A s"

text \<open>
  The permissions the users of a coalition have, and what joining alone would give those of them who are no members: the bits of
  @everyone, and of roles they were left with when they went (\<open>kick_keeps_roles\<close>).
\<close>

definition held_bits :: "space_db \<Rightarrow> user_id set \<Rightarrow> space_id \<Rightarrow> nat set" where
  "held_bits db A s = {n. \<exists>a\<in>A. bit (computePermissions db a s None) n}"

definition admission_bits :: "space_db \<Rightarrow> user_id set \<Rightarrow> space_id \<Rightarrow> nat set" where
  "admission_bits db A s = {n. \<exists>a\<in>A. getMember db s a = None \<and> base_bit db a s n}"

lemma coalition_held:
  assumes "powerless db A s" and "find_space s db \<noteq> None"
  shows "coalition_bits db A s = held_bits db A s \<union> admission_bits db A s"
proof -
  have base: "\<not> privileged db a s \<and> \<not> base_bit db a s 0" if "a \<in> A" for a
    using assms(1) that by (auto simp: powerless_def coalition_bits_def)
  have member: "bit (computePermissions db a s None) n = base_bit db a s n" if "a \<in> A" "getMember db s a \<noteq> None" for a n
    using base[OF that(1)] that(2) assms(2)
    by (auto simp: computePermissions_def privileged_def isSpaceOwner_def Let_def ADMINISTRATOR_bit bit_base_permissions split: option.splits)
  have "bit (computePermissions db a s None) n \<Longrightarrow> base_bit db a s n" if "a \<in> A" for a n
    using space_bits base[OF that] by blast
  then show ?thesis using member unfolding coalition_bits_def held_bits_def admission_bits_def by blast
qed

lemma run_invariant:
  assumes "run A s db db'" and "wf_roles db" and "powerless db A s"
  shows "wf_roles db' \<and> powerless db' A s \<and> db_users db' = db_users db
    \<and> (\<forall>u n. base_bit db' u s n \<longrightarrow> base_bit db u s n \<or> n \<in> coalition_bits db A s)
    \<and> (\<forall>u. isSpaceOwner db' s u \<longrightarrow> isSpaceOwner db s u)"
  using assms
proof (induction rule: run.induct)
  case (start db)
  then show ?case by simp
next
  case (act db db1 a t db2)
  then have wf: "wf_roles db1" and pw: "powerless db1 A s" and us: "db_users db1 = db_users db"
    and bits: "\<And>u n. base_bit db1 u s n \<Longrightarrow> base_bit db u s n \<or> n \<in> coalition_bits db A s"
    and own: "\<And>u. isSpaceOwner db1 s u \<Longrightarrow> isSpaceOwner db s u" by auto
  have safe: "safe_step db1 a t db2" by (rule request_safe[OF act.hyps(2) wf])
  have mine: "n \<in> coalition_bits db1 A s" if "t = s" "n \<in> switchable db1 a t" for n
  proof -
    have "a \<in> A" using act.hyps(3) that(1) by simp
    then have "base_bit db1 a s n"
      using switchable_base[of db1 a s n] that pw by (auto simp: powerless_def coalition_bits_def)
    with \<open>a \<in> A\<close> show ?thesis by (auto simp: coalition_bits_def)
  qed
  have sub: "coalition_bits db1 A s \<subseteq> coalition_bits db A s"
    using bits by (auto simp: coalition_bits_def)
  have gain: "base_bit db2 u s n \<Longrightarrow> base_bit db1 u s n \<or> n \<in> coalition_bits db1 A s" for u n
    using safe mine by (auto simp: safe_step_def gains_only_def)
  have own2: "isSpaceOwner db2 s u \<Longrightarrow> isSpaceOwner db1 s u" for u
    using safe pw act.hyps(3) by (auto simp: safe_step_def powerless_def privileged_def)
  have us2: "db_users db2 = db_users db" using safe us by (simp add: safe_step_def)
  have "0 \<notin> coalition_bits db2 A s"
    using gain[of _ 0] pw by (auto simp: powerless_def coalition_bits_def)
  moreover have "\<not> privileged db2 c s" if "c \<in> A" for c
    using that pw own2 us us2 by (auto simp: powerless_def privileged_def find_user_def)
  ultimately have "powerless db2 A s" by (simp add: powerless_def)
  moreover have "base_bit db2 u s n \<Longrightarrow> base_bit db u s n \<or> n \<in> coalition_bits db A s" for u n
    using gain bits sub by blast
  moreover have "wf_roles db2" using safe by (simp add: safe_step_def)
  ultimately show ?case using us2 own own2 by blast
qed

text \<open>
  C1. No coalition can talk itself up: start from any well-formed state, let users who are neither
  owner nor instance admin and neither hold ADMINISTRATOR nor would as members send any requests to the space (create,
  edit, delete, give and take roles, overrides, kicks, bans, joins, transfers), with anyone acting in
  other spaces. Then each of them ends with space-level permissions that one of them had at the start, or that
  joining the space alone gives one of them who was no member; and nobody at all holds a role bit beyond
  those and the ones they held themselves. Among members, no permission is gained that none of them had.
\<close>

theorem coalition_gains_nothing:
  assumes "run A s db db'" and "wf_roles db" and "powerless db A s" and "find_space s db \<noteq> None"
  shows "held_bits db' A s \<subseteq> held_bits db A s \<union> admission_bits db A s
    \<and> {n. base_bit db' u s n} \<subseteq> {n. base_bit db u s n} \<union> held_bits db A s \<union> admission_bits db A s
    \<and> ((\<forall>a\<in>A. getMember db s a \<noteq> None) \<longrightarrow> held_bits db' A s \<subseteq> held_bits db A s)"
proof -
  note inv = run_invariant[OF assms(1-3)]
  then have pw: "powerless db' A s"
    and bits: "\<And>u n. base_bit db' u s n \<Longrightarrow> base_bit db u s n \<or> n \<in> coalition_bits db A s" by auto
  have "n \<in> coalition_bits db A s" if a: "a \<in> A" and n: "bit (computePermissions db' a s None) n" for a n
  proof -
    have "base_bit db' a s n"
      by (rule space_bits[OF _ _ n]) (use pw a in \<open>auto simp: powerless_def coalition_bits_def\<close>)
    then have "base_bit db a s n \<or> n \<in> coalition_bits db A s" by (rule bits)
    with a show ?thesis by (auto simp: coalition_bits_def)
  qed
  then have "held_bits db' A s \<subseteq> coalition_bits db A s" by (auto simp: held_bits_def)
  moreover have "(\<forall>a\<in>A. getMember db s a \<noteq> None) \<longrightarrow> admission_bits db A s = {}" by (auto simp: admission_bits_def)
  ultimately show ?thesis using bits unfolding coalition_held[OF assms(3,4)] by blast
qed

section \<open>Leaving and coming back\<close>

lemma rejoin_permissions:
  assumes "db_roles db' = db_roles db" and "db_memberRoles db' = db_memberRoles db"
    and "db_users db' = db_users db" and "db_spaces db' = db_spaces db" and "isMember db' s u" and "isMember db s u"
  shows "computePermissions db' u s None = computePermissions db u s None
    \<and> getHierarchyStanding db' s u = getHierarchyStanding db s u"
proof -
  have "find_space s db' = find_space s db" "find_user u db' = find_user u db"
    using assms by (simp_all add: find_space_def find_user_def)
  moreover have "or_roles db' ids b = or_roles db ids b" for ids b
    by (induction ids arbitrary: b) (auto simp: find_role_def assms(1))
  then have "base_permissions db' u s = base_permissions db u s"
    by (simp add: base_permissions_def assignedRoleIds_def everyone_role_def assms(1,2))
  moreover have "standing_positions db' s u = standing_positions db s u"
    by (simp add: standing_positions_def assms(1,2))
  ultimately show ?thesis
    using assms(5,6) by (auto simp: computePermissions_def getHierarchyStanding_def isMember_def Let_def split: option.split)
qed

text \<open>
  Kicking a member does not take their roles: whoever is kicked, or leaves, and is let in again
  by an invite has every role, every space permission and the rank they had before.
\<close>

theorem kick_keeps_roles:
  assumes "removeMember db m s u = Done db1 ns b" and "admitByInvite db1 s u now = Done db2 ns' b'"
  shows "computePermissions db2 u s None = computePermissions db u s None
    \<and> getHierarchyStanding db2 s u = getHierarchyStanding db s u
    \<and> assignedRoleIds db2 s u = assignedRoleIds db s u"
proof -
  have db1: "db1 = clear_voice_and_reads (remove_space_member db s u) s u" and mem: "isMember db s u"
    using assms(1) by (auto simp: removeMember_def Let_def isMember_def split: if_split_asm)
  have db2: "db2 = db1\<lparr>db_spaceMembers := db_spaceMembers db1 @
        [\<lparr>sm_spaceId = s, sm_userId = u, sm_nickname = None, sm_joinedAt = now\<rparr>]\<rparr>"
    using assms(2) by (simp add: admitByInvite_def)
  have "isMember db2 s u"
    unfolding isMember_def getMember_def db2 find_None_iff
    by (simp, rule exI[of _ "\<lparr>sm_spaceId = s, sm_userId = u, sm_nickname = None, sm_joinedAt = now\<rparr>"]) simp
  then have "computePermissions db2 u s None = computePermissions db u s None
    \<and> getHierarchyStanding db2 s u = getHierarchyStanding db s u"
    by (intro rejoin_permissions) (auto simp: db2 db1 mem)
  then show ?thesis by (simp add: assignedRoleIds_def db2 db1)
qed

section \<open>Senior roles\<close>

text \<open>A role no request of this actor may change: it sits at or above the actor's top role.\<close>

definition senior_to :: "space_db \<Rightarrow> user_id \<Rightarrow> space_id \<Rightarrow> role_row \<Rightarrow> bool" where
  "senior_to db a s r \<longleftrightarrow> r \<in> set (db_roles db) \<and> is_space_role s r \<and>
    topPosition (getHierarchyStanding db s a) \<le> role_position r"

definition ranked :: "space_db \<Rightarrow> user_id \<Rightarrow> space_id \<Rightarrow> bool" where
  "ranked db a s \<longleftrightarrow> \<not> isOwner (getHierarchyStanding db s a) \<and> \<not> isInstanceAdmin (getHierarchyStanding db s a)"

definition keeps_role :: "space_db \<Rightarrow> space_id \<Rightarrow> role_row \<Rightarrow> space_db \<Rightarrow> bool" where
  "keeps_role db s r db' \<longleftrightarrow> role_sig r \<in> facts (db_roles db') \<and>
    {u. (s, u, ro_id r) \<in> holdings (db_memberRoles db')} = {u. (s, u, ro_id r) \<in> holdings (db_memberRoles db)}"

lemma ranked_manage: "ranked db a s \<Longrightarrow> canManageRoleAt (getHierarchyStanding db s a) p
    \<longleftrightarrow> p < topPosition (getHierarchyStanding db s a)"
  by (simp add: ranked_def canManageRoleAt_def)

lemma ranked_act: "ranked db a s \<Longrightarrow> canActOnMember (getHierarchyStanding db s a) (getHierarchyStanding db s u)
    \<Longrightarrow> topPosition (getHierarchyStanding db s u) < topPosition (getHierarchyStanding db s a)"
  by (auto simp: ranked_def canActOnMember_def split: if_splits)

lemma top_of_holder:
  assumes "r \<in> set (db_roles db)" and "is_space_role s r" and "(s, u, ro_id r) \<in> holdings (db_memberRoles db)"
  shows "role_position r \<le> topPosition (getHierarchyStanding db s u)"
proof -
  let ?ps = "standing_positions db s u"
  have "(ro_id r, role_position r) \<in> set ?ps"
    using assms by (auto simp: standing_positions_def holdings_def is_space_role_def role_position_def)
  then have "role_position r \<in> insert 0 {p. \<exists>i. (i, p) \<in> set ?ps \<and> i \<noteq> s}"
    using assms(2) by (auto simp: is_space_role_def)
  moreover have "finite {p. \<exists>i. (i, p) \<in> set ?ps \<and> i \<noteq> s}"
    by (rule finite_subset[of _ "snd ` set ?ps"]) force+
  ultimately show ?thesis
    by (simp add: getHierarchyStanding_def topRolePosition_loop_Max)
qed

lemma keeps_role_same:
  assumes "r \<in> set (db_roles db)" and "db_roles db' = db_roles db" and "db_memberRoles db' = db_memberRoles db"
  shows "keeps_role db s r db'"
  using assms by (simp add: keeps_role_def facts_def)

lemma keeps_role_afterI:
  assumes "senior_to db a s r" and "\<And>db' ns b. res = Done db' ns b \<Longrightarrow> keeps_role db s r db'"
  shows "keeps_role db s r (db_after db res)"
  using assms by (cases res) (auto simp: senior_to_def intro: keeps_role_same)

lemma senior_not_managed:
  assumes "wf_roles db" and "senior_to db a s r" and "ranked db a s"
    and "find_space_role db rid s = Some role" and "canManageRoleAt (getHierarchyStanding db s a) (role_position role)"
  shows "rid \<noteq> ro_id r"
proof
  assume "rid = ro_id r"
  then have "role = r"
    using find_space_role_fact[OF assms(4)] same_row[OF wf_distinct[OF assms(1)]] assms(2) by (simp add: senior_to_def)
  then show False using assms(2,3,5) by (simp add: senior_to_def ranked_manage)
qed

lemma keep_create:
  assumes "wf_roles db" and "senior_to db a s r"
  shows "keeps_role db s r (db_after db (createRole db a s name color perms rid now))"
proof (rule keeps_role_afterI[OF assms(2)])
  fix db' ns b assume "createRole db a s name color perms rid now = Done db' ns b"
  from createRole_Done[OF this] obtain row where d: "db' = db\<lparr>db_roles := normalizeRolePositions (db_roles db @ [row]) s\<rparr>"
    by blast
  show "keeps_role db s r db'"
    using assms(2) by (simp add: keeps_role_def d sig_facts senior_to_def) (simp add: facts_def)
qed

lemma keep_patch:
  assumes "wf_roles db" and "senior_to db a s r" and "ranked db a s"
  shows "keeps_role db s r (db_after db (patchRole db a s rid p))"
proof (rule keeps_role_afterI[OF assms(2)])
  fix db' ns b assume D: "patchRole db a s rid p = Done db' ns b"
  from patchRole_Done[OF D] obtain role name perms pos where role: "find_space_role db rid s = Some role"
    and d: "db' = db\<lparr>db_roles := write_role db s rid (update_role_row name (rp_color p) perms) pos\<rparr>" by blast
  have "canManageRoleAt (getHierarchyStanding db s a) (role_position role)"
    using D role by (auto simp: patchRole_def Let_def split: if_split_asm)
  then have ne: "rid \<noteq> ro_id r" by (rule senior_not_managed[OF assms role])
  let ?rows = "map (\<lambda>r. if ro_id r = rid \<and> ro_spaceId r = s
      then update_role_row name (rp_color p) perms r else r) (db_roles db)"
  have "facts (db_roles db') = facts ?rows"
    by (rule sig_same) (simp add: d write_role_def Let_def sig_move del: map_map split: option.split)
  moreover have "role_sig r \<in> facts ?rows"
    using assms(2) ne by (auto simp: senior_to_def facts_def intro!: image_eqI[of _ _ r])
  ultimately show "keeps_role db s r db'" by (simp add: keeps_role_def d)
qed

lemma keep_delete:
  assumes "wf_roles db" and "senior_to db a s r" and "ranked db a s"
  shows "keeps_role db s r (db_after db (deleteRole db a s rid))"
proof (rule keeps_role_afterI[OF assms(2)])
  fix db' ns b assume D: "deleteRole db a s rid = Done db' ns b"
  note d = deleteRole_Done[OF D]
  from D obtain role where role: "find_space_role db rid s = Some role"
    and m: "canManageRoleAt (getHierarchyStanding db s a) (role_position role)"
    by (auto simp: deleteRole_def canManageRoleInSpace_def split: if_split_asm option.split_asm)
  have ne: "rid \<noteq> ro_id r" by (rule senior_not_managed[OF assms role m])
  have "facts (db_roles db') = facts (filter (\<lambda>r. \<not> (ro_id r = rid \<and> ro_spaceId r = s)) (db_roles db))"
    using d by (simp add: sig_facts)
  then have "role_sig r \<in> facts (db_roles db')"
    using assms(2) ne by (auto simp: senior_to_def facts_def)
  then show "keeps_role db s r db'"
    using d ne by (auto simp: keeps_role_def holdings_def)
qed

lemma keep_holdings:
  assumes "senior_to db a s r" and "db_roles db' = db_roles db"
    and "\<And>u. (s, u, ro_id r) \<in> holdings (db_memberRoles db') \<longleftrightarrow> (s, u, ro_id r) \<in> holdings (db_memberRoles db)"
  shows "keeps_role db s r db'"
  using assms by (auto simp: keeps_role_def senior_to_def facts_def)

lemma single_change_managed:
  assumes "checkSingleRoleChange db s a uid (Some rid) chg = None"
  shows "\<exists>role. find_space_role db rid s = Some role \<and> canManageRoleAt (getHierarchyStanding db s a) (role_position role)"
  using assms by (auto simp: checkSingleRoleChange_def Let_def split: if_split_asm option.split_asm)

lemma keep_add:
  assumes "wf_roles db" and "senior_to db a s r" and "ranked db a s"
  shows "keeps_role db s r (db_after db (addMemberRole db a s uid roleId))"
proof (rule keeps_role_afterI[OF assms(2)])
  fix db' ns b assume D: "addMemberRole db a s uid roleId = Done db' ns b"
  then have "checkSingleRoleChange db s a uid roleId AddRole = None"
    by (auto simp: addMemberRole_def split: option.split_asm)
  moreover from this obtain rid where rid: "roleId = Some rid"
    by (cases roleId) (auto simp: checkSingleRoleChange_def split: if_split_asm)
  ultimately have "rid \<noteq> ro_id r"
    using single_change_managed senior_not_managed[OF assms] by blast
  then show "keeps_role db s r db'"
    using D rid by (intro keep_holdings[OF assms(2)])
      (auto simp: addMemberRole_def Let_def split: option.split_asm if_split_asm)
qed

lemma keep_remove:
  assumes "wf_roles db" and "senior_to db a s r" and "ranked db a s"
  shows "keeps_role db s r (db_after db (removeMemberRole db a s uid rid))"
proof (rule keeps_role_afterI[OF assms(2)])
  fix db' ns b assume D: "removeMemberRole db a s uid rid = Done db' ns b"
  then have "checkSingleRoleChange db s a uid (Some rid) RemoveRole = None"
    by (auto simp: removeMemberRole_def split: option.split_asm)
  then have "rid \<noteq> ro_id r"
    using single_change_managed senior_not_managed[OF assms] by blast
  then show "keeps_role db s r db'"
    using D by (intro keep_holdings[OF assms(2)])
      (auto simp: removeMemberRole_def holdings_def split: option.split_asm)
qed

lemma validateRoleUpdate_senior:
  assumes "wf_roles db" and "senior_to db a s r" and "ranked db a s"
    and "validateRoleUpdate db s a uid owner (Some ids) = None"
  shows "ro_id r \<in> set ids \<longleftrightarrow> ro_id r \<in> set (assignedRoleIds db s uid)"
proof -
  let ?rows = "filter (\<lambda>r. ro_spaceId r = s) (db_roles db)"
  let ?cur = "assignedRoleIds db s uid"
  from assms(4) have m: "\<forall>i \<in> set (filter (\<lambda>r. r \<notin> set ?cur) ids @ filter (\<lambda>r. r \<notin> set ids) (remdups ?cur)).
      canManageRoleAt (getHierarchyStanding db s a) (position_of ?rows i)"
    by (auto simp: validateRoleUpdate_def Let_def list_ex_iff split: if_split_asm option.split_asm)
  have "tbl_get ro_id (ro_id r) ?rows = Some r"
    by (rule tbl_get_distinct)
      (use assms(1,2) in \<open>auto simp: distinct_map_filter wf_roles_def senior_to_def is_space_role_def\<close>)
  then have "\<not> canManageRoleAt (getHierarchyStanding db s a) (position_of ?rows (ro_id r))"
    using assms(2) by (simp add: position_of_def senior_to_def ranked_manage[OF assms(3)])
  with m show ?thesis by auto
qed

lemma keep_member:
  assumes "wf_roles db" and "senior_to db a s r" and "ranked db a s"
  shows "keeps_role db s r (db_after db (patchMember db a s uid p))"
proof (rule keeps_role_afterI[OF assms(2)])
  fix db' ns b assume "patchMember db a s uid p = Done db' ns b"
  from patchMember_Done[OF this] obtain w owner where d: "db' = persistMemberUpdate db s uid w"
    and v: "\<And>ids. mw_roleIds w = Some ids \<Longrightarrow> validateRoleUpdate db s a uid owner (Some ids) = None" by blast
  have as: "ro_id r \<in> set (assignedRoleIds db s uid) \<longleftrightarrow> (s, uid, ro_id r) \<in> holdings (db_memberRoles db)"
    by (auto simp: assignedRoleIds_def holdings_def image_iff)
  show "keeps_role db s r db'"
  proof (rule keep_holdings[OF assms(2)])
    show "db_roles db' = db_roles db" by (simp add: d)
    fix u
    show "(s, u, ro_id r) \<in> holdings (db_memberRoles db') \<longleftrightarrow> (s, u, ro_id r) \<in> holdings (db_memberRoles db)"
    proof (cases "mw_roleIds w")
      case None
      then show ?thesis by (simp add: d persistMemberUpdate_def Let_def split: option.split)
    next
      case (Some ids)
      have "(s, u, ro_id r) \<in> holdings (db_memberRoles db')
          \<longleftrightarrow> (if u = uid then ro_id r \<in> set ids else (s, u, ro_id r) \<in> holdings (db_memberRoles db))"
        by (auto simp: d Some persistMemberUpdate_def Let_def split: option.split)
      then show ?thesis using validateRoleUpdate_senior[OF assms v[OF Some]] as by auto
    qed
  qed
qed

lemma keep_ban:
  assumes "senior_to db a s r" and "ranked db a s"
  shows "keeps_role db s r (db_after db (banMember db a s target reason now))"
proof (rule keeps_role_afterI[OF assms(1)])
  fix db' ns b assume D: "banMember db a s target reason now = Done db' ns b"
  then have act: "canActOnMember (getHierarchyStanding db s a) (getHierarchyStanding db s (the target))"
    by (auto simp: banMember_def Let_def canActOnMemberInSpace_def split: if_split_asm)
  have "(s, the target, ro_id r) \<notin> holdings (db_memberRoles db)"
    using top_of_holder[of r db s "the target"] ranked_act[OF assms(2) act] assms(1) by (auto simp: senior_to_def)
  then show "keeps_role db s r db'"
    using D by (intro keep_holdings[OF assms(1)])
      (auto simp: banMember_def Let_def split: if_split_asm)
qed

lemma keep_others:
  assumes "senior_to db a s r"
  shows "keeps_role db s r (db_after db (transferOwnership db a s new))"
    and "keeps_role db s r (db_after db (removeMember db a s uid))"
    and "keeps_role db s r (db_after db (unbanMember db a s uid))"
    and "keeps_role db s r (db_after db (joinSpace db a s code now))"
    and "keeps_role db s r (db_after db (joinByCode db a code now))"
    and "keeps_role db s r (db_after db (putChannelOverride db a c body))"
    and "keeps_role db s r (db_after db (putCategoryOverride db a c body))"
    and "keeps_role db s r (db_after db (deleteChannelOverride db a c tt ti v))"
    and "keeps_role db s r (db_after db (deleteCategoryOverride db a c tt ti v))"
  by (rule keeps_role_afterI[OF assms], rule keep_holdings[OF assms];
      auto simp: transferOwnership_def removeMember_def unbanMember_def joinSpace_def joinByCode_def admitByInvite_def
        Let_def putChannelOverride_def putCategoryOverride_def deleteChannelOverride_def deleteCategoryOverride_def
        split: if_split_asm option.split_asm sum.split_asm)+

text \<open>
  C4. A moderator cannot touch what ranks at or above them: whatever request they send, a role of the
  space at or above their top role keeps its permissions, and exactly the same members hold it.
\<close>

theorem senior_role_untouched:
  assumes "request a s db db'" and "wf_roles db" and "senior_to db a s r" and "ranked db a s"
  shows "role_sig r \<in> facts (db_roles db') \<and>
    {u. (s, u, ro_id r) \<in> holdings (db_memberRoles db')} = {u. (s, u, ro_id r) \<in> holdings (db_memberRoles db)}"
  using assms
  by (cases rule: request.cases)
     (simp_all only: keeps_role_def[symmetric] keep_create keep_patch keep_delete keep_add keep_remove keep_member
       keep_ban keep_others)

section \<open>Override writes\<close>

text \<open>The two bits a stored override has for one permission; no override counts as neither.\<close>

definition override_bits :: "override_row list \<Rightarrow> string \<Rightarrow> string \<Rightarrow> string \<Rightarrow> nat \<Rightarrow> bool \<times> bool" where
  "override_bits rows eid tt ti n =
    (let b = storedOverrideBits (find (at_target eid tt ti) rows) in (bit (allow_of b) n, bit (deny_of b) n))"

lemma find_override_of: "find_override tt ti (overrides_of eid rows) = find (at_target eid tt ti) rows"
  by (induction rows) (auto simp: find_override_def overrides_of_def at_target_def)

lemma says_bits:
  "says (overrides_of eid rows) tt ids n =
    (if \<exists>i\<in>ids. fst (override_bits rows eid tt i n) then Some True
     else if \<exists>i\<in>ids. snd (override_bits rows eid tt i n) then Some False else None)"
proof -
  have "(\<exists>r. find (at_target eid tt i) rows = Some r \<and> bit (stringToPermissions (Some (ov_allow r))) n)
      = fst (override_bits rows eid tt i n)"
    and "(\<exists>r. find (at_target eid tt i) rows = Some r \<and> bit (stringToPermissions (Some (ov_deny r))) n)
      = snd (override_bits rows eid tt i n)" for i
    by (auto simp: override_bits_def Let_def storedOverrideBits_def allow_of_def deny_of_def split: option.splits)
  then show ?thesis by (simp add: says_def find_override_of)
qed

lemma granted_frame:
  assumes "db_users db' = db_users db" and "db_spaces db' = db_spaces db" and "db_spaceMembers db' = db_spaceMembers db"
    and "db_channels db' = db_channels db" and "db_roles db' = db_roles db" and "db_memberRoles db' = db_memberRoles db"
    and "\<And>eid tt ids. says (overrides_of eid (db_channelOverrides db')) tt ids n
           = says (overrides_of eid (db_channelOverrides db)) tt ids n"
    and "\<And>eid tt ids. says (overrides_of eid (db_categoryOverrides db')) tt ids n
           = says (overrides_of eid (db_categoryOverrides db)) tt ids n"
  shows "n \<in> granted db' u s c \<longleftrightarrow> n \<in> granted db u s c"
proof -
  have cat: "says (category_overrides db' ch) tt ids n = says (category_overrides db ch) tt ids n" for ch tt ids
    by (simp add: category_overrides_def assms(8) split: option.split)
  have base: "base_bit db' u s m = base_bit db u s m" for m
    by (simp add: base_bit_def everyone_role_def find_role_def assignedRoleIds_def assms(5,6))
  have "words_on db' u s c n = words_on db u s c n"
    by (simp add: words_on_def Let_def assignedRoleIds_def find_channel_def cat assms(4,6,7) split: option.split)
  moreover have "privileged db' u s = privileged db u s" "isMember db' s u = isMember db s u"
    "find_space s db' = find_space s db"
    by (simp_all add: privileged_def isSpaceOwner_def isMember_def getMember_def find_space_def find_user_def assms(1-3))
  ultimately show ?thesis by (simp only: granted_def base mem_Collect_eq)
qed

lemma find_filter_other: "(\<And>r. P r \<Longrightarrow> Q r) \<Longrightarrow> find P (filter Q rows) = find P rows"
  by (induction rows) auto

lemma bits_delete:
  "override_bits (filter (\<lambda>r. \<not> at_target e t i r) rows) eid tt ti n =
    (if eid = e \<and> tt = t \<and> ti = i then (False, False) else override_bits rows eid tt ti n)"
proof (cases "eid = e \<and> tt = t \<and> ti = i")
  case True
  then have "find (at_target eid tt ti) (filter (\<lambda>r. \<not> at_target e t i r) rows) = None"
    by (auto simp: find_None_iff)
  with True show ?thesis by (simp add: override_bits_def storedOverrideBits_def allow_of_def deny_of_def)
next
  case False
  then have "find (at_target eid tt ti) (filter (\<lambda>r. \<not> at_target e t i r) rows) = find (at_target eid tt ti) rows"
    by (intro find_filter_other) (auto simp: at_target_def)
  with False show ?thesis by (auto simp: override_bits_def)
qed

lemma find_append: "find P (xs @ ys) = (case find P xs of None \<Rightarrow> find P ys | Some x \<Rightarrow> Some x)"
  by (induction xs) auto

lemma bits_upsert:
  assumes "0 \<le> ob_allow bits" and "0 \<le> ob_deny bits"
  shows "override_bits (upsert_override (override_text bits e t i) rows) eid tt ti n =
    (if eid = e \<and> tt = t \<and> ti = i then (bit (ob_allow bits) n, bit (ob_deny bits) n)
     else override_bits rows eid tt ti n)"
proof (cases "eid = e \<and> tt = t \<and> ti = i")
  case True
  then have "find (at_target eid tt ti) (filter (\<lambda>r. \<not> at_target e t i r) rows) = None"
    by (auto simp: find_None_iff)
  then show ?thesis using True assms
    by (simp add: override_bits_def upsert_override_def override_text_def find_append at_target_def
        storedOverrideBits_def allow_of_def deny_of_def stringToPermissions_print)
next
  case False
  then have "\<not> at_target eid tt ti (override_text bits e t i)" by (auto simp: at_target_def override_text_def)
  moreover have "find (at_target eid tt ti) (filter (\<lambda>r. \<not> at_target e t i r) rows) = find (at_target eid tt ti) rows"
    using False by (intro find_filter_other) (auto simp: at_target_def)
  ultimately show ?thesis using False
    by (auto simp: override_bits_def upsert_override_def find_append override_text_def split: option.split)
qed

lemma parse_field_nonneg: "parse_override_field v = Some b \<Longrightarrow> 0 \<le> b"
  using canonical_digits js_BigInt_digits
  by (fastforce simp: parse_override_field_def parsePermissionString_def split: if_splits option.splits json.splits)

text \<open>An accepted write switches only bits its actor may switch.\<close>

lemma put_bits:
  assumes "override_put db a s eid body rows = Inr row" and "n \<notin> switchable db a s"
  shows "override_bits (upsert_override row rows) e t i n = override_bits rows e t i n"
proof -
  let ?t = "obd_targetType body" and ?i = "the (obd_targetId body)"
  from assms(1) obtain bits where row: "row = override_text bits eid ?t ?i"
    and p: "parseOverrideBits (obd_allow body) (obd_deny body) = Some bits"
    and none: "overrideWriteRefusal db a s (find (at_target eid ?t ?i) rows) (Some bits) = None"
    by (auto simp: override_put_def Let_def split: if_split_asm option.split_asm)
  have nn: "0 \<le> ob_allow bits" "0 \<le> ob_deny bits"
    using p parse_field_nonneg by (auto simp: parseOverrideBits_def split: option.split_asm)
  have "(bit (ob_allow bits) n, bit (ob_deny bits) n) = override_bits rows eid ?t ?i n"
    using none assms(2)
    by (auto simp: overrideWriteRefusal_def overrideBits_None override_bits_def Let_def switchable_def allow_of_def
        deny_of_def)
  then show ?thesis by (simp add: row bits_upsert[OF nn])
qed

lemma delete_bits:
  assumes "override_delete db a s eid tt ti v rows = Inr rows'" and "n \<notin> switchable db a s"
  shows "override_bits rows' e t i n = override_bits rows e t i n"
proof -
  from assms(1) have rows': "rows' = filter (\<lambda>r. \<not> at_target eid tt ti r) rows"
    and none: "overrideWriteRefusal db a s (find (at_target eid tt ti) rows) None = None"
    by (auto simp: override_delete_def Let_def split: if_split_asm option.split_asm)
  have "(False, False) = override_bits rows eid tt ti n"
    using none assms(2)
    by (auto simp: overrideWriteRefusal_def overrideBits_None override_bits_def Let_def switchable_def allow_of_def
        deny_of_def)
  then show ?thesis by (simp add: rows' bits_delete)
qed

text \<open>The space an override write is made in, by the channel's or the category's row.\<close>

definition channel_switchable :: "space_db \<Rightarrow> user_id \<Rightarrow> channel_id \<Rightarrow> nat set" where
  "channel_switchable db a c = (case find_channel c db of None \<Rightarrow> {} | Some ch \<Rightarrow> switchable db a (ch_spaceId ch))"

definition category_switchable :: "space_db \<Rightarrow> user_id \<Rightarrow> string \<Rightarrow> nat set" where
  "category_switchable db a c = (case find_category c db of None \<Rightarrow> {} | Some ca \<Rightarrow> switchable db a (ca_spaceId ca))"

text \<open>The permissions that change for anyone, in any space or channel, between two states.\<close>

definition changed_bits :: "space_db \<Rightarrow> space_db \<Rightarrow> nat set" where
  "changed_bits db db' = {n. \<exists>u s c. bit (computePermissions db' u s c) n \<noteq> bit (computePermissions db u s c) n}"

lemma changed_channel:
  assumes "\<And>n e t i. n \<notin> B \<Longrightarrow> override_bits rows e t i n = override_bits (db_channelOverrides db) e t i n"
  shows "changed_bits db (db\<lparr>db_channelOverrides := rows\<rparr>) \<subseteq> B"
proof
  fix n assume "n \<in> changed_bits db (db\<lparr>db_channelOverrides := rows\<rparr>)"
  then obtain u s c where ne: "(n \<in> granted (db\<lparr>db_channelOverrides := rows\<rparr>) u s c) \<noteq> (n \<in> granted db u s c)"
    by (auto simp: changed_bits_def bit_computePermissions)
  show "n \<in> B"
  proof (rule ccontr)
    assume "n \<notin> B"
    then have "n \<in> granted (db\<lparr>db_channelOverrides := rows\<rparr>) u s c \<longleftrightarrow> n \<in> granted db u s c"
      by (intro granted_frame) (simp_all add: says_bits assms)
    with ne show False by simp
  qed
qed

lemma changed_category:
  assumes "\<And>n e t i. n \<notin> B \<Longrightarrow> override_bits rows e t i n = override_bits (db_categoryOverrides db) e t i n"
  shows "changed_bits db (db\<lparr>db_categoryOverrides := rows\<rparr>) \<subseteq> B"
proof
  fix n assume "n \<in> changed_bits db (db\<lparr>db_categoryOverrides := rows\<rparr>)"
  then obtain u s c where ne: "(n \<in> granted (db\<lparr>db_categoryOverrides := rows\<rparr>) u s c) \<noteq> (n \<in> granted db u s c)"
    by (auto simp: changed_bits_def bit_computePermissions)
  show "n \<in> B"
  proof (rule ccontr)
    assume "n \<notin> B"
    then have "n \<in> granted (db\<lparr>db_categoryOverrides := rows\<rparr>) u s c \<longleftrightarrow> n \<in> granted db u s c"
      by (intro granted_frame) (simp_all add: says_bits assms)
    with ne show False by simp
  qed
qed

text \<open>
  C6. An override write reaches no further than its author: whatever channel or category override a
  user puts or deletes, the only permissions that change, for any user in any space or channel, are
  ones the author may switch in that space.
\<close>

theorem override_writes_bounded:
  "changed_bits db (db_after db (putChannelOverride db a c body)) \<subseteq> channel_switchable db a c
   \<and> changed_bits db (db_after db (deleteChannelOverride db a c tt ti v)) \<subseteq> channel_switchable db a c
   \<and> changed_bits db (db_after db (putCategoryOverride db a k body)) \<subseteq> category_switchable db a k
   \<and> changed_bits db (db_after db (deleteCategoryOverride db a k tt ti v)) \<subseteq> category_switchable db a k"
proof (intro conjI)
  have same: "changed_bits db db = {}" by (simp add: changed_bits_def)
  show "changed_bits db (db_after db (putChannelOverride db a c body)) \<subseteq> channel_switchable db a c"
  proof (cases "putChannelOverride db a c body")
    case (Done db' ns b)
    then obtain ch row where "find_channel c db = Some ch" "db' = db\<lparr>db_channelOverrides := upsert_override row (db_channelOverrides db)\<rparr>"
      "override_put db a (ch_spaceId ch) c body (db_channelOverrides db) = Inr row"
      by (auto simp: putChannelOverride_def split: if_split_asm option.split_asm sum.split_asm)
    then show ?thesis using Done put_bits by (simp add: channel_switchable_def changed_channel)
  qed (simp add: same)
  show "changed_bits db (db_after db (deleteChannelOverride db a c tt ti v)) \<subseteq> channel_switchable db a c"
  proof (cases "deleteChannelOverride db a c tt ti v")
    case (Done db' ns b)
    then obtain ch rows x where "find_channel c db = Some ch" "db' = db\<lparr>db_channelOverrides := rows\<rparr>"
      "override_delete db a (ch_spaceId ch) c tt ti x (db_channelOverrides db) = Inr rows"
      by (auto simp: deleteChannelOverride_def split: option.split_asm sum.split_asm)
    then show ?thesis using Done delete_bits by (simp add: channel_switchable_def changed_channel)
  qed (simp add: same)
  show "changed_bits db (db_after db (putCategoryOverride db a k body)) \<subseteq> category_switchable db a k"
  proof (cases "putCategoryOverride db a k body")
    case (Done db' ns b)
    then obtain ca row where "find_category k db = Some ca" "db' = db\<lparr>db_categoryOverrides := upsert_override row (db_categoryOverrides db)\<rparr>"
      "override_put db a (ca_spaceId ca) k body (db_categoryOverrides db) = Inr row"
      by (auto simp: putCategoryOverride_def split: if_split_asm option.split_asm sum.split_asm)
    then show ?thesis using Done put_bits by (simp add: category_switchable_def changed_category)
  qed (simp add: same)
  show "changed_bits db (db_after db (deleteCategoryOverride db a k tt ti v)) \<subseteq> category_switchable db a k"
  proof (cases "deleteCategoryOverride db a k tt ti v")
    case (Done db' ns b)
    then obtain ca rows x where "find_category k db = Some ca" "db' = db\<lparr>db_categoryOverrides := rows\<rparr>"
      "override_delete db a (ca_spaceId ca) k tt ti x (db_categoryOverrides db) = Inr rows"
      by (auto simp: deleteCategoryOverride_def split: option.split_asm sum.split_asm)
    then show ?thesis using Done delete_bits by (simp add: category_switchable_def changed_category)
  qed (simp add: same)
qed

section \<open>Examples\<close>

text \<open>
  A space \<open>s\<close> of owner \<open>o\<close> with a role \<open>low\<close> nobody holds and above it \<open>mod\<close> (MANAGE_ROLES) and \<open>sen\<close> (MANAGE_SPACE), held by
  \<open>a\<close> and \<open>b\<close>.
\<close>

definition demo_role :: "role_id \<Rightarrow> int \<Rightarrow> int \<Rightarrow> role_row" where
  "demo_role i pos perms = \<lparr>ro_id = i, ro_spaceId = ''s'', ro_name = i, ro_color = None, ro_position = Some pos,
     ro_permissions = Some (permissionsToString perms), ro_createdAt = 1\<rparr>"

definition demo_user :: "user_id \<Rightarrow> user_row" where
  "demo_user u = \<lparr>us_id = u, us_username = u, us_displayName = None, us_passwordHash = ''h'', us_avatar = None,
     us_status = None, us_chosenStatus = ''online'', us_customStatus = None, us_isAdmin = Some 0,
     us_homeInstance = None, us_homeUserId = None, us_replicatedInstances = None, us_banner = None,
     us_accentColor = None, us_avatarColor = None, us_bio = None, us_isDeleted = Some 0,
     us_discoverable = None, us_profileUpdatedAt = None, us_passwordChangedAt = None,
     us_showActivity = 1, us_federationRegistryUpdatedAt = None, us_federationHealPending = None,
     us_federationHomeOrphaned = None, us_detachedHomeInstance = None, us_detachedHomeUserId = None,
     us_lastActiveDay = None, us_lastClient = None, us_createdAt = 1\<rparr>"

definition demo_member :: "user_id \<Rightarrow> space_member_row" where
  "demo_member u = \<lparr>sm_spaceId = ''s'', sm_userId = u, sm_nickname = None, sm_joinedAt = 1\<rparr>"

definition demo_db :: space_db where
  "demo_db = \<lparr>db_users = map demo_user [''o'', ''a'', ''b''],
     db_spaces = [\<lparr>sp_id = ''s'', sp_name = ''S'', sp_icon = None, sp_banner = None, sp_avatarColor = None,
       sp_ownerId = ''o'', sp_ownerTitle = None, sp_inviteCode = Some ''c0de'', sp_visibility = Some ''private'',
       sp_directoryListed = 0, sp_description = None, sp_createdAt = 1\<rparr>],
     db_spaceMembers = map demo_member [''o'', ''a'', ''b''], db_channels = [],
     db_roles = [demo_role ''s'' 0 0, demo_role ''low'' 1 0, demo_role ''mod'' 2 8, demo_role ''sen'' 3 16],
     db_memberRoles = [\<lparr>mr_spaceId = ''s'', mr_userId = ''a'', mr_roleId = ''mod''\<rparr>,
       \<lparr>mr_spaceId = ''s'', mr_userId = ''b'', mr_roleId = ''sen''\<rparr>],
     db_channelOverrides = [], db_categoryOverrides = [], db_bans = [], db_categories = [], db_joinRequests = [],
     db_voiceRestrictions = [], db_readStates = [], db_dmChannels = [], db_dmMembers = []\<rparr>"

lemma demo_facts: "facts (db_roles demo_db) = {(''s'', ''s'', Some (permissionsToString 0)),
    (''low'', ''s'', Some (permissionsToString 0)), (''mod'', ''s'', Some (permissionsToString 8)), (''sen'', ''s'', Some (permissionsToString 16))}"
  by (simp add: facts_def role_sig_def demo_db_def demo_role_def)

lemma demo_holdings: "holdings (db_memberRoles demo_db) = {(''s'', ''a'', ''mod''), (''s'', ''b'', ''sen'')}"
  by (simp add: demo_db_def)

lemma demo_wf: "wf_roles demo_db"
proof -
  have "distinct (map ro_id (db_roles demo_db))" by (simp add: demo_db_def demo_role_def)
  then show ?thesis by (simp add: wf_roles_def demo_facts demo_holdings)
qed

lemma demo_base: "base_bit demo_db ''a'' ''s'' n \<longleftrightarrow> n = 3"
proof -
  have "base_bit demo_db ''a'' ''s'' n \<longleftrightarrow> bit (0 :: int) n \<or> bit (8 :: int) n"
    unfolding base_bit_facts[OF wf_distinct[OF demo_wf]] demo_facts demo_holdings
    by (simp add: ex_disj_distrib conj_disj_distribR stringToPermissions_print)
  also have "\<dots> \<longleftrightarrow> n = 3"
    using bit_exp_iff[of 3 n, where ?'a = int] by auto
  finally show ?thesis .
qed

lemma demo_unprivileged: "\<not> privileged demo_db ''a'' ''s''"
  by (simp add: privileged_def isSpaceOwner_def find_space_def find_user_def demo_db_def demo_user_def)

lemma demo_powerless: "powerless demo_db {''a''} ''s''"
  by (simp add: powerless_def demo_unprivileged coalition_bits_def demo_base)

lemma demo_standing: "getHierarchyStanding demo_db ''s'' ''a'' =
    \<lparr>isOwner = False, isInstanceAdmin = False, topPosition = 2\<rparr>"
  by (simp add: getHierarchyStanding_def find_space_def find_user_def standing_positions_def demo_db_def demo_user_def
      demo_role_def)

definition demo_patch :: role_patch where
  "demo_patch = \<lparr>rp_name = Some ''mine'', rp_color = None, rp_position = None, rp_above = None, rp_below = None,
     rp_permissions = None, rp_permissionsVersion = None\<rparr>"

text \<open>\<open>x\<close> joins by the code, \<open>a\<close> makes a role with the permission to manage roles and gives it to \<open>x\<close>.\<close>

definition demo_joined :: space_db where
  "demo_joined = db_after demo_db (joinByCode demo_db ''x'' (Some ''c0de'') 2)"

definition demo_made :: space_db where
  "demo_made = db_after demo_joined (createRole demo_joined ''a'' ''s'' (Some ''mine'') None (Some (JStr (units_of ''8''))) ''new'' 3)"

definition demo_given :: space_db where
  "demo_given = db_after demo_made (addMemberRole demo_made ''a'' ''s'' ''x'' (Some ''new''))"


lemma demo_steps:
  "''new'' \<noteq> ''s'' \<and> ''new'' \<notin> ro_id ` set (db_roles demo_joined)"
  "getMember demo_given ''s'' ''x'' \<noteq> None" "bit (computePermissions demo_given ''x'' ''s'' None) 3"
  by code_simp+

lemma coalition_gains_nothing_witness:
  "run {''a'', ''x''} ''s'' demo_db demo_given \<and> 3 \<in> held_bits demo_given {''a'', ''x''} ''s'' \<and> held_bits demo_given {''a'', ''x''} ''s'' \<subseteq> {3}"
proof -
  have one: "request ''x'' ''s'' demo_db demo_joined" unfolding demo_joined_def by (rule request.join_code)
  have two: "request ''a'' ''s'' demo_joined demo_made" unfolding demo_made_def by (rule request.create) (use demo_steps(1) in simp_all)
  have three: "request ''a'' ''s'' demo_made demo_given" unfolding demo_given_def by (rule request.add)
  have run: "run {''a'', ''x''} ''s'' demo_db demo_given"
    by (rule run.act[OF run.act[OF run.act[OF run.start one] two] three]) simp_all
  have x: "\<not> base_bit demo_db ''x'' ''s'' n" for n
    unfolding base_bit_facts[OF wf_distinct[OF demo_wf]] demo_facts demo_holdings by (auto simp: stringToPermissions_print)
  have powerless: "powerless demo_db {''a'', ''x''} ''s''"
    using demo_powerless x by (auto simp: powerless_def coalition_bits_def privileged_def isSpaceOwner_def find_space_def find_user_def demo_db_def demo_user_def)
  have space: "find_space ''s'' demo_db \<noteq> None" by (simp add: find_space_def demo_db_def)
  have "coalition_bits demo_db {''a'', ''x''} ''s'' = {3}" using x by (auto simp: coalition_bits_def demo_base)
  then have "held_bits demo_given {''a'', ''x''} ''s'' \<subseteq> {3}"
    using coalition_gains_nothing[OF run demo_wf powerless space] coalition_held[OF powerless space] by simp
  moreover have "3 \<in> held_bits demo_given {''a'', ''x''} ''s''" using demo_steps(3) by (auto simp: held_bits_def)
  ultimately show ?thesis using run by blast
qed

lemma kick_keeps_roles_witness:
  "\<exists>db1 ns db2 ns'. removeMember demo_db ''a'' ''s'' ''a'' = Done db1 ns ()
    \<and> admitByInvite db1 ''s'' ''a'' 9 = Done db2 ns' ()
    \<and> computePermissions db2 ''a'' ''s'' None = computePermissions demo_db ''a'' ''s'' None"
proof -
  have "\<not> isSpaceOwner demo_db ''s'' ''a''" "find_space ''s'' demo_db \<noteq> None" "getMember demo_db ''s'' ''a'' \<noteq> None"
    by (simp_all add: isSpaceOwner_def find_space_def getMember_def demo_db_def demo_member_def)
  then obtain db1 ns where k: "removeMember demo_db ''a'' ''s'' ''a'' = Done db1 ns ()"
    by (auto simp: removeMember_def)
  obtain db2 ns' where j: "admitByInvite db1 ''s'' ''a'' 9 = Done db2 ns' ()" by (simp add: admitByInvite_def)
  from kick_keeps_roles[OF k j] k j show ?thesis by blast
qed

lemma senior_role_untouched_witness:
  "role_sig (demo_role ''sen'' 3 16)
    \<in> facts (db_roles (db_after demo_db (patchRole demo_db ''a'' ''s'' ''sen'' demo_patch)))"
proof -
  have "senior_to demo_db ''a'' ''s'' (demo_role ''sen'' 3 16)"
    by (simp add: senior_to_def demo_standing role_position_def demo_role_def is_space_role_def)
       (simp add: demo_db_def demo_role_def)
  moreover have "ranked demo_db ''a'' ''s''" by (simp add: ranked_def demo_standing)
  ultimately show ?thesis
    using senior_role_untouched[OF request.patch demo_wf] by blast
qed

end
