(* ===== verification/Outbox.thy ===== *)
theory Outbox
  imports Json "HOL-Library.Multiset"
begin

text \<open>
  \<open>packages/server/src/utils/federationOutboxQueue.ts\<close>: the per-entity queues of the federation
  outbox, how a newer event is folded into one, what has been offered to the peer, queue heads, expiry
  and the boot backfill. The table is the list of its rows. Queue keys are UTF-16 texts, because they
  carry emoji; a payload is JSON text whose characters beyond 8 bits are written as escapes.
\<close>

section \<open>Rows and events\<close>

record outbox_row =
  ob_id :: string
  ob_peerId :: string
  ob_contextId :: string
  ob_entityId :: string
  ob_queueKey :: "units option"
  ob_contextType :: string
  ob_eventType :: string
  ob_payload :: string
  ob_encryptionVersion :: int
  ob_attempts :: int
  ob_nextRetryAt :: millis
  ob_expiresAt :: millis
  ob_createdAt :: millis
  ob_offeredAt :: "millis option"

datatype OutboxEventType =
    EvCreate | EvUpdate | EvDelete
  | Reaction_add | Reaction_remove
  | Presence_update | Profile_update | Read_state_update
  | Dm_close | Dm_reopen
  | File_rejected
  | Friend_request_create | Friend_request_update | Friend_request_cancel | Friend_add | Friend_remove
  | Member_add | Member_remove | Ownership_transfer | Group_metadata_update

text \<open>The names the rows carry.\<close>

definition event_names :: "(string \<times> OutboxEventType) list" where
  "event_names =
    [(''create'', EvCreate), (''update'', EvUpdate), (''delete'', EvDelete),
     (''reaction_add'', Reaction_add), (''reaction_remove'', Reaction_remove),
     (''presence_update'', Presence_update), (''profile_update'', Profile_update),
     (''read_state_update'', Read_state_update), (''dm_close'', Dm_close), (''dm_reopen'', Dm_reopen),
     (''file_rejected'', File_rejected), (''friend_request_create'', Friend_request_create),
     (''friend_request_update'', Friend_request_update), (''friend_request_cancel'', Friend_request_cancel),
     (''friend_add'', Friend_add), (''friend_remove'', Friend_remove), (''member_add'', Member_add),
     (''member_remove'', Member_remove), (''ownership_transfer'', Ownership_transfer),
     (''group_metadata_update'', Group_metadata_update)]"

fun event_text :: "OutboxEventType \<Rightarrow> string" where
  "event_text EvCreate = ''create''"
| "event_text EvUpdate = ''update''"
| "event_text EvDelete = ''delete''"
| "event_text Reaction_add = ''reaction_add''"
| "event_text Reaction_remove = ''reaction_remove''"
| "event_text Presence_update = ''presence_update''"
| "event_text Profile_update = ''profile_update''"
| "event_text Read_state_update = ''read_state_update''"
| "event_text Dm_close = ''dm_close''"
| "event_text Dm_reopen = ''dm_reopen''"
| "event_text File_rejected = ''file_rejected''"
| "event_text Friend_request_create = ''friend_request_create''"
| "event_text Friend_request_update = ''friend_request_update''"
| "event_text Friend_request_cancel = ''friend_request_cancel''"
| "event_text Friend_add = ''friend_add''"
| "event_text Friend_remove = ''friend_remove''"
| "event_text Member_add = ''member_add''"
| "event_text Member_remove = ''member_remove''"
| "event_text Ownership_transfer = ''ownership_transfer''"
| "event_text Group_metadata_update = ''group_metadata_update''"

definition event_of_text :: "string \<Rightarrow> OutboxEventType option" where
  "event_of_text t = map_of event_names t"

datatype OutboxFamily = FState | FMessage | FEvent

fun event_family :: "OutboxEventType \<Rightarrow> OutboxFamily" where
  "event_family EvCreate = FMessage"
| "event_family EvUpdate = FMessage"
| "event_family EvDelete = FMessage"
| "event_family Reaction_add = FState"
| "event_family Reaction_remove = FState"
| "event_family Presence_update = FState"
| "event_family Profile_update = FState"
| "event_family Read_state_update = FState"
| "event_family Dm_close = FState"
| "event_family Dm_reopen = FState"
| "event_family _ = FEvent"

section \<open>Queue keys\<close>

fun payload_node :: "json \<Rightarrow> string list \<Rightarrow> json option" where
  "payload_node j [] = Some j"
| "payload_node j (k # ks) = (case json_get j k of None \<Rightarrow> None | Some j' \<Rightarrow> payload_node j' ks)"

definition payloadString :: "json option \<Rightarrow> string list \<Rightarrow> units option" where
  "payloadString payload path = (case payload of
       None \<Rightarrow> None
     | Some j \<Rightarrow> (case payload_node j path of
           Some (JStr u) \<Rightarrow> if u = [] then None else Some u
         | _ \<Rightarrow> None))"

text \<open>Template text: the parts with a colon between them.\<close>

fun colon_join :: "units list \<Rightarrow> units" where
  "colon_join [] = []"
| "colon_join [u] = u"
| "colon_join (u # v # us) = u @ units_of '':'' @ colon_join (v # us)"

definition reaction_key :: "string \<Rightarrow> json option \<Rightarrow> units" where
  "reaction_key entityId payload =
    (case (payloadString payload [''reaction'', ''messageId''], payloadString payload [''reaction'', ''messageHomeInstance''],
           payloadString payload [''reaction'', ''userId''], payloadString payload [''reaction'', ''emoji'']) of
       (Some messageId, Some home, Some userId, Some emoji) \<Rightarrow>
         colon_join [units_of ''reaction'', home, messageId, userId, emoji]
     | _ \<Rightarrow> colon_join [units_of ''reaction'', units_of entityId])"

definition dm_open_key :: "string \<Rightarrow> json option \<Rightarrow> units" where
  "dm_open_key entityId payload =
    (case (payloadString payload [''federatedId''], payloadString payload [''dmCloseReopen'', ''homeUserId''],
           payloadString payload [''dmCloseReopen'', ''homeInstance'']) of
       (Some federatedId, Some homeUserId, Some homeInstance) \<Rightarrow>
         colon_join [units_of ''dm_open'', federatedId, homeInstance, homeUserId]
     | _ \<Rightarrow> colon_join [units_of ''dm_open'', units_of entityId])"

definition read_state_key :: "string \<Rightarrow> json option \<Rightarrow> units" where
  "read_state_key entityId payload =
    (case (payloadString payload [''federatedId''], payloadString payload [''readState'', ''user'', ''homeUserId''],
           payloadString payload [''readState'', ''user'', ''homeInstance'']) of
       (Some federatedId, Some homeUserId, Some homeInstance) \<Rightarrow>
         colon_join [units_of ''read_state'', federatedId, homeInstance, homeUserId]
     | _ \<Rightarrow> colon_join [units_of ''read_state'', units_of entityId])"

definition or_else :: "units option \<Rightarrow> units \<Rightarrow> units" where
  "or_else a b = (case a of None \<Rightarrow> b | Some u \<Rightarrow> u)"

fun queue_key_of :: "OutboxEventType \<Rightarrow> string \<Rightarrow> string \<Rightarrow> json option \<Rightarrow> units" where
  "queue_key_of EvCreate e c p = colon_join [units_of ''message'', units_of e]"
| "queue_key_of EvUpdate e c p = colon_join [units_of ''message'', units_of e]"
| "queue_key_of EvDelete e c p = colon_join [units_of ''message'', units_of e]"
| "queue_key_of Reaction_add e c p = reaction_key e p"
| "queue_key_of Reaction_remove e c p = reaction_key e p"
| "queue_key_of Presence_update e c p = colon_join [units_of ''presence'', units_of e]"
| "queue_key_of Profile_update e c p = colon_join [units_of ''profile'', units_of e]"
| "queue_key_of Read_state_update e c p = read_state_key e p"
| "queue_key_of Dm_close e c p = dm_open_key e p"
| "queue_key_of Dm_reopen e c p = dm_open_key e p"
| "queue_key_of File_rejected e c p =
     colon_join [units_of ''file_rejected'', units_of e, or_else (payloadString p [''attachmentId'']) []]"
| "queue_key_of Friend_request_create e c p = colon_join [units_of ''friendship'', units_of c]"
| "queue_key_of Friend_request_update e c p = colon_join [units_of ''friendship'', units_of c]"
| "queue_key_of Friend_request_cancel e c p = colon_join [units_of ''friendship'', units_of c]"
| "queue_key_of Friend_add e c p = colon_join [units_of ''friendship'', units_of c]"
| "queue_key_of Friend_remove e c p = colon_join [units_of ''friendship'', units_of c]"
| "queue_key_of Member_add e c p = colon_join [units_of ''group'', or_else (payloadString p [''federatedId'']) (units_of c)]"
| "queue_key_of Member_remove e c p = colon_join [units_of ''group'', or_else (payloadString p [''federatedId'']) (units_of c)]"
| "queue_key_of Ownership_transfer e c p = colon_join [units_of ''group'', or_else (payloadString p [''federatedId'']) (units_of c)]"
| "queue_key_of Group_metadata_update e c p = colon_join [units_of ''group'', or_else (payloadString p [''federatedId'']) (units_of c)]"

definition outboxQueueKey :: "OutboxEventType \<Rightarrow> string \<Rightarrow> string \<Rightarrow> string \<Rightarrow> units" where
  "outboxQueueKey eventType entityId contextId payload =
    queue_key_of eventType entityId contextId (json_parse payload)"

definition refusalEndsOutboxQueue :: "string \<Rightarrow> bool" where
  "refusalEndsOutboxQueue eventType = (event_of_text eventType = Some EvCreate)"

definition MESSAGE_EVENT_TYPES :: "string list" where
  "MESSAGE_EVENT_TYPES = map fst (filter (\<lambda>(t, e). event_family e = FMessage) event_names)"

section \<open>Writing an event into its queue\<close>

datatype QueuePlan = PAppend "string list" | PAbsorb string | PCancel "string list"

definition planMessageWrite :: "OutboxEventType \<Rightarrow> outbox_row list \<Rightarrow> QueuePlan" where
  "planMessageWrite eventType queued =
    (if eventType = EvDelete then
       (let unofferedCreate = list_ex (\<lambda>row. ob_eventType row = ''create'' \<and> ob_offeredAt row = None) queued;
            remove = map ob_id queued
        in if unofferedCreate then PCancel remove else PAppend remove)
     else if eventType = EvUpdate \<and> queued \<noteq> [] then
       (let tail = last queued in
        if ob_eventType tail = ''create'' \<and> ob_offeredAt tail = None then PAbsorb (ob_id tail)
        else if ob_eventType tail = ''update'' then PAppend [ob_id tail]
        else PAppend [])
     else PAppend [])"

definition planQueueWrite :: "OutboxEventType \<Rightarrow> outbox_row list \<Rightarrow> QueuePlan" where
  "planQueueWrite eventType queued = (case event_family eventType of
       FState \<Rightarrow> PAppend (map ob_id queued)
     | FMessage \<Rightarrow> planMessageWrite eventType queued
     | FEvent \<Rightarrow> PAppend [])"

record OutboxEventInput =
  oi_peerId :: string
  oi_contextId :: string
  oi_contextType :: string
  oi_entityId :: string
  oi_eventType :: OutboxEventType
  oi_payload :: string
  oi_expiresAt :: millis

text \<open>The rows of one queue, oldest first.\<close>

definition row_order :: "outbox_row \<Rightarrow> millis \<times> string" where
  "row_order r = (ob_createdAt r, ob_id r)"

definition queue_rows :: "string \<Rightarrow> units \<Rightarrow> outbox_row list \<Rightarrow> outbox_row list" where
  "queue_rows peerId key rows =
    sort_key row_order (filter (\<lambda>r. ob_peerId r = peerId \<and> ob_queueKey r = Some key) rows)"

definition latest_created :: "outbox_row list \<Rightarrow> millis" where
  "latest_created queued = foldl (\<lambda>mx row. max mx (ob_createdAt row)) 0 queued"

definition new_row :: "OutboxEventInput \<Rightarrow> units \<Rightarrow> string \<Rightarrow> millis \<Rightarrow> millis \<Rightarrow> outbox_row" where
  "new_row input key newId now created =
    \<lparr>ob_id = newId, ob_peerId = oi_peerId input, ob_contextId = oi_contextId input, ob_entityId = oi_entityId input,
     ob_queueKey = Some key, ob_contextType = oi_contextType input, ob_eventType = event_text (oi_eventType input),
     ob_payload = oi_payload input, ob_encryptionVersion = 0, ob_attempts = 0, ob_nextRetryAt = now,
     ob_expiresAt = oi_expiresAt input, ob_createdAt = created, ob_offeredAt = None\<rparr>"

definition input_key :: "OutboxEventInput \<Rightarrow> units" where
  "input_key input = outboxQueueKey (oi_eventType input) (oi_entityId input) (oi_contextId input) (oi_payload input)"

definition writeOutboxEvent :: "outbox_row list \<Rightarrow> OutboxEventInput \<Rightarrow> string \<Rightarrow> millis \<Rightarrow> outbox_row list" where
  "writeOutboxEvent rows input newId now =
    (let queueKey = input_key input;
         queued = queue_rows (oi_peerId input) queueKey rows in
     case planQueueWrite (oi_eventType input) queued of
       PAbsorb rowId \<Rightarrow> map (\<lambda>r. if ob_id r = rowId then r\<lparr>ob_payload := oi_payload input\<rparr> else r) rows
     | PCancel remove \<Rightarrow> filter (\<lambda>r. ob_id r \<notin> set remove) rows
     | PAppend remove \<Rightarrow> filter (\<lambda>r. ob_id r \<notin> set remove) rows
         @ [new_row input queueKey newId now (max now (latest_created queued + 1))])"

section \<open>Offering\<close>

definition offer :: "millis \<Rightarrow> outbox_row \<Rightarrow> outbox_row" where
  "offer at r = r\<lparr>ob_offeredAt := Some (case ob_offeredAt r of Some t \<Rightarrow> t | None \<Rightarrow> at)\<rparr>"

definition markOutboxOffered :: "outbox_row list \<Rightarrow> string list \<Rightarrow> millis \<Rightarrow> outbox_row list" where
  "markOutboxOffered rows outboxIds now =
    (if outboxIds = [] then rows
     else map (\<lambda>r. if ob_id r \<in> set outboxIds then offer now r else r) rows)"

definition markOutboxOfferedForPeer :: "outbox_row list \<Rightarrow> string \<Rightarrow> millis \<Rightarrow> string \<Rightarrow> outbox_row list" where
  "markOutboxOfferedForPeer rows peerId upTo contextType =
    map (\<lambda>r. if ob_peerId r = peerId \<and> ob_contextType r = contextType \<and> ob_createdAt r \<le> upTo
             then offer upTo r else r) rows"

section \<open>Heads and expiry\<close>

definition earlier_in_queue :: "outbox_row \<Rightarrow> outbox_row \<Rightarrow> bool" where
  "earlier_in_queue e r \<longleftrightarrow> ob_peerId e = ob_peerId r \<and> ob_queueKey e = ob_queueKey r \<and> ob_queueKey r \<noteq> None \<and>
    (ob_createdAt e < ob_createdAt r \<or> (ob_createdAt e = ob_createdAt r \<and> ob_id e < ob_id r))"

definition isOutboxQueueHead :: "outbox_row list \<Rightarrow> outbox_row \<Rightarrow> bool" where
  "isOutboxQueueHead rows r \<longleftrightarrow> ob_queueKey r = None \<or> \<not> list_ex (\<lambda>e. earlier_in_queue e r) rows"

definition expires_row :: "outbox_row list \<Rightarrow> millis \<Rightarrow> outbox_row \<Rightarrow> bool" where
  "expires_row rows now r \<longleftrightarrow> list_ex (\<lambda>e. ob_expiresAt e < now \<and> ob_peerId e = ob_peerId r \<and>
      (ob_id e = ob_id r \<or> (ob_eventType r \<in> set MESSAGE_EVENT_TYPES \<and> earlier_in_queue e r))) rows"

definition expireOutboxQueues :: "outbox_row list \<Rightarrow> millis \<Rightarrow> outbox_row list \<times> nat" where
  "expireOutboxQueues rows now =
    (let kept = filter (\<lambda>r. \<not> expires_row rows now r) rows in (kept, length rows - length kept))"

section \<open>Backfill\<close>

definition backfill_key :: "outbox_row \<Rightarrow> units" where
  "backfill_key r = (case event_of_text (ob_eventType r) of
       Some e \<Rightarrow> outboxQueueKey e (ob_entityId r) (ob_contextId r) (ob_payload r)
     | None \<Rightarrow> colon_join [units_of ''unknown'', units_of (ob_id r)])"

definition backfillOutboxQueueKeys :: "outbox_row list \<Rightarrow> outbox_row list \<times> nat" where
  "backfillOutboxQueueKeys rows =
    (map (\<lambda>r. if ob_queueKey r = None then r\<lparr>ob_queueKey := Some (backfill_key r)\<rparr> else r) rows,
     length (filter (\<lambda>r. ob_queueKey r = None) rows))"

section \<open>Queues under the operations\<close>

definition in_queue :: "string \<Rightarrow> units \<Rightarrow> outbox_row \<Rightarrow> bool" where
  "in_queue p k r \<longleftrightarrow> ob_peerId r = p \<and> ob_queueKey r = Some k"

lemma queue_rows_alt: "queue_rows p k rows = sort_key row_order (filter (in_queue p k) rows)"
  by (simp add: queue_rows_def in_queue_def[abs_def])

lemma set_queue_rows: "set (queue_rows p k rows) = {r \<in> set rows. in_queue p k r}"
  by (simp add: queue_rows_alt)

lemma ids_distinct_queue: "distinct (map ob_id rows) \<Longrightarrow> distinct (map ob_id (queue_rows p k rows))"
  by (simp add: queue_rows_alt distinct_map inj_on_def)

lemma insort_key_map: "insort_key f (g x) (map g xs) = map g (insort_key (\<lambda>y. f (g y)) x xs)"
  by (induction xs) auto

lemma sort_key_map: "sort_key f (map g xs) = map g (sort_key (\<lambda>y. f (g y)) xs)"
  by (induction xs) (auto simp: insort_key_map)

text \<open>An update of rows that keeps what queues are made of.\<close>

definition keeps_place :: "(outbox_row \<Rightarrow> outbox_row) \<Rightarrow> bool" where
  "keeps_place g \<longleftrightarrow> (\<forall>r. ob_id (g r) = ob_id r \<and> ob_peerId (g r) = ob_peerId r \<and> ob_queueKey (g r) = ob_queueKey r
      \<and> ob_createdAt (g r) = ob_createdAt r)"

lemma queue_rows_map: "keeps_place g \<Longrightarrow> queue_rows p k (map g rows) = map g (queue_rows p k rows)"
proof -
  assume g: "keeps_place g"
  have "(\<lambda>r. row_order (g r)) = row_order" "in_queue p k \<circ> g = in_queue p k"
    using g by (auto simp: keeps_place_def row_order_def in_queue_def)
  then show ?thesis by (simp add: queue_rows_alt filter_map sort_key_map)
qed

lemma queue_rows_filter: "queue_rows p k (filter P rows) = filter P (queue_rows p k rows)"
  by (simp add: queue_rows_alt filter_sort conj_commute)

lemma row_order_inj: "distinct (map ob_id rows) \<Longrightarrow> inj_on row_order (set rows)"
  by (auto simp: row_order_def inj_on_def distinct_map)

lemma queue_rows_snoc:
  assumes "distinct (map ob_id (rows @ [r]))"
    and "\<And>q. q \<in> set (queue_rows p k rows) \<Longrightarrow> ob_createdAt q < ob_createdAt r"
  shows "queue_rows p k (rows @ [r]) = queue_rows p k rows @ (if in_queue p k r then [r] else [])"
proof (cases "in_queue p k r")
  case False
  then show ?thesis by (simp add: queue_rows_alt)
next
  case True
  have "sort_key row_order (filter (in_queue p k) (rows @ [r])) = queue_rows p k rows @ [r]"
  proof (rule sort_key_inj_key_eq)
    show "mset (filter (in_queue p k) (rows @ [r])) = mset (queue_rows p k rows @ [r])"
      using True by (simp add: queue_rows_alt)
    show "inj_on row_order (set (filter (in_queue p k) (rows @ [r])))"
      by (rule inj_on_subset[OF row_order_inj[OF assms(1)]]) auto
    have "row_order q \<le> row_order r" if "q \<in> set (queue_rows p k rows)" for q
      using assms(2)[OF that] by (simp add: row_order_def less_eq_prod_def)
    then show "sorted (map row_order (queue_rows p k rows @ [r]))"
      by (auto simp: sorted_append queue_rows_alt)
  qed
  with True show ?thesis by (simp add: queue_rows_alt)
qed

lemma latest_created_ge: "foldl (\<lambda>mx row. max mx (ob_createdAt row)) a qs \<ge> a
    \<and> (\<forall>q\<in>set qs. ob_createdAt q \<le> foldl (\<lambda>mx row. max mx (ob_createdAt row)) a qs)"
proof (induction qs arbitrary: a)
  case (Cons q qs)
  from Cons[of "max a (ob_createdAt q)"] show ?case by auto
qed simp

lemma remove_ids:
  assumes "distinct (map ob_id rows)" and "X \<subseteq> ob_id ` {r \<in> set rows. in_queue p k r}" and "(p', k') \<noteq> (p, k)"
  shows "filter (\<lambda>r. ob_id r \<notin> X) (queue_rows p' k' rows) = queue_rows p' k' rows"
proof (rule filter_True, rule ballI, rule notI)
  fix r assume "r \<in> set (queue_rows p' k' rows)" and "ob_id r \<in> X"
  then obtain q where "r \<in> set rows" "in_queue p' k' r" "q \<in> set rows" "in_queue p k q" "ob_id q = ob_id r"
    using assms(2) by (auto simp: set_queue_rows)
  then have "q = r" using assms(1) by (simp add: distinct_map inj_on_def)
  with \<open>in_queue p k q\<close> \<open>in_queue p' k' r\<close> assms(3) show False by (auto simp: in_queue_def)
qed

text \<open>The fold of one plan on a queue, with the row an append adds.\<close>

definition fold_plan :: "QueuePlan \<Rightarrow> string \<Rightarrow> outbox_row \<Rightarrow> outbox_row list \<Rightarrow> outbox_row list" where
  "fold_plan plan payload row queued = (case plan of
       PAbsorb i \<Rightarrow> map (\<lambda>r. if ob_id r = i then r\<lparr>ob_payload := payload\<rparr> else r) queued
     | PCancel remove \<Rightarrow> filter (\<lambda>r. ob_id r \<notin> set remove) queued
     | PAppend remove \<Rightarrow> filter (\<lambda>r. ob_id r \<notin> set remove) queued @ [row])"

definition appended :: "outbox_row list \<Rightarrow> OutboxEventInput \<Rightarrow> string \<Rightarrow> millis \<Rightarrow> outbox_row" where
  "appended rows input newId now = new_row input (input_key input) newId now
     (max now (latest_created (queue_rows (oi_peerId input) (input_key input) rows) + 1))"

definition plan_ids :: "QueuePlan \<Rightarrow> string set" where
  "plan_ids plan = (case plan of PAbsorb i \<Rightarrow> {i} | PCancel rs \<Rightarrow> set rs | PAppend rs \<Rightarrow> set rs)"

lemma plan_ids_in_queue: "plan_ids (planQueueWrite e queued) \<subseteq> ob_id ` set queued"
  by (auto simp: planQueueWrite_def planMessageWrite_def plan_ids_def Let_def split: OutboxFamily.split)

lemma appended_place:
  "in_queue p k (appended rows input newId now) \<longleftrightarrow> (p, k) = (oi_peerId input, input_key input)"
  "ob_id (appended rows input newId now) = newId"
  by (auto simp: appended_def new_row_def in_queue_def)

lemma appended_later:
  "q \<in> set (queue_rows (oi_peerId input) (input_key input) rows)
    \<Longrightarrow> ob_createdAt q < ob_createdAt (appended rows input newId now)"
  using latest_created_ge[of 0 "queue_rows (oi_peerId input) (input_key input) rows"]
  by (auto simp: appended_def new_row_def latest_created_def less_max_iff_disj le_less_trans)

lemma writeOutboxEvent_unfold:
  "writeOutboxEvent rows input newId now =
    (case planQueueWrite (oi_eventType input) (queue_rows (oi_peerId input) (input_key input) rows) of
       PAbsorb i \<Rightarrow> map (\<lambda>r. if ob_id r = i then r\<lparr>ob_payload := oi_payload input\<rparr> else r) rows
     | PCancel remove \<Rightarrow> filter (\<lambda>r. ob_id r \<notin> set remove) rows
     | PAppend remove \<Rightarrow> filter (\<lambda>r. ob_id r \<notin> set remove) rows @ [appended rows input newId now])"
  by (simp only: writeOutboxEvent_def appended_def Let_def)

lemma write_queue:
  assumes "distinct (map ob_id rows)" and "newId \<notin> ob_id ` set rows"
  shows "queue_rows p k (writeOutboxEvent rows input newId now) =
    (if (p, k) = (oi_peerId input, input_key input)
     then fold_plan (planQueueWrite (oi_eventType input) (queue_rows p k rows)) (oi_payload input)
            (appended rows input newId now) (queue_rows p k rows)
     else queue_rows p k rows)"
proof -
  let ?P = "oi_peerId input" and ?K = "input_key input"
  let ?plan = "planQueueWrite (oi_eventType input) (queue_rows ?P ?K rows)"
  have ids: "plan_ids ?plan \<subseteq> ob_id ` {r \<in> set rows. in_queue ?P ?K r}"
    using plan_ids_in_queue[of "oi_eventType input" "queue_rows ?P ?K rows"] by (simp add: set_queue_rows)
  have other: "filter (\<lambda>r. ob_id r \<notin> plan_ids ?plan) (queue_rows p k rows) = queue_rows p k rows" if "(p, k) \<noteq> (?P, ?K)"
    by (rule remove_ids[OF assms(1) ids that])
  show ?thesis
  proof (cases ?plan)
    case (PAppend remove)
    let ?kept = "filter (\<lambda>r. ob_id r \<notin> set remove) rows"
    let ?r = "appended rows input newId now"
    have d: "distinct (map ob_id (?kept @ [?r]))"
      using assms by (auto simp: appended_place distinct_map_filter)
    show ?thesis
    proof (cases "(p, k) = (?P, ?K)")
      case True
      have "queue_rows p k (?kept @ [?r]) = queue_rows p k ?kept @ [?r]"
        using queue_rows_snoc[OF d, of p k] appended_later[of _ input rows] True
        by (auto simp: queue_rows_filter appended_place)
      then show ?thesis using True PAppend by (simp add: writeOutboxEvent_unfold fold_plan_def queue_rows_filter)
    next
      case False
      then have "\<not> in_queue p k ?r" by (simp add: appended_place)
      then have "queue_rows p k (?kept @ [?r]) = queue_rows p k ?kept" by (simp add: queue_rows_alt)
      then show ?thesis using False PAppend other
        by (auto simp: writeOutboxEvent_unfold queue_rows_filter plan_ids_def)
    qed
  next
    case (PAbsorb i)
    have g: "keeps_place (\<lambda>r. if ob_id r = i then r\<lparr>ob_payload := oi_payload input\<rparr> else r)"
      by (simp add: keeps_place_def)
    have "map (\<lambda>r. if ob_id r = i then r\<lparr>ob_payload := oi_payload input\<rparr> else r) (queue_rows p k rows)
        = queue_rows p k rows" if "(p, k) \<noteq> (?P, ?K)"
    proof (rule map_idI)
      fix r assume r: "r \<in> set (queue_rows p k rows)"
      have "r \<in> set (filter (\<lambda>r. ob_id r \<notin> plan_ids ?plan) (queue_rows p k rows))"
        using other[OF that] r by simp
      then show "(if ob_id r = i then r\<lparr>ob_payload := oi_payload input\<rparr> else r) = r"
        using PAbsorb by (simp add: plan_ids_def)
    qed
    then show ?thesis using PAbsorb by (auto simp: writeOutboxEvent_unfold queue_rows_map[OF g] fold_plan_def)
  next
    case (PCancel remove)
    then show ?thesis using other by (auto simp: writeOutboxEvent_unfold queue_rows_filter fold_plan_def plan_ids_def)
  qed
qed

lemma write_ids:
  assumes "distinct (map ob_id rows)" and "newId \<notin> ob_id ` set rows"
  shows "distinct (map ob_id (writeOutboxEvent rows input newId now))"
proof -
  have e: "ob_id (if c then r\<lparr>ob_payload := p\<rparr> else r) = ob_id r" for c r p
    by simp
  show ?thesis
    using assms
    by (auto simp: writeOutboxEvent_unfold appended_place distinct_map_filter comp_def e split: QueuePlan.split)
qed

text \<open>Every row of a queue behind its first is behind that one: a queue has exactly one head.\<close>

lemma head_iff:
  assumes "distinct (map ob_id rows)" and "r \<in> set rows" and "in_queue p k r"
  shows "isOutboxQueueHead rows r \<longleftrightarrow> r = hd (queue_rows p k rows)"
proof -
  let ?q = "queue_rows p k rows"
  have ne: "?q \<noteq> []" using assms(2,3) set_queue_rows[of p k rows] by force
  then obtain h t where q: "?q = h # t" by (cases ?q) auto
  have mem: "x \<in> set rows \<and> in_queue p k x \<longleftrightarrow> x \<in> set (h # t)" for x
    using set_queue_rows[of p k rows] q by auto
  have "sorted (map row_order ?q)" by (simp add: queue_rows_alt)
  then have srt: "\<forall>x\<in>set t. row_order h \<le> row_order x" by (simp add: q)
  have strict: "row_order h < row_order x" if "x \<in> set (h # t)" "x \<noteq> h" for x
  proof -
    have "row_order h \<le> row_order x" using srt that by auto
    moreover have "row_order h \<noteq> row_order x"
      using inj_onD[OF row_order_inj[OF assms(1)], of h x] mem that by auto
    ultimately show ?thesis by simp
  qed
  have e: "earlier_in_queue x y \<longleftrightarrow> row_order x < row_order y" if "x \<in> set (h # t)" "y \<in> set (h # t)" for x y
  proof -
    have "in_queue p k x" "in_queue p k y" using that mem by blast+
    then show ?thesis by (auto simp: earlier_in_queue_def row_order_def in_queue_def less_prod_def)
  qed
  have out: "\<not> earlier_in_queue x r" if "x \<in> set rows" "\<not> in_queue p k x" for x
    using that assms(3) by (auto simp: earlier_in_queue_def in_queue_def)
  have key: "ob_queueKey r \<noteq> None" using assms(3) by (simp add: in_queue_def)
  have r: "r \<in> set (h # t)" using mem assms(2,3) by blast
  show ?thesis
  proof (cases "r = h")
    case True
    have "\<not> earlier_in_queue x r" if "x \<in> set rows" for x
    proof (cases "in_queue p k x")
      case True
      then have "x \<in> set (h # t)" using mem that by blast
      then have "\<not> row_order x < row_order h" using srt by fastforce
      then show ?thesis using e[OF \<open>x \<in> set (h # t)\<close> r] \<open>r = h\<close> by simp
    qed (use out that in blast)
    then show ?thesis using True q by (auto simp: isOutboxQueueHead_def list_ex_iff)
  next
    case False
    have "earlier_in_queue h r" using e[of h r] strict[OF r False] r by simp
    moreover have "h \<in> set rows" using mem[of h] by simp
    ultimately show ?thesis using False q key by (auto simp: isOutboxQueueHead_def list_ex_iff)
  qed
qed

text \<open>
  Every non-empty queue has exactly one head, its oldest row, so the worker sends a queue's events
  one at a time in the order they were written.
\<close>

theorem queue_head_unique:
  assumes "distinct (map ob_id rows)" and "queue_rows p k rows \<noteq> []"
  shows "{r \<in> set rows. ob_peerId r = p \<and> ob_queueKey r = Some k \<and> isOutboxQueueHead rows r}
    = {hd (queue_rows p k rows)}"
proof -
  have "hd (queue_rows p k rows) \<in> {r \<in> set rows. in_queue p k r}"
    using assms(2) hd_in_set set_queue_rows by blast
  then show ?thesis using head_iff[OF assms(1)] by (auto simp: in_queue_def)
qed

lemma plan_absorb: "planQueueWrite e queued = PAbsorb i \<Longrightarrow>
    queued \<noteq> [] \<and> i = ob_id (last queued) \<and> ob_offeredAt (last queued) = None"
  by (auto simp: planQueueWrite_def planMessageWrite_def Let_def split: OutboxFamily.splits if_splits)

text \<open>
  A row that may have been handed to the peer is never changed by a later event: whatever is
  written, it is still there as it was, or it has been deleted.
\<close>

theorem offered_rows_immutable:
  assumes "distinct (map ob_id rows)"
  shows "{r \<in> set (writeOutboxEvent rows input newId now). ob_offeredAt r \<noteq> None} \<subseteq> set rows"
proof (cases "planQueueWrite (oi_eventType input) (queue_rows (oi_peerId input) (input_key input) rows)")
  case (PAbsorb i)
  let ?q = "queue_rows (oi_peerId input) (input_key input) rows"
  note a = plan_absorb[OF PAbsorb]
  have "last ?q \<in> set rows" using a last_in_set[of ?q] set_queue_rows by blast
  then have "ob_offeredAt r = None" if "r \<in> set rows" "ob_id r = i" for r
    using a assms that by (metis distinct_map inj_onD)
  then show ?thesis using PAbsorb by (auto simp: writeOutboxEvent_unfold)
qed (auto simp: writeOutboxEvent_unfold appended_def new_row_def)

text \<open>
  The expiry pass removes exactly the rows past their own time to live and the rows of a DM
  message that are queued behind one of those, and it reports how many.
\<close>

theorem expireOutboxQueues_exact:
  "set (fst (expireOutboxQueues rows now)) =
     set rows - {r. \<exists>e \<in> set rows. ob_expiresAt e < now \<and> ob_peerId e = ob_peerId r \<and>
        (ob_id e = ob_id r \<or> (ob_eventType r \<in> {''create'', ''update'', ''delete''} \<and> earlier_in_queue e r))}
   \<and> snd (expireOutboxQueues rows now) + length (fst (expireOutboxQueues rows now)) = length rows"
proof -
  have "set MESSAGE_EVENT_TYPES = {''create'', ''update'', ''delete''}"
    by (simp add: MESSAGE_EVENT_TYPES_def event_names_def)
  then show ?thesis
    by (auto simp: expireOutboxQueues_def Let_def expires_row_def list_ex_iff)
qed

text \<open>
  The boot backfill leaves no row without a queue key, touches nothing else, and does nothing the
  second time.
\<close>

theorem backfill_keys_all:
  "list_all (\<lambda>r. ob_queueKey r \<noteq> None) (fst (backfillOutboxQueueKeys rows))
   \<and> map (\<lambda>r. r\<lparr>ob_queueKey := None\<rparr>) (fst (backfillOutboxQueueKeys rows)) = map (\<lambda>r. r\<lparr>ob_queueKey := None\<rparr>) rows
   \<and> backfillOutboxQueueKeys (fst (backfillOutboxQueueKeys rows)) = (fst (backfillOutboxQueueKeys rows), 0)"
  by (auto simp: backfillOutboxQueueKeys_def list_all_iff filter_empty_conv)

section \<open>Examples\<close>

definition sample_row :: "string \<Rightarrow> string \<Rightarrow> millis \<Rightarrow> millis option \<Rightarrow> outbox_row" where
  "sample_row i e t off = \<lparr>ob_id = i, ob_peerId = ''p'', ob_contextId = ''c'', ob_entityId = ''m'',
     ob_queueKey = Some (units_of ''message:m''), ob_contextType = ''dm'', ob_eventType = e, ob_payload = ''x'',
     ob_encryptionVersion = 0, ob_attempts = 0, ob_nextRetryAt = t, ob_expiresAt = 1000, ob_createdAt = t,
     ob_offeredAt = off\<rparr>"

definition sample_rows :: "outbox_row list" where
  "sample_rows = [sample_row ''2'' ''update'' 20 None, sample_row ''1'' ''create'' 10 (Some 15)]"

lemma sample_rows_distinct: "distinct (map ob_id sample_rows)"
  by (simp add: sample_rows_def sample_row_def)

lemma sample_queue: "queue_rows ''p'' (units_of ''message:m'') sample_rows
    = [sample_row ''1'' ''create'' 10 (Some 15), sample_row ''2'' ''update'' 20 None]"
  by (simp add: queue_rows_def sample_rows_def sample_row_def row_order_def less_eq_prod_def)

lemma queue_head_unique_witness:
  "{r \<in> set sample_rows. ob_peerId r = ''p'' \<and> ob_queueKey r = Some (units_of ''message:m'') \<and> isOutboxQueueHead sample_rows r}
    = {sample_row ''1'' ''create'' 10 (Some 15)}"
  using queue_head_unique[OF sample_rows_distinct, of "''p''" "units_of ''message:m''"] by (simp add: sample_queue)

lemma offered_rows_immutable_witness:
  "{r \<in> set (writeOutboxEvent sample_rows
      \<lparr>oi_peerId = ''p'', oi_contextId = ''c'', oi_contextType = ''dm'', oi_entityId = ''m'', oi_eventType = EvDelete,
       oi_payload = ''x'', oi_expiresAt = 100\<rparr> ''3'' 30). ob_offeredAt r \<noteq> None} \<subseteq> set sample_rows"
  by (rule offered_rows_immutable[OF sample_rows_distinct])

end
