(* ===== verification/PeerState.thy ===== *)
theory PeerState
  imports Outbox Schema
begin

text \<open>
  \<open>packages/server/src/utils/federationPeerState.ts\<close>: the peer state machine and its only writer. A
  transition is a compare-and-set on the status (and secret) its caller expects, and decides the side
  effects from the old and the new state. With it, \<open>resetOutboxBackoff\<close> and the subscriber fan-out of
  \<open>federationPeerActivation.ts\<close>, which activation runs. The table columns are plain text, so a row's
  status is text here and its reading as one of the seven statuses is \<open>peerStatusOf\<close>.
\<close>

section \<open>Rows, statuses, reasons\<close>

record peer_row =
  pe_id :: string
  pe_origin :: origin
  pe_instanceName :: "string option"
  pe_hmacSecret :: string
  pe_status :: string
  pe_initiatedBy :: string
  pe_lastSeenAt :: "millis option"
  pe_lastFailureAt :: "millis option"
  pe_consecutiveFailures :: int
  pe_consecutiveAuthFailures :: int
  pe_lastProbeAt :: "millis option"
  pe_probeAttempts :: int
  pe_lastSyncedAt :: "millis option"
  pe_remoteMaxUploadSize :: "int option"
  pe_nonceSupported :: int
  pe_pendingHmacSecret :: "string option"
  pe_secretRotationAt :: "millis option"
  pe_secretRotatedAt :: "millis option"
  pe_autoRotateIntervalDays :: int
  pe_createdAt :: millis
  pe_approvalToken :: "string option"
  pe_peerInstanceId :: "string option"
  pe_observedPeerInstanceId :: "string option"
  pe_statusReason :: "string option"

datatype FederationPeerStatus =
  PPending | PAwaiting | PActive | PUnreachable | PNeedsAttention | PRejected | PRevoked

fun status_text :: "FederationPeerStatus \<Rightarrow> string" where
  "status_text PPending = ''pending''"
| "status_text PAwaiting = ''awaiting_approval''"
| "status_text PActive = ''active''"
| "status_text PUnreachable = ''unreachable''"
| "status_text PNeedsAttention = ''needs_attention''"
| "status_text PRejected = ''rejected''"
| "status_text PRevoked = ''revoked''"

definition PEER_STATUSES :: "FederationPeerStatus list" where
  "PEER_STATUSES = [PPending, PAwaiting, PActive, PUnreachable, PNeedsAttention, PRejected, PRevoked]"

definition peerStatusOf :: "peer_row \<Rightarrow> FederationPeerStatus" where
  "peerStatusOf row = (case find (\<lambda>s. status_text s = pe_status row) PEER_STATUSES of
       Some s \<Rightarrow> s | None \<Rightarrow> PNeedsAttention)"

datatype NeedsAttentionReason = Auth_failures | Peer_reset_detected | Repeer_incomplete

datatype RejectedReason =
    Denied_by_local_admin | Denied_by_remote | Revoked_by_remote | Expired_on_remote | Stale_peering_on_remote

fun attention_text :: "NeedsAttentionReason \<Rightarrow> string" where
  "attention_text Auth_failures = ''auth_failures''"
| "attention_text Peer_reset_detected = ''peer_reset_detected''"
| "attention_text Repeer_incomplete = ''repeer_incomplete''"

fun rejected_text :: "RejectedReason \<Rightarrow> string" where
  "rejected_text Denied_by_local_admin = ''denied_by_local_admin''"
| "rejected_text Denied_by_remote = ''denied_by_remote''"
| "rejected_text Revoked_by_remote = ''revoked_by_remote''"
| "rejected_text Expired_on_remote = ''expired_on_remote''"
| "rejected_text Stale_peering_on_remote = ''stale_peering_on_remote''"

datatype PeerActivationReason =
    Initiate_accepted | Accept_rejected_override | Accept_awaiting_approval | Accept_awaiting_approval_fallback
  | Accept_pending | Accept_new | Approval_handshake | Health_check_recovery | Ensure_peered
  | Stale_peering_verified | Startup_bootstrap

datatype PeerExitCause =
    Network_threshold | Auth_threshold | Admin_revoked | Reset_detected | Remote_refused | Remote_denied_request
  | Stale_peering | Handshake_queued | Repeer_unverified | Local_admin_denied | Admin_claimed
  | Handshake_released | Retry_after_remote_reset

section \<open>Transitions\<close>

text \<open>Row fields a transition may write; \<open>None\<close> is a field it does not name.\<close>

record PeerRowFields =
  pf_hmacSecret :: "string option"
  pf_instanceName :: "string option option"
  pf_peerInstanceId :: "string option option"
  pf_observedPeerInstanceId :: "string option option"
  pf_approvalToken :: "string option option"
  pf_lastSeenAt :: "millis option option"
  pf_lastFailureAt :: "millis option option"
  pf_consecutiveFailures :: "int option"
  pf_consecutiveAuthFailures :: "int option"
  pf_initiatedBy :: "string option"

definition no_fields :: PeerRowFields where
  "no_fields = \<lparr>pf_hmacSecret = None, pf_instanceName = None, pf_peerInstanceId = None,
     pf_observedPeerInstanceId = None, pf_approvalToken = None, pf_lastSeenAt = None, pf_lastFailureAt = None,
     pf_consecutiveFailures = None, pf_consecutiveAuthFailures = None, pf_initiatedBy = None\<rparr>"

definition given :: "'a option \<Rightarrow> 'a \<Rightarrow> 'a" where
  "given new old = (case new of None \<Rightarrow> old | Some v \<Rightarrow> v)"

definition set_fields :: "PeerRowFields \<Rightarrow> peer_row \<Rightarrow> peer_row" where
  "set_fields f r = r\<lparr>
     pe_hmacSecret := given (pf_hmacSecret f) (pe_hmacSecret r),
     pe_instanceName := given (pf_instanceName f) (pe_instanceName r),
     pe_peerInstanceId := given (pf_peerInstanceId f) (pe_peerInstanceId r),
     pe_observedPeerInstanceId := given (pf_observedPeerInstanceId f) (pe_observedPeerInstanceId r),
     pe_approvalToken := given (pf_approvalToken f) (pe_approvalToken r),
     pe_lastSeenAt := given (pf_lastSeenAt f) (pe_lastSeenAt r),
     pe_lastFailureAt := given (pf_lastFailureAt f) (pe_lastFailureAt r),
     pe_consecutiveFailures := given (pf_consecutiveFailures f) (pe_consecutiveFailures r),
     pe_consecutiveAuthFailures := given (pf_consecutiveAuthFailures f) (pe_consecutiveAuthFailures r),
     pe_initiatedBy := given (pf_initiatedBy f) (pe_initiatedBy r)\<rparr>"

datatype PeerTarget =
    ToActive PeerActivationReason
  | ToNeedsAttention NeedsAttentionReason PeerExitCause
  | ToRejected RejectedReason PeerExitCause
  | ToPending PeerExitCause
  | ToAwaiting PeerExitCause
  | ToUnreachable PeerExitCause
  | ToRevoked PeerExitCause

record PeerTransition =
  pt_from :: "FederationPeerStatus list"
  pt_expectSecret :: "string option"
  pt_fields :: PeerRowFields
  pt_to :: PeerTarget

fun target_status :: "PeerTarget \<Rightarrow> FederationPeerStatus" where
  "target_status (ToActive _) = PActive"
| "target_status (ToNeedsAttention _ _) = PNeedsAttention"
| "target_status (ToRejected _ _) = PRejected"
| "target_status (ToPending _) = PPending"
| "target_status (ToAwaiting _) = PAwaiting"
| "target_status (ToUnreachable _) = PUnreachable"
| "target_status (ToRevoked _) = PRevoked"

fun reasonOf :: "PeerTarget \<Rightarrow> string option" where
  "reasonOf (ToNeedsAttention r _) = Some (attention_text r)"
| "reasonOf (ToRejected r _) = Some (rejected_text r)"
| "reasonOf _ = None"

fun activation_of :: "PeerTarget \<Rightarrow> PeerActivationReason option" where
  "activation_of (ToActive c) = Some c"
| "activation_of _ = None"

fun exit_of :: "PeerTarget \<Rightarrow> PeerExitCause option" where
  "exit_of (ToActive _) = None"
| "exit_of (ToNeedsAttention _ c) = Some c"
| "exit_of (ToRejected _ c) = Some c"
| "exit_of (ToPending c) = Some c"
| "exit_of (ToAwaiting c) = Some c"
| "exit_of (ToUnreachable c) = Some c"
| "exit_of (ToRevoked c) = Some c"

section \<open>The database of the state machine\<close>

record peer_db =
  pd_peers :: "peer_row list"
  pd_outbox :: "outbox_row list"

definition peer_get :: "string \<Rightarrow> peer_row list \<Rightarrow> peer_row option" where
  "peer_get = tbl_get pe_id"

definition peer_by_origin :: "origin \<Rightarrow> peer_row list \<Rightarrow> peer_row option" where
  "peer_by_origin = tbl_get pe_origin"

record PeerStateSnapshot =
  ps_id :: string
  ps_origin :: origin
  ps_status :: FederationPeerStatus
  ps_statusReason :: "string option"
  ps_hmacSecret :: string
  ps_initiatedBy :: string

definition snapshot :: "peer_row \<Rightarrow> PeerStateSnapshot" where
  "snapshot row = \<lparr>ps_id = pe_id row, ps_origin = pe_origin row, ps_status = peerStatusOf row,
     ps_statusReason = pe_statusReason row, ps_hmacSecret = pe_hmacSecret row, ps_initiatedBy = pe_initiatedBy row\<rparr>"

definition readPeerState :: "peer_db \<Rightarrow> string \<Rightarrow> PeerStateSnapshot option" where
  "readPeerState db peerId = map_option snapshot (peer_get peerId (pd_peers db))"

definition readPeerStateByOrigin :: "peer_db \<Rightarrow> origin \<Rightarrow> PeerStateSnapshot option" where
  "readPeerStateByOrigin db org = map_option snapshot (peer_by_origin org (pd_peers db))"

text \<open>Context ids with their first type, in insertion order.\<close>

fun first_per_key :: "(string \<times> string) list \<Rightarrow> (string \<times> string) list \<Rightarrow> (string \<times> string) list" where
  "first_per_key seen [] = seen"
| "first_per_key seen ((k, v) # es) =
     first_per_key (if k \<in> set (map fst seen) then seen else seen @ [(k, v)]) es"

definition queuedContexts :: "peer_db \<Rightarrow> string \<Rightarrow> (string \<times> string) list" where
  "queuedContexts db peerId = first_per_key []
     (map (\<lambda>e. (ob_contextId e, ob_contextType e)) (filter (\<lambda>e. ob_peerId e = peerId) (pd_outbox db)))"

record TransitionEffects =
  te_peerId :: string
  te_origin :: origin
  te_previous :: "FederationPeerStatus option"
  te_next :: "FederationPeerStatus option"
  te_reason :: "string option"
  te_activation :: "PeerActivationReason option"
  te_exit :: "PeerExitCause option"
  te_refusedContexts :: "(string \<times> string) list option"

datatype TransitionResult =
    Applied FederationPeerStatus TransitionEffects
  | NotApplied "PeerStateSnapshot option"

fun is_applied :: "TransitionResult \<Rightarrow> bool" where
  "is_applied (Applied _ _) = True"
| "is_applied (NotApplied _) = False"

definition PACED_STATUSES :: "FederationPeerStatus list" where
  "PACED_STATUSES = [PPending, PUnreachable]"

definition fresh_pacing :: "FederationPeerStatus \<Rightarrow> FederationPeerStatus \<Rightarrow> bool" where
  "fresh_pacing before next \<longleftrightarrow> before \<noteq> next \<and> (next \<in> set PACED_STATUSES \<or> next = PActive)"

definition transition_row :: "PeerTransition \<Rightarrow> FederationPeerStatus \<Rightarrow> peer_row \<Rightarrow> peer_row" where
  "transition_row t before r =
    (let r1 = set_fields (pt_fields t) r;
         next = target_status (pt_to t);
         r2 = (if fresh_pacing before next then r1\<lparr>pe_probeAttempts := 0, pe_lastProbeAt := None\<rparr> else r1)
     in r2\<lparr>pe_status := status_text next, pe_statusReason := reasonOf (pt_to t)\<rparr>)"

definition secret_ok :: "string option \<Rightarrow> string \<Rightarrow> bool" where
  "secret_ok expect held = (case expect of None \<Rightarrow> True | Some s \<Rightarrow> held = s)"

text \<open>The \<open>WHERE\<close> of the compare-and-set: the raw status text, as SQL compares it.\<close>

definition cas_row :: "string \<Rightarrow> FederationPeerStatus \<Rightarrow> string option \<Rightarrow> peer_row \<Rightarrow> bool" where
  "cas_row peerId before expect r \<longleftrightarrow>
     pe_id r = peerId \<and> pe_status r = status_text before \<and> secret_ok expect (pe_hmacSecret r)"

definition enters_refusal :: "FederationPeerStatus \<Rightarrow> FederationPeerStatus \<Rightarrow> bool" where
  "enters_refusal before next \<longleftrightarrow> before \<noteq> next \<and> (next = PRejected \<or> next = PRevoked)"

definition refused_contexts ::
  "peer_db \<Rightarrow> string \<Rightarrow> FederationPeerStatus \<Rightarrow> PeerTarget \<Rightarrow> (string \<times> string) list option" where
  "refused_contexts db peerId before to =
    (if enters_refusal before (target_status to)
     then (if target_status to = PRejected then Some (queuedContexts db peerId) else None)
     else (case to of
         ToNeedsAttention r _ \<Rightarrow> if r = Auth_failures \<and> before \<noteq> PNeedsAttention
           then Some (queuedContexts db peerId) else None
       | _ \<Rightarrow> None))"

definition applyPeerTransition :: "peer_db \<Rightarrow> string \<Rightarrow> PeerTransition \<Rightarrow> peer_db \<times> TransitionResult" where
  "applyPeerTransition db peerId t = (case readPeerState db peerId of
     None \<Rightarrow> (db, NotApplied None)
   | Some before \<Rightarrow>
       (if ps_status before \<notin> set (pt_from t) \<or> \<not> secret_ok (pt_expectSecret t) (ps_hmacSecret before)
        then (db, NotApplied (Some before))
        else
          let hit = cas_row peerId (ps_status before) (pt_expectSecret t);
              db1 = db\<lparr>pd_peers := map (\<lambda>r. if hit r then transition_row t (ps_status before) r else r) (pd_peers db)\<rparr>
          in if \<not> list_ex hit (pd_peers db) then (db1, NotApplied (readPeerState db1 peerId))
             else
               let next = target_status (pt_to t);
                   db2 = (if enters_refusal (ps_status before) next
                          then db1\<lparr>pd_outbox := filter (\<lambda>e. ob_peerId e \<noteq> peerId) (pd_outbox db1)\<rparr> else db1)
               in (db2, Applied (ps_status before)
                     \<lparr>te_peerId = peerId, te_origin = ps_origin before, te_previous = Some (ps_status before),
                      te_next = Some next, te_reason = reasonOf (pt_to t), te_activation = activation_of (pt_to t),
                      te_exit = exit_of (pt_to t),
                      te_refusedContexts = refused_contexts db1 peerId (ps_status before) (pt_to t)\<rparr>)))"

definition recordPeerAttempt :: "peer_db \<Rightarrow> string \<Rightarrow> FederationPeerStatus list \<Rightarrow> millis \<Rightarrow> peer_db \<times> bool" where
  "recordPeerAttempt db peerId from startedAt =
    (let hit = (\<lambda>r. pe_id r = peerId \<and> pe_status r \<in> set (map status_text from)) in
     (db\<lparr>pd_peers := map (\<lambda>r. if hit r
          then r\<lparr>pe_probeAttempts := pe_probeAttempts r + 1, pe_lastProbeAt := Some startedAt\<rparr> else r) (pd_peers db)\<rparr>,
      list_ex hit (pd_peers db)))"

section \<open>Inserting and removing rows\<close>

datatype NewPeerStatus = NewPending | NewActive PeerActivationReason | NewRejected RejectedReason

record NewPeerRow =
  np_origin :: origin
  np_hmacSecret :: string
  np_initiatedBy :: string
  np_instanceName :: "string option"
  np_peerInstanceId :: "string option"
  np_lastSeenAt :: "millis option"
  np_status :: NewPeerStatus

fun new_status :: "NewPeerStatus \<Rightarrow> FederationPeerStatus" where
  "new_status NewPending = PPending"
| "new_status (NewActive _) = PActive"
| "new_status (NewRejected _) = PRejected"

fun new_reason :: "NewPeerStatus \<Rightarrow> string option" where
  "new_reason (NewRejected r) = Some (rejected_text r)"
| "new_reason _ = None"

fun new_activation :: "NewPeerStatus \<Rightarrow> PeerActivationReason option" where
  "new_activation (NewActive c) = Some c"
| "new_activation _ = None"

definition new_peer_row :: "NewPeerRow \<Rightarrow> string \<Rightarrow> millis \<Rightarrow> peer_row" where
  "new_peer_row v newId now =
    \<lparr>pe_id = newId, pe_origin = np_origin v, pe_instanceName = np_instanceName v, pe_hmacSecret = np_hmacSecret v,
     pe_status = status_text (new_status (np_status v)), pe_initiatedBy = np_initiatedBy v,
     pe_lastSeenAt = np_lastSeenAt v, pe_lastFailureAt = None, pe_consecutiveFailures = 0,
     pe_consecutiveAuthFailures = 0, pe_lastProbeAt = None, pe_probeAttempts = 0, pe_lastSyncedAt = Some 0,
     pe_remoteMaxUploadSize = None, pe_nonceSupported = 0, pe_pendingHmacSecret = None, pe_secretRotationAt = None,
     pe_secretRotatedAt = None, pe_autoRotateIntervalDays = 90, pe_createdAt = now, pe_approvalToken = None,
     pe_peerInstanceId = np_peerInstanceId v, pe_observedPeerInstanceId = None,
     pe_statusReason = new_reason (np_status v)\<rparr>"

text \<open>\<open>newId\<close> is the snowflake the statement generates; ids are fresh (see the snowflake theory).\<close>

definition insertPeer :: "peer_db \<Rightarrow> NewPeerRow \<Rightarrow> string \<Rightarrow> millis \<Rightarrow> (peer_db \<times> peer_row \<times> TransitionEffects) option" where
  "insertPeer db v newId now =
    (if peer_by_origin (np_origin v) (pd_peers db) \<noteq> None then None
     else let row = new_peer_row v newId now in
       Some (db\<lparr>pd_peers := pd_peers db @ [row]\<rparr>, row,
         \<lparr>te_peerId = newId, te_origin = np_origin v, te_previous = None, te_next = Some (new_status (np_status v)),
          te_reason = new_reason (np_status v), te_activation = new_activation (np_status v), te_exit = None,
          te_refusedContexts = None\<rparr>))"

text \<open>Deleting a peer row cascades to its outbox rows (the foreign key of the table).\<close>

definition removePeer :: "peer_db \<Rightarrow> string \<Rightarrow> FederationPeerStatus list \<Rightarrow> bool \<Rightarrow> peer_db \<times> TransitionEffects option" where
  "removePeer db peerId from unlessQueued = (case readPeerState db peerId of
     None \<Rightarrow> (db, None)
   | Some before \<Rightarrow>
       (let hit = (\<lambda>r. pe_id r = peerId \<and> pe_status r \<in> set (map status_text from)
                    \<and> \<not> (unlessQueued \<and> list_ex (\<lambda>e. ob_peerId e = peerId) (pd_outbox db))) in
        if \<not> list_ex hit (pd_peers db) then (db, None)
        else (db\<lparr>pd_peers := filter (\<lambda>r. \<not> hit r) (pd_peers db),
                 pd_outbox := filter (\<lambda>e. ob_peerId e \<noteq> peerId) (pd_outbox db)\<rparr>,
              Some \<lparr>te_peerId = peerId, te_origin = ps_origin before, te_previous = Some (ps_status before),
                    te_next = None, te_reason = None, te_activation = None, te_exit = None,
                    te_refusedContexts = None\<rparr>)))"

section \<open>Effects of a committed transition\<close>

fun reason_text :: "string \<Rightarrow> string option" where
  "reason_text r = map_of
     [(''denied_by_local_admin'', ''This instance's admin declined peering with the remote instance''),
      (''denied_by_remote'', ''The remote instance's admin declined peering''),
      (''revoked_by_remote'', ''The remote instance has revoked peering with this instance''),
      (''expired_on_remote'', ''The peering request expired before the remote admin answered''),
      (''stale_peering_on_remote'', ''The remote instance still holds an older peering with this instance; its admin has to reset it''),
      (''auth_failures'', ''Federation trust broke; an admin has to reset peering''),
      (''peer_reset_detected'', ''The remote instance was reinstalled; an admin has to re-peer''),
      (''repeer_incomplete'', ''Re-peering could not be verified; an admin has to reset peering'')] r"

datatype AffectedContext = DmContext string string | FriendContext string

datatype PeerEffect =
    AdminsChanged
  | PeerActiveTo user_id origin
  | RunActivated string PeerActivationReason
  | RunDeactivated string PeerExitCause
  | RejectedNotice user_id origin "string option" "string option" string "AffectedContext list"

record peer_world =
  pw_peers :: peer_db
  pw_dmMembers :: "dm_member_row list"
  pw_users :: "user_row list"

text \<open>The members of a conversation, joined with their user rows.\<close>

definition dm_users :: "peer_world \<Rightarrow> string \<Rightarrow> user_row list" where
  "dm_users w contextId = List.map_filter (\<lambda>m. if dm_dmChannelId m = contextId
      then tbl_get us_id (dm_userId m) (pw_users w) else None) (pw_dmMembers w)"

definition member_label :: "user_row \<Rightarrow> string" where
  "member_label u = (if truthy (us_displayName u) then the (us_displayName u)
     else if us_username u \<noteq> [] then us_username u else ''Unknown'')"

fun join_labels :: "string list \<Rightarrow> string" where
  "join_labels [] = []"
| "join_labels [a] = a"
| "join_labels (a # b # l) = a @ '', '' @ join_labels (b # l)"

definition context_of :: "peer_world \<Rightarrow> string \<times> string \<Rightarrow> AffectedContext list" where
  "context_of w c = (if snd c = ''dm''
     then [DmContext (fst c) (join_labels (take 4 (map member_label (dm_users w (fst c)))))]
     else if snd c = ''friend'' then [FriendContext (fst c)] else [])"

definition affected_users :: "peer_world \<Rightarrow> (string \<times> string) list \<Rightarrow> user_id list" where
  "affected_users w contexts = remdups (concat (map (\<lambda>c. if snd c = ''dm''
     then map us_id (filter (\<lambda>u. \<not> truthy (us_homeInstance u)) (dm_users w (fst c))) else []) contexts))"

definition pushPeerRejectedEvent ::
  "peer_world \<Rightarrow> origin \<Rightarrow> (string \<times> string) list \<Rightarrow> string \<Rightarrow> PeerEffect list" where
  "pushPeerRejectedEvent w org contexts reasonCode =
    (let label = (case peer_by_origin org (pd_peers (pw_peers w)) of None \<Rightarrow> None | Some p \<Rightarrow> pe_instanceName p);
         ctxs = concat (map (context_of w) contexts)
     in map (\<lambda>u. RejectedNotice u org label (reason_text reasonCode) reasonCode ctxs) (affected_users w contexts))"

definition runEffects :: "peer_world \<Rightarrow> user_id list \<Rightarrow> TransitionEffects \<Rightarrow> PeerEffect list" where
  "runEffects w onlineUsers e =
    [AdminsChanged]
    @ (case te_activation e of
         Some a \<Rightarrow> if te_next e = Some PActive \<and> te_previous e \<noteq> Some PActive
           then map (\<lambda>u. PeerActiveTo u (te_origin e)) onlineUsers @ [RunActivated (te_peerId e) a] else []
       | None \<Rightarrow> [])
    @ (case te_exit e of
         Some c \<Rightarrow> if te_previous e = Some PActive \<and> te_next e \<noteq> None \<and> te_next e \<noteq> Some PActive
           then [RunDeactivated (te_peerId e) c] else []
       | None \<Rightarrow> [])
    @ (case (te_refusedContexts e, te_reason e) of
         (Some contexts, Some reason) \<Rightarrow>
           if contexts \<noteq> [] then pushPeerRejectedEvent w (te_origin e) contexts reason else []
       | _ \<Rightarrow> [])"

text \<open>\<open>federationPeerActivation.ts\<close>: what activation does to the outbox first.\<close>

definition resetOutboxBackoff :: "peer_db \<Rightarrow> string \<Rightarrow> millis \<Rightarrow> peer_db" where
  "resetOutboxBackoff db peerId now =
    db\<lparr>pd_outbox := map (\<lambda>e. if ob_peerId e = peerId then e\<lparr>ob_nextRetryAt := now, ob_attempts := 0\<rparr> else e) (pd_outbox db)\<rparr>"

text \<open>The reason users of a stranded call are told, by the status the row has now.\<close>

definition eviction_reason :: "string option \<Rightarrow> string" where
  "eviction_reason status = (if status = Some ''rejected'' \<or> status = Some ''revoked''
     then ''peer_rejected'' else ''peer_transient_failure'')"

section \<open>Answering a handshake\<close>

datatype InboundHandshakeDecision =
    DCreate
  | DActivate FederationPeerStatus PeerActivationReason
  | DQueue
  | DRefuseExists
  | DRefuseRevoked
  | DRefuseDenied
  | DRefuseInProgress

definition REMOTE_REJECTED_REASONS :: "string list" where
  "REMOTE_REJECTED_REASONS = map rejected_text
     [Denied_by_remote, Revoked_by_remote, Expired_on_remote, Stale_peering_on_remote]"

record InboundHandshakeInput =
  ih_row :: "peer_row option"
  ih_autoAccept :: bool
  ih_inboundToken :: "string option"
  ih_ownHandshakeInFlight :: bool
  ih_ourOrigin :: origin
  ih_sourceOrigin :: origin

definition acceptUncompleted ::
  "InboundHandshakeInput \<Rightarrow> bool \<Rightarrow> FederationPeerStatus \<Rightarrow> PeerActivationReason \<Rightarrow> InboundHandshakeDecision" where
  "acceptUncompleted i locallyAuthorized from cause =
    (if \<not> locallyAuthorized then DQueue
     else if ih_ownHandshakeInFlight i \<and> ih_ourOrigin i < ih_sourceOrigin i then DRefuseInProgress
     else DActivate from cause)"

definition decideInboundHandshake :: "InboundHandshakeInput \<Rightarrow> InboundHandshakeDecision" where
  "decideInboundHandshake i = (case ih_row i of
     None \<Rightarrow> if ih_autoAccept i then DCreate else DQueue
   | Some row \<Rightarrow>
      (let locallyAuthorized = ih_autoAccept i \<or> pe_initiatedBy row = ''admin'' in
       case peerStatusOf row of
         PActive \<Rightarrow> DRefuseExists
       | PUnreachable \<Rightarrow> DRefuseExists
       | PNeedsAttention \<Rightarrow> DRefuseExists
       | PRevoked \<Rightarrow> DRefuseRevoked
       | PPending \<Rightarrow> acceptUncompleted i locallyAuthorized PPending Accept_pending
       | PAwaiting \<Rightarrow>
           if \<not> locallyAuthorized then DQueue
           else if truthy (pe_approvalToken row) \<and> pe_approvalToken row = ih_inboundToken i
             then DActivate PAwaiting Accept_awaiting_approval
           else if ih_autoAccept i then DActivate PAwaiting Accept_awaiting_approval_fallback
           else DQueue
       | PRejected \<Rightarrow>
          (case pe_statusReason row of
             None \<Rightarrow> if ih_autoAccept i then DActivate PRejected Accept_rejected_override else DRefuseDenied
           | Some reason \<Rightarrow>
               if reason = ''denied_by_local_admin'' then DRefuseDenied
               else if reason \<in> set REMOTE_REJECTED_REASONS
                 then acceptUncompleted i locallyAuthorized PRejected Accept_rejected_override
               else if ih_autoAccept i then DActivate PRejected Accept_rejected_override else DRefuseDenied)))"

section \<open>Reading statuses\<close>

lemma status_text_inj [simp]: "status_text s = status_text s' \<longleftrightarrow> s = s'"
  by (cases s; cases s') simp_all

lemma status_text_neq_simps [simp]:
  "status_text s = ''pending'' \<longleftrightarrow> s = PPending" "status_text s = ''active'' \<longleftrightarrow> s = PActive"
  "status_text s = ''unreachable'' \<longleftrightarrow> s = PUnreachable" "status_text s = ''needs_attention'' \<longleftrightarrow> s = PNeedsAttention"
  "status_text s = ''rejected'' \<longleftrightarrow> s = PRejected" "status_text s = ''revoked'' \<longleftrightarrow> s = PRevoked"
  "status_text s = ''awaiting_approval'' \<longleftrightarrow> s = PAwaiting"
  by (cases s; simp)+

lemma peerStatusOf_text: "pe_status r = status_text s \<Longrightarrow> peerStatusOf r = s"
  by (cases s) (simp_all add: peerStatusOf_def PEER_STATUSES_def)

lemma peerStatusOf_unknown: "pe_status r \<notin> range status_text \<Longrightarrow> peerStatusOf r = PNeedsAttention"
proof -
  assume "pe_status r \<notin> range status_text"
  then have "find (\<lambda>s. status_text s = pe_status r) PEER_STATUSES = None"
    by (metis (mono_tags, lifting) find_None_iff2 rangeI)
  then show ?thesis by (simp add: peerStatusOf_def)
qed

section \<open>The table by key\<close>

text \<open>Peer rows are read, updated and removed by their id and by their origin, both unique.\<close>

interpretation peers_by_id: keyed_table pe_id "tbl_get pe_id" "tbl_update pe_id" "tbl_delete pe_id"
  by unfold_locales (auto simp: table_simps dest: tbl_get_SomeD)

interpretation peers_by_origin: keyed_table pe_origin "tbl_get pe_origin" "tbl_update pe_origin" "tbl_delete pe_origin"
  by unfold_locales (auto simp: table_simps dest: tbl_get_SomeD)

definition ids_ok :: "peer_db \<Rightarrow> bool" where
  "ids_ok db \<longleftrightarrow> distinct (map pe_id (pd_peers db))"

lemma peer_get_iff: "ids_ok db \<Longrightarrow> peer_get i (pd_peers db) = Some r \<longleftrightarrow> r \<in> set (pd_peers db) \<and> pe_id r = i"
  unfolding peer_get_def ids_ok_def using tbl_get_distinct[of pe_id "pd_peers db" r] tbl_get_SomeD by fastforce

lemma set_fields_keys [simp]:
  "pe_id (set_fields f r) = pe_id r" "pe_origin (set_fields f r) = pe_origin r" "pe_status (set_fields f r) = pe_status r"
  "pe_probeAttempts (set_fields f r) = pe_probeAttempts r" "pe_lastProbeAt (set_fields f r) = pe_lastProbeAt r"
  "pe_hmacSecret (set_fields f r) = given (pf_hmacSecret f) (pe_hmacSecret r)"
  "pe_initiatedBy (set_fields f r) = given (pf_initiatedBy f) (pe_initiatedBy r)"
  by (simp_all add: set_fields_def)

lemma transition_row_keys [simp]:
  "pe_id (transition_row t b r) = pe_id r" "pe_origin (transition_row t b r) = pe_origin r"
  "pe_status (transition_row t b r) = status_text (target_status (pt_to t))"
  "pe_statusReason (transition_row t b r) = reasonOf (pt_to t)"
  "pe_hmacSecret (transition_row t b r) = given (pf_hmacSecret (pt_fields t)) (pe_hmacSecret r)"
  "pe_initiatedBy (transition_row t b r) = given (pf_initiatedBy (pt_fields t)) (pe_initiatedBy r)"
  by (simp_all add: transition_row_def Let_def)

lemma transition_row_pacing:
  "fresh_pacing b (target_status (pt_to t)) \<Longrightarrow> pe_probeAttempts (transition_row t b r) = 0 \<and> pe_lastProbeAt (transition_row t b r) = None"
  "\<not> fresh_pacing b (target_status (pt_to t)) \<Longrightarrow> pe_probeAttempts (transition_row t b r) = pe_probeAttempts r
     \<and> pe_lastProbeAt (transition_row t b r) = pe_lastProbeAt r"
  by (simp_all add: transition_row_def Let_def)

section \<open>The compare-and-set\<close>

text \<open>When a transition applies, and the only change it makes.\<close>

definition transition_hits :: "peer_db \<Rightarrow> string \<Rightarrow> PeerTransition \<Rightarrow> peer_row \<Rightarrow> FederationPeerStatus \<Rightarrow> bool" where
  "transition_hits db peerId t r s \<longleftrightarrow> peer_get peerId (pd_peers db) = Some r \<and> pe_status r = status_text s
     \<and> s \<in> set (pt_from t) \<and> secret_ok (pt_expectSecret t) (pe_hmacSecret r)"

definition transitioned :: "peer_db \<Rightarrow> string \<Rightarrow> PeerTransition \<Rightarrow> FederationPeerStatus \<Rightarrow> peer_db" where
  "transitioned db peerId t s =
    \<lparr>pd_peers = tbl_update pe_id peerId (transition_row t s) (pd_peers db),
     pd_outbox = (if enters_refusal s (target_status (pt_to t))
                  then filter (\<lambda>e. ob_peerId e \<noteq> peerId) (pd_outbox db) else pd_outbox db)\<rparr>"

lemma cas_update:
  assumes "ids_ok db" and "peer_get i (pd_peers db) = Some r" and "cas_row i s x r"
  shows "map (\<lambda>q. if cas_row i s x q then transition_row t s q else q) (pd_peers db)
    = tbl_update pe_id i (transition_row t s) (pd_peers db)"
proof -
  have "cas_row i s x q \<longleftrightarrow> pe_id q = i" if "q \<in> set (pd_peers db)" for q
  proof
    assume "pe_id q = i"
    then have "q = r" using assms(1,2) that by (metis peer_get_iff option.inject)
    then show "cas_row i s x q" using assms(3) by simp
  qed (simp add: cas_row_def)
  then show ?thesis by (simp add: tbl_update_def)
qed

lemma apply_hit:
  assumes "ids_ok db" and "transition_hits db i t r s"
  shows "applyPeerTransition db i t = (transitioned db i t s, Applied s
      \<lparr>te_peerId = i, te_origin = pe_origin r, te_previous = Some s, te_next = Some (target_status (pt_to t)),
       te_reason = reasonOf (pt_to t), te_activation = activation_of (pt_to t), te_exit = exit_of (pt_to t),
       te_refusedContexts = refused_contexts db i s (pt_to t)\<rparr>)"
proof -
  have r: "peer_get i (pd_peers db) = Some r" and st: "pe_status r = status_text s"
    and fs: "s \<in> set (pt_from t)" and sec: "secret_ok (pt_expectSecret t) (pe_hmacSecret r)"
    using assms(2) by (auto simp: transition_hits_def)
  have ps: "peerStatusOf r = s" using st by (rule peerStatusOf_text)
  have mem: "r \<in> set (pd_peers db)" "pe_id r = i" using r assms(1) by (auto simp: peer_get_iff)
  have cas: "cas_row i s (pt_expectSecret t) r" using mem st sec by (simp add: cas_row_def)
  have ex: "list_ex (cas_row i s (pt_expectSecret t)) (pd_peers db)" using cas mem by (auto simp: list_ex_iff)
  have read: "readPeerState db i = Some (snapshot r)" using r by (simp add: readPeerState_def)
  have rc: "refused_contexts (db\<lparr>pd_peers := x\<rparr>) i s (pt_to t) = refused_contexts db i s (pt_to t)" for x
    by (simp add: refused_contexts_def queuedContexts_def split: PeerTarget.split)
  show ?thesis
    using fs sec ex
    by (simp add: applyPeerTransition_def read snapshot_def ps Let_def rc
        cas_update[OF assms(1) r cas] transitioned_def cong: if_cong)
qed

lemma apply_miss:
  assumes "ids_ok db" and "\<And>r s. \<not> transition_hits db i t r s"
  shows "applyPeerTransition db i t = (db, NotApplied (readPeerState db i))"
proof (cases "peer_get i (pd_peers db)")
  case None
  then show ?thesis by (simp add: applyPeerTransition_def readPeerState_def)
next
  case (Some r)
  let ?s = "peerStatusOf r"
  have read: "readPeerState db i = Some (snapshot r)" using Some by (simp add: readPeerState_def)
  show ?thesis
  proof (cases "?s \<notin> set (pt_from t) \<or> \<not> secret_ok (pt_expectSecret t) (pe_hmacSecret r)")
    case True
    then show ?thesis by (auto simp: applyPeerTransition_def read snapshot_def)
  next
    case False
    then have "pe_status r \<noteq> status_text ?s" using assms(2)[of r ?s] Some by (auto simp: transition_hits_def)
    then have none: "\<not> cas_row i ?s (pt_expectSecret t) q" if "q \<in> set (pd_peers db)" for q
      using that Some assms(1) by (metis cas_row_def peer_get_iff option.inject)
    then have "map (\<lambda>q. if cas_row i ?s (pt_expectSecret t) q then transition_row t ?s q else q) (pd_peers db) = pd_peers db"
      by (simp add: map_idI)
    moreover have "\<not> list_ex (cas_row i ?s (pt_expectSecret t)) (pd_peers db)" using none by (auto simp: list_ex_iff)
    ultimately show ?thesis using False
      by (simp add: applyPeerTransition_def read snapshot_def Let_def readPeerState_def Some cong: if_cong)
  qed
qed

lemma apply_cases:
  assumes "ids_ok db"
  obtains (hit) r s where "transition_hits db i t r s" and "fst (applyPeerTransition db i t) = transitioned db i t s"
      and "is_applied (snd (applyPeerTransition db i t))"
  | (miss) "\<And>r s. \<not> transition_hits db i t r s" and "applyPeerTransition db i t = (db, NotApplied (readPeerState db i))"
proof (cases "\<exists>r s. transition_hits db i t r s")
  case True
  then obtain r s where "transition_hits db i t r s" by blast
  from apply_hit[OF assms this] this show ?thesis by (intro hit) auto
next
  case False
  then show ?thesis using apply_miss[OF assms, of i t] by (intro miss) auto
qed

text \<open>
  A transition is a compare-and-set: it applies exactly when the row still has, as its stored text, a
  status the caller expected and still holds the expected secret; otherwise it changes nothing and
  reports the row as it is now. Applied, it rewrites that one row, and purges that row's queue exactly
  when it enters a refused status.
\<close>

theorem transition_is_cas:
  assumes "ids_ok db"
  shows "(is_applied (snd (applyPeerTransition db i t)) \<longleftrightarrow> (\<exists>r s. transition_hits db i t r s))
    \<and> fst (applyPeerTransition db i t) =
        (case peer_get i (pd_peers db) of None \<Rightarrow> db
         | Some r \<Rightarrow> if transition_hits db i t r (peerStatusOf r) then transitioned db i t (peerStatusOf r) else db)"
proof (rule apply_cases[OF assms, of i t])
  fix r s
  assume h: "transition_hits db i t r s" "fst (applyPeerTransition db i t) = transitioned db i t s"
    "is_applied (snd (applyPeerTransition db i t))"
  then have "peer_get i (pd_peers db) = Some r" "peerStatusOf r = s"
    by (auto simp: transition_hits_def intro: peerStatusOf_text)
  with h show ?thesis by auto
next
  assume m: "\<And>r s. \<not> transition_hits db i t r s" "applyPeerTransition db i t = (db, NotApplied (readPeerState db i))"
  then show ?thesis by (simp split: option.split)
qed

section \<open>The invariant of the peer table\<close>

text \<open>The reason column holds a reason of the row's status, and none for a status that carries none.\<close>

fun reason_fits :: "FederationPeerStatus \<Rightarrow> string option \<Rightarrow> bool" where
  "reason_fits PNeedsAttention r = (r \<in> {Some ''auth_failures'', Some ''peer_reset_detected'', Some ''repeer_incomplete''})"
| "reason_fits PRejected r = (r \<in> {Some ''denied_by_local_admin'', Some ''denied_by_remote'', Some ''revoked_by_remote'',
      Some ''expired_on_remote'', Some ''stale_peering_on_remote''})"
| "reason_fits _ r = (r = None)"

definition peer_ok :: "peer_row \<Rightarrow> bool" where
  "peer_ok r \<longleftrightarrow> pe_status r \<in> set (map status_text PEER_STATUSES) \<and> reason_fits (peerStatusOf r) (pe_statusReason r)
     \<and> (pe_status r = ''active'' \<longrightarrow> pe_probeAttempts r = 0 \<and> pe_lastProbeAt r = None)"

definition refuses :: "peer_row \<Rightarrow> bool" where
  "refuses r \<longleftrightarrow> pe_status r \<in> {''rejected'', ''revoked''}"

definition peers_ok :: "peer_db \<Rightarrow> bool" where
  "peers_ok db \<longleftrightarrow> ids_ok db \<and> distinct (map pe_origin (pd_peers db)) \<and> list_all peer_ok (pd_peers db)
     \<and> list_all (\<lambda>e. list_ex (\<lambda>r. pe_id r = ob_peerId e \<and> \<not> refuses r) (pd_peers db)) (pd_outbox db)"

lemma mail_owner:
  "peers_ok db \<Longrightarrow> e \<in> set (pd_outbox db) \<Longrightarrow> \<exists>r\<in>set (pd_peers db). pe_id r = ob_peerId e \<and> \<not> refuses r"
  by (auto simp: peers_ok_def list_all_iff list_ex_iff)

lemma set_PEER_STATUSES: "set PEER_STATUSES = UNIV"
  using FederationPeerStatus.exhaust by (auto simp: PEER_STATUSES_def)

lemma peer_okI:
  "pe_status r = status_text s \<Longrightarrow> reason_fits s (pe_statusReason r) \<Longrightarrow>
   (s = PActive \<Longrightarrow> pe_probeAttempts r = 0 \<and> pe_lastProbeAt r = None) \<Longrightarrow> peer_ok r"
  by (simp add: peer_ok_def set_PEER_STATUSES peerStatusOf_text)

lemma reason_fits_target: "reason_fits (target_status to) (reasonOf to)"
proof (cases to)
  case (ToNeedsAttention x c)
  then show ?thesis by (cases x) simp_all
next
  case (ToRejected x c)
  then show ?thesis by (cases x) simp_all
qed simp_all

lemma reason_fits_new: "reason_fits (new_status st) (new_reason st)"
proof (cases st)
  case (NewRejected x)
  then show ?thesis by (cases x) simp_all
qed simp_all

lemma transition_row_ok:
  assumes "peer_ok r" and "pe_status r = status_text s"
  shows "peer_ok (transition_row t s r)"
proof (rule peer_okI[where s = "target_status (pt_to t)"])
  show "reason_fits (target_status (pt_to t)) (pe_statusReason (transition_row t s r))"
    by (simp add: reason_fits_target)
  assume act: "target_status (pt_to t) = PActive"
  show "pe_probeAttempts (transition_row t s r) = 0 \<and> pe_lastProbeAt (transition_row t s r) = None"
  proof (cases "s = PActive")
    case True
    then have "pe_probeAttempts r = 0 \<and> pe_lastProbeAt r = None" using assms by (simp add: peer_ok_def)
    then show ?thesis using True act transition_row_pacing(2)[of s t r] by (simp add: fresh_pacing_def)
  next
    case False
    then show ?thesis using act transition_row_pacing(1)[of s t r] by (simp add: fresh_pacing_def)
  qed
qed simp

text \<open>A rewrite of rows in place that keeps ids, origins and row health, and lets no row with mail refuse.\<close>

lemma peers_ok_map:
  assumes "peers_ok db" and "\<And>r. pe_id (g r) = pe_id r" and "\<And>r. pe_origin (g r) = pe_origin r"
    and "\<And>r. r \<in> set (pd_peers db) \<Longrightarrow> peer_ok (g r)"
    and "\<And>e. e \<in> set out \<Longrightarrow> e \<in> set (pd_outbox db)"
    and "\<And>r e. r \<in> set (pd_peers db) \<Longrightarrow> e \<in> set out \<Longrightarrow> ob_peerId e = pe_id r \<Longrightarrow> refuses (g r) \<Longrightarrow> refuses r"
  shows "peers_ok \<lparr>pd_peers = map g (pd_peers db), pd_outbox = out\<rparr>"
proof -
  have c: "pe_id \<circ> g = pe_id" "pe_origin \<circ> g = pe_origin" using assms(2,3) by auto
  have "\<exists>r\<in>set (pd_peers db). pe_id (g r) = ob_peerId e \<and> \<not> refuses (g r)" if e: "e \<in> set out" for e
    using mail_owner[OF assms(1) assms(5)[OF e]] assms(2,6) e by metis
  then show ?thesis
    using assms(1,4) by (simp add: peers_ok_def ids_ok_def list_all_iff list_ex_iff c)
qed

lemma peers_ok_transition [preserved]:
  assumes "peers_ok db"
  shows "peers_ok (fst (applyPeerTransition db i t))"
proof -
  have ids: "ids_ok db" using assms by (simp add: peers_ok_def)
  show ?thesis
  proof (rule apply_cases[OF ids, of i t])
    fix r s
    assume h: "transition_hits db i t r s" "fst (applyPeerTransition db i t) = transitioned db i t s"
    have r: "r \<in> set (pd_peers db)" "pe_id r = i" "pe_status r = status_text s"
      using h(1) ids by (auto simp: transition_hits_def peer_get_iff)
    have same: "q = r" if "q \<in> set (pd_peers db)" "pe_id q = i" for q
      using r that ids by (metis peer_get_iff option.inject)
    have "peers_ok (transitioned db i t s)"
      unfolding transitioned_def tbl_update_def
    proof (rule peers_ok_map[OF assms])
      fix q assume q: "q \<in> set (pd_peers db)"
      then have "peer_ok q" using assms by (simp add: peers_ok_def list_all_iff)
      then show "peer_ok (if pe_id q = i then transition_row t s q else q)"
        using same[OF q] r by (auto intro: transition_row_ok)
    next
      fix q e
      assume q: "q \<in> set (pd_peers db)"
        and e: "e \<in> set (if enters_refusal s (target_status (pt_to t))
                  then filter (\<lambda>e. ob_peerId e \<noteq> i) (pd_outbox db) else pd_outbox db)"
        and to: "ob_peerId e = pe_id q" and ref: "refuses (if pe_id q = i then transition_row t s q else q)"
      show "refuses q"
      proof (cases "pe_id q = i")
        case True
        then have "\<not> enters_refusal s (target_status (pt_to t))" using e to by (auto split: if_splits)
        then have "s \<in> {PRejected, PRevoked}" using ref True by (auto simp: enters_refusal_def refuses_def)
        then show ?thesis using same[OF q True] r by (auto simp: refuses_def)
      qed (use ref in simp)
    qed (auto split: if_splits)
    with h(2) show ?thesis by simp
  next
    assume "applyPeerTransition db i t = (db, NotApplied (readPeerState db i))"
    with assms show ?thesis by simp
  qed
qed

lemma peers_ok_attempt [preserved]:
  assumes "peers_ok db" and "set from \<subseteq> {PPending, PUnreachable}"
  shows "peers_ok (fst (recordPeerAttempt db i from now))"
proof -
  let ?g = "\<lambda>r. if pe_id r = i \<and> pe_status r \<in> set (map status_text from)
      then r\<lparr>pe_probeAttempts := pe_probeAttempts r + 1, pe_lastProbeAt := Some now\<rparr> else r"
  have "peers_ok \<lparr>pd_peers = map ?g (pd_peers db), pd_outbox = pd_outbox db\<rparr>"
  proof (rule peers_ok_map[OF assms(1)])
    fix r assume "r \<in> set (pd_peers db)"
    then have ok: "peer_ok r" using assms(1) by (simp add: peers_ok_def list_all_iff)
    show "peer_ok (?g r)"
      using ok assms(2) by (auto simp: peer_ok_def peerStatusOf_def)
  qed (auto simp: refuses_def split: if_splits)
  moreover have "fst (recordPeerAttempt db i from now) = \<lparr>pd_peers = map ?g (pd_peers db), pd_outbox = pd_outbox db\<rparr>"
    by (simp add: recordPeerAttempt_def)
  ultimately show ?thesis by simp
qed

lemma peers_ok_insert [preserved]:
  assumes "peers_ok db" and "insertPeer db v i now = Some (db', row, e)" and "i \<notin> pe_id ` set (pd_peers db)"
  shows "peers_ok db'"
proof -
  let ?row = "new_peer_row v i now"
  have db': "db' = db\<lparr>pd_peers := pd_peers db @ [?row]\<rparr>" and new: "np_origin v \<notin> pe_origin ` set (pd_peers db)"
    using assms(2) tbl_get_None_iff[of pe_origin "np_origin v" "pd_peers db"]
    by (auto simp: insertPeer_def Let_def peer_by_origin_def split: if_splits)
  have "peer_ok ?row"
    by (rule peer_okI[where s = "new_status (np_status v)"]) (simp_all add: new_peer_row_def reason_fits_new)
  moreover have "pe_id ?row = i" "pe_origin ?row = np_origin v" by (simp_all add: new_peer_row_def)
  ultimately show ?thesis
    using assms(1,3) new unfolding db' by (auto simp: peers_ok_def ids_ok_def list_all_iff list_ex_iff)
qed

lemma peers_ok_remove [preserved]:
  assumes "peers_ok db"
  shows "peers_ok (fst (removePeer db i from u))"
proof -
  have "peers_ok (db\<lparr>pd_peers := filter (\<lambda>r. \<not> (pe_id r = i \<and> P r)) (pd_peers db),
      pd_outbox := filter (\<lambda>e. ob_peerId e \<noteq> i) (pd_outbox db)\<rparr>)" for P
    using assms by (fastforce simp: peers_ok_def ids_ok_def list_all_iff list_ex_iff distinct_map_filter)
  note step = this[of "\<lambda>r. pe_status r \<in> set (map status_text from) \<and> \<not> (u \<and> list_ex (\<lambda>e. ob_peerId e = i) (pd_outbox db))"]
  show ?thesis
    using assms step by (simp add: removePeer_def Let_def split: option.split)
qed

text \<open>The outbox may lose rows, and gain or rewrite rows of a peer that does not refuse.\<close>

lemma peers_ok_outbox [preserved]:
  assumes "peers_ok db"
    and "ob_peerId ` set out \<subseteq> ob_peerId ` set (pd_outbox db) \<union> {pe_id r | r. r \<in> set (pd_peers db) \<and> \<not> refuses r}"
  shows "peers_ok (db\<lparr>pd_outbox := out\<rparr>)"
proof -
  have "\<exists>r\<in>set (pd_peers db). pe_id r = ob_peerId e \<and> \<not> refuses r" if e: "e \<in> set out" for e
  proof -
    have "ob_peerId e \<in> ob_peerId ` set (pd_outbox db) \<union> {pe_id r | r. r \<in> set (pd_peers db) \<and> \<not> refuses r}"
      using assms(2) e by blast
    then show ?thesis
    proof
      assume "ob_peerId e \<in> ob_peerId ` set (pd_outbox db)"
      then obtain x where "x \<in> set (pd_outbox db)" "ob_peerId e = ob_peerId x" by auto
      then show ?thesis using mail_owner[OF assms(1), of x] by simp
    qed auto
  qed
  then show ?thesis
    using assms(1) by (simp add: peers_ok_def ids_ok_def list_all_iff list_ex_iff)
qed

end
