(* ===== verification/Peering.thy ===== *)
theory Peering
  imports PeerState
begin

text \<open>
  Peering between instances: the outbound half of the handshake (\<open>federationHandshake.ts\<close>), its callers
  and gates (\<open>federationPeering.ts\<close>), the inbound half and the peer routes
  (\<open>routes/federation/handlers/peerHandshake.ts\<close>, \<open>peerAdmin.ts\<close>, \<open>approvals.ts\<close>), recovery and reset
  detection (\<open>federationRecovery.ts\<close>, \<open>federationReset.ts\<close>), the subscriber fan-out of an activation
  (\<open>federationPeerActivation.ts\<close>) and the entry to the outbox (\<open>queueOutboxEvent\<close> of
  \<open>federationOutbox.ts\<close>).

  An \<open>await\<close> on the network splits a function here into one definition per stretch of code that runs
  without interruption; the remote's answer, and anything another request did meanwhile, comes in
  between. Snowflake ids, generated secrets and tokens and the clock are arguments, and so is what the
  URL parser and the signature check of the platform answer.
\<close>

section \<open>The instance\<close>

record approval_row =
  ar_id :: string
  ar_origin :: origin
  ar_direction :: string
  ar_instanceName :: "string option"
  ar_hmacSecret :: "string option"
  ar_requestedAt :: millis
  ar_expiresAt :: millis
  ar_approvalToken :: "string option"

record subscriber_row =
  su_id :: string
  su_requestId :: string
  su_userId :: user_id
  su_triggerReason :: string
  su_triggerTarget :: string
  su_createdAt :: millis

record notification_row =
  nt_id :: string
  nt_userId :: user_id
  nt_kind :: string
  nt_peerOrigin :: origin
  nt_triggerReason :: string
  nt_triggerTarget :: string
  nt_createdAt :: millis
  nt_readAt :: "millis option"

record reset_row =
  re_origin :: origin
  re_deadEpoch :: string
  re_newEpoch :: "string option"
  re_detectedAt :: millis
  re_resolvedAt :: "millis option"
  re_stubCount :: nat
  re_orphanedAccountCount :: nat
  re_acknowledgedAt :: "millis option"

record instance_state =
  in_peers :: peer_db
  in_requests :: "approval_row list"
  in_subscribers :: "subscriber_row list"
  in_notifications :: "notification_row list"
  in_users :: "user_row list"
  in_resetEvents :: "reset_row list"
  in_autoAccept :: "int option"
  in_instanceName :: "string option"
  in_instanceId :: string
  in_ourOrigin :: origin
  in_inFlightPeering :: "origin list"
  in_adminHandshakes :: "origin list"

definition auto_accept_setting :: "instance_state \<Rightarrow> int" where
  "auto_accept_setting st = given (in_autoAccept st) 1"

definition THIRTY_DAYS_MS :: millis where
  "THIRTY_DAYS_MS = 30 * 24 * 60 * 60 * 1000"

definition request_for :: "instance_state \<Rightarrow> origin \<Rightarrow> string \<Rightarrow> approval_row option" where
  "request_for st org direction = find (\<lambda>q. ar_origin q = org \<and> ar_direction q = direction) (in_requests st)"

text \<open>Deleting a request cascades to its subscribers.\<close>

definition delete_requests :: "(approval_row \<Rightarrow> bool) \<Rightarrow> instance_state \<Rightarrow> instance_state" where
  "delete_requests P st = st\<lparr>in_requests := filter (\<lambda>q. \<not> P q) (in_requests st),
     in_subscribers := filter (\<lambda>s. \<not> list_ex (\<lambda>q. P q \<and> ar_id q = su_requestId s) (in_requests st)) (in_subscribers st)\<rparr>"

text \<open>What \<open>new URL(raw)\<close> gives; \<open>None\<close> when it throws.\<close>

record url =
  url_protocol :: string
  url_hostname :: string
  url_origin :: origin

definition validateOrigin :: "url option \<Rightarrow> origin option" where
  "validateOrigin u = (case u of None \<Rightarrow> None
     | Some u \<Rightarrow> if url_protocol u \<noteq> ''http:'' \<and> url_protocol u \<noteq> ''https:'' then None
         else if url_protocol u = ''http:'' \<and> url_hostname u \<notin> {''localhost'', ''127.0.0.1''} then None
         else Some (url_origin u))"

section \<open>Gates and placeholders\<close>

definition createAutoPlaceholderPeer ::
  "instance_state \<Rightarrow> origin \<Rightarrow> string \<Rightarrow> string \<Rightarrow> millis \<Rightarrow> instance_state \<times> peer_row option \<times> TransitionEffects option" where
  "createAutoPlaceholderPeer st org secret newId now =
    (if request_for st org ''inbound'' \<noteq> None then (st, None, None)
     else if auto_accept_setting st = 0 then (st, None, None)
     else (case insertPeer (in_peers st)
              \<lparr>np_origin = org, np_hmacSecret = secret, np_initiatedBy = ''auto'', np_instanceName = None,
               np_peerInstanceId = None, np_lastSeenAt = None, np_status = NewPending\<rparr> newId now of
         Some (db, row, e) \<Rightarrow> (st\<lparr>in_peers := db\<rparr>, Some row, Some e)
       | None \<Rightarrow> (st, peer_by_origin org (pd_peers (in_peers st)), None)))"

definition queueOutboundApproval ::
  "instance_state \<Rightarrow> origin \<Rightarrow> user_id \<Rightarrow> string \<Rightarrow> string \<Rightarrow> string \<Rightarrow> string \<Rightarrow> millis \<Rightarrow> instance_state" where
  "queueOutboundApproval st org userId reason target requestId subId now =
    (let (st1, parent) = (case request_for st org ''outbound'' of
          Some q \<Rightarrow> (st, ar_id q)
        | None \<Rightarrow> (st\<lparr>in_requests := in_requests st @ [\<lparr>ar_id = requestId, ar_origin = org, ar_direction = ''outbound'',
              ar_instanceName = None, ar_hmacSecret = None, ar_requestedAt = now, ar_expiresAt = now + THIRTY_DAYS_MS,
              ar_approvalToken = None\<rparr>]\<rparr>, requestId));
         mine = (\<lambda>s. su_requestId s = parent \<and> su_userId s = userId \<and> su_triggerReason s = reason \<and> su_triggerTarget s = target)
     in if list_ex mine (in_subscribers st1)
        then st1\<lparr>in_subscribers := map (\<lambda>s. if mine s then s\<lparr>su_createdAt := now\<rparr> else s) (in_subscribers st1)\<rparr>
        else st1\<lparr>in_subscribers := in_subscribers st1 @ [\<lparr>su_id = subId, su_requestId = parent, su_userId = userId,
               su_triggerReason = reason, su_triggerTarget = target, su_createdAt = now\<rparr>]\<rparr>)"

datatype EnsurePeeredResult =
  EActive string | ERejected string | EFailed string | EPending string | EAdminRequired string

definition text_or :: "string option \<Rightarrow> string \<Rightarrow> string" where
  "text_or reason other = (case reason of None \<Rightarrow> other
     | Some r \<Rightarrow> if r = [] then other else given (reason_text r) [])"

definition settledResultFor :: "peer_row \<Rightarrow> EnsurePeeredResult option" where
  "settledResultFor peer = (case peerStatusOf peer of
     PActive \<Rightarrow> Some (EActive (pe_id peer))
   | PUnreachable \<Rightarrow> Some (EActive (pe_id peer))
   | PRejected \<Rightarrow> Some (ERejected (text_or (pe_statusReason peer) ''Remote instance requires manual peering approval''))
   | PRevoked \<Rightarrow> Some (ERejected ''Peer was revoked by admin'')
   | PNeedsAttention \<Rightarrow> Some (ERejected (text_or (pe_statusReason peer) ''Peer in needs_attention; an admin has to reset it''))
   | PAwaiting \<Rightarrow> Some (EPending ''Awaiting admin approval on remote instance'')
   | PPending \<Rightarrow> None)"

definition settledPeeringResult :: "instance_state \<Rightarrow> origin option \<Rightarrow> EnsurePeeredResult option" where
  "settledPeeringResult st normalized = (case normalized of None \<Rightarrow> None
     | Some org \<Rightarrow> (case peer_by_origin org (pd_peers (in_peers st)) of None \<Rightarrow> None | Some p \<Rightarrow> settledResultFor p))"

definition isHandshakeInFlight :: "instance_state \<Rightarrow> origin \<Rightarrow> bool" where
  "isHandshakeInFlight st org \<longleftrightarrow> org \<in> set (in_inFlightPeering st) \<or> org \<in> set (in_adminHandshakes st)"

definition claimAdminHandshake :: "instance_state \<Rightarrow> origin \<Rightarrow> instance_state option" where
  "claimAdminHandshake st org = (if isHandshakeInFlight st org then None
     else Some (st\<lparr>in_adminHandshakes := in_adminHandshakes st @ [org]\<rparr>))"

definition releaseAdminHandshake :: "instance_state \<Rightarrow> origin \<Rightarrow> instance_state" where
  "releaseAdminHandshake st org = st\<lparr>in_adminHandshakes := filter (\<lambda>x. x \<noteq> org) (in_adminHandshakes st)\<rparr>"

definition finishPeering :: "instance_state \<Rightarrow> origin \<Rightarrow> instance_state" where
  "finishPeering st org = st\<lparr>in_inFlightPeering := filter (\<lambda>x. x \<noteq> org) (in_inFlightPeering st)\<rparr>"

section \<open>Starting a handshake\<close>

datatype OnFailure = Keep | RemoveUnlessQueued | ReleaseToTraffic

record OutboundHandshakeOptions =
  ho_peerId :: string
  ho_origin :: origin
  ho_hmacSecret :: string
  ho_approvalToken :: "string option"
  ho_trust :: string
  ho_activation :: PeerActivationReason
  ho_startedAt :: millis
  ho_onFailure :: OnFailure

datatype EnsureStep = ESettled EnsurePeeredResult | EShared | EHandshake OutboundHandshakeOptions

datatype CallerIntent = SystemIntent | UserAction user_id string string

text \<open>\<open>performHandshake\<close> up to its request.\<close>

definition performHandshake ::
  "instance_state \<Rightarrow> origin \<Rightarrow> peer_row option \<Rightarrow> string \<Rightarrow> string \<Rightarrow> millis \<Rightarrow> instance_state \<times> EnsureStep" where
  "performHandshake st org existing secret newId now =
    (let opts = (\<lambda>i s f. \<lparr>ho_peerId = i, ho_origin = org, ho_hmacSecret = s, ho_approvalToken = None,
            ho_trust = ''asserted'', ho_activation = Ensure_peered, ho_startedAt = now, ho_onFailure = f\<rparr>);
         failed = ''A peer row for this instance appeared meanwhile; try again'';
         created = (case insertPeer (in_peers st)
              \<lparr>np_origin = org, np_hmacSecret = secret, np_initiatedBy = ''auto'', np_instanceName = None,
               np_peerInstanceId = None, np_lastSeenAt = None, np_status = NewPending\<rparr> newId now of
            None \<Rightarrow> (st, ESettled (EFailed failed))
          | Some (db, row, e) \<Rightarrow> (st\<lparr>in_peers := db\<rparr>, EHandshake (opts (pe_id row) secret
              (if (case existing of None \<Rightarrow> True | Some p \<Rightarrow> pe_id p = []) then RemoveUnlessQueued else Keep))))
     in case existing of
          None \<Rightarrow> created
        | Some p \<Rightarrow> if pe_id p = [] \<or> pe_hmacSecret p = [] then created
            else (st, EHandshake (opts (pe_id p) (pe_hmacSecret p) Keep)))"

definition ungated_placeholder :: "peer_row option \<Rightarrow> bool" where
  "ungated_placeholder existing = (case existing of None \<Rightarrow> False
     | Some p \<Rightarrow> pe_status p = ''pending'' \<and> pe_initiatedBy p \<noteq> ''admin'')"

definition ensurePeered ::
  "instance_state \<Rightarrow> string \<Rightarrow> origin option \<Rightarrow> CallerIntent \<Rightarrow> string \<Rightarrow> (nat \<Rightarrow> string) \<Rightarrow> millis
    \<Rightarrow> instance_state \<times> EnsureStep" where
  "ensurePeered st raw normalized intent secret fresh now = (case normalized of
     None \<Rightarrow> (st, ESettled (EFailed (''Invalid origin: '' @ raw)))
   | Some org \<Rightarrow>
     if org = in_ourOrigin st then (st, ESettled (EFailed ''Cannot peer with self''))
     else
       let existing = peer_by_origin org (pd_peers (in_peers st)) in
       (case (case existing of None \<Rightarrow> None | Some p \<Rightarrow> settledResultFor p) of
          Some settled \<Rightarrow> (st, ESettled settled)
        | None \<Rightarrow>
          if org \<in> set (in_adminHandshakes st)
          then (st, ESettled (EFailed ''An admin-initiated handshake with this instance is in progress''))
          else if request_for st org ''inbound'' \<noteq> None
          then (st, ESettled (EAdminRequired ''Local admin must resolve pending peering approval before initiating''))
          else if (existing = None \<or> ungated_placeholder existing) \<and> auto_accept_setting st = 0
          then
            let st1 = (case existing of
                  Some p \<Rightarrow> if ungated_placeholder existing
                    then st\<lparr>in_peers := fst (removePeer (in_peers st) (pe_id p) [PPending] False)\<rparr> else st
                | None \<Rightarrow> st)
            in (case intent of
                  UserAction u r t \<Rightarrow> (queueOutboundApproval st1 org u r t (fresh 0) (fresh 1) now,
                      ESettled (EAdminRequired ''Awaiting your admin's approval to initiate peering''))
                | SystemIntent \<Rightarrow> (st1, ESettled (EAdminRequired ''Outbound peering requires admin approval on this instance'')))
          else if org \<in> set (in_inFlightPeering st) then (st, EShared)
          else (case performHandshake st org existing secret (fresh 0) now of
                  (st1, EHandshake opts) \<Rightarrow> (st1\<lparr>in_inFlightPeering := in_inFlightPeering st1 @ [org]\<rparr>, EHandshake opts)
                | r \<Rightarrow> r)))"

section \<open>The outbound handshake\<close>

text \<open>A member of a JSON answer: a string, or anything else. A body that is no object has no members.\<close>

datatype wire = WStr string | WOther

datatype AcceptAnswer =
    AAccepted "string option" "string option"
  | AQueued "string option"
  | ARefused RejectedReason string
  | AExists string
  | AInProgress string
  | ATransient string int
  | AUnreachable string bool

fun nonEmptyString :: "wire option \<Rightarrow> string option" where
  "nonEmptyString (Some (WStr s)) = (if s = [] then None else Some s)"
| "nonEmptyString _ = None"

definition REMOTE_REVOKED_ERROR :: string where
  "REMOTE_REVOKED_ERROR = ''Peering with this instance has been revoked''"

definition interpretAcceptAnswer :: "nat \<Rightarrow> (string \<times> wire) list \<Rightarrow> AcceptAnswer" where
  "interpretAcceptAnswer status body =
    (let code = nonEmptyString (map_of body ''code''); error = nonEmptyString (map_of body ''error'') in
     if status = 202 then AQueued (nonEmptyString (map_of body ''approvalToken''))
     else if 200 \<le> status \<and> status \<le> 299
     then AAccepted (nonEmptyString (map_of body ''instanceName'')) (nonEmptyString (map_of body ''instanceId''))
     else if status = 409 \<and> code = Some ''PEER_EXISTS_RESET_REQUIRED''
     then AExists (given error ''The remote instance already holds peering for this instance'')
     else if status = 409 \<and> code = Some ''PEER_HANDSHAKE_IN_PROGRESS''
     then AInProgress (given error ''The remote instance is completing its own handshake with this instance'')
     else if status = 403 \<and> code = Some ''PEERING_REQUIRES_APPROVAL''
     then ARefused Denied_by_remote (given error ''The remote instance requires manual peering approval'')
     else if status = 403 \<and> (code = Some ''PEER_REVOKED'' \<or> error = Some REMOTE_REVOKED_ERROR)
     then ARefused Revoked_by_remote (given error REMOTE_REVOKED_ERROR)
     else ATransient (given error (''Remote rejected peering (HTTP '' @ nat_to_dec status @ '')'')) (int status))"

datatype HandshakeOutcome =
    HActive string bool
  | HAwaiting string
  | HRejected string "string option" string
  | HNeedsAttention string "string option"
  | HRevoked string
  | HFailed "string option" string bool "int option"

definition outcomeForRow :: "PeerStateSnapshot option \<Rightarrow> string \<Rightarrow> bool \<Rightarrow> int option \<Rightarrow> HandshakeOutcome" where
  "outcomeForRow row fallbackError timedOut httpStatus = (case row of
     None \<Rightarrow> HFailed None fallbackError timedOut httpStatus
   | Some r \<Rightarrow> (case ps_status r of
       PActive \<Rightarrow> HActive (ps_id r) False
     | PUnreachable \<Rightarrow> HActive (ps_id r) False
     | PAwaiting \<Rightarrow> HAwaiting (ps_id r)
     | PRejected \<Rightarrow> HRejected (ps_id r) (ps_statusReason r) fallbackError
     | PNeedsAttention \<Rightarrow> HNeedsAttention (ps_id r) (ps_statusReason r)
     | PRevoked \<Rightarrow> HRevoked (ps_id r)
     | PPending \<Rightarrow> HFailed (Some (ps_id r)) fallbackError timedOut httpStatus))"

definition rowOutcome :: "PeerStateSnapshot option \<Rightarrow> string \<Rightarrow> HandshakeOutcome" where
  "rowOutcome row err = outcomeForRow row err False None"

datatype EpochProbe = Verified string | NotPeered | SecretMismatch | ProbeUnknown

text \<open>A transition from \<open>pending\<close> with our secret, and the outcome it settles.\<close>

definition settle_with ::
  "peer_db \<Rightarrow> OutboundHandshakeOptions \<Rightarrow> PeerRowFields \<Rightarrow> PeerTarget \<Rightarrow> HandshakeOutcome \<Rightarrow> string
    \<Rightarrow> peer_db \<times> HandshakeOutcome" where
  "settle_with db opts written target out error =
    (case applyPeerTransition db (ho_peerId opts)
        \<lparr>pt_from = [PPending], pt_expectSecret = Some (ho_hmacSecret opts), pt_fields = written, pt_to = target\<rparr> of
       (db1, Applied _ _) \<Rightarrow> (db1, out)
     | (db1, NotApplied current) \<Rightarrow> (db1, rowOutcome current error))"

definition changed_in_flight :: string where
  "changed_in_flight = ''The peer changed while the handshake was in flight''"

definition activateVerified ::
  "peer_db \<Rightarrow> OutboundHandshakeOptions \<Rightarrow> string \<Rightarrow> string \<Rightarrow> string option \<Rightarrow> FederationPeerStatus
    \<Rightarrow> PeerActivationReason \<Rightarrow> millis \<Rightarrow> peer_db \<times> bool" where
  "activateVerified db opts secret epoch instanceName from cause now =
    (case applyPeerTransition db (ho_peerId opts)
       \<lparr>pt_from = [from], pt_expectSecret = (if from = PPending then Some secret else None),
        pt_fields = no_fields\<lparr>pf_hmacSecret := Some secret, pf_lastSeenAt := Some (Some now),
          pf_peerInstanceId := Some (Some epoch), pf_approvalToken := Some None,
          pf_instanceName := (case instanceName of None \<Rightarrow> None | Some n \<Rightarrow> Some (Some n))\<rparr>,
        pt_to = ToActive cause\<rparr> of (db1, r) \<Rightarrow> (db1, is_applied r))"

datatype HandshakeStep = HDone HandshakeOutcome | HProbeAccepted "string option" | HProbeExists string

text \<open>\<open>stillOurs\<close>: the row is pending and holds the secret we sent.\<close>

definition stillOurs :: "OutboundHandshakeOptions \<Rightarrow> PeerStateSnapshot option \<Rightarrow> bool" where
  "stillOurs opts row = (case row of None \<Rightarrow> False
     | Some r \<Rightarrow> ps_status r = PPending \<and> ps_hmacSecret r = ho_hmacSecret opts)"

text \<open>\<open>runOutboundHandshake\<close> from the answer to its next await or its end.\<close>

definition handshakeAnswered ::
  "peer_db \<Rightarrow> OutboundHandshakeOptions \<Rightarrow> AcceptAnswer \<Rightarrow> peer_db \<times> HandshakeStep" where
  "handshakeAnswered db opts answer =
    (let i = ho_peerId opts;
         failedAttempt = (\<lambda>err timedOut http.
           (let db1 = fst (recordPeerAttempt db i [PPending] (ho_startedAt opts));
                db2 = (case ho_onFailure opts of
                   RemoveUnlessQueued \<Rightarrow> fst (removePeer db1 i [PPending] True)
                 | ReleaseToTraffic \<Rightarrow> fst (applyPeerTransition db1 i
                     \<lparr>pt_from = [PPending], pt_expectSecret = None,
                      pt_fields = no_fields\<lparr>pf_initiatedBy := Some ''auto''\<rparr>, pt_to = ToPending Handshake_released\<rparr>)
                 | Keep \<Rightarrow> db1)
            in (db2, HDone (outcomeForRow (readPeerState db2 i) err timedOut http))))
     in case answer of
       AQueued token \<Rightarrow> (case settle_with db opts (no_fields\<lparr>pf_approvalToken := Some token\<rparr>) (ToAwaiting Handshake_queued)
            (HAwaiting i) changed_in_flight of (db1, out) \<Rightarrow> (db1, HDone out))
     | ARefused reason err \<Rightarrow> (case settle_with db opts no_fields (ToRejected reason Remote_refused)
            (HRejected i (Some (rejected_text reason)) err) err of (db1, out) \<Rightarrow> (db1, HDone out))
     | AAccepted instanceName _ \<Rightarrow> (db, HProbeAccepted instanceName)
     | AExists err \<Rightarrow>
         if \<not> stillOurs opts (readPeerState db i) then (db, HDone (rowOutcome (readPeerState db i) err))
         else (db, HProbeExists err)
     | AInProgress err \<Rightarrow>
         let db1 = fst (recordPeerAttempt db i [PPending] (ho_startedAt opts))
         in (db1, HDone (rowOutcome (readPeerState db1 i) err))
     | ATransient err http \<Rightarrow> failedAttempt err False (Some http)
     | AUnreachable err timedOut \<Rightarrow> failedAttempt err timedOut None)"

text \<open>After the probe of the \<open>exists\<close> answer.\<close>

definition handshakeExistsProbed ::
  "peer_db \<Rightarrow> OutboundHandshakeOptions \<Rightarrow> string \<Rightarrow> EpochProbe \<Rightarrow> millis \<Rightarrow> peer_db \<times> HandshakeOutcome" where
  "handshakeExistsProbed db opts err probe now =
    (let i = ho_peerId opts;
         park = (\<lambda>db0. settle_with db0 opts no_fields (ToRejected Stale_peering_on_remote Stale_peering)
                   (HRejected i (Some (rejected_text Stale_peering_on_remote)) err) err)
     in case probe of
       Verified epoch \<Rightarrow> (case activateVerified db opts (ho_hmacSecret opts) epoch None PPending (ho_activation opts) now of
           (db1, True) \<Rightarrow> (db1, HActive i True)
         | (db1, False) \<Rightarrow> park db1)
     | _ \<Rightarrow> park db)"

definition unproven_text :: string where
  "unproven_text = ''The remote accepted the handshake, but the signed check of the new secret did not answer; the next attempt completes the peering''"

text \<open>\<open>settleAccepted\<close>, after its probe.\<close>

definition settleAccepted ::
  "peer_db \<Rightarrow> OutboundHandshakeOptions \<Rightarrow> string option \<Rightarrow> EpochProbe \<Rightarrow> millis \<Rightarrow> peer_db \<times> HandshakeOutcome" where
  "settleAccepted db opts instanceName probe now =
    (let i = ho_peerId opts; row = readPeerState db i in
     if stillOurs opts row then
       (case probe of
          Verified epoch \<Rightarrow>
            (case activateVerified db opts (ho_hmacSecret opts) epoch instanceName PPending (ho_activation opts) now of
               (db1, True) \<Rightarrow> (db1, HActive i True)
             | (db1, False) \<Rightarrow> (db1, rowOutcome (readPeerState db1 i) changed_in_flight))
        | ProbeUnknown \<Rightarrow>
            let db1 = fst (recordPeerAttempt db i [PPending] (ho_startedAt opts))
            in (db1, rowOutcome (readPeerState db1 i) unproven_text)
        | _ \<Rightarrow> settle_with db opts (no_fields\<lparr>pf_lastSeenAt := Some (Some now),
                   pf_instanceName := (case instanceName of None \<Rightarrow> None | Some n \<Rightarrow> Some (Some n))\<rparr>)
                 (ToNeedsAttention Repeer_incomplete Repeer_unverified)
                 (HNeedsAttention i (Some (attention_text Repeer_incomplete))) changed_in_flight)
     else
       (case row of
          Some r \<Rightarrow>
            if ps_status r = PActive \<and> ps_hmacSecret r \<noteq> ho_hmacSecret opts then
              (let db1 = (case probe of
                   Verified epoch \<Rightarrow> fst (applyPeerTransition db i
                     \<lparr>pt_from = [PActive], pt_expectSecret = Some (ps_hmacSecret r),
                      pt_fields = no_fields\<lparr>pf_hmacSecret := Some (ho_hmacSecret opts), pf_peerInstanceId := Some (Some epoch)\<rparr>,
                      pt_to = ToActive (ho_activation opts)\<rparr>)
                 | _ \<Rightarrow> db)
               in (db1, rowOutcome (readPeerState db1 i) changed_in_flight))
            else (db, rowOutcome row changed_in_flight)
        | None \<Rightarrow> (db, rowOutcome row changed_in_flight)))"

definition ensureResultFor :: "HandshakeOutcome \<Rightarrow> EnsurePeeredResult" where
  "ensureResultFor outcome = (case outcome of
     HActive i _ \<Rightarrow> EActive i
   | HAwaiting _ \<Rightarrow> EPending ''Awaiting admin approval on remote instance''
   | HRejected _ reason err \<Rightarrow> ERejected (text_or reason err)
   | HNeedsAttention _ reason \<Rightarrow> ERejected (text_or reason ''Peer in needs_attention; an admin has to reset it'')
   | HRevoked _ \<Rightarrow> ERejected ''Peer was revoked by admin''
   | HFailed _ err _ _ \<Rightarrow> EFailed err)"

section \<open>Admin-initiated handshakes\<close>

datatype AdminRowPreparation = Ready string string OnFailure | AlreadyActive string | Busy string

definition peer_changed_text :: string where
  "peer_changed_text = ''The peer changed; try again''"

definition insert_admin_row ::
  "peer_db \<Rightarrow> origin \<Rightarrow> string option \<Rightarrow> string \<Rightarrow> string \<Rightarrow> millis \<Rightarrow> peer_db \<times> AdminRowPreparation" where
  "insert_admin_row db org instanceName secret newId now = (case insertPeer db
      \<lparr>np_origin = org, np_hmacSecret = secret, np_initiatedBy = ''admin'', np_instanceName = instanceName,
       np_peerInstanceId = None, np_lastSeenAt = None, np_status = NewPending\<rparr> newId now of
     None \<Rightarrow> (db, Busy peer_changed_text)
   | Some (db1, row, _) \<Rightarrow> (db1, Ready (pe_id row) secret RemoveUnlessQueued))"

definition prepareAdminHandshakeRow ::
  "peer_db \<Rightarrow> origin \<Rightarrow> bool \<Rightarrow> string option \<Rightarrow> string \<Rightarrow> string \<Rightarrow> millis \<Rightarrow> peer_db \<times> AdminRowPreparation" where
  "prepareAdminHandshakeRow db org initiate instanceName secret newId now =
    (case readPeerStateByOrigin db org of
       None \<Rightarrow> insert_admin_row db org instanceName secret newId now
     | Some existing \<Rightarrow>
       (let replace = (case removePeer db (ps_id existing) [ps_status existing] False of
              (db1, None) \<Rightarrow> (db1, Busy peer_changed_text)
            | (db1, Some _) \<Rightarrow> insert_admin_row db1 org instanceName secret newId now)
        in case ps_status existing of
          PActive \<Rightarrow> (db, AlreadyActive (ps_id existing))
        | PUnreachable \<Rightarrow> (db, AlreadyActive (ps_id existing))
        | PPending \<Rightarrow>
            if ps_initiatedBy existing = ''admin'' then (db, Ready (ps_id existing) (ps_hmacSecret existing) Keep)
            else if ps_initiatedBy existing \<noteq> ''auto''
            then (db, Busy ''A peering handshake with this instance is already in progress'')
            else (case applyPeerTransition db (ps_id existing)
                \<lparr>pt_from = [PPending], pt_expectSecret = Some (ps_hmacSecret existing),
                 pt_fields = no_fields\<lparr>pf_initiatedBy := Some ''admin''\<rparr>, pt_to = ToPending Admin_claimed\<rparr> of
              (db1, Applied _ _) \<Rightarrow> (db1, Ready (ps_id existing) (ps_hmacSecret existing) ReleaseToTraffic)
            | (db1, NotApplied _) \<Rightarrow> (db1, Busy peer_changed_text))
        | PAwaiting \<Rightarrow>
            if initiate then (db, Busy ''A peering handshake with this instance is awaiting the remote admin's approval'')
            else replace
        | PNeedsAttention \<Rightarrow>
            if \<not> initiate then (db, Busy ''This peer needs attention; reset it before approving a new handshake'')
            else replace
        | PRejected \<Rightarrow> replace
        | PRevoked \<Rightarrow> replace))"

section \<open>Reset detection and recovery\<close>

text \<open>\<open>extractDomain\<close>, given what the URL parser answers for the text.\<close>

definition strip_scheme :: "string \<Rightarrow> string" where
  "strip_scheme s = (if starts_with ''https://'' s then drop 8 s else if starts_with ''http://'' s then drop 7 s else s)"

definition extractDomain :: "url option \<Rightarrow> string \<Rightarrow> string" where
  "extractDomain u s = (case u of Some v \<Rightarrow> url_hostname v
     | None \<Rightarrow> takeWhile (\<lambda>c. c \<noteq> CHR ''/'') (strip_scheme s))"

definition homeInstanceMatch :: "string \<Rightarrow> user_row \<Rightarrow> bool" where
  "homeInstanceMatch domain u \<longleftrightarrow> us_homeInstance u \<in> {Some domain, Some (''https://'' @ domain), Some (''http://'' @ domain)}"

definition REPLICATED_STUB_SENTINEL :: string where
  "REPLICATED_STUB_SENTINEL = ''!federation-replicated''"

definition journal_reset ::
  "reset_row list \<Rightarrow> origin \<Rightarrow> string \<Rightarrow> nat \<Rightarrow> nat \<Rightarrow> millis \<Rightarrow> reset_row list" where
  "journal_reset rows org deadEpoch stubs orphans now = (case find (\<lambda>e. re_origin e = org) rows of
     Some existing \<Rightarrow>
       if re_resolvedAt existing = None
       then map (\<lambda>e. if re_origin e = org then e\<lparr>re_stubCount := stubs, re_orphanedAccountCount := orphans,
              re_acknowledgedAt := None\<rparr> else e) rows
       else map (\<lambda>e. if re_origin e = org then e\<lparr>re_deadEpoch := deadEpoch, re_newEpoch := None, re_detectedAt := now,
              re_resolvedAt := None, re_stubCount := stubs, re_orphanedAccountCount := orphans, re_acknowledgedAt := None\<rparr>
              else e) rows
   | None \<Rightarrow> rows @ [\<lparr>re_origin = org, re_deadEpoch = deadEpoch, re_newEpoch = None, re_detectedAt = now,
       re_resolvedAt = None, re_stubCount = stubs, re_orphanedAccountCount = orphans, re_acknowledgedAt = None\<rparr>])"

text \<open>\<open>domain\<close> is \<open>extractDomain\<close> of the origin.\<close>

definition markPeerReset ::
  "instance_state \<Rightarrow> string \<Rightarrow> origin \<Rightarrow> string \<Rightarrow> string \<Rightarrow> string \<Rightarrow> millis \<Rightarrow> instance_state" where
  "markPeerReset st peerId org domain deadEpoch observedEpoch now =
    (let seen = (case peer_get peerId (pd_peers (in_peers st)) of None \<Rightarrow> None | Some p \<Rightarrow> pe_observedPeerInstanceId p);
         again = (case readPeerState (in_peers st) peerId of None \<Rightarrow> False
            | Some c \<Rightarrow> ps_status c = PNeedsAttention \<and> ps_statusReason c = Some ''peer_reset_detected'')
           \<and> seen = Some observedEpoch
     in if again then st
        else (case applyPeerTransition (in_peers st) peerId
            \<lparr>pt_from = [PActive, PUnreachable, PNeedsAttention], pt_expectSecret = None,
             pt_fields = no_fields\<lparr>pf_observedPeerInstanceId := Some (Some observedEpoch)\<rparr>,
             pt_to = ToNeedsAttention Peer_reset_detected Reset_detected\<rparr> of
          (_, NotApplied _) \<Rightarrow> st
        | (db, Applied _ _) \<Rightarrow>
            let users = map (\<lambda>u. if us_isDeleted u = Some 0 \<and> homeInstanceMatch domain u
                  then u\<lparr>us_federationHealPending := Some 1\<rparr> else u) (in_users st);
                flagged = filter (\<lambda>u. us_federationHealPending u = Some 1 \<and> homeInstanceMatch domain u) users;
                stubs = length (filter (\<lambda>u. us_passwordHash u = REPLICATED_STUB_SENTINEL) flagged);
                orphans = length (filter (\<lambda>u. us_passwordHash u \<noteq> REPLICATED_STUB_SENTINEL) flagged)
            in st\<lparr>in_peers := db, in_users := users,
                  in_resetEvents := journal_reset (in_resetEvents st) org deadEpoch stubs orphans now\<rparr>))"

definition markPeerRecovered :: "peer_db \<Rightarrow> string \<Rightarrow> millis \<Rightarrow> peer_db \<times> bool" where
  "markPeerRecovered db peerId now = (case applyPeerTransition db peerId
      \<lparr>pt_from = [PUnreachable], pt_expectSecret = None,
       pt_fields = no_fields\<lparr>pf_consecutiveFailures := Some 0, pf_lastSeenAt := Some (Some now)\<rparr>,
       pt_to = ToActive Health_check_recovery\<rparr> of (db1, r) \<Rightarrow> (db1, is_applied r))"

datatype RecoveryOutcome = Recovered | ResetDetected | Unchanged

record ProbeResult =
  pr_reachable :: bool
  pr_instanceId :: "string option"

definition epoch_differs :: "string option \<Rightarrow> string option \<Rightarrow> bool" where
  "epoch_differs baseline observed \<longleftrightarrow> truthy baseline \<and> truthy observed \<and> observed \<noteq> baseline"

text \<open>\<open>peer\<close> is the row as it was read before the probe.\<close>

definition recoverOrDetectReset ::
  "instance_state \<Rightarrow> peer_row \<Rightarrow> ProbeResult \<Rightarrow> string \<Rightarrow> millis \<Rightarrow> instance_state \<times> RecoveryOutcome" where
  "recoverOrDetectReset st peer probe domain now =
    (if epoch_differs (pe_peerInstanceId peer) (pr_instanceId probe)
     then (markPeerReset st (pe_id peer) (pe_origin peer) domain (the (pe_peerInstanceId peer)) (the (pr_instanceId probe)) now,
           ResetDetected)
     else (case markPeerRecovered (in_peers st) (pe_id peer) now of
         (db, ok) \<Rightarrow> (st\<lparr>in_peers := db\<rparr>, if ok then Recovered else Unchanged)))"

definition detectResetForPeer ::
  "instance_state \<Rightarrow> peer_row \<Rightarrow> ProbeResult \<Rightarrow> string \<Rightarrow> millis \<Rightarrow> instance_state" where
  "detectResetForPeer st peer probe domain now =
    (if truthy (pe_peerInstanceId peer) \<and> pr_reachable probe \<and> epoch_differs (pe_peerInstanceId peer) (pr_instanceId probe)
     then markPeerReset st (pe_id peer) (pe_origin peer) domain (the (pe_peerInstanceId peer)) (the (pr_instanceId probe)) now
     else st)"

section \<open>The inbound handshake\<close>

type_synonym reply = "nat \<times> (string \<times> wire) list"

definition opt_wire :: "string option \<Rightarrow> wire" where
  "opt_wire v = (case v of None \<Rightarrow> WOther | Some s \<Rightarrow> WStr s)"

definition error_reply :: "nat \<Rightarrow> string \<Rightarrow> reply" where
  "error_reply status err = (status, [(''error'', WStr err), (''statusCode'', WOther)])"

definition coded_reply :: "nat \<Rightarrow> string \<Rightarrow> string \<Rightarrow> reply" where
  "coded_reply status err code = (status, [(''error'', WStr err), (''code'', WStr code), (''statusCode'', WOther)])"

definition in_progress_reply :: "string \<Rightarrow> reply" where
  "in_progress_reply err = coded_reply 409 err ''PEER_HANDSHAKE_IN_PROGRESS''"

text \<open>The lookup is by origin alone; the insert leaves the direction to its default.\<close>

definition queueApprovalRequest ::
  "instance_state \<Rightarrow> origin \<Rightarrow> string \<Rightarrow> string option \<Rightarrow> string \<Rightarrow> string \<Rightarrow> millis \<Rightarrow> instance_state \<times> reply" where
  "queueApprovalRequest st sourceOrigin secret name approvalToken newId now =
    ((case find (\<lambda>q. ar_origin q = sourceOrigin) (in_requests st) of
        Some existing \<Rightarrow> st\<lparr>in_requests := map (\<lambda>q. if ar_id q = ar_id existing
            then q\<lparr>ar_instanceName := name, ar_hmacSecret := Some secret, ar_requestedAt := now,
                   ar_expiresAt := now + THIRTY_DAYS_MS, ar_approvalToken := Some approvalToken\<rparr> else q) (in_requests st)\<rparr>
      | None \<Rightarrow> st\<lparr>in_requests := in_requests st @ [\<lparr>ar_id = newId, ar_origin = sourceOrigin, ar_direction = ''inbound'',
            ar_instanceName = name, ar_hmacSecret = Some secret, ar_requestedAt = now,
            ar_expiresAt = now + THIRTY_DAYS_MS, ar_approvalToken = Some approvalToken\<rparr>]\<rparr>),
     (202, [(''queued'', WOther), (''message'', WStr ''Request queued for admin approval''),
            (''approvalToken'', WStr approvalToken)]))"

record AcceptBody =
  ab_sourceOrigin :: "wire option"
  ab_hmacSecret :: "wire option"
  ab_instanceName :: "string option"
  ab_instanceId :: "string option"
  ab_approvalToken :: "string option"

definition accepted_reply :: "instance_state \<Rightarrow> reply" where
  "accepted_reply st = (200, [(''accepted'', WOther), (''instanceName'', opt_wire (in_instanceName st)),
     (''instanceId'', WStr (in_instanceId st))])"

definition exists_reply :: "instance_state \<Rightarrow> reply" where
  "exists_reply st = (409, [(''accepted'', WOther), (''code'', WStr ''PEER_EXISTS_RESET_REQUIRED''),
     (''error'', WStr ''This instance already holds peering for you; its admin must reset that peering before a new handshake can be accepted.''),
     (''instanceName'', opt_wire (in_instanceName st)), (''instanceId'', WStr (in_instanceId st)), (''statusCode'', WOther)])"

definition accept_decision :: "instance_state \<Rightarrow> origin \<Rightarrow> string option \<Rightarrow> InboundHandshakeDecision" where
  "accept_decision st sourceOrigin token = decideInboundHandshake
     \<lparr>ih_row = peer_by_origin sourceOrigin (pd_peers (in_peers st)), ih_autoAccept = (auto_accept_setting st = 1),
      ih_inboundToken = token, ih_ownHandshakeInFlight = isHandshakeInFlight st sourceOrigin,
      ih_ourOrigin = in_ourOrigin st, ih_sourceOrigin = sourceOrigin\<rparr>"

text \<open>The switch of the route, for a valid body.\<close>

definition acceptDecided ::
  "instance_state \<Rightarrow> origin \<Rightarrow> string \<Rightarrow> AcceptBody \<Rightarrow> string \<Rightarrow> string \<Rightarrow> string \<Rightarrow> millis \<Rightarrow> instance_state \<times> reply" where
  "acceptDecided st sourceOrigin secret body domain newId token now =
    (let existing = peer_by_origin sourceOrigin (pd_peers (in_peers st)) in
     case accept_decision st sourceOrigin (ab_approvalToken body) of
       DCreate \<Rightarrow> (case insertPeer (in_peers st)
            \<lparr>np_origin = sourceOrigin, np_hmacSecret = secret, np_initiatedBy = ''remote'', np_instanceName = ab_instanceName body,
             np_peerInstanceId = ab_instanceId body, np_lastSeenAt = Some now, np_status = NewActive Accept_new\<rparr> newId now of
          None \<Rightarrow> (st, in_progress_reply ''A peering handshake with this instance is already in progress'')
        | Some (db, _, _) \<Rightarrow> (st\<lparr>in_peers := db\<rparr>, accepted_reply st))
     | DActivate from cause \<Rightarrow> (case existing of
          None \<Rightarrow> (st, error_reply 500 ''Peer row missing'')
        | Some row \<Rightarrow> (case applyPeerTransition (in_peers st) (pe_id row)
              \<lparr>pt_from = [from], pt_expectSecret = Some (pe_hmacSecret row),
               pt_fields = no_fields\<lparr>pf_hmacSecret := Some secret, pf_instanceName := Some (ab_instanceName body),
                 pf_peerInstanceId := Some (ab_instanceId body), pf_lastSeenAt := Some (Some now), pf_approvalToken := Some None\<rparr>,
               pt_to = ToActive cause\<rparr> of
            (db, NotApplied _) \<Rightarrow> (st\<lparr>in_peers := db\<rparr>,
                in_progress_reply ''A peering handshake with this instance is already in progress'')
          | (db, Applied _ _) \<Rightarrow>
              let st1 = st\<lparr>in_peers := db\<rparr>;
                  st2 = (if from = PAwaiting then delete_requests (\<lambda>q. ar_origin q = sourceOrigin) st1 else st1)
              in (st2, accepted_reply st)))
     | DQueue \<Rightarrow> queueApprovalRequest st sourceOrigin secret (ab_instanceName body) token newId now
     | DRefuseExists \<Rightarrow>
         ((case existing of
             Some row \<Rightarrow> if epoch_differs (pe_peerInstanceId row) (ab_instanceId body)
               then markPeerReset st (pe_id row) sourceOrigin domain (the (pe_peerInstanceId row)) (the (ab_instanceId body)) now
               else st
           | None \<Rightarrow> st), exists_reply st)
     | DRefuseRevoked \<Rightarrow> (st, coded_reply 403 ''Peering with this instance has been revoked'' ''PEER_REVOKED'')
     | DRefuseDenied \<Rightarrow> (st, coded_reply 403 ''This instance requires manual peering approval'' ''PEERING_REQUIRES_APPROVAL'')
     | DRefuseInProgress \<Rightarrow> (st, in_progress_reply ''This instance is completing its own peering handshake with you''))"

text \<open>
  \<open>POST /api/federation/peer/accept\<close>. \<open>limited\<close> is the rate limiter's answer, \<open>url_of\<close> the URL parser. (The
  dash of the first message is an em dash in the source.)
\<close>

definition peerAccept ::
  "(string \<Rightarrow> url option) \<Rightarrow> bool \<Rightarrow> instance_state \<Rightarrow> AcceptBody \<Rightarrow> string \<Rightarrow> string \<Rightarrow> millis \<Rightarrow> instance_state \<times> reply" where
  "peerAccept url_of limited st body newId token now =
    (if limited then (st, error_reply 429 ''Too many peering requests - try again later'')
     else (case nonEmptyString (ab_sourceOrigin body) of
         None \<Rightarrow> (st, error_reply 400 ''sourceOrigin is required'')
       | Some raw \<Rightarrow> (case nonEmptyString (ab_hmacSecret body) of
           None \<Rightarrow> (st, error_reply 400 ''hmacSecret is required'')
         | Some secret \<Rightarrow> (case validateOrigin (url_of raw) of
             None \<Rightarrow> (st, error_reply 400 ''sourceOrigin must be a valid HTTPS URL (HTTP is only allowed for localhost)'')
           | Some sourceOrigin \<Rightarrow>
               acceptDecided st sourceOrigin secret body (extractDomain (url_of sourceOrigin) sourceOrigin) newId token now))))"

section \<open>Signed notices and secret rotation\<close>

text \<open>
  \<open>POST /peer/denied\<close> and \<open>POST /peer/rotate\<close>: \<open>header\<close> is the origin of the parsed federation headers
  (\<open>None\<close> when they are malformed), \<open>verify\<close> what the signature check answers for a secret.
\<close>

definition peerDenied ::
  "instance_state \<Rightarrow> origin option \<Rightarrow> (string \<Rightarrow> bool) \<Rightarrow> string \<Rightarrow> instance_state \<times> reply" where
  "peerDenied st header verify reason = (case header of
     None \<Rightarrow> (st, error_reply 401 ''Missing or malformed federation headers'')
   | Some senderOrigin \<Rightarrow> (case peer_by_origin senderOrigin (pd_peers (in_peers st)) of
       None \<Rightarrow> (st, error_reply 404 ''No peer record for this origin'')
     | Some peer \<Rightarrow>
         if pe_status peer \<noteq> ''awaiting_approval''
         then (st, error_reply 409 (''Peer is in '' @ [CHR 0x27] @ pe_status peer @ [CHR 0x27] @ '' state, not awaiting_approval''))
         else if \<not> verify (pe_hmacSecret peer) then (st, error_reply 401 ''Invalid HMAC signature'')
         else (st\<lparr>in_peers := fst (applyPeerTransition (in_peers st) (pe_id peer)
                 \<lparr>pt_from = [PAwaiting], pt_expectSecret = None, pt_fields = no_fields,
                  pt_to = ToRejected (if reason = ''expired'' then Expired_on_remote else Denied_by_remote) Remote_denied_request\<rparr>)\<rparr>,
               (200, [(''acknowledged'', WOther)]))))"

definition is_hex_secret :: "string \<Rightarrow> bool" where
  "is_hex_secret s \<longleftrightarrow> length s = 64 \<and> list_all (\<lambda>c. c \<in> set ''0123456789abcdef'') s"

definition update_peer :: "string \<Rightarrow> (peer_row \<Rightarrow> peer_row) \<Rightarrow> instance_state \<Rightarrow> instance_state" where
  "update_peer i f st = st\<lparr>in_peers := (in_peers st)\<lparr>pd_peers := tbl_update pe_id i f (pd_peers (in_peers st))\<rparr>\<rparr>"

definition peerRotate ::
  "instance_state \<Rightarrow> origin option \<Rightarrow> (peer_row \<Rightarrow> bool) \<Rightarrow> wire option \<Rightarrow> millis \<Rightarrow> instance_state \<times> reply" where
  "peerRotate st header verify newSecret now = (case header of
     None \<Rightarrow> (st, error_reply 401 ''Missing or malformed federation headers'')
   | Some org \<Rightarrow> (case peer_by_origin org (pd_peers (in_peers st)) of
       None \<Rightarrow> (st, error_reply 403 ''Unknown or inactive peer'')
     | Some peer \<Rightarrow>
         if pe_status peer \<noteq> ''active'' then (st, error_reply 403 ''Unknown or inactive peer'')
         else if \<not> verify peer then (st, error_reply 401 ''Invalid signature'')
         else (case nonEmptyString newSecret of
             None \<Rightarrow> (st, error_reply 400 ''newSecret must be a 64-character hex string'')
           | Some secret \<Rightarrow>
               if \<not> is_hex_secret secret then (st, error_reply 400 ''newSecret must be a 64-character hex string'')
               else if truthy (pe_pendingHmacSecret peer)
               then (st, error_reply 409 ''A secret rotation is already in progress - wait for it to complete'')
               else (update_peer (pe_id peer) (\<lambda>r. r\<lparr>pe_pendingHmacSecret := Some secret, pe_secretRotationAt := Some now\<rparr>) st,
                     (200, [(''accepted'', WOther), (''gracePeriodMs'', WOther)])))))"

section \<open>Admin routes\<close>

definition success :: reply where
  "success = (200, [(''success'', WOther)])"

definition ALL_BUT_REVOKED :: "FederationPeerStatus list" where
  "ALL_BUT_REVOKED = [PPending, PAwaiting, PActive, PUnreachable, PNeedsAttention, PRejected]"

definition revokePeer :: "instance_state \<Rightarrow> string \<Rightarrow> instance_state \<times> reply" where
  "revokePeer st i = (case peer_get i (pd_peers (in_peers st)) of
     None \<Rightarrow> (st, error_reply 404 ''Peer not found'')
   | Some _ \<Rightarrow> (st\<lparr>in_peers := fst (applyPeerTransition (in_peers st) i
        \<lparr>pt_from = ALL_BUT_REVOKED, pt_expectSecret = None, pt_fields = no_fields, pt_to = ToRevoked Admin_revoked\<rparr>)\<rparr>, success))"

definition resetPeer :: "instance_state \<Rightarrow> string \<Rightarrow> instance_state \<times> reply" where
  "resetPeer st i = (case peer_get i (pd_peers (in_peers st)) of
     None \<Rightarrow> (st, error_reply 404 ''Peer not found'')
   | Some peer \<Rightarrow>
       if pe_status peer \<noteq> ''needs_attention''
       then (st, error_reply 400 ''Reset is only available for peers in the needs_attention state. Use revoke for active peers.'')
       else (case removePeer (in_peers st) i [PNeedsAttention] False of
           (_, None) \<Rightarrow> (st, error_reply 409 ''The peer changed; reload and try again'')
         | (db, Some _) \<Rightarrow> (st\<lparr>in_peers := db\<rparr>, success)))"

definition deletePeerPermanently :: "instance_state \<Rightarrow> string \<Rightarrow> instance_state \<times> reply" where
  "deletePeerPermanently st i = (case peer_get i (pd_peers (in_peers st)) of
     None \<Rightarrow> (st, error_reply 404 ''Peer not found'')
   | Some peer \<Rightarrow>
       if pe_status peer \<noteq> ''revoked'' \<and> pe_status peer \<noteq> ''rejected''
       then (st, error_reply 400 ''Only revoked or rejected peers can be permanently deleted. Revoke the peer first.'')
       else (st\<lparr>in_peers := fst (removePeer (in_peers st) i [PRevoked, PRejected] False)\<rparr>, success))"

text \<open>\<open>POST /peers/:id/recheck\<close> after its probe; \<open>peer\<close> was read before it.\<close>

definition recheckProbed ::
  "instance_state \<Rightarrow> peer_row \<Rightarrow> ProbeResult \<Rightarrow> string \<Rightarrow> millis \<Rightarrow> instance_state \<times> string" where
  "recheckProbed st peer probe domain now =
    (if pr_reachable probe
     then (case recoverOrDetectReset st peer probe domain now of
         (st1, ResetDetected) \<Rightarrow> (st1, ''needs_attention'')
       | (st1, Unchanged) \<Rightarrow> (st1, case peer_get (pe_id peer) (pd_peers (in_peers st1)) of
             None \<Rightarrow> ''removed'' | Some r \<Rightarrow> pe_status r)
       | (st1, Recovered) \<Rightarrow> (st1, ''active''))
     else (st\<lparr>in_peers := fst (recordPeerAttempt (in_peers st) (pe_id peer) [PUnreachable] now)\<rparr>, ''unreachable''))"

text \<open>
  \<open>PATCH /peers/:id\<close>: \<open>requested\<close> is \<open>None\<close> without the field; inside, \<open>None\<close> is a value that is no
  integer.
\<close>

definition patchPeer :: "instance_state \<Rightarrow> string \<Rightarrow> int option option \<Rightarrow> instance_state \<times> reply" where
  "patchPeer st i requested = (case peer_get i (pd_peers (in_peers st)) of
     None \<Rightarrow> (st, error_reply 404 ''Peer not found'')
   | Some _ \<Rightarrow> (case requested of
       None \<Rightarrow> (st, error_reply 400 ''No valid fields to update'')
     | Some None \<Rightarrow> (st, error_reply 400 ''autoRotateIntervalDays must be an integer between 1 and 365'')
     | Some (Some days) \<Rightarrow>
         if days < 1 \<or> days > 365
         then (st, error_reply 400 ''autoRotateIntervalDays must be an integer between 1 and 365'')
         else (update_peer i (\<lambda>r. r\<lparr>pe_autoRotateIntervalDays := days\<rparr>) st, (200, [(''peer'', WOther)]))))"

section \<open>Approval requests\<close>

text \<open>
  What an admin's answer to a request does once the network part is over: the request goes when the
  handshake reached the remote (inbound), subscribers of a denied outbound request are told.
\<close>

definition inboundApproved :: "instance_state \<Rightarrow> approval_row \<Rightarrow> HandshakeOutcome \<Rightarrow> instance_state" where
  "inboundApproved st req outcome = (case outcome of
     HActive _ _ \<Rightarrow> delete_requests (\<lambda>q. ar_id q = ar_id req) st
   | HAwaiting _ \<Rightarrow> delete_requests (\<lambda>q. ar_id q = ar_id req) st
   | _ \<Rightarrow> st)"

text \<open>After the notice to the remote; \<open>sent\<close> is whether it was delivered.\<close>

definition inboundDenied ::
  "instance_state \<Rightarrow> approval_row \<Rightarrow> bool \<Rightarrow> string \<Rightarrow> millis \<Rightarrow> instance_state \<times> reply" where
  "inboundDenied st req sent newId now = (case ar_hmacSecret req of
     None \<Rightarrow> (st, error_reply 500 ''Inbound approval request is missing hmacSecret - cannot deliver /peer/denied notification.'')
   | Some secret \<Rightarrow>
       if secret = []
       then (st, error_reply 500 ''Inbound approval request is missing hmacSecret - cannot deliver /peer/denied notification.'')
       else if \<not> sent
       then (st, error_reply 502 ''Denial notification could not be delivered to the remote instance. The request is still pending - you can retry or wait for it to expire.'')
       else
         let db = (case readPeerStateByOrigin (in_peers st) (ar_origin req) of
             None \<Rightarrow> (case insertPeer (in_peers st)
                 \<lparr>np_origin = ar_origin req, np_hmacSecret = secret, np_initiatedBy = ''admin'',
                  np_instanceName = ar_instanceName req, np_peerInstanceId = None, np_lastSeenAt = None,
                  np_status = NewRejected Denied_by_local_admin\<rparr> newId now of
                 None \<Rightarrow> in_peers st | Some (db, _, _) \<Rightarrow> db)
           | Some existing \<Rightarrow> fst (applyPeerTransition (in_peers st) (ps_id existing)
                 \<lparr>pt_from = [PPending, PAwaiting, PRejected], pt_expectSecret = None, pt_fields = no_fields,
                  pt_to = ToRejected Denied_by_local_admin Local_admin_denied\<rparr>))
         in (delete_requests (\<lambda>q. ar_id q = ar_id req) (st\<lparr>in_peers := db\<rparr>), success))"

definition notification_of :: "string \<Rightarrow> origin \<Rightarrow> millis \<Rightarrow> string \<Rightarrow> subscriber_row \<Rightarrow> notification_row" where
  "notification_of kind org now newId sub = \<lparr>nt_id = newId, nt_userId = su_userId sub, nt_kind = kind,
     nt_peerOrigin = org, nt_triggerReason = su_triggerReason sub, nt_triggerTarget = su_triggerTarget sub,
     nt_createdAt = now, nt_readAt = None\<rparr>"

definition notify_subscribers ::
  "instance_state \<Rightarrow> approval_row \<Rightarrow> string \<Rightarrow> origin \<Rightarrow> (nat \<Rightarrow> string) \<Rightarrow> millis \<Rightarrow> instance_state" where
  "notify_subscribers st req kind org fresh now =
    (let subs = filter (\<lambda>s. su_requestId s = ar_id req) (in_subscribers st) in
     delete_requests (\<lambda>q. ar_id q = ar_id req) (st\<lparr>in_notifications := in_notifications st
        @ map (\<lambda>(k, sub). notification_of kind org now (fresh k) sub) (enumerate 0 subs)\<rparr>))"

definition outboundDenied :: "instance_state \<Rightarrow> approval_row \<Rightarrow> (nat \<Rightarrow> string) \<Rightarrow> millis \<Rightarrow> instance_state \<times> reply" where
  "outboundDenied st req fresh now = (notify_subscribers st req ''denied'' (ar_origin req) fresh now, success)"

text \<open>Activation tells the users who had asked for the peering, and clears their request.\<close>

definition fanoutOutboundSubscribers :: "instance_state \<Rightarrow> string \<Rightarrow> (nat \<Rightarrow> string) \<Rightarrow> millis \<Rightarrow> instance_state" where
  "fanoutOutboundSubscribers st peerId fresh now = (case peer_get peerId (pd_peers (in_peers st)) of
     None \<Rightarrow> st
   | Some peer \<Rightarrow> (case request_for st (pe_origin peer) ''outbound'' of
       None \<Rightarrow> st
     | Some parent \<Rightarrow> notify_subscribers st parent ''approved'' (pe_origin peer) fresh now))"

section \<open>Parked rows\<close>

definition parked_rows :: "peer_db \<Rightarrow> peer_row list" where
  "parked_rows db = filter (\<lambda>r. pe_status r = ''rejected'' \<and> pe_statusReason r = Some ''stale_peering_on_remote'') (pd_peers db)"

text \<open>
  One parked row after its probe: activate it, or reopen it and go through \<open>ensurePeered\<close>. The flag says
  whether to go on to that handshake.
\<close>

definition parkedProbed :: "peer_db \<Rightarrow> peer_row \<Rightarrow> EpochProbe \<Rightarrow> millis \<Rightarrow> peer_db \<times> bool" where
  "parkedProbed db row probe now = (case probe of
     Verified epoch \<Rightarrow> (fst (applyPeerTransition db (pe_id row)
        \<lparr>pt_from = [PRejected], pt_expectSecret = Some (pe_hmacSecret row),
         pt_fields = no_fields\<lparr>pf_peerInstanceId := Some (Some epoch), pf_lastSeenAt := Some (Some now), pf_approvalToken := Some None\<rparr>,
         pt_to = ToActive Stale_peering_verified\<rparr>), False)
   | NotPeered \<Rightarrow> (case applyPeerTransition db (pe_id row)
        \<lparr>pt_from = [PRejected], pt_expectSecret = Some (pe_hmacSecret row), pt_fields = no_fields,
         pt_to = ToPending Retry_after_remote_reset\<rparr> of (db1, r) \<Rightarrow> (db1, is_applied r))
   | _ \<Rightarrow> (db, False))"

definition parkedRetried :: "peer_db \<Rightarrow> peer_row \<Rightarrow> EnsurePeeredResult \<Rightarrow> peer_db" where
  "parkedRetried db row result = (case result of
     EFailed _ \<Rightarrow> fst (applyPeerTransition db (pe_id row)
        \<lparr>pt_from = [PPending], pt_expectSecret = None, pt_fields = no_fields,
         pt_to = ToRejected Stale_peering_on_remote Stale_peering\<rparr>)
   | _ \<Rightarrow> db)"

section \<open>Queueing an event for peers\<close>

definition deliverable :: "peer_row \<Rightarrow> bool" where
  "deliverable p \<longleftrightarrow> pe_status p \<in> {''active'', ''pending'', ''unreachable''}"

definition broadcast_status :: "peer_row \<Rightarrow> bool" where
  "broadcast_status p \<longleftrightarrow> pe_status p \<in> {''active'', ''unreachable''}"

text \<open>The loop over the target origins: it adds rows for origins the first read did not match.\<close>

fun match_targets ::
  "instance_state \<Rightarrow> peer_row list \<Rightarrow> origin set \<Rightarrow> origin list \<Rightarrow> (nat \<Rightarrow> string) \<Rightarrow> (nat \<Rightarrow> string) \<Rightarrow> nat \<Rightarrow> millis
    \<Rightarrow> instance_state \<times> peer_row list" where
  "match_targets st matched done [] secrets fresh k now = (st, matched)"
| "match_targets st matched done (org # orgs) secrets fresh k now =
    (if org \<in> done then match_targets st matched done orgs secrets fresh (Suc k) now
     else (case peer_by_origin org (pd_peers (in_peers st)) of
         None \<Rightarrow> (case createAutoPlaceholderPeer st org (secrets k) (fresh k) now of
             (st1, Some p, _) \<Rightarrow> match_targets st1 (matched @ [p]) done orgs secrets fresh (Suc k) now
           | (st1, None, _) \<Rightarrow> match_targets st1 matched done orgs secrets fresh (Suc k) now)
       | Some p \<Rightarrow> match_targets st (if deliverable p then matched @ [p] else matched) done orgs secrets fresh (Suc k) now))"

record OutboxRequest =
  or_entityId :: string
  or_contextId :: string
  or_eventType :: OutboxEventType
  or_payload :: string
  or_targets :: "origin list option"
  or_contextType :: string

fun write_all :: "outbox_row list \<Rightarrow> OutboxRequest \<Rightarrow> millis \<Rightarrow> peer_row list \<Rightarrow> (nat \<Rightarrow> string) \<Rightarrow> nat \<Rightarrow> millis \<Rightarrow> outbox_row list" where
  "write_all rows req expiresAt [] fresh k now = rows"
| "write_all rows req expiresAt (p # ps) fresh k now =
    write_all (writeOutboxEvent rows \<lparr>oi_peerId = pe_id p, oi_contextId = or_contextId req, oi_contextType = or_contextType req,
        oi_entityId = or_entityId req, oi_eventType = or_eventType req, oi_payload = or_payload req, oi_expiresAt = expiresAt\<rparr>
        (fresh k) now) req expiresAt ps fresh (Suc k) now"

definition queueOutboxEvent ::
  "bool \<Rightarrow> int \<Rightarrow> instance_state \<Rightarrow> OutboxRequest \<Rightarrow> (nat \<Rightarrow> string) \<Rightarrow> (nat \<Rightarrow> string) \<Rightarrow> millis \<Rightarrow> instance_state" where
  "queueOutboxEvent relayEnabled ttlDays st req secrets fresh now =
    (if \<not> relayEnabled then st
     else if or_contextType req = ''dm'' \<and> or_targets req = None then st
     else
       let (st1, matched) = (case or_targets req of
             None \<Rightarrow> (st, filter broadcast_status (pd_peers (in_peers st)))
           | Some targets \<Rightarrow>
               (let base = filter (\<lambda>p. deliverable p \<and> pe_origin p \<in> set targets) (pd_peers (in_peers st))
                in match_targets st base (pe_origin ` set base) targets secrets fresh 0 now));
           n = (case or_targets req of None \<Rightarrow> 0 | Some ts \<Rightarrow> length ts)
       in st1\<lparr>in_peers := (in_peers st1)\<lparr>pd_outbox := write_all (pd_outbox (in_peers st1)) req
              (now + ttlDays * 86400000) matched fresh n now\<rparr>\<rparr>)"

end
