(* ===== verification/OutboxWorker.thy ===== *)
theory OutboxWorker
  imports Peering
begin

text \<open>
  The outbox worker of \<open>packages/server/src/utils/federationWorker.ts\<close> with \<open>federationRejections.ts\<close> and
  \<open>federationAuthFailure.ts\<close>: how attempts are paced, what a tick picks and sends, and what each answer
  of a peer does to the rows and to the peer. A tick stops at its one \<open>await\<close>, the relay request:
  \<open>takeOutboxBatch\<close> and \<open>buildRelayEvents\<close> are what runs before it, \<open>settleDelivery\<close> what runs after it.
  The clock, the test-only backoff divisor and the platform's reading of a number are arguments.
\<close>

section \<open>Pacing\<close>

definition BACKOFF_SCHEDULE_MS :: "int list" where
  "BACKOFF_SCHEDULE_MS = [30000, 60000, 300000, 900000, 3600000, 21600000, 86400000]"

definition RECOVERY_BACKOFF_MS :: "int list" where
  "RECOVERY_BACKOFF_MS = [30000, 60000, 300000, 900000]"

definition HEALTH_CHECK_INTERVAL_MS :: int where
  "HEALTH_CHECK_INTERVAL_MS = 15 * 60 * 1000"

definition OUTBOX_BATCH_LIMIT :: nat where
  "OUTBOX_BATCH_LIMIT = 50"

definition PEER_UNREACHABLE_THRESHOLD :: int where
  "PEER_UNREACHABLE_THRESHOLD = 10"

definition AUTH_FAILURE_THRESHOLD :: int where
  "AUTH_FAILURE_THRESHOLD = 5"

text \<open>\<open>Math.ceil(ms / divisor)\<close> on integers.\<close>

definition retryWait :: "int \<Rightarrow> int \<Rightarrow> int" where
  "retryWait divisor ms = - ((- ms) div divisor)"

definition getBackoffMs :: "int \<Rightarrow> int \<Rightarrow> int" where
  "getBackoffMs divisor attempt =
    (let index = min (attempt - 1) (int (length BACKOFF_SCHEDULE_MS) - 1)
     in retryWait divisor (BACKOFF_SCHEDULE_MS ! nat (max 0 index)))"

definition isPeerAttemptDue :: "int \<Rightarrow> int \<Rightarrow> millis option \<Rightarrow> bool \<Rightarrow> millis \<Rightarrow> bool" where
  "isPeerAttemptDue divisor probeAttempts lastProbeAt hasQueuedMail now = (case lastProbeAt of
     None \<Rightarrow> True
   | Some t \<Rightarrow>
      (let step = min (max (probeAttempts - 1) 0) (int (length RECOVERY_BACKOFF_MS) - 1);
           interval = (if hasQueuedMail then retryWait divisor (RECOVERY_BACKOFF_MS ! nat step) else HEALTH_CHECK_INTERVAL_MS)
       in now - t \<ge> interval))"

section \<open>Rejections\<close>

datatype RejectionOutcome = Taken | Refused_for_good | Retry_later

definition REFUSED_REASONS :: "string list" where
  "REFUSED_REASONS =
    [''recipient_not_found'', ''attribution_mismatch'', ''unknown_event_type'', ''self_target_invalid'',
     ''not_message_author'', ''system_message_immutable'', ''invalid_system_message'', ''invalid_target'',
     ''source_peer_mismatch'', ''invalid_payload'', ''invalid_status'', ''missing_participants'',
     ''missing_federated_id'', ''missing_message_payload'', ''missing_reaction_payload'',
     ''missing_membership_payload'', ''missing_ownership_payload'', ''missing_metadata_payload'',
     ''missing_friendship_payload'', ''missing_file_rejected_payload'', ''missing_profile_update_payload'',
     ''missing_presence_update_payload'', ''missing_read_state_payload'', ''missing_dm_close_payload'',
     ''missing_dm_reopen_payload'', ''missing_call_payload'', ''missing_typing_payload'',
     ''message_not_found'', ''attachment_not_found'']"

definition RETRY_REASONS :: "string list" where
  "RETRY_REASONS =
    [''channel_not_found'', ''participant_not_found'', ''author_not_found'', ''user_not_found'',
     ''sender_not_found'', ''actor_not_found'', ''attribution_unproven'', ''unknown_message'',
     ''unauthorized_source'', ''max_members_exceeded'', ''processing_error'']"

definition UNKNOWN_MESSAGE_TAKEN :: "string list" where
  "UNKNOWN_MESSAGE_TAKEN = [''delete'', ''reaction_remove'']"

text \<open>A reason is the text of a peer's answer, so it is compared by its code units.\<close>

definition listed :: "string list \<Rightarrow> units \<Rightarrow> bool" where
  "listed names reason \<longleftrightarrow> reason \<in> set (map units_of names)"

definition classifyListed :: "string option \<Rightarrow> units \<Rightarrow> RejectionOutcome option" where
  "classifyListed eventType reason =
    (if reason = units_of ''duplicate'' then Some Taken
     else if reason = units_of ''unknown_message''
             \<and> (case eventType of None \<Rightarrow> False | Some e \<Rightarrow> e \<in> set UNKNOWN_MESSAGE_TAKEN) then Some Taken
     else if listed REFUSED_REASONS reason then Some Refused_for_good
     else if listed RETRY_REASONS reason then Some Retry_later
     else None)"

definition classifyRejection :: "string option \<Rightarrow> units \<Rightarrow> RejectionOutcome" where
  "classifyRejection eventType reason = (case classifyListed eventType reason of None \<Rightarrow> Retry_later | Some r \<Rightarrow> r)"

definition classifyPulledRejection :: "string option \<Rightarrow> units \<Rightarrow> RejectionOutcome" where
  "classifyPulledRejection eventType reason =
    (case classifyListed eventType reason of None \<Rightarrow> Refused_for_good | Some r \<Rightarrow> r)"

definition isTerminalRejection :: "string option \<Rightarrow> units \<Rightarrow> bool" where
  "isTerminalRejection eventType reason \<longleftrightarrow> classifyRejection eventType reason \<noteq> Retry_later"

section \<open>A peer's answer\<close>

record relay_response =
  rr_accepted :: "units list"
  rr_rejected :: "(units \<times> units) list"
  rr_maxUploadSize :: "int option"

fun string_elems :: "json list \<Rightarrow> units list option" where
  "string_elems [] = Some []"
| "string_elems (JStr u # js) = map_option ((#) u) (string_elems js)"
| "string_elems (_ # js) = None"

definition rejection_of :: "json \<Rightarrow> (units \<times> units) option" where
  "rejection_of entry = (case (json_get entry ''messageId'', json_get entry ''reason'') of
     (Some (JStr messageId), Some (JStr reason)) \<Rightarrow> Some (messageId, reason)
   | _ \<Rightarrow> None)"

fun rejections_of :: "json list \<Rightarrow> (units \<times> units) list option" where
  "rejections_of [] = Some []"
| "rejections_of (entry # js) = (case rejection_of entry of
     None \<Rightarrow> None | Some r \<Rightarrow> map_option ((#) r) (rejections_of js))"

text \<open>\<open>num_of\<close> reads a JSON number; \<open>None\<close> is one that is not finite, as is a size that is no number.\<close>

definition parseRelayResponse :: "(string \<Rightarrow> int option) \<Rightarrow> json \<Rightarrow> relay_response option" where
  "parseRelayResponse num_of body = (case json_get body ''accepted'' of
     Some (JArr acc) \<Rightarrow> (case string_elems acc of
         None \<Rightarrow> None
       | Some accepted \<Rightarrow> (case json_get body ''rejected'' of
           Some (JArr rej) \<Rightarrow> (case rejections_of rej of
               None \<Rightarrow> None
             | Some rejected \<Rightarrow> Some \<lparr>rr_accepted = accepted, rr_rejected = rejected,
                 rr_maxUploadSize = (case json_get body ''maxUploadSize'' of Some (JNum n) \<Rightarrow> num_of n | _ \<Rightarrow> None)\<rparr>)
         | _ \<Rightarrow> None))
   | _ \<Rightarrow> None)"

datatype DeliveryOutcome = Answered relay_response | AuthRefused nat | Failed string | Aborted

text \<open>What the request gave: a status with the body read as JSON, an abort, or another error.\<close>

datatype fetch_result = Responded nat "json option" | AbortError | FetchError string

definition sendOutboxBatch :: "(string \<Rightarrow> int option) \<Rightarrow> fetch_result \<Rightarrow> DeliveryOutcome" where
  "sendOutboxBatch num_of r = (case r of
     Responded status body \<Rightarrow>
       if status = 401 \<or> status = 403 then AuthRefused status
       else if \<not> (200 \<le> status \<and> status \<le> 299) then Failed (''HTTP '' @ nat_to_dec status)
       else (case body of
           None \<Rightarrow> Failed ''unreadable answer''
         | Some parsed \<Rightarrow> (case parseRelayResponse num_of parsed of
             Some result \<Rightarrow> Answered result | None \<Rightarrow> Failed ''unreadable answer''))
   | AbortError \<Rightarrow> Aborted
   | FetchError message \<Rightarrow> Failed message)"

section \<open>Picking and sending\<close>

definition peer_active :: "peer_db \<Rightarrow> string \<Rightarrow> bool" where
  "peer_active db peerId = (case peer_get peerId (pd_peers db) of None \<Rightarrow> False | Some p \<Rightarrow> pe_status p = ''active'')"

text \<open>The rows a tick picks, and their ids per peer in the order the peers come up.\<close>

definition due_entries :: "peer_db \<Rightarrow> millis \<Rightarrow> outbox_row list" where
  "due_entries db now = take OUTBOX_BATCH_LIMIT (sort_key row_order
     (filter (\<lambda>r. ob_nextRetryAt r \<le> now \<and> peer_active db (ob_peerId r) \<and> isOutboxQueueHead (pd_outbox db) r)
        (pd_outbox db)))"

definition first_seen :: "'a list \<Rightarrow> 'a list" where
  "first_seen xs = rev (remdups (rev xs))"

definition by_peer :: "outbox_row list \<Rightarrow> (string \<times> string list) list" where
  "by_peer entries = map (\<lambda>p. (p, map ob_id (filter (\<lambda>e. ob_peerId e = p) entries))) (first_seen (map ob_peerId entries))"

fun one_per_wire_id :: "string list \<Rightarrow> outbox_row list \<Rightarrow> outbox_row list" where
  "one_per_wire_id seen [] = []"
| "one_per_wire_id seen (e # es) =
     (if ob_entityId e \<in> set seen then one_per_wire_id seen es
      else e # one_per_wire_id (ob_entityId e # seen) es)"

definition takeOutboxBatch :: "peer_db \<Rightarrow> string list \<Rightarrow> millis \<Rightarrow> peer_db \<times> outbox_row list" where
  "takeOutboxBatch db outboxIds now =
    (let current = sort_key row_order (filter (\<lambda>r. ob_id r \<in> set outboxIds
            \<and> peer_get (ob_peerId r) (pd_peers db) \<noteq> None) (pd_outbox db));
         batch = one_per_wire_id [] current
     in (db\<lparr>pd_outbox := markOutboxOffered (pd_outbox db) (map ob_id batch) now\<rparr>, batch))"

text \<open>A JavaScript value used as a condition (a number whose digits are all zero is zero).\<close>

fun json_truthy :: "json \<Rightarrow> bool" where
  "json_truthy JNull = False"
| "json_truthy (JBool b) = b"
| "json_truthy (JNum n) = list_ex (\<lambda>c. is_digit c \<and> c \<noteq> CHR ''0'') (takeWhile (\<lambda>c. c \<noteq> CHR ''e'' \<and> c \<noteq> CHR ''E'') n)"
| "json_truthy (JStr u) = (u \<noteq> [])"
| "json_truthy _ = True"

definition COPIED_FIELDS :: "string list" where
  "COPIED_FIELDS = [''federatedId'', ''participants'', ''message'', ''reactions'', ''reaction'', ''target'', ''membership'',
     ''ownership'', ''group'', ''friendship'', ''attachmentId'', ''sourceFilename'', ''rejectionReason'',
     ''rejectionLimit'', ''affectedUserIds'', ''affectedUsers'', ''metadata'', ''profileUpdate'',
     ''presenceUpdate'', ''readState'', ''dmCloseReopen'']"

definition copied :: "json \<Rightarrow> string \<Rightarrow> (string \<times> json) list" where
  "copied parsed k = (case json_get parsed k of
     None \<Rightarrow> []
   | Some v \<Rightarrow> if (if k = ''rejectionLimit'' then v \<noteq> JNull else json_truthy v) then [(k, v)] else [])"

definition int_text :: "int \<Rightarrow> string" where
  "int_text i = (if i < 0 then CHR ''-'' # nat_to_dec (nat (- i)) else nat_to_dec (nat i))"

text \<open>One event; \<open>None\<close> where reading the payload throws.\<close>

definition buildRelayEvent :: "outbox_row \<Rightarrow> (string \<times> json) list option" where
  "buildRelayEvent e = (case json_parse (ob_payload e) of
     None \<Rightarrow> None
   | Some JNull \<Rightarrow> None
   | Some parsed \<Rightarrow>
      (let isDm = (ob_contextType e = ''dm'' \<or> ob_contextType e = []) in
       Some ([(''eventType'', JStr (units_of (ob_eventType e))), (''contextType'', JStr (units_of (ob_contextType e))),
              (''messageId'', JStr (units_of (ob_entityId e))), (''encryptionVersion'', JNum (int_text (ob_encryptionVersion e))),
              (''timestamp'', JNum (int_text (ob_createdAt e)))]
         @ (if isDm \<and> ob_contextId e \<noteq> [] then [(''dmChannelId'', JStr (units_of (ob_contextId e)))] else [])
         @ concat (map (copied parsed) COPIED_FIELDS))))"

definition buildRelayEvents :: "outbox_row list \<Rightarrow> (string \<times> json) list list option" where
  "buildRelayEvents entries = those (map buildRelayEvent entries)"

text \<open>The secret a request to the peer is signed with.\<close>

definition signing_secret :: "peer_row \<Rightarrow> string" where
  "signing_secret p = (if truthy (pe_pendingHmacSecret p) \<and> (case pe_secretRotationAt p of None \<Rightarrow> False | Some t \<Rightarrow> t \<noteq> 0)
     then the (pe_pendingHmacSecret p) else pe_hmacSecret p)"

section \<open>Settling\<close>

definition bumped :: "int \<Rightarrow> millis \<Rightarrow> outbox_row \<Rightarrow> outbox_row \<Rightarrow> outbox_row" where
  "bumped divisor now entry r = r\<lparr>ob_attempts := ob_attempts entry + 1,
     ob_nextRetryAt := now + getBackoffMs divisor (ob_attempts entry + 1)\<rparr>"

definition applyOutboxEntryBackoff :: "int \<Rightarrow> outbox_row list \<Rightarrow> outbox_row list \<Rightarrow> millis \<Rightarrow> outbox_row list" where
  "applyOutboxEntryBackoff divisor rows entries now =
    foldl (\<lambda>rows e. map (\<lambda>r. if ob_id r = ob_id e then bumped divisor now e r else r) rows) rows entries"

definition verdict_of :: "relay_response \<Rightarrow> outbox_row \<Rightarrow> RejectionOutcome" where
  "verdict_of result entry =
    (let reason = map_of (rev (rr_rejected result)) (units_of (ob_entityId entry)) in
     if units_of (ob_entityId entry) \<in> set (rr_accepted result) then Taken
     else (case reason of None \<Rightarrow> Retry_later | Some r \<Rightarrow> classifyRejection (Some (ob_eventType entry)) r))"

type_synonym refusal = "string \<times> units \<times> string"

text \<open>One turn of the loop over the batch: the table, the rows to retry, the refusals.\<close>

fun settle_entry :: "relay_response \<Rightarrow> string \<Rightarrow> outbox_row list \<times> outbox_row list \<times> refusal list \<Rightarrow> outbox_row
    \<Rightarrow> outbox_row list \<times> outbox_row list \<times> refusal list" where
  "settle_entry result peerId (rows, retry, refusals) entry = (case verdict_of result entry of
     Retry_later \<Rightarrow> (rows, retry @ [entry], refusals)
   | Taken \<Rightarrow> (filter (\<lambda>r. ob_id r \<noteq> ob_id entry) rows, retry, refusals)
   | Refused_for_good \<Rightarrow>
      (let rows1 = filter (\<lambda>r. ob_id r \<noteq> ob_id entry) rows;
           reason = the (map_of (rev (rr_rejected result)) (units_of (ob_entityId entry)));
           rows2 = (if refusalEndsOutboxQueue (ob_eventType entry) \<and> ob_queueKey entry \<noteq> None
                    then filter (\<lambda>r. \<not> (ob_peerId r = peerId \<and> ob_queueKey r = ob_queueKey entry)) rows1 else rows1)
       in (rows2, retry, refusals @ [(ob_entityId entry, reason, ob_eventType entry)])))"

definition settleAnsweredBatch ::
  "int \<Rightarrow> peer_db \<Rightarrow> string \<Rightarrow> outbox_row list \<Rightarrow> relay_response \<Rightarrow> millis \<Rightarrow> peer_db \<times> refusal list" where
  "settleAnsweredBatch divisor db peerId batch result now =
    (let (rows, retry, refusals) = foldl (settle_entry result peerId) (pd_outbox db, [], []) batch
     in (db\<lparr>pd_outbox := applyOutboxEntryBackoff divisor rows retry now,
            pd_peers := tbl_update pe_id peerId (\<lambda>r. r\<lparr>pe_lastSeenAt := Some now, pe_consecutiveFailures := 0,
              pe_consecutiveAuthFailures := 0,
              pe_remoteMaxUploadSize := (case rr_maxUploadSize result of
                 Some n \<Rightarrow> Some n | None \<Rightarrow> pe_remoteMaxUploadSize r)\<rparr>) (pd_peers db)\<rparr>, refusals))"

datatype AuthFailureAction = Backoff int | ToAttention int

definition evaluateAuthFailure :: "int \<Rightarrow> AuthFailureAction" where
  "evaluateAuthFailure currentAuthFailures =
    (let newAuthFailures = currentAuthFailures + 1
     in if newAuthFailures \<ge> AUTH_FAILURE_THRESHOLD then ToAttention newAuthFailures else Backoff newAuthFailures)"

text \<open>A move to \<open>needs_attention\<close> is followed by \<open>detectResetForPeer\<close>, outside the tick.\<close>

definition handleRelayAuthRefusal :: "peer_db \<Rightarrow> string \<Rightarrow> millis \<Rightarrow> peer_db" where
  "handleRelayAuthRefusal db peerId now =
    (case evaluateAuthFailure (case peer_get peerId (pd_peers db) of None \<Rightarrow> 0 | Some p \<Rightarrow> pe_consecutiveAuthFailures p) of
       ToAttention n \<Rightarrow> fst (applyPeerTransition db peerId
          \<lparr>pt_from = [PActive], pt_expectSecret = None,
           pt_fields = no_fields\<lparr>pf_consecutiveAuthFailures := Some n, pf_lastFailureAt := Some (Some now)\<rparr>,
           pt_to = ToNeedsAttention Auth_failures Auth_threshold\<rparr>)
     | Backoff n \<Rightarrow> db\<lparr>pd_peers := tbl_update pe_id peerId
          (\<lambda>r. r\<lparr>pe_consecutiveAuthFailures := n, pe_lastFailureAt := Some now\<rparr>) (pd_peers db)\<rparr>)"

definition markPeerUnreachable :: "peer_db \<Rightarrow> string \<Rightarrow> peer_db" where
  "markPeerUnreachable db peerId = fst (applyPeerTransition db peerId
     \<lparr>pt_from = [PActive], pt_expectSecret = None, pt_fields = no_fields, pt_to = ToUnreachable Network_threshold\<rparr>)"

definition handleOutboxDeliveryFailure ::
  "int \<Rightarrow> peer_db \<Rightarrow> string \<Rightarrow> outbox_row list \<Rightarrow> millis \<Rightarrow> peer_db" where
  "handleOutboxDeliveryFailure divisor db peerId entries now =
    (let newFailures = (case peer_get peerId (pd_peers db) of None \<Rightarrow> 0 | Some p \<Rightarrow> pe_consecutiveFailures p) + 1;
         db1 = db\<lparr>pd_outbox := applyOutboxEntryBackoff divisor (pd_outbox db) entries now,
                  pd_peers := tbl_update pe_id peerId
                    (\<lambda>r. r\<lparr>pe_lastFailureAt := Some now, pe_consecutiveFailures := newFailures\<rparr>) (pd_peers db)\<rparr>
     in if newFailures \<ge> PEER_UNREACHABLE_THRESHOLD then markPeerUnreachable db1 peerId else db1)"

text \<open>What one delivery does once its request is over; the rollbacks of the refusals follow.\<close>

definition settleDelivery ::
  "int \<Rightarrow> peer_db \<Rightarrow> string \<Rightarrow> outbox_row list \<Rightarrow> DeliveryOutcome \<Rightarrow> millis \<Rightarrow> peer_db \<times> refusal list" where
  "settleDelivery divisor db peerId batch outcome settledAt = (case outcome of
     Aborted \<Rightarrow> (db, [])
   | Answered result \<Rightarrow> settleAnsweredBatch divisor db peerId batch result settledAt
   | AuthRefused status \<Rightarrow>
       (handleRelayAuthRefusal (db\<lparr>pd_outbox := applyOutboxEntryBackoff divisor (pd_outbox db) batch settledAt\<rparr>)
          peerId settledAt, [])
   | Failed reason \<Rightarrow> (handleOutboxDeliveryFailure divisor db peerId batch settledAt, []))"

section \<open>Pending and unreachable peers\<close>

text \<open>The pending peers a tick starts a handshake for; \<open>attempting\<close> are the origins with one outstanding.\<close>

definition has_mail :: "peer_db \<Rightarrow> string \<Rightarrow> bool" where
  "has_mail db peerId \<longleftrightarrow> list_ex (\<lambda>e. ob_peerId e = peerId) (pd_outbox db)"

definition resolvePendingPeers :: "int \<Rightarrow> instance_state \<Rightarrow> origin list \<Rightarrow> millis \<Rightarrow> origin list" where
  "resolvePendingPeers divisor st attempting now =
    map pe_origin (filter (\<lambda>p. pe_origin p \<notin> set attempting
         \<and> isPeerAttemptDue divisor (pe_probeAttempts p) (pe_lastProbeAt p) True now)
      (filter (\<lambda>p. has_mail (in_peers st) (pe_id p) \<and> pe_status p = ''pending''
         \<and> \<not> list_ex (\<lambda>q. ar_origin q = pe_origin p \<and> ar_direction q = ''inbound'') (in_requests st)) (pd_peers (in_peers st))))"

definition resolvePendingPeer ::
  "instance_state \<Rightarrow> origin \<Rightarrow> string \<Rightarrow> (nat \<Rightarrow> string) \<Rightarrow> millis \<Rightarrow> instance_state \<times> EnsureStep option" where
  "resolvePendingPeer st peerOrigin secret fresh now =
    (if isHandshakeInFlight st peerOrigin then (st, None)
     else (case ensurePeered st peerOrigin (Some peerOrigin) SystemIntent secret fresh now of (st1, r) \<Rightarrow> (st1, Some r)))"

text \<open>The unreachable peers a recovery tick probes, and what the probe of one does.\<close>

definition recovery_candidates :: "int \<Rightarrow> peer_db \<Rightarrow> millis \<Rightarrow> peer_row list" where
  "recovery_candidates divisor db now = filter (\<lambda>p. pe_status p = ''unreachable''
     \<and> isPeerAttemptDue divisor (pe_probeAttempts p) (pe_lastProbeAt p) (has_mail db (pe_id p)) now) (pd_peers db)"

definition recoveryProbed :: "instance_state \<Rightarrow> peer_row \<Rightarrow> ProbeResult \<Rightarrow> string \<Rightarrow> millis \<Rightarrow> millis \<Rightarrow> instance_state" where
  "recoveryProbed st peer probe domain now probedAt =
    (if pr_reachable probe then fst (recoverOrDetectReset st peer probe domain probedAt)
     else st\<lparr>in_peers := fst (recordPeerAttempt (in_peers st) (pe_id peer) [PUnreachable] now)\<rparr>)"

section \<open>Pacing is bounded\<close>

lemma retryWait_mono: "1 \<le> d \<Longrightarrow> a \<le> b \<Longrightarrow> retryWait d a \<le> retryWait d b"
  by (simp add: retryWait_def zdiv_mono1)

lemma retryWait_bounds: "1 \<le> d \<Longrightarrow> 1 \<le> ms \<Longrightarrow> 1 \<le> retryWait d ms \<and> retryWait d ms \<le> ms"
proof -
  assume d: "1 \<le> d" and ms: "1 \<le> ms"
  have "(- ms) div d < 0" using div_neg_pos_less0[of "- ms" d] d ms by simp
  moreover have "(- ms) div 1 \<le> (- ms) div d" using d ms by (intro zdiv_mono2_neg) auto
  ultimately show ?thesis by (simp add: retryWait_def)
qed

text \<open>The step of the schedule an attempt waits for.\<close>

definition backoff_step :: "int \<Rightarrow> nat" where
  "backoff_step attempt = nat (max 0 (min (attempt - 1) 6))"

lemma schedule_cases:
  assumes "i \<le> 6"
  obtains "i = 0" | "i = 1" | "i = 2" | "i = 3" | "i = 4" | "i = 5" | "i = (6::nat)"
  using assms by linarith

lemma schedule_bounds:
  assumes "i \<le> 6"
  shows "30000 \<le> BACKOFF_SCHEDULE_MS ! i \<and> BACKOFF_SCHEDULE_MS ! i \<le> 86400000"
  using assms by (rule schedule_cases) (simp_all add: BACKOFF_SCHEDULE_MS_def)

lemma schedule_mono: "i \<le> j \<Longrightarrow> j \<le> 6 \<Longrightarrow> BACKOFF_SCHEDULE_MS ! i \<le> BACKOFF_SCHEDULE_MS ! j"
  by (rule sorted_nth_mono) (simp_all add: BACKOFF_SCHEDULE_MS_def)

lemma getBackoffMs_step: "getBackoffMs d n = retryWait d (BACKOFF_SCHEDULE_MS ! backoff_step n)"
  by (simp add: getBackoffMs_def backoff_step_def BACKOFF_SCHEDULE_MS_def Let_def)

lemma recovery_bounds: "i \<le> 3 \<Longrightarrow> 1 \<le> RECOVERY_BACKOFF_MS ! i \<and> RECOVERY_BACKOFF_MS ! i \<le> HEALTH_CHECK_INTERVAL_MS"
  by (cases "i = 0 \<or> i = 1 \<or> i = 2 \<or> i = 3") (auto simp: RECOVERY_BACKOFF_MS_def HEALTH_CHECK_INTERVAL_MS_def)

text \<open>
  Every retry waits, and none waits for long: an outbox row's wait is at least one millisecond and at
  most a day and never shrinks with the attempts, and a peer is tried again after fifteen minutes at the
  latest, mail queued or not.
\<close>

theorem backoff_bounds:
  assumes "1 \<le> d"
  shows "1 \<le> getBackoffMs d n \<and> getBackoffMs d n \<le> 24 * 60 * 60 * 1000 \<and> getBackoffMs d n \<le> getBackoffMs d (n + 1)
    \<and> isPeerAttemptDue d attempts (Some t) mail (t + HEALTH_CHECK_INTERVAL_MS)"
proof (intro conjI)
  have i: "backoff_step m \<le> 6" for m by (simp add: backoff_step_def)
  have w: "1 \<le> getBackoffMs d n \<and> getBackoffMs d n \<le> BACKOFF_SCHEDULE_MS ! backoff_step n"
    using retryWait_bounds[OF assms] schedule_bounds[OF i[of n]] by (simp add: getBackoffMs_step)
  show "1 \<le> getBackoffMs d n" using w by simp
  show "getBackoffMs d n \<le> 24 * 60 * 60 * 1000" using w schedule_bounds[OF i[of n]] by simp
  have "backoff_step n \<le> backoff_step (n + 1)" by (simp add: backoff_step_def)
  then show "getBackoffMs d n \<le> getBackoffMs d (n + 1)"
    using retryWait_mono[OF assms] schedule_mono i by (simp add: getBackoffMs_step)
  let ?step = "nat (min (max (attempts - 1) 0) 3)"
  have "?step \<le> 3" by simp
  then have "retryWait d (RECOVERY_BACKOFF_MS ! ?step) \<le> HEALTH_CHECK_INTERVAL_MS"
    using retryWait_bounds[OF assms, of "RECOVERY_BACKOFF_MS ! ?step"] recovery_bounds[of ?step] by linarith
  then show "isPeerAttemptDue d attempts (Some t) mail (t + HEALTH_CHECK_INTERVAL_MS)"
    by (simp add: isPeerAttemptDue_def Let_def RECOVERY_BACKOFF_MS_def)
qed

lemma backoff_bounds_witness:
  "1 \<le> getBackoffMs 7 3 \<and> getBackoffMs 7 3 \<le> 24 * 60 * 60 * 1000 \<and> getBackoffMs 7 3 \<le> getBackoffMs 7 (3 + 1)
    \<and> isPeerAttemptDue 7 2 (Some 5) True (5 + HEALTH_CHECK_INTERVAL_MS)"
  by (rule backoff_bounds) simp

section \<open>Settling a batch\<close>

definition settled_away :: "relay_response \<Rightarrow> string \<Rightarrow> outbox_row list \<Rightarrow> outbox_row \<Rightarrow> bool" where
  "settled_away result peerId batch r \<longleftrightarrow> list_ex (\<lambda>e. (ob_id r = ob_id e \<and> verdict_of result e \<noteq> Retry_later)
     \<or> (verdict_of result e = Refused_for_good \<and> ob_eventType e = ''create'' \<and> ob_queueKey e \<noteq> None
        \<and> ob_peerId r = peerId \<and> ob_queueKey r = ob_queueKey e)) batch"

lemma ends_queue_iff [simp]: "refusalEndsOutboxQueue e \<longleftrightarrow> e = ''create''"
  by (auto simp: refusalEndsOutboxQueue_def event_of_text_def event_names_def)

lemma settle_loop:
  "foldl (settle_entry result peerId) (rows, retry, refusals) batch =
    (filter (\<lambda>r. \<not> settled_away result peerId batch r) rows,
     retry @ filter (\<lambda>e. verdict_of result e = Retry_later) batch,
     refusals @ map (\<lambda>e. (ob_entityId e, the (map_of (rev (rr_rejected result)) (units_of (ob_entityId e))), ob_eventType e))
       (filter (\<lambda>e. verdict_of result e = Refused_for_good) batch))"
proof (induction batch arbitrary: rows retry refusals)
  case (Cons e batch)
  show ?case
  proof (cases "verdict_of result e")
    case Taken
    then show ?thesis by (simp add: Cons.IH settled_away_def)
  next
    case Refused_for_good
    then show ?thesis by (auto simp: Cons.IH settled_away_def Let_def intro!: filter_cong)
  next
    case Retry_later
    then show ?thesis by (simp add: Cons.IH settled_away_def)
  qed
qed (simp add: settled_away_def)

lemma backoff_loop:
  assumes "distinct (map ob_id entries)"
  shows "applyOutboxEntryBackoff d rows entries now =
    map (\<lambda>r. case tbl_get ob_id (ob_id r) entries of None \<Rightarrow> r | Some e \<Rightarrow> bumped d now e r) rows"
  using assms
proof (induction entries arbitrary: rows)
  case (Cons e entries)
  have none: "tbl_get ob_id (ob_id e) entries = None" using Cons.prems by (simp add: tbl_get_None_iff)
  show ?case
    using Cons none by (auto simp: applyOutboxEntryBackoff_def bumped_def comp_def split: option.split intro!: map_cong)
qed (simp add: applyOutboxEntryBackoff_def)

text \<open>
  Settling an answered batch does to the table exactly what the answer says: the rows the peer took or
  refused for good are gone, with everything queued behind a refused create; every other row of the batch
  moves to the next step of its backoff; no other row changes. The refusals handed to the rollbacks are
  the rows refused for good, once each, in batch order.
\<close>

theorem settle_exact:
  assumes "distinct (map ob_id batch)"
  shows "pd_outbox (fst (settleAnsweredBatch d db peerId batch result now)) =
      map (\<lambda>r. case tbl_get ob_id (ob_id r) batch of None \<Rightarrow> r | Some e \<Rightarrow> bumped d now e r)
        (filter (\<lambda>r. \<not> settled_away result peerId batch r) (pd_outbox db))
    \<and> map fst (snd (settleAnsweredBatch d db peerId batch result now)) =
      map ob_entityId (filter (\<lambda>e. verdict_of result e = Refused_for_good) batch)"
proof -
  let ?retry = "filter (\<lambda>e. verdict_of result e = Retry_later) batch"
  have "(case tbl_get ob_id (ob_id r) ?retry of None \<Rightarrow> r | Some e \<Rightarrow> bumped d now e r)
      = (case tbl_get ob_id (ob_id r) batch of None \<Rightarrow> r | Some e \<Rightarrow> bumped d now e r)"
    if "\<not> settled_away result peerId batch r" for r
  proof -
    have "tbl_get ob_id (ob_id r) ?retry = tbl_get ob_id (ob_id r) batch"
      using that assms by (induction batch) (auto simp: settled_away_def tbl_get_None_iff)
    then show ?thesis by simp
  qed
  moreover have "distinct (map ob_id ?retry)" using assms by (simp add: distinct_map_filter)
  ultimately show ?thesis
    by (simp add: settleAnsweredBatch_def settle_loop backoff_loop comp_def)
qed

section \<open>One event of an entity at a time\<close>

lemma one_per_wire_id_sub: "set (one_per_wire_id seen es) \<subseteq> set es"
  by (induction seen es rule: one_per_wire_id.induct) auto

lemma one_per_wire_id_distinct:
  "distinct (map ob_entityId (one_per_wire_id seen es)) \<and> set (map ob_entityId (one_per_wire_id seen es)) \<inter> set seen = {}"
  by (induction seen es rule: one_per_wire_id.induct) auto

lemma take_batch_rows:
  "set (snd (takeOutboxBatch db ids now)) \<subseteq> {r \<in> set (pd_outbox db). ob_id r \<in> set ids}"
  using one_per_wire_id_sub by (fastforce simp: takeOutboxBatch_def Let_def)

lemma take_batch_wire_ids: "distinct (map ob_entityId (snd (takeOutboxBatch db ids now)))"
  using one_per_wire_id_distinct by (simp add: takeOutboxBatch_def Let_def)

lemma same_id: "distinct (map ob_id rows) \<Longrightarrow> r \<in> set rows \<Longrightarrow> q \<in> set rows \<Longrightarrow> ob_id r = ob_id q \<Longrightarrow> r = q"
  by (metis distinct_map inj_onD)

lemma offered_member:
  "r \<in> set rows \<Longrightarrow> r \<in> set batch \<Longrightarrow> offer t r \<in> set (markOutboxOffered rows (map ob_id batch) t)"
  by (force simp: markOutboxOffered_def)

lemma due_sub: "set (due_entries db now) \<subseteq> {r \<in> set (pd_outbox db). ob_nextRetryAt r \<le> now
    \<and> peer_active db (ob_peerId r) \<and> isOutboxQueueHead (pd_outbox db) r}"
  unfolding due_entries_def by (auto dest: in_set_takeD)

text \<open>
  A batch holds at most fifty rows, all due, of active peers and already in the table, never two of
  one entity and never two that the answer could not tell apart; and when the request goes out each of
  them is marked as offered.
\<close>

theorem batch_one_per_queue:
  assumes "distinct (map ob_id (pd_outbox db))" and "set ids \<subseteq> ob_id ` set (due_entries db now)"
  shows "distinct (map ob_entityId (snd (takeOutboxBatch db ids t)))
    \<and> set (snd (takeOutboxBatch db ids t)) \<subseteq> set (due_entries db now)
    \<and> length (due_entries db now) \<le> 50
    \<and> inj_on (\<lambda>r. (ob_peerId r, ob_queueKey r)) {r \<in> set (snd (takeOutboxBatch db ids t)). ob_queueKey r \<noteq> None}
    \<and> ob_id ` {r \<in> set (pd_outbox (fst (takeOutboxBatch db ids t))). ob_offeredAt r \<noteq> None}
       \<supseteq> ob_id ` set (snd (takeOutboxBatch db ids t))"
proof (intro conjI)
  let ?batch = "snd (takeOutboxBatch db ids t)"
  note D = due_sub[of db now] and B = take_batch_rows[of db ids t]
  show "distinct (map ob_entityId ?batch)" by (rule take_batch_wire_ids)
  show sub: "set ?batch \<subseteq> set (due_entries db now)"
  proof
    fix r assume r: "r \<in> set ?batch"
    then have r': "r \<in> set (pd_outbox db)" "ob_id r \<in> set ids" using B by auto
    then obtain q where "q \<in> set (due_entries db now)" "ob_id q = ob_id r" using assms(2) by force
    then show "r \<in> set (due_entries db now)" using same_id[OF assms(1)] D r' by (metis (no_types, lifting) mem_Collect_eq subsetD)
  qed
  show "length (due_entries db now) \<le> 50" by (simp add: due_entries_def OUTBOX_BATCH_LIMIT_def)
  show "inj_on (\<lambda>r. (ob_peerId r, ob_queueKey r)) {r \<in> set ?batch. ob_queueKey r \<noteq> None}"
  proof (rule inj_onI)
    fix r q
    assume "r \<in> {r \<in> set ?batch. ob_queueKey r \<noteq> None}" "q \<in> {r \<in> set ?batch. ob_queueKey r \<noteq> None}"
      "(ob_peerId r, ob_queueKey r) = (ob_peerId q, ob_queueKey q)"
    then obtain k where h: "r \<in> set ?batch" "q \<in> set ?batch" "ob_peerId r = ob_peerId q"
      "ob_queueKey r = Some k" "ob_queueKey q = Some k" by auto
    have "x = hd (queue_rows (ob_peerId q) k (pd_outbox db))" if "x \<in> {r, q}" for x
    proof -
      have "x \<in> set (pd_outbox db)" "isOutboxQueueHead (pd_outbox db) x" using that h(1,2) sub D by blast+
      moreover have "in_queue (ob_peerId q) k x" using that h by (auto simp: in_queue_def)
      ultimately show ?thesis using head_iff[OF assms(1)] by blast
    qed
    then show "r = q" by (metis insertI1 insertI2)
  qed
  show "ob_id ` set ?batch \<subseteq> ob_id ` {r \<in> set (pd_outbox (fst (takeOutboxBatch db ids t))). ob_offeredAt r \<noteq> None}"
  proof (rule image_subsetI)
    fix r assume r: "r \<in> set ?batch"
    have rows: "pd_outbox (fst (takeOutboxBatch db ids t)) = markOutboxOffered (pd_outbox db) (map ob_id ?batch) t"
      by (simp add: takeOutboxBatch_def Let_def)
    have "r \<in> set (pd_outbox db)" using r B by auto
    then have "offer t r \<in> set (pd_outbox (fst (takeOutboxBatch db ids t)))" unfolding rows using r by (rule offered_member)
    moreover have "ob_offeredAt (offer t r) \<noteq> None" "ob_id (offer t r) = ob_id r" by (simp_all add: offer_def)
    ultimately show "ob_id r \<in> ob_id ` {r \<in> set (pd_outbox (fst (takeOutboxBatch db ids t))). ob_offeredAt r \<noteq> None}"
      by (metis (mono_tags, lifting) imageI mem_Collect_eq)
  qed
qed

section \<open>Thresholds\<close>

text \<open>A failed delivery: what came of it, the batch that was sent, and when.\<close>

definition deliveries :: "int \<Rightarrow> string \<Rightarrow> peer_db \<Rightarrow> (DeliveryOutcome \<times> outbox_row list \<times> millis) list \<Rightarrow> peer_db" where
  "deliveries d p db fs = foldl (\<lambda>db (out, batch, t). fst (settleDelivery d db p batch out t)) db fs"

definition status_in :: "peer_db \<Rightarrow> string \<Rightarrow> string option" where
  "status_in db p = map_option pe_status (peer_get p (pd_peers db))"

lemma peer_get_outbox [simp]: "pd_peers (db\<lparr>pd_outbox := x\<rparr>) = pd_peers db"
  by simp

lemma peer_get_update:
  "(\<And>r. pe_id (f r) = pe_id r) \<Longrightarrow> peer_get p (tbl_update pe_id p f peers) = map_option f (peer_get p peers)"
  by (simp add: peer_get_def table_simps)

lemma ids_ok_update: "(\<And>r. pe_id (f r) = pe_id r) \<Longrightarrow> pd_peers db' = tbl_update pe_id p f (pd_peers db) \<Longrightarrow> ids_ok db' = ids_ok db"
  by (simp add: ids_ok_def table_simps)

text \<open>A transition of an active row away from active, and one that finds the row elsewhere.\<close>

lemma leave_active:
  assumes "ids_ok db" and "peer_get p (pd_peers db) = Some r" and "pe_status r = ''active''"
    and "pt_from t = [PActive]" and "pt_expectSecret t = None"
  shows "peer_get p (pd_peers (fst (applyPeerTransition db p t))) = Some (transition_row t PActive r)
    \<and> ids_ok (fst (applyPeerTransition db p t))"
proof -
  have "transition_hits db p t r PActive" using assms by (simp add: transition_hits_def secret_ok_def)
  then have "fst (applyPeerTransition db p t) = transitioned db p t PActive" using apply_hit[OF assms(1)] by simp
  then show ?thesis using assms(1,2) by (simp add: transitioned_def peer_get_update ids_ok_def table_simps)
qed

lemma not_active_stays:
  assumes "ids_ok db" and "peer_get p (pd_peers db) = Some r" and "pe_status r \<noteq> ''active''" and "pt_from t = [PActive]"
  shows "fst (applyPeerTransition db p t) = db"
proof -
  have "\<not> transition_hits db p t q s" for q s using assms by (auto simp: transition_hits_def)
  then show ?thesis using apply_miss[OF assms(1)] by simp
qed

text \<open>The counter and the status of a peer after refusals by its authentication.\<close>

definition auth_state :: "string \<Rightarrow> nat \<Rightarrow> peer_db \<Rightarrow> bool" where
  "auth_state p k db \<longleftrightarrow> ids_ok db \<and> (\<exists>r. peer_get p (pd_peers db) = Some r \<and>
     (if k < 5 then pe_status r = ''active'' \<and> pe_consecutiveAuthFailures r = int k
      else pe_status r = ''needs_attention'' \<and> pe_consecutiveAuthFailures r \<ge> 5))"

lemma auth_state_step:
  assumes "auth_state p k db"
  shows "auth_state p (Suc k) (fst (settleDelivery d db p batch (AuthRefused s) t))"
proof -
  obtain r where r: "peer_get p (pd_peers db) = Some r" and ids: "ids_ok db"
    and st: "if k < 5 then pe_status r = ''active'' \<and> pe_consecutiveAuthFailures r = int k
      else pe_status r = ''needs_attention'' \<and> pe_consecutiveAuthFailures r \<ge> 5"
    using assms by (auto simp: auth_state_def)
  define db1 where "db1 = db\<lparr>pd_outbox := applyOutboxEntryBackoff d (pd_outbox db) batch t\<rparr>"
  have db1: "peer_get p (pd_peers db1) = Some r" "ids_ok db1" using r ids by (simp_all add: db1_def ids_ok_def)
  have step: "fst (settleDelivery d db p batch (AuthRefused s) t) = handleRelayAuthRefusal db1 p t"
    by (simp add: settleDelivery_def db1_def)
  consider "k < 4" | "k = 4" | "k > 4" by linarith
  then show ?thesis
  proof cases
    case 1
    then show ?thesis using db1 st
      by (simp add: step handleRelayAuthRefusal_def evaluateAuthFailure_def AUTH_FAILURE_THRESHOLD_def Let_def auth_state_def
          peer_get_update ids_ok_def table_simps)
  next
    case 2
    then show ?thesis using st
      by (auto simp: step handleRelayAuthRefusal_def evaluateAuthFailure_def AUTH_FAILURE_THRESHOLD_def Let_def auth_state_def
          db1 leave_active[OF db1(2,1)] transition_row_def set_fields_def given_def no_fields_def fresh_pacing_def PACED_STATUSES_def)
  next
    case 3
    then show ?thesis using st
      by (auto simp: step handleRelayAuthRefusal_def evaluateAuthFailure_def AUTH_FAILURE_THRESHOLD_def Let_def auth_state_def
          db1 not_active_stays[OF db1(2,1)])
  qed
qed

definition network_state :: "string \<Rightarrow> nat \<Rightarrow> peer_db \<Rightarrow> bool" where
  "network_state p k db \<longleftrightarrow> ids_ok db \<and> (\<exists>r. peer_get p (pd_peers db) = Some r \<and> pe_consecutiveFailures r = int k
     \<and> pe_status r = (if k < 10 then ''active'' else ''unreachable''))"

lemma network_state_step:
  assumes "network_state p k db"
  shows "network_state p (Suc k) (fst (settleDelivery d db p batch (Failed s) t))"
proof -
  obtain r where r: "peer_get p (pd_peers db) = Some r" and ids: "ids_ok db" and n: "pe_consecutiveFailures r = int k"
    and st: "pe_status r = (if k < 10 then ''active'' else ''unreachable'')"
    using assms by (auto simp: network_state_def)
  define r1 where "r1 = r\<lparr>pe_lastFailureAt := Some t, pe_consecutiveFailures := int k + 1\<rparr>"
  define db1 where "db1 = db\<lparr>pd_outbox := applyOutboxEntryBackoff d (pd_outbox db) batch t,
      pd_peers := tbl_update pe_id p (\<lambda>r. r\<lparr>pe_lastFailureAt := Some t, pe_consecutiveFailures := int k + 1\<rparr>) (pd_peers db)\<rparr>"
  have db1: "peer_get p (pd_peers db1) = Some r1" "ids_ok db1"
    using r ids by (simp_all add: db1_def r1_def peer_get_update ids_ok_def table_simps)
  have r1: "pe_status r1 = pe_status r" "pe_consecutiveFailures r1 = int (Suc k)" by (simp_all add: r1_def)
  have step: "fst (settleDelivery d db p batch (Failed s) t) = (if k \<ge> 9 then markPeerUnreachable db1 p else db1)"
    by (simp add: settleDelivery_def handleOutboxDeliveryFailure_def r n PEER_UNREACHABLE_THRESHOLD_def db1_def Let_def)
  consider "k < 9" | "k = 9" | "k > 9" by linarith
  then show ?thesis
  proof cases
    case 1
    then show ?thesis using db1 r1 st by (simp add: step network_state_def)
  next
    case 2
    then show ?thesis using st r1
      by (auto simp: step markPeerUnreachable_def network_state_def db1 leave_active[OF db1(2,1)] transition_row_def
          set_fields_def given_def no_fields_def fresh_pacing_def PACED_STATUSES_def)
  next
    case 3
    then show ?thesis using st r1
      by (auto simp: step markPeerUnreachable_def network_state_def db1 not_active_stays[OF db1(2,1)])
  qed
qed

lemma auth_run:
  "auth_state p k db \<Longrightarrow> auth_state p (k + length fs) (deliveries d p db (map (\<lambda>(s, b, t). (AuthRefused s, b, t)) fs))"
proof (induction fs arbitrary: db k)
  case (Cons f fs)
  obtain s b t where f: "f = (s, b, t)" by (cases f)
  show ?case using Cons.IH[OF auth_state_step[OF Cons.prems]] by (simp add: f deliveries_def)
qed (simp add: deliveries_def)

lemma network_run:
  "network_state p k db \<Longrightarrow> network_state p (k + length fs) (deliveries d p db (map (\<lambda>(s, b, t). (Failed s, b, t)) fs))"
proof (induction fs arbitrary: db k)
  case (Cons f fs)
  obtain s b t where f: "f = (s, b, t)" by (cases f)
  show ?case using Cons.IH[OF network_state_step[OF Cons.prems]] by (simp add: f deliveries_def)
qed (simp add: deliveries_def)

text \<open>
  An active peer stops being delivered to exactly at its fifth refusal in a row (it needs attention
  then) and at its tenth failure in a row (it is unreachable then). Each delivery counts, whatever rows
  it carried and however soon it follows the last: the count is not paced by the rows' backoff.
\<close>

theorem failure_thresholds:
  assumes "ids_ok db" and "peer_get p (pd_peers db) = Some r" and "pe_status r = ''active''"
    and "pe_consecutiveAuthFailures r = 0" and "pe_consecutiveFailures r = 0"
  shows "status_in (deliveries d p db (map (\<lambda>(s, b, t). (AuthRefused s, b, t)) refusals)) p =
      Some (if length refusals < 5 then ''active'' else ''needs_attention'')
    \<and> status_in (deliveries d p db (map (\<lambda>(s, b, t). (Failed s, b, t)) failures)) p =
      Some (if length failures < 10 then ''active'' else ''unreachable'')"
proof -
  have "auth_state p 0 db" "network_state p 0 db" using assms by (auto simp: auth_state_def network_state_def)
  then have "auth_state p (length refusals) (deliveries d p db (map (\<lambda>(s, b, t). (AuthRefused s, b, t)) refusals))"
    "network_state p (length failures) (deliveries d p db (map (\<lambda>(s, b, t). (Failed s, b, t)) failures))"
    using auth_run[of p 0] network_run[of p 0] by auto
  then show ?thesis by (auto simp: auth_state_def network_state_def status_in_def split: if_splits)
qed

section \<open>Examples\<close>

definition example_peer :: "string \<Rightarrow> string \<Rightarrow> peer_row" where
  "example_peer i secret = new_peer_row \<lparr>np_origin = ''https://b'', np_hmacSecret = secret, np_initiatedBy = ''admin'',
     np_instanceName = None, np_peerInstanceId = None, np_lastSeenAt = None, np_status = NewActive Accept_new\<rparr> i 1"

definition example_db :: peer_db where
  "example_db = \<lparr>pd_peers = [example_peer ''p'' ''k''], pd_outbox = sample_rows\<rparr>"

lemma example_get: "peer_get ''p'' (pd_peers example_db) = Some (example_peer ''p'' ''k'')"
  by (simp add: example_db_def peer_get_def example_peer_def new_peer_row_def)

lemma failure_thresholds_witness:
  "status_in (deliveries 1 ''p'' example_db (map (\<lambda>(s, b, t). (AuthRefused s, b, t)) (replicate 4 (401, [], 7)))) ''p''
      = Some ''active''
   \<and> status_in (deliveries 1 ''p'' example_db (map (\<lambda>(s, b, t). (Failed s, b, t)) (replicate 10 (''x'', [], 7)))) ''p''
      = Some ''unreachable''"
  using failure_thresholds[OF _ example_get, where d = 1 and refusals = "replicate 4 (401, [], 7)"
      and failures = "replicate 10 (''x'', [], 7)"]
  by (simp add: ids_ok_def example_db_def example_peer_def new_peer_row_def)

lemma settle_exact_witness:
  "pd_outbox (fst (settleAnsweredBatch 1 example_db ''p'' [sample_row ''1'' ''create'' 10 None]
      \<lparr>rr_accepted = [], rr_rejected = [(units_of ''m'', units_of ''recipient_not_found'')], rr_maxUploadSize = None\<rparr> 50)) = []"
proof -
  let ?b = "[sample_row ''1'' ''create'' 10 None]"
  let ?res = "\<lparr>rr_accepted = [], rr_rejected = [(units_of ''m'', units_of ''recipient_not_found'')], rr_maxUploadSize = None\<rparr>"
  have "classifyRejection (Some ''create'') (units_of ''recipient_not_found'') = Refused_for_good" by code_simp
  then have "verdict_of ?res (sample_row ''1'' ''create'' 10 None) = Refused_for_good"
    by (simp add: verdict_of_def sample_row_def)
  then have "settled_away ?res ''p'' ?b r" if "r \<in> set sample_rows" for r
    using that by (auto simp: settled_away_def sample_rows_def sample_row_def)
  then have "filter (\<lambda>r. \<not> settled_away ?res ''p'' ?b r) (pd_outbox example_db) = []"
    by (simp add: example_db_def filter_empty_conv)
  then show ?thesis using settle_exact[of ?b 1 example_db "''p''" ?res 50] by simp
qed

lemma batch_one_per_queue_witness:
  "distinct (map ob_entityId (snd (takeOutboxBatch example_db [''1''] 60)))
   \<and> set (snd (takeOutboxBatch example_db [''1''] 60)) \<subseteq> set (due_entries example_db 50)"
proof -
  have rows: "distinct (map ob_id (pd_outbox example_db))"
    by (simp add: example_db_def sample_rows_def sample_row_def)
  have h: "hd (queue_rows ''p'' (units_of ''message:m'') (pd_outbox example_db)) = sample_row ''1'' ''create'' 10 (Some 15)"
    by (simp add: example_db_def sample_queue)
  have "sample_row ''1'' ''create'' 10 (Some 15) \<in> set (pd_outbox example_db)"
    by (simp add: example_db_def sample_rows_def)
  moreover from this have "isOutboxQueueHead (pd_outbox example_db) (sample_row ''1'' ''create'' 10 (Some 15))"
    using head_iff[OF rows, of _ "''p''" "units_of ''message:m''"] h by (simp add: in_queue_def sample_row_def)
  moreover have "peer_active example_db ''p''"
    by (simp add: peer_active_def example_get) (simp add: example_peer_def new_peer_row_def)
  ultimately have "sample_row ''1'' ''create'' 10 (Some 15) \<in> set (filter (\<lambda>r. ob_nextRetryAt r \<le> 50
      \<and> peer_active example_db (ob_peerId r) \<and> isOutboxQueueHead (pd_outbox example_db) r) (pd_outbox example_db))"
    by (simp add: sample_row_def)
  moreover have "length (pd_outbox example_db) = 2" by (simp add: example_db_def sample_rows_def)
  then have "due_entries example_db 50 = sort_key row_order (filter (\<lambda>r. ob_nextRetryAt r \<le> 50
      \<and> peer_active example_db (ob_peerId r) \<and> isOutboxQueueHead (pd_outbox example_db) r) (pd_outbox example_db))"
    unfolding due_entries_def OUTBOX_BATCH_LIMIT_def
    by (intro take_all) (simp add: le_trans[OF length_filter_le])
  ultimately have "sample_row ''1'' ''create'' 10 (Some 15) \<in> set (due_entries example_db 50)" by simp
  then have "set [''1''] \<subseteq> ob_id ` set (due_entries example_db 50)" by (force simp: sample_row_def)
  from batch_one_per_queue[OF rows this, of 60] show ?thesis by simp
qed

end
