(* ===== verification/OutboxDelivery.thy ===== *)
theory OutboxDelivery
  imports OutboxWorker
begin

text \<open>
  What the folding of a DM message's queue promises. The receiver is the part of
  \<open>processCreateEvent\<close>, \<open>processUpdateEvent\<close> and \<open>processDeleteEvent\<close>
  (\<open>server/routes/federation/events/dmMessages.ts\<close>) that decides what its copy of one message becomes: not
  held, held with a content and the time of its last edit, or a delete tombstone that answers every later create;
  an edit not newer than the one held is dropped. The author's instance writes the message's events into the outbox, the
  worker sends queue heads and settles them by the answer, the peer pulls the log. The network keeps
  everything that was ever put on it: it may lose, delay, reorder and repeat. The peer may refuse any event, and rows expire.

  Content is the sender's text: the rewriting of mention tokens into local ids is left out, and so are edits of the
  message from another instance than the one it was written on.
\<close>

section \<open>The peer's copy\<close>

datatype peer_copy = NotHeld | Held "json option" "millis option" | Tombstone

text \<open>What the handlers read of an event; the relay and the pull send the same message part.\<close>

record relayed =
  rv_kind :: string
  rv_content :: "json option"
  rv_editedAt :: "millis option"

definition message_part :: "string \<Rightarrow> string \<Rightarrow> json option" where
  "message_part payload k = (case json_parse payload of
     None \<Rightarrow> None
   | Some p \<Rightarrow> (case json_get p ''message'' of
       None \<Rightarrow> None
     | Some msg \<Rightarrow> (case json_get msg k of Some JNull \<Rightarrow> None | v \<Rightarrow> v)))"

definition sent_content :: "string \<Rightarrow> json option" where
  "sent_content payload = message_part payload ''content''"

definition edited_of :: "(string \<Rightarrow> int option) \<Rightarrow> string \<Rightarrow> millis option" where
  "edited_of num_of payload = (case message_part payload ''editedAt'' of Some (JNum n) \<Rightarrow> num_of n | _ \<Rightarrow> None)"

definition relayed_of :: "(string \<Rightarrow> int option) \<Rightarrow> outbox_row \<Rightarrow> relayed" where
  "relayed_of num_of r = \<lparr>rv_kind = ob_eventType r, rv_content = sent_content (ob_payload r),
     rv_editedAt = edited_of num_of (ob_payload r)\<rparr>"

datatype event_reply = Took | TurnedDown units

text \<open>
  The handlers. \<open>refusal\<close> is what their other checks give (payload, participants, attribution, conversation, author):
  the reason of a rejection, or \<open>None\<close>.
\<close>

definition create_received :: "units option \<Rightarrow> relayed \<Rightarrow> peer_copy \<Rightarrow> peer_copy \<times> event_reply" where
  "create_received refusal e c = (case refusal of
     Some reason \<Rightarrow> (c, TurnedDown reason)
   | None \<Rightarrow> (case c of
       NotHeld \<Rightarrow> (Held (rv_content e) None, Took)
     | _ \<Rightarrow> (c, TurnedDown (units_of ''duplicate''))))"

definition update_received :: "units option \<Rightarrow> millis \<Rightarrow> relayed \<Rightarrow> peer_copy \<Rightarrow> peer_copy \<times> event_reply" where
  "update_received refusal now e c = (case refusal of
     Some reason \<Rightarrow> (c, TurnedDown reason)
   | None \<Rightarrow> (case c of
       Held content editedAt \<Rightarrow>
         (let alreadyHeld = (case rv_editedAt e of
                Some incoming \<Rightarrow> (case editedAt of None \<Rightarrow> False | Some at \<Rightarrow> incoming \<le> at)
              | None \<Rightarrow> rv_content e = content)
          in if alreadyHeld then (c, Took) else (Held (rv_content e) (Some (given (rv_editedAt e) now)), Took))
     | _ \<Rightarrow> (c, TurnedDown (units_of ''unknown_message''))))"

definition delete_received :: "units option \<Rightarrow> peer_copy \<Rightarrow> peer_copy \<times> event_reply" where
  "delete_received refusal c = (case refusal of Some reason \<Rightarrow> (c, TurnedDown reason) | None \<Rightarrow> (Tombstone, Took))"

definition receive :: "units option \<Rightarrow> millis \<Rightarrow> relayed \<Rightarrow> peer_copy \<Rightarrow> peer_copy \<times> event_reply" where
  "receive refusal now e c =
    (if rv_kind e = ''create'' then create_received refusal e c
     else if rv_kind e = ''update'' then update_received refusal now e c
     else if rv_kind e = ''delete'' then delete_received refusal c
     else (c, TurnedDown (units_of ''unknown_event_type'')))"




section \<open>Steps\<close>













section \<open>The shapes of a queue\<close>

definition is_create :: "outbox_row \<Rightarrow> bool" where "is_create r \<longleftrightarrow> ob_eventType r = ''create''"
definition is_update :: "outbox_row \<Rightarrow> bool" where "is_update r \<longleftrightarrow> ob_eventType r = ''update''"
definition is_delete :: "outbox_row \<Rightarrow> bool" where "is_delete r \<longleftrightarrow> ob_eventType r = ''delete''"

definition unoffered :: "outbox_row \<Rightarrow> bool" where "unoffered r \<longleftrightarrow> ob_offeredAt r = None"










lemma kinds [simp]:
  "is_create r \<Longrightarrow> \<not> is_update r" "is_create r \<Longrightarrow> \<not> is_delete r" "is_update r \<Longrightarrow> \<not> is_delete r"
  by (simp_all add: is_create_def is_update_def is_delete_def)

lemma relayed_kind [simp]:
  "rv_kind (relayed_of n r) = ob_eventType r" "rv_content (relayed_of n r) = sent_content (ob_payload r)"
  "rv_editedAt (relayed_of n r) = edited_of n (ob_payload r)"
  by (simp_all add: relayed_of_def)






section \<open>What the peer answers\<close>





lemma receive_refused [simp]: "receive (Some reason) now w c = (c, TurnedDown (if rv_kind w \<in> {''create'', ''update'', ''delete''} then reason else units_of ''unknown_event_type''))"
  by (simp add: receive_def create_received_def update_received_def delete_received_def)

lemma receive_tombstone [simp]: "fst (receive None now w Tombstone) = Tombstone"
  by (simp add: receive_def create_received_def update_received_def delete_received_def)





section \<open>What the steps do to a shape\<close>





















section \<open>The invariant holds\<close>










lemma offered_offer [simp]: "\<not> unoffered (offer now r)"
  by (simp add: offer_def unoffered_def)













text \<open>
  The stamp of an edit is the clock of the author's instance, which two edits of one millisecond share and which may step
  back: the peer answers such an edit with success and keeps the older content.
\<close>

lemma old_stamp_is_dropped:
  "incoming \<le> at \<Longrightarrow> receive None now \<lparr>rv_kind = ''update'', rv_content = p, rv_editedAt = Some incoming\<rparr> (Held x (Some at))
    = (Held x (Some at), Took)"
  by (simp add: receive_def update_received_def)

section \<open>Example\<close>












end
