(* ===== verification/PeeringSafety.thy ===== *)
theory PeeringSafety
  imports Peering
begin

text \<open>
  What peering guarantees: every operation of \<open>Peering\<close> keeps the invariant of the peer table, who can make
  a row active, and what an unauthenticated handshake can and cannot change. The runs of an instance are in
  \<open>PeerTable\<close>.
\<close>

section \<open>Every operation keeps the peer table healthy\<close>

lemma peers_ok_applied: "applyPeerTransition db i t = (db', r) \<Longrightarrow> peers_ok db \<Longrightarrow> peers_ok db'"
  using peers_ok_transition[of db i t] by simp

lemma peers_ok_removed: "removePeer db i fs u = (db', r) \<Longrightarrow> peers_ok db \<Longrightarrow> peers_ok db'"
  using peers_ok_remove[of db i fs u] by simp

lemma peers_ok_inserted: "insertPeer db v i now = Some (db', row, e) \<Longrightarrow> peers_ok db \<Longrightarrow> i \<notin> pe_id ` set (pd_peers db) \<Longrightarrow> peers_ok db'"
  by (rule peers_ok_insert)

lemmas peers_ok_dests = peers_ok_applied peers_ok_removed peers_ok_inserted

lemma removePeer_ids: "removePeer db i fs u = (db', r) \<Longrightarrow> pe_id ` set (pd_peers db') \<subseteq> pe_id ` set (pd_peers db)"
  by (auto simp: removePeer_def Let_def split: option.split_asm if_split_asm)

lemma peers_ok_attempt_pending [preserved]:
  "peers_ok db \<Longrightarrow> peers_ok (fst (recordPeerAttempt db i [PPending] now))"
  "peers_ok db \<Longrightarrow> peers_ok (fst (recordPeerAttempt db i [PUnreachable] now))"
  by (rule peers_ok_attempt; simp)+

lemma settle_with_ok [preserved]: "peers_ok db \<Longrightarrow> peers_ok (fst (settle_with db opts f target out err))"
  by (auto simp: settle_with_def split: prod.split TransitionResult.split dest: peers_ok_applied)

lemma activateVerified_ok [preserved]: "peers_ok db \<Longrightarrow> peers_ok (fst (activateVerified db opts s e n from c now))"
  by (auto simp: activateVerified_def split: prod.split dest: peers_ok_applied)

lemma handshakeAnswered_ok [preserved]: "peers_ok db \<Longrightarrow> peers_ok (fst (handshakeAnswered db opts answer))"
  by (cases answer; cases "ho_onFailure opts")
     (simp_all add: handshakeAnswered_def Let_def preserved split: prod.split,
      (metis fst_conv settle_with_ok)+)

lemma handshakeExistsProbed_ok [preserved]: "peers_ok db \<Longrightarrow> peers_ok (fst (handshakeExistsProbed db opts err probe now))"
  by (auto simp: handshakeExistsProbed_def Let_def preserved split: EpochProbe.split prod.split bool.split)
     (metis fst_conv settle_with_ok activateVerified_ok)+

lemma settleAccepted_ok [preserved]: "peers_ok db \<Longrightarrow> peers_ok (fst (settleAccepted db opts name probe now))"
  by (auto simp: settleAccepted_def Let_def preserved split: EpochProbe.split prod.split bool.split option.split)
     (metis fst_conv activateVerified_ok)+

lemma insert_admin_row_ok [preserved]:
  "peers_ok db \<Longrightarrow> i \<notin> pe_id ` set (pd_peers db) \<Longrightarrow> peers_ok (fst (insert_admin_row db org n s i now))"
  by (auto simp: insert_admin_row_def split: option.split prod.split dest: peers_ok_inserted)

lemma prepareAdminHandshakeRow_ok [preserved]:
  assumes "peers_ok db" and "i \<notin> pe_id ` set (pd_peers db)"
  shows "peers_ok (fst (prepareAdminHandshakeRow db org m n s i now))"
proof -
  have rep: "peers_ok (fst (case removePeer db a fs False of (db1, None) \<Rightarrow> (db1, Busy peer_changed_text)
      | (db1, Some _) \<Rightarrow> insert_admin_row db1 org n s i now))" for a fs
  proof (cases "removePeer db a fs False")
    case (Pair db1 r)
    then have "peers_ok db1" "i \<notin> pe_id ` set (pd_peers db1)"
      using assms removePeer_ids[OF Pair] by (auto dest: peers_ok_removed)
    then show ?thesis using Pair by (simp add: insert_admin_row_ok split: option.split)
  qed
  show ?thesis
  proof (cases "readPeerStateByOrigin db org")
    case None
    then show ?thesis using assms by (simp add: prepareAdminHandshakeRow_def insert_admin_row_ok)
  next
    case (Some x)
    have cl: "peers_ok (fst (case applyPeerTransition db (ps_id x) t of
        (db1, Applied _ _) \<Rightarrow> (db1, Ready a c ReleaseToTraffic) | (db1, NotApplied _) \<Rightarrow> (db1, Busy m)))" for t a c m
      using assms(1) by (auto split: prod.split TransitionResult.split dest: peers_ok_applied)
    show ?thesis
      by (cases "ps_status x") (simp_all add: prepareAdminHandshakeRow_def Some assms(1) rep cl)
  qed
qed

abbreviation in_ok :: "instance_state \<Rightarrow> bool" where
  "in_ok st \<equiv> peers_ok (in_peers st)"

abbreviation peer_ids :: "instance_state \<Rightarrow> string set" where
  "peer_ids st \<equiv> pe_id ` set (pd_peers (in_peers st))"

lemma in_peers_delete_requests [simp]: "in_peers (delete_requests P st) = in_peers st"
  by (simp add: delete_requests_def)

lemma in_peers_queueOutboundApproval [simp]: "in_peers (queueOutboundApproval st org u r t i j now) = in_peers st"
  by (simp add: queueOutboundApproval_def Let_def split: option.split prod.split)

lemma in_peers_queueApprovalRequest [simp]: "in_peers (fst (queueApprovalRequest st org s n tok i now)) = in_peers st"
  by (simp add: queueApprovalRequest_def split: option.split)

lemma in_peers_notify_subscribers [simp]: "in_peers (notify_subscribers st req k org fresh now) = in_peers st"
  by (simp add: notify_subscribers_def Let_def)

lemma placeholder_ok [preserved]:
  "in_ok st \<Longrightarrow> i \<notin> peer_ids st \<Longrightarrow> in_ok (fst (createAutoPlaceholderPeer st org s i now))"
  by (auto simp: createAutoPlaceholderPeer_def split: option.split prod.split dest: peers_ok_inserted)

lemma performHandshake_ok [preserved]:
  "in_ok st \<Longrightarrow> i \<notin> peer_ids st \<Longrightarrow> in_ok (fst (performHandshake st org p s i now))"
  by (auto simp: performHandshake_def Let_def split: option.split prod.split dest: peers_ok_inserted)

lemma ensurePeered_ok [preserved]:
  assumes "in_ok st" and "fresh 0 \<notin> peer_ids st"
  shows "in_ok (fst (ensurePeered st raw normalized intent s fresh now))"
proof -
  have ph: "in_ok (fst (performHandshake st org p s (fresh 0) now))" for org p
    using assms by (rule performHandshake_ok)
  have "in_ok (fst (case performHandshake st org p s (fresh 0) now of
      (st1, EHandshake opts) \<Rightarrow> (st1\<lparr>in_inFlightPeering := in_inFlightPeering st1 @ [org]\<rparr>, EHandshake opts) | r \<Rightarrow> r))" for org p
    using ph[of org p] by (auto split: prod.split EnsureStep.split)
  note go = this
  show ?thesis
  proof (cases normalized)
    case (Some org)
    let ?ex = "peer_by_origin org (pd_peers (in_peers st))"
    show ?thesis
    proof (cases "org = in_ourOrigin st \<or> (case ?ex of None \<Rightarrow> None | Some p \<Rightarrow> settledResultFor p) \<noteq> None")
      case True
      then show ?thesis using assms(1) by (auto simp: ensurePeered_def Some)
    next
      case False
      have rm: "in_ok (case ?ex of Some p \<Rightarrow> if ungated_placeholder ?ex
            then st\<lparr>in_peers := fst (removePeer (in_peers st) (pe_id p) [PPending] False)\<rparr> else st | None \<Rightarrow> st)"
        using assms(1) by (simp add: preserved split: option.split)
      show ?thesis
        using False assms(1) rm go[of org ?ex]
        by (simp add: ensurePeered_def Some Let_def del: fst_conv split del: if_split cong: if_cong)
           (simp split: if_split CallerIntent.split)
    qed
  qed (use assms(1) in \<open>simp add: ensurePeered_def\<close>)
qed

lemma markPeerReset_ok [preserved]: "in_ok st \<Longrightarrow> in_ok (markPeerReset st i org d e e' now)"
  by (auto simp: markPeerReset_def Let_def split: prod.split TransitionResult.split dest: peers_ok_applied)

lemma recoverOrDetectReset_ok [preserved]: "in_ok st \<Longrightarrow> in_ok (fst (recoverOrDetectReset st p probe d now))"
  by (auto simp: recoverOrDetectReset_def markPeerRecovered_def preserved split: prod.split dest: peers_ok_applied)

lemma detectResetForPeer_ok [preserved]: "in_ok st \<Longrightarrow> in_ok (detectResetForPeer st p probe d now)"
  by (auto simp: detectResetForPeer_def preserved)

lemma acceptDecided_ok [preserved]:
  assumes "in_ok st" and "i \<notin> peer_ids st"
  shows "in_ok (fst (acceptDecided st org s body d i tok now))"
  using assms unfolding acceptDecided_def Let_def
  by (auto simp: preserved split: InboundHandshakeDecision.split option.split prod.split TransitionResult.split
      dest: peers_ok_applied peers_ok_inserted)

lemma peerAccept_ok [preserved]:
  "in_ok st \<Longrightarrow> i \<notin> peer_ids st \<Longrightarrow> in_ok (fst (peerAccept url_of limited st body i tok now))"
  by (auto simp: peerAccept_def preserved split: option.split)

lemma peerDenied_ok [preserved]: "in_ok st \<Longrightarrow> in_ok (fst (peerDenied st h v reason))"
  by (auto simp: peerDenied_def preserved split: option.split)

lemma update_peer_ok:
  assumes "in_ok st" and "\<And>r. pe_id (f r) = pe_id r \<and> pe_origin (f r) = pe_origin r \<and> pe_status (f r) = pe_status r
    \<and> pe_statusReason (f r) = pe_statusReason r \<and> pe_probeAttempts (f r) = pe_probeAttempts r \<and> pe_lastProbeAt (f r) = pe_lastProbeAt r"
  shows "in_ok (update_peer i f st)"
proof -
  have "peers_ok \<lparr>pd_peers = map (\<lambda>r. if pe_id r = i then f r else r) (pd_peers (in_peers st)), pd_outbox = pd_outbox (in_peers st)\<rparr>"
  proof (rule peers_ok_map[OF assms(1)])
    fix r assume "r \<in> set (pd_peers (in_peers st))"
    then have "peer_ok r" using assms(1) by (simp add: peers_ok_def list_all_iff)
    then show "peer_ok (if pe_id r = i then f r else r)" using assms(2)[of r] by (simp add: peer_ok_def peerStatusOf_def)
  qed (use assms(2) in \<open>auto simp: refuses_def split: if_splits\<close>)
  moreover have "in_peers (update_peer i f st)
      = \<lparr>pd_peers = map (\<lambda>r. if pe_id r = i then f r else r) (pd_peers (in_peers st)), pd_outbox = pd_outbox (in_peers st)\<rparr>"
    by (simp add: update_peer_def tbl_update_def)
  ultimately show ?thesis by simp
qed

lemma peerRotate_ok [preserved]: "in_ok st \<Longrightarrow> in_ok (fst (peerRotate st h v n now))"
  by (auto simp: peerRotate_def intro!: update_peer_ok split: option.split)

lemma patchPeer_ok [preserved]: "in_ok st \<Longrightarrow> in_ok (fst (patchPeer st i r))"
  by (auto simp: patchPeer_def intro!: update_peer_ok split: option.split)

lemma revokePeer_ok [preserved]: "in_ok st \<Longrightarrow> in_ok (fst (revokePeer st i))"
  by (auto simp: revokePeer_def preserved split: option.split)

lemma resetPeer_ok [preserved]: "in_ok st \<Longrightarrow> in_ok (fst (resetPeer st i))"
  by (auto simp: resetPeer_def split: option.split prod.split dest: peers_ok_removed)

lemma deletePeerPermanently_ok [preserved]: "in_ok st \<Longrightarrow> in_ok (fst (deletePeerPermanently st i))"
  by (auto simp: deletePeerPermanently_def preserved split: option.split)

lemma recheckProbed_ok [preserved]: "in_ok st \<Longrightarrow> in_ok (fst (recheckProbed st p probe d now))"
  using recoverOrDetectReset_ok[of st p probe d now]
  by (cases "recoverOrDetectReset st p probe d now"; cases "snd (recoverOrDetectReset st p probe d now)")
     (simp_all add: recheckProbed_def preserved)

lemma inboundApproved_ok [preserved]: "in_ok st \<Longrightarrow> in_ok (inboundApproved st req out)"
  by (auto simp: inboundApproved_def split: HandshakeOutcome.split)

lemma inboundDenied_ok [preserved]: "in_ok st \<Longrightarrow> i \<notin> peer_ids st \<Longrightarrow> in_ok (fst (inboundDenied st req sent i now))"
  by (auto simp: inboundDenied_def Let_def preserved split: option.split prod.split dest: peers_ok_inserted)

lemma outboundDenied_ok [preserved]: "in_ok st \<Longrightarrow> in_ok (fst (outboundDenied st req fresh now))"
  by (simp add: outboundDenied_def)

lemma fanout_ok [preserved]: "in_ok st \<Longrightarrow> in_ok (fanoutOutboundSubscribers st i fresh now)"
  by (auto simp: fanoutOutboundSubscribers_def split: option.split)

lemma parkedProbed_ok [preserved]: "peers_ok db \<Longrightarrow> peers_ok (fst (parkedProbed db row probe now))"
  by (auto simp: parkedProbed_def preserved split: EpochProbe.split prod.split dest: peers_ok_applied)

lemma parkedRetried_ok [preserved]: "peers_ok db \<Longrightarrow> peers_ok (parkedRetried db row res)"
  by (auto simp: parkedRetried_def preserved split: EnsurePeeredResult.split)

lemma resetOutboxBackoff_ok [preserved]: "peers_ok db \<Longrightarrow> peers_ok (resetOutboxBackoff db i now)"
  unfolding resetOutboxBackoff_def by (rule peers_ok_outbox) (auto split: if_splits)

section \<open>Queueing\<close>

definition receivers :: "instance_state \<Rightarrow> peer_row set" where
  "receivers st = {p \<in> set (pd_peers (in_peers st)). deliverable p}"

lemma deliverable_not_refuses: "deliverable p \<Longrightarrow> \<not> refuses p"
  by (auto simp: deliverable_def refuses_def)

lemma placeholder_new:
  assumes "createAutoPlaceholderPeer st org s i now = (st1, q, e)" and "peer_by_origin org (pd_peers (in_peers st)) = None"
  shows "(st1 = st \<and> q = None) \<or> (\<exists>p. q = Some p \<and> deliverable p \<and> pe_id p = i
    \<and> pd_peers (in_peers st1) = pd_peers (in_peers st) @ [p])"
  using assms by (auto simp: createAutoPlaceholderPeer_def insertPeer_def Let_def new_peer_row_def deliverable_def split: if_split_asm)

lemma match_targets_ok:
  assumes "match_targets st matched done orgs secrets fresh k now = (st1, out)"
    and "in_ok st" and "inj fresh" and "\<And>j. k \<le> j \<Longrightarrow> fresh j \<notin> peer_ids st" and "set matched \<subseteq> receivers st"
  shows "in_ok st1 \<and> set out \<subseteq> receivers st1"
  using assms
proof (induction orgs arbitrary: st matched k)
  case (Cons org orgs)
  show ?case
  proof (cases "org \<in> done")
    case True
    then show ?thesis using Cons.prems by (intro Cons.IH[of st matched "Suc k"]) auto
  next
    case False
    show ?thesis
    proof (cases "peer_by_origin org (pd_peers (in_peers st))")
      case (Some p)
      then have "p \<in> set (pd_peers (in_peers st))" using tbl_get_SomeD by (force simp: peer_by_origin_def)
      then have "set (if deliverable p then matched @ [p] else matched) \<subseteq> receivers st"
        using Cons.prems(5) by (auto simp: receivers_def)
      then show ?thesis using Cons.prems False Some
        by (intro Cons.IH[of st "if deliverable p then matched @ [p] else matched" "Suc k"]) auto
    next
      case None
      obtain st2 q e where c: "createAutoPlaceholderPeer st org (secrets k) (fresh k) now = (st2, q, e)"
        by (cases "createAutoPlaceholderPeer st org (secrets k) (fresh k) now") auto
      have ok: "in_ok st2" using placeholder_ok[of st "fresh k" org "secrets k" now] Cons.prems c by simp
      from placeholder_new[OF c None] show ?thesis
      proof
        assume "st2 = st \<and> q = None"
        then show ?thesis using Cons.prems False None c by (intro Cons.IH[of st matched "Suc k"]) auto
      next
        assume "\<exists>p. q = Some p \<and> deliverable p \<and> pe_id p = fresh k \<and> pd_peers (in_peers st2) = pd_peers (in_peers st) @ [p]"
        then obtain p where p: "q = Some p" "deliverable p" "pe_id p = fresh k"
          and st2: "pd_peers (in_peers st2) = pd_peers (in_peers st) @ [p]" by blast
        have run: "match_targets st2 (matched @ [p]) done orgs secrets fresh (Suc k) now = (st1, out)"
          using Cons.prems(1) False None c p by simp
        have rec: "set (matched @ [p]) \<subseteq> receivers st2"
          using Cons.prems(5) p st2 by (auto simp: receivers_def)
        have "fresh j \<notin> peer_ids st2" if "Suc k \<le> j" for j
          using Cons.prems(4)[of j] that p st2 injD[OF Cons.prems(3), of j k] by auto
        with Cons.IH[OF run ok Cons.prems(3) _ rec] show ?thesis by blast
      qed
    qed
  qed
qed simp

lemma write_peers: "ob_peerId ` set (writeOutboxEvent rows inp i now) \<subseteq> ob_peerId ` set rows \<union> {oi_peerId inp}"
proof -
  have e: "ob_peerId (if c then r\<lparr>ob_payload := x\<rparr> else r) = ob_peerId r" for c r x by simp
  have a: "ob_peerId (appended rows inp i now) = oi_peerId inp" by (simp add: appended_def new_row_def)
  show ?thesis
    by (cases "planQueueWrite (oi_eventType inp) (queue_rows (oi_peerId inp) (input_key inp) rows)")
       (auto simp: writeOutboxEvent_unfold a e)
qed

lemma write_all_peers:
  "ob_peerId ` set (write_all rows req ex ps fresh k now) \<subseteq> ob_peerId ` set rows \<union> pe_id ` set ps"
proof (induction ps arbitrary: rows k)
  case (Cons p ps)
  let ?inp = "\<lparr>oi_peerId = pe_id p, oi_contextId = or_contextId req, oi_contextType = or_contextType req,
        oi_entityId = or_entityId req, oi_eventType = or_eventType req, oi_payload = or_payload req, oi_expiresAt = ex\<rparr>"
  show ?case
    using Cons[of "writeOutboxEvent rows ?inp (fresh k) now" "Suc k"] write_peers[of rows ?inp "fresh k" now] by auto
qed simp

lemma queueOutboxEvent_ok [preserved]:
  assumes "in_ok st" and "inj fresh" and "\<And>j. fresh j \<notin> peer_ids st"
  shows "in_ok (queueOutboxEvent enabled ttl st req secrets fresh now)"
proof -
  have put: "in_ok (st1\<lparr>in_peers := (in_peers st1)\<lparr>pd_outbox :=
      write_all (pd_outbox (in_peers st1)) req ex ps fresh k now\<rparr>\<rparr>)"
    if "in_ok st1" "set ps \<subseteq> receivers st1" for st1 ps k ex
  proof -
    have "pe_id ` set ps \<subseteq> {pe_id r | r. r \<in> set (pd_peers (in_peers st1)) \<and> \<not> refuses r}"
      using that(2) deliverable_not_refuses by (auto simp: receivers_def)
    from peers_ok_outbox[OF that(1) order_trans[OF write_all_peers Un_mono[OF subset_refl this]]]
    have "peers_ok ((in_peers st1)\<lparr>pd_outbox := write_all (pd_outbox (in_peers st1)) req ex ps fresh k now\<rparr>)" .
    then show ?thesis by simp
  qed
  show ?thesis
  proof (cases "or_targets req")
    case None
    have "set (filter broadcast_status (pd_peers (in_peers st))) \<subseteq> receivers st"
      by (auto simp: receivers_def broadcast_status_def deliverable_def)
    then show ?thesis using put[OF assms(1)] assms(1) None by (simp add: queueOutboxEvent_def Let_def)
  next
    case (Some ts)
    let ?base = "filter (\<lambda>p. deliverable p \<and> pe_origin p \<in> set ts) (pd_peers (in_peers st))"
    obtain st1 out where m: "match_targets st ?base (pe_origin ` set ?base) ts secrets fresh 0 now = (st1, out)"
      by (cases "match_targets st ?base (pe_origin ` set ?base) ts secrets fresh 0 now") auto
    have "in_ok st1 \<and> set out \<subseteq> receivers st1"
      by (rule match_targets_ok[OF m assms(1,2)]) (use assms(3) in \<open>auto simp: receivers_def\<close>)
    then show ?thesis using put m assms(1) Some by (simp add: queueOutboxEvent_def Let_def)
  qed
qed

section \<open>A first contact\<close>

definition fresh_instance :: "origin \<Rightarrow> int option \<Rightarrow> instance_state" where
  "fresh_instance org setting = \<lparr>in_peers = \<lparr>pd_peers = [], pd_outbox = []\<rparr>, in_requests = [], in_subscribers = [],
     in_notifications = [], in_users = [], in_resetEvents = [], in_autoAccept = setting, in_instanceName = None,
     in_instanceId = ''epoch'', in_ourOrigin = org, in_inFlightPeering = [], in_adminHandshakes = []\<rparr>"

lemma fresh_instance_ok: "in_ok (fresh_instance org setting)"
  by (simp add: fresh_instance_def peers_ok_def ids_ok_def)

definition first_contact :: AcceptBody where
  "first_contact = \<lparr>ab_sourceOrigin = Some (WStr ''https://b.example''), ab_hmacSecret = Some (WStr ''secret''),
     ab_instanceName = Some ''B'', ab_instanceId = Some ''epoch-b'', ab_approvalToken = None\<rparr>"

definition https_url :: "string \<Rightarrow> url option" where
  "https_url s = (if starts_with ''https://'' s
     then Some \<lparr>url_protocol = ''https:'', url_hostname = drop 8 s, url_origin = s\<rparr> else None)"

definition contacted :: instance_state where
  "contacted = fst (peerAccept https_url False (fresh_instance ''https://a.example'' None) first_contact ''1'' ''tok'' 5)"

lemma contacted_ok: "in_ok contacted"
  unfolding contacted_def by (rule peerAccept_ok[OF fresh_instance_ok]) (simp add: fresh_instance_def)

lemma contacted_peers: "map (\<lambda>r. (pe_id r, pe_origin r, pe_hmacSecret r, pe_status r)) (pd_peers (in_peers contacted))
    = [(''1'', ''https://b.example'', ''secret'', ''active'')]"
  by (simp add: contacted_def peerAccept_def first_contact_def https_url_def starts_with_def validateOrigin_def
      acceptDecided_def accept_decision_def decideInboundHandshake_def fresh_instance_def auto_accept_setting_def
      given_def peer_by_origin_def insertPeer_def new_peer_row_def Let_def)

section \<open>Rows and what each operation does to them\<close>

lemma ids_okD: "in_ok st \<Longrightarrow> ids_ok (in_peers st)"
  by (simp add: peers_ok_def)

lemma by_origin_mem:
  "peer_by_origin org rows = Some r \<Longrightarrow> r \<in> set rows \<and> pe_origin r = org"
  unfolding peer_by_origin_def by (rule peers_by_origin.get_key)

lemma by_origin_distinct:
  "distinct (map pe_origin rows) \<Longrightarrow> r \<in> set rows \<Longrightarrow> peer_by_origin (pe_origin r) rows = Some r"
  unfolding peer_by_origin_def by (rule tbl_get_distinct)

lemma by_origin_transitioned:
  "peer_by_origin org (tbl_update pe_id i (transition_row t s) rows)
    = map_option (\<lambda>r. if pe_id r = i then transition_row t s r else r) (peer_by_origin org rows)"
  by (induction rows) (auto simp: tbl_update_def peer_by_origin_def)

text \<open>The active rows, with their secrets.\<close>

definition active_secrets :: "peer_db \<Rightarrow> (string \<times> string) set" where
  "active_secrets db = (\<lambda>r. (pe_id r, pe_hmacSecret r)) ` {r \<in> set (pd_peers db). pe_status r = ''active''}"

lemma active_transition:
  assumes "ids_ok db"
  shows "active_secrets (fst (applyPeerTransition db i t)) \<subseteq> active_secrets db \<union>
    {(i, s) | s. is_applied (snd (applyPeerTransition db i t)) \<and> target_status (pt_to t) = PActive
       \<and> (case pf_hmacSecret (pt_fields t) of None \<Rightarrow> True | Some x \<Rightarrow> s = x)}"
proof (rule apply_cases[OF assms, of i t])
  fix r st
  assume h: "transition_hits db i t r st" "fst (applyPeerTransition db i t) = transitioned db i t st"
    "is_applied (snd (applyPeerTransition db i t))"
  show ?thesis
    unfolding h(2)
    using h(3) by (auto simp: active_secrets_def transitioned_def tbl_update_def given_def split: option.splits if_splits)
next
  assume "applyPeerTransition db i t = (db, NotApplied (readPeerState db i))"
  then show ?thesis by simp
qed

lemma attempt_rows:
  obtains g where "pd_peers (fst (recordPeerAttempt db i fs now)) = map g (pd_peers db)"
    and "\<And>r. (pe_id (g r), pe_hmacSecret (g r), pe_status (g r)) = (pe_id r, pe_hmacSecret r, pe_status r)"
proof
  show "pd_peers (fst (recordPeerAttempt db i fs now)) = map (\<lambda>r. if pe_id r = i \<and> pe_status r \<in> set (map status_text fs)
      then r\<lparr>pe_probeAttempts := pe_probeAttempts r + 1, pe_lastProbeAt := Some now\<rparr> else r) (pd_peers db)"
    by (simp add: recordPeerAttempt_def)
qed simp

lemma active_attempt: "active_secrets (fst (recordPeerAttempt db i fs now)) \<subseteq> active_secrets db"
proof (rule attempt_rows[of db i fs now])
  fix g
  assume g: "pd_peers (fst (recordPeerAttempt db i fs now)) = map g (pd_peers db)"
    "\<And>r. (pe_id (g r), pe_hmacSecret (g r), pe_status (g r)) = (pe_id r, pe_hmacSecret r, pe_status r)"
  show ?thesis using g(2) unfolding active_secrets_def g(1) by auto
qed

lemma active_remove: "active_secrets (fst (removePeer db i fs u)) \<subseteq> active_secrets db"
  by (auto simp: removePeer_def Let_def active_secrets_def split: option.split if_splits)

lemma ids_ok_kept: "ids_ok db \<Longrightarrow> ids_ok (fst (recordPeerAttempt db i fs now))"
proof (rule attempt_rows[of db i fs now])
  fix g
  assume g: "pd_peers (fst (recordPeerAttempt db i fs now)) = map g (pd_peers db)"
    "\<And>r. (pe_id (g r), pe_hmacSecret (g r), pe_status (g r)) = (pe_id r, pe_hmacSecret r, pe_status r)"
  assume "ids_ok db"
  moreover have "pe_id \<circ> g = pe_id" using g(2) by auto
  ultimately show ?thesis by (simp add: ids_ok_def g(1))
qed

lemma ids_ok_applied: "ids_ok db \<Longrightarrow> applyPeerTransition db i t = (db', r) \<Longrightarrow> ids_ok db'"
  using apply_cases[of db i t "ids_ok db'"]
  by (auto simp: ids_ok_def transitioned_def peers_by_id.keys_update)

section \<open>Our own handshakes\<close>

lemma active_settle_with:
  assumes "ids_ok db" and "target_status target \<noteq> PActive"
  shows "active_secrets (fst (settle_with db opts w target out err)) \<subseteq> active_secrets db"
  using active_transition[OF assms(1), of "ho_peerId opts"
      "\<lparr>pt_from = [PPending], pt_expectSecret = Some (ho_hmacSecret opts), pt_fields = w, pt_to = target\<rparr>"] assms(2)
  by (auto simp: settle_with_def split: prod.split TransitionResult.split)

lemma active_activateVerified:
  assumes "ids_ok db"
  shows "active_secrets (fst (activateVerified db opts s e n from c now)) \<subseteq> active_secrets db \<union> {(ho_peerId opts, s)}"
    and "ids_ok (fst (activateVerified db opts s e n from c now))"
    and "\<not> snd (activateVerified db opts s e n from c now) \<Longrightarrow> fst (activateVerified db opts s e n from c now) = db"
proof -
  define t where "t = \<lparr>pt_from = [from], pt_expectSecret = (if from = PPending then Some s else None),
        pt_fields = no_fields\<lparr>pf_hmacSecret := Some s, pf_lastSeenAt := Some (Some now),
          pf_peerInstanceId := Some (Some e), pf_approvalToken := Some None,
          pf_instanceName := (case n of None \<Rightarrow> None | Some n \<Rightarrow> Some (Some n))\<rparr>, pt_to = ToActive c\<rparr>"
  have u: "activateVerified db opts s e n from c now
      = (fst (applyPeerTransition db (ho_peerId opts) t), is_applied (snd (applyPeerTransition db (ho_peerId opts) t)))"
    by (simp add: activateVerified_def t_def split: prod.split)
  have t: "pf_hmacSecret (pt_fields t) = Some s" by (simp add: t_def)
  show "active_secrets (fst (activateVerified db opts s e n from c now)) \<subseteq> active_secrets db \<union> {(ho_peerId opts, s)}"
    using active_transition[OF assms, of "ho_peerId opts" t] unfolding u by (auto simp: t)
  show "ids_ok (fst (activateVerified db opts s e n from c now))"
    unfolding u using ids_ok_applied[OF assms] by (simp add: prod_eq_iff)
  show "fst (activateVerified db opts s e n from c now) = db" if "\<not> snd (activateVerified db opts s e n from c now)"
    using that apply_cases[OF assms, of "ho_peerId opts" t] unfolding u by fastforce
qed

lemma active_answered:
  assumes "ids_ok db"
  shows "active_secrets (fst (handshakeAnswered db opts answer)) \<subseteq> active_secrets db"
proof -
  let ?db1 = "fst (recordPeerAttempt db (ho_peerId opts) [PPending] (ho_startedAt opts))"
  have ids: "ids_ok ?db1" using assms by (rule ids_ok_kept)
  have one: "active_secrets ?db1 \<subseteq> active_secrets db" by (rule active_attempt)
  have rel: "active_secrets (fst (applyPeerTransition ?db1 (ho_peerId opts)
      \<lparr>pt_from = [PPending], pt_expectSecret = None, pt_fields = w, pt_to = ToPending c\<rparr>)) \<subseteq> active_secrets db" for w c
    using active_transition[OF ids, of "ho_peerId opts" "\<lparr>pt_from = [PPending], pt_expectSecret = None, pt_fields = w, pt_to = ToPending c\<rparr>"] one
    by auto
  have rem: "active_secrets (fst (removePeer ?db1 (ho_peerId opts) [PPending] True)) \<subseteq> active_secrets db"
    using active_remove[of ?db1] one by blast
  show ?thesis
  proof (cases answer)
    case (AQueued token)
    then show ?thesis
      using active_settle_with[OF assms, of "ToAwaiting Handshake_queued" opts "no_fields\<lparr>pf_approvalToken := Some token\<rparr>"
          "HAwaiting (ho_peerId opts)" changed_in_flight]
      by (auto simp: handshakeAnswered_def Let_def split: prod.splits)
  next
    case (ARefused reason err)
    then show ?thesis
      using active_settle_with[OF assms, of "ToRejected reason Remote_refused" opts no_fields
          "HRejected (ho_peerId opts) (Some (rejected_text reason)) err" err]
      by (auto simp: handshakeAnswered_def Let_def split: prod.splits)
  next
    case (ATransient err http)
    then show ?thesis using one rel rem by (cases "ho_onFailure opts") (simp_all add: handshakeAnswered_def Let_def)
  next
    case (AUnreachable err b)
    then show ?thesis using one rel rem by (cases "ho_onFailure opts") (simp_all add: handshakeAnswered_def Let_def)
  qed (use one in \<open>simp_all add: handshakeAnswered_def Let_def\<close>)
qed

lemma active_parked:
  assumes "ids_ok db"
  shows "active_secrets (fst (settle_with db opts no_fields (ToRejected Stale_peering_on_remote Stale_peering) out err)) \<subseteq> active_secrets db"
  by (rule active_settle_with[OF assms]) simp

lemma active_exists_probed:
  assumes "ids_ok db"
  shows "active_secrets (fst (handshakeExistsProbed db opts err probe now))
    \<subseteq> active_secrets db \<union> {(ho_peerId opts, ho_hmacSecret opts) | e. probe = Verified e}"
proof (cases probe)
  case (Verified e)
  let ?v = "activateVerified db opts (ho_hmacSecret opts) e None PPending (ho_activation opts) now"
  show ?thesis
  proof (cases ?v)
    case (Pair db1 b)
    show ?thesis
    proof (cases b)
      case True
      then show ?thesis
        using Verified Pair active_activateVerified(1)[OF assms, of opts "ho_hmacSecret opts" e None PPending "ho_activation opts" now]
        by (simp add: handshakeExistsProbed_def Let_def)
    next
      case False
      then have "db1 = db"
        using Pair active_activateVerified(3)[OF assms, of opts "ho_hmacSecret opts" e None PPending "ho_activation opts" now] by simp
      then show ?thesis using Verified Pair False active_parked[OF assms]
        by (auto simp: handshakeExistsProbed_def Let_def)
    qed
  qed
qed (use active_parked[OF assms] in \<open>simp_all add: handshakeExistsProbed_def Let_def\<close>)

lemma active_settled:
  assumes "ids_ok db"
  shows "active_secrets (fst (settleAccepted db opts name probe now))
    \<subseteq> active_secrets db \<union> {(ho_peerId opts, ho_hmacSecret opts) | e. probe = Verified e}"
proof (cases "stillOurs opts (readPeerState db (ho_peerId opts))")
  case True
  have park: "active_secrets (fst (settle_with db opts w (ToNeedsAttention Repeer_incomplete Repeer_unverified) out err))
      \<subseteq> active_secrets db" for w out err
    by (rule active_settle_with[OF assms]) simp
  show ?thesis
  proof (cases probe)
    case (Verified e)
    then show ?thesis
      using True active_activateVerified(1)[OF assms, of opts "ho_hmacSecret opts" e name PPending "ho_activation opts" now]
      by (auto simp: settleAccepted_def Let_def split: prod.splits bool.splits)
  qed (use True park active_attempt in \<open>simp_all add: settleAccepted_def Let_def\<close>)
next
  case False
  have adopt: "active_secrets (fst (applyPeerTransition db (ho_peerId opts) \<lparr>pt_from = [PActive], pt_expectSecret = x,
       pt_fields = no_fields\<lparr>pf_hmacSecret := Some (ho_hmacSecret opts), pf_peerInstanceId := y\<rparr>, pt_to = ToActive c\<rparr>))
      \<subseteq> active_secrets db \<union> {(ho_peerId opts, ho_hmacSecret opts)}" for x y c
    using active_transition[OF assms, of "ho_peerId opts" "\<lparr>pt_from = [PActive], pt_expectSecret = x,
       pt_fields = no_fields\<lparr>pf_hmacSecret := Some (ho_hmacSecret opts), pf_peerInstanceId := y\<rparr>, pt_to = ToActive c\<rparr>"]
    by auto
  show ?thesis
    using False adopt
    by (auto simp: settleAccepted_def Let_def split: option.split EpochProbe.split)
qed

text \<open>
  C3. A handshake of ours never makes a row active on a secret nobody proved. Whatever the remote answers,
  the answer alone activates nothing; only a signed check of the secret we sent can, and the row then
  holds that very secret.
\<close>

theorem handshake_needs_proof:
  assumes "ids_ok db"
  shows "active_secrets (fst (handshakeAnswered db opts answer)) \<subseteq> active_secrets db
    \<and> active_secrets (fst (handshakeExistsProbed db opts err probe now))
        \<subseteq> active_secrets db \<union> {(ho_peerId opts, ho_hmacSecret opts) | e. probe = Verified e}
    \<and> active_secrets (fst (settleAccepted db opts name probe now))
        \<subseteq> active_secrets db \<union> {(ho_peerId opts, ho_hmacSecret opts) | e. probe = Verified e}"
  using active_answered[OF assms] active_exists_probed[OF assms] active_settled[OF assms] by blast

definition pending_row :: peer_row where
  "pending_row = new_peer_row \<lparr>np_origin = ''https://b.example'', np_hmacSecret = ''ours'', np_initiatedBy = ''admin'',
     np_instanceName = None, np_peerInstanceId = None, np_lastSeenAt = None, np_status = NewPending\<rparr> ''7'' 1"

definition pending_opts :: OutboundHandshakeOptions where
  "pending_opts = \<lparr>ho_peerId = ''7'', ho_origin = ''https://b.example'', ho_hmacSecret = ''ours'', ho_approvalToken = None,
     ho_trust = ''approved'', ho_activation = Initiate_accepted, ho_startedAt = 1, ho_onFailure = Keep\<rparr>"

lemma handshake_needs_proof_witness:
  "active_secrets (fst (settleAccepted \<lparr>pd_peers = [pending_row], pd_outbox = []\<rparr> pending_opts None ProbeUnknown 9)) = {}"
proof -
  have "ids_ok \<lparr>pd_peers = [pending_row], pd_outbox = []\<rparr>" by (simp add: ids_ok_def)
  from conjunct2[OF conjunct2[OF handshake_needs_proof[OF this]], of pending_opts None ProbeUnknown 9]
  have "active_secrets (fst (settleAccepted \<lparr>pd_peers = [pending_row], pd_outbox = []\<rparr> pending_opts None ProbeUnknown 9))
      \<subseteq> active_secrets \<lparr>pd_peers = [pending_row], pd_outbox = []\<rparr>" by auto
  moreover have "active_secrets \<lparr>pd_peers = [pending_row], pd_outbox = []\<rparr> = {}"
    by (auto simp: active_secrets_def pending_row_def new_peer_row_def)
  ultimately show ?thesis by simp
qed

section \<open>The remote's handshakes\<close>

lemma decide_activate:
  assumes "decideInboundHandshake i = DActivate s c"
  obtains r where "ih_row i = Some r" and "peerStatusOf r = s" and "s \<in> {PPending, PAwaiting, PRejected}"
    and "ih_autoAccept i \<or> pe_initiatedBy r = ''admin''" and "pe_statusReason r \<noteq> Some ''denied_by_local_admin'' \<or> s \<noteq> PRejected"
  using assms
  by (auto simp: decideInboundHandshake_def acceptUncompleted_def Let_def split: option.split_asm FederationPeerStatus.split_asm if_split_asm)

lemma decide_create: "decideInboundHandshake i = DCreate \<longleftrightarrow> ih_row i = None \<and> ih_autoAccept i"
  by (auto simp: decideInboundHandshake_def acceptUncompleted_def Let_def split: option.split FederationPeerStatus.split)

text \<open>A healthy row that the decision activates is activated.\<close>

lemma accept_activates:
  assumes ok: "in_ok st" and dec: "accept_decision st org token = DActivate s c"
    and f: "f = no_fields\<lparr>pf_hmacSecret := Some secret, pf_instanceName := n, pf_peerInstanceId := e,
        pf_lastSeenAt := l, pf_approvalToken := a\<rparr>"
  obtains r where "peer_by_origin org (pd_peers (in_peers st)) = Some r" and "r \<in> set (pd_peers (in_peers st))"
    and "pe_status r = status_text s" and "s \<in> {PPending, PAwaiting, PRejected}"
    and "auto_accept_setting st = 1 \<or> pe_initiatedBy r = ''admin''"
    and "pe_statusReason r \<noteq> Some ''denied_by_local_admin'' \<or> s \<noteq> PRejected"
    and "applyPeerTransition (in_peers st) (pe_id r) \<lparr>pt_from = [s], pt_expectSecret = Some (pe_hmacSecret r), pt_fields = f, pt_to = ToActive c\<rparr>
      = ((in_peers st)\<lparr>pd_peers := tbl_update pe_id (pe_id r) (transition_row \<lparr>pt_from = [s], pt_expectSecret = Some (pe_hmacSecret r),
            pt_fields = f, pt_to = ToActive c\<rparr> s) (pd_peers (in_peers st))\<rparr>,
         Applied s \<lparr>te_peerId = pe_id r, te_origin = pe_origin r, te_previous = Some s, te_next = Some PActive,
            te_reason = None, te_activation = Some c, te_exit = None, te_refusedContexts = None\<rparr>)"
proof -
  obtain r where r: "peer_by_origin org (pd_peers (in_peers st)) = Some r" "peerStatusOf r = s"
      "s \<in> {PPending, PAwaiting, PRejected}" "auto_accept_setting st = 1 \<or> pe_initiatedBy r = ''admin''"
      "pe_statusReason r \<noteq> Some ''denied_by_local_admin'' \<or> s \<noteq> PRejected"
    by (rule decide_activate[OF dec[unfolded accept_decision_def]]) auto
  have mem: "r \<in> set (pd_peers (in_peers st))" using by_origin_mem[OF r(1)] by simp
  have ids: "ids_ok (in_peers st)" using ok by (rule ids_okD)
  have "peer_ok r" using ok mem by (simp add: peers_ok_def list_all_iff)
  then have stx: "pe_status r = status_text s"
    using r(2) by (auto simp: peer_ok_def dest: peerStatusOf_text)
  let ?t = "\<lparr>pt_from = [s], pt_expectSecret = Some (pe_hmacSecret r), pt_fields = f, pt_to = ToActive c\<rparr>"
  have hit: "transition_hits (in_peers st) (pe_id r) ?t r s"
    using mem stx ids by (simp add: transition_hits_def peer_get_iff secret_ok_def)
  have "applyPeerTransition (in_peers st) (pe_id r) ?t = (transitioned (in_peers st) (pe_id r) ?t s,
      Applied s \<lparr>te_peerId = pe_id r, te_origin = pe_origin r, te_previous = Some s, te_next = Some PActive,
        te_reason = None, te_activation = Some c, te_exit = None, te_refusedContexts = None\<rparr>)"
    using apply_hit[OF ids hit] by (simp add: refused_contexts_def enters_refusal_def)
  moreover have "transitioned (in_peers st) (pe_id r) ?t s
      = (in_peers st)\<lparr>pd_peers := tbl_update pe_id (pe_id r) (transition_row ?t s) (pd_peers (in_peers st))\<rparr>"
    by (simp add: transitioned_def enters_refusal_def)
  ultimately show ?thesis using that r mem stx by metis
qed

definition credentials :: "peer_row \<Rightarrow> string \<times> origin \<times> string \<times> string option \<times> string option \<times> string" where
  "credentials r = (pe_id r, pe_origin r, pe_hmacSecret r, pe_pendingHmacSecret r, pe_peerInstanceId r, pe_initiatedBy r)"

lemma credentials_transition:
  "pf_hmacSecret (pt_fields t) = None \<Longrightarrow> pf_peerInstanceId (pt_fields t) = None \<Longrightarrow> pf_initiatedBy (pt_fields t) = None
    \<Longrightarrow> credentials (transition_row t s r) = credentials r"
  by (simp add: credentials_def transition_row_def set_fields_def Let_def given_def)

definition settled_row :: "peer_row \<Rightarrow> bool" where
  "settled_row r \<longleftrightarrow> pe_status r \<in> {''active'', ''unreachable'', ''needs_attention'', ''revoked''}"

lemma markPeerReset_rows:
  assumes "in_ok st"
  obtains "in_peers (markPeerReset st i org d e e' now) = in_peers st"
  | r s t where "transition_hits (in_peers st) i t r s" and "target_status (pt_to t) = PNeedsAttention"
    and "\<And>s r. credentials (transition_row t s r) = credentials r" and "s \<in> {PActive, PUnreachable, PNeedsAttention}"
    and "in_peers (markPeerReset st i org d e e' now) = transitioned (in_peers st) i t s"
proof -
  let ?t = "\<lparr>pt_from = [PActive, PUnreachable, PNeedsAttention], pt_expectSecret = None,
             pt_fields = no_fields\<lparr>pf_observedPeerInstanceId := Some (Some e')\<rparr>,
             pt_to = ToNeedsAttention Peer_reset_detected Reset_detected\<rparr>"
  have c: "credentials (transition_row ?t s r) = credentials r" for s r
    by (rule credentials_transition) (simp_all add: no_fields_def)
  have "in_peers (markPeerReset st i org d e e' now) = in_peers st
      \<or> in_peers (markPeerReset st i org d e e' now) = fst (applyPeerTransition (in_peers st) i ?t)"
    by (simp add: markPeerReset_def Let_def split: prod.split TransitionResult.split)
  then show ?thesis
  proof
    assume "in_peers (markPeerReset st i org d e e' now) = in_peers st"
    then show ?thesis by (rule that(1))
  next
    assume m: "in_peers (markPeerReset st i org d e e' now) = fst (applyPeerTransition (in_peers st) i ?t)"
    show ?thesis
    proof (rule apply_cases[OF ids_okD[OF assms], of i ?t])
      fix r s
      assume h: "transition_hits (in_peers st) i ?t r s" "fst (applyPeerTransition (in_peers st) i ?t) = transitioned (in_peers st) i ?t s"
      show ?thesis
        by (rule that(2)[OF h(1) _ c]) (use h m in \<open>auto simp: transition_hits_def\<close>)
    next
      assume "applyPeerTransition (in_peers st) i ?t = (in_peers st, NotApplied (readPeerState (in_peers st) i))"
      with m show ?thesis by (intro that(1)) simp
    qed
  qed
qed

definition their_fields :: "string \<Rightarrow> AcceptBody \<Rightarrow> millis \<Rightarrow> PeerRowFields" where
  "their_fields secret body now = no_fields\<lparr>pf_hmacSecret := Some secret, pf_instanceName := Some (ab_instanceName body),
     pf_peerInstanceId := Some (ab_instanceId body), pf_lastSeenAt := Some (Some now), pf_approvalToken := Some None\<rparr>"

definition accept_transition :: "string \<Rightarrow> AcceptBody \<Rightarrow> millis \<Rightarrow> peer_row \<Rightarrow> FederationPeerStatus \<Rightarrow> PeerActivationReason \<Rightarrow> PeerTransition" where
  "accept_transition secret body now r s c = \<lparr>pt_from = [s], pt_expectSecret = Some (pe_hmacSecret r),
     pt_fields = their_fields secret body now, pt_to = ToActive c\<rparr>"

text \<open>The peer rows after the route, branch by branch.\<close>

lemma accept_rows:
  assumes ok: "in_ok st"
  obtains (create) row where "accept_decision st org (ab_approvalToken body) = DCreate"
      and "auto_accept_setting st = 1"
      and "row = new_peer_row \<lparr>np_origin = org, np_hmacSecret = secret, np_initiatedBy = ''remote'', np_instanceName = ab_instanceName body,
             np_peerInstanceId = ab_instanceId body, np_lastSeenAt = Some now, np_status = NewActive Accept_new\<rparr> i now"
      and "peer_by_origin org (pd_peers (in_peers st)) = None"
      and "pd_peers (in_peers (fst (acceptDecided st org secret body d i tok now))) = pd_peers (in_peers st) @ [row]"
      and "snd (acceptDecided st org secret body d i tok now) = accepted_reply st"
  | (activate) r s c where "accept_decision st org (ab_approvalToken body) = DActivate s c"
      and "peer_by_origin org (pd_peers (in_peers st)) = Some r" and "r \<in> set (pd_peers (in_peers st))"
      and "pe_status r = status_text s" and "s \<in> {PPending, PAwaiting, PRejected}"
      and "auto_accept_setting st = 1 \<or> pe_initiatedBy r = ''admin''"
      and "pe_statusReason r \<noteq> Some ''denied_by_local_admin'' \<or> s \<noteq> PRejected"
      and "pd_peers (in_peers (fst (acceptDecided st org secret body d i tok now)))
            = tbl_update pe_id (pe_id r) (transition_row (accept_transition secret body now r s c) s) (pd_peers (in_peers st))"
      and "snd (acceptDecided st org secret body d i tok now) = accepted_reply st"
  | (reset) p e e' where "accept_decision st org (ab_approvalToken body) = DRefuseExists"
      and "in_peers (fst (acceptDecided st org secret body d i tok now)) = in_peers (markPeerReset st p org d e e' now)"
  | (same) "accept_decision st org (ab_approvalToken body) \<notin> {DCreate} \<union> {DActivate s c | s c. True}"
      and "in_peers (fst (acceptDecided st org secret body d i tok now)) = in_peers st"
proof (cases "accept_decision st org (ab_approvalToken body)")
  case DCreate
  then have n: "peer_by_origin org (pd_peers (in_peers st)) = None" "auto_accept_setting st = 1"
    by (simp_all add: accept_decision_def decide_create)
  show ?thesis
    by (rule create[OF DCreate n(2) refl n(1)]) (use n DCreate in \<open>simp_all add: acceptDecided_def Let_def insertPeer_def\<close>)
next
  case (DActivate s c)
  have f: "their_fields secret body now = no_fields\<lparr>pf_hmacSecret := Some secret, pf_instanceName := Some (ab_instanceName body),
     pf_peerInstanceId := Some (ab_instanceId body), pf_lastSeenAt := Some (Some now), pf_approvalToken := Some None\<rparr>"
    by (rule their_fields_def)
  show ?thesis
  proof (rule accept_activates[OF ok DActivate f])
    fix r
    assume r: "peer_by_origin org (pd_peers (in_peers st)) = Some r" "r \<in> set (pd_peers (in_peers st))"
      "pe_status r = status_text s" "s \<in> {PPending, PAwaiting, PRejected}"
      "auto_accept_setting st = 1 \<or> pe_initiatedBy r = ''admin''"
      "pe_statusReason r \<noteq> Some ''denied_by_local_admin'' \<or> s \<noteq> PRejected"
    assume ap: "applyPeerTransition (in_peers st) (pe_id r) \<lparr>pt_from = [s], pt_expectSecret = Some (pe_hmacSecret r),
          pt_fields = their_fields secret body now, pt_to = ToActive c\<rparr>
      = ((in_peers st)\<lparr>pd_peers := tbl_update pe_id (pe_id r) (transition_row \<lparr>pt_from = [s], pt_expectSecret = Some (pe_hmacSecret r),
            pt_fields = their_fields secret body now, pt_to = ToActive c\<rparr> s) (pd_peers (in_peers st))\<rparr>,
         Applied s \<lparr>te_peerId = pe_id r, te_origin = pe_origin r, te_previous = Some s, te_next = Some PActive,
            te_reason = None, te_activation = Some c, te_exit = None, te_refusedContexts = None\<rparr>)"
    show ?thesis
      by (rule activate[OF DActivate r])
         (use DActivate r(1) ap in \<open>simp_all add: acceptDecided_def Let_def f[symmetric] accept_transition_def\<close>)
  qed
next
  case DRefuseExists
  show ?thesis
  proof (cases "peer_by_origin org (pd_peers (in_peers st))")
    case (Some r)
    show ?thesis
    proof (cases "epoch_differs (pe_peerInstanceId r) (ab_instanceId body)")
      case True
      then show ?thesis using Some DRefuseExists
        by (intro reset[of "pe_id r" "the (pe_peerInstanceId r)" "the (ab_instanceId body)"]) (simp_all add: acceptDecided_def Let_def)
    next
      case False
      then show ?thesis using Some DRefuseExists by (intro same) (simp_all add: acceptDecided_def Let_def)
    qed
  next
    case None
    then show ?thesis using DRefuseExists by (intro same) (simp_all add: acceptDecided_def Let_def)
  qed
qed (rule same, simp, simp add: acceptDecided_def Let_def)+

lemma peerAccept_cases:
  assumes "P st" and "\<And>org secret d. P (fst (acceptDecided st org secret body d i tok now))"
  shows "P (fst (peerAccept url_of limited st body i tok now))"
  using assms by (auto simp: peerAccept_def split: option.split)

text \<open>
  C2. A handshake nobody has authenticated cannot take over a peering. Whatever \<open>POST /peer/accept\<close> is
  sent, every row that is active, unreachable, needs attention or is revoked keeps its secrets, its
  trusted epoch and its provenance; the most the request can do to it is to park it for an admin.
\<close>

theorem accept_never_rekeys:
  assumes "in_ok st" and "i \<notin> peer_ids st"
  shows "credentials ` {r \<in> set (pd_peers (in_peers st)). settled_row r}
    \<subseteq> credentials ` {r \<in> set (pd_peers (in_peers (fst (peerAccept url_of limited st body i tok now)))). settled_row r}"
proof -
  have decided: "credentials ` {r \<in> set (pd_peers (in_peers st)). settled_row r}
    \<subseteq> credentials ` {r \<in> set (pd_peers (in_peers (fst (acceptDecided st org secret body d i tok now)))). settled_row r}" for org secret d
  proof (rule accept_rows[OF assms(1), where org = org and body = body and secret = secret and i = i and now = now and d = d and tok = tok])
    fix row assume "pd_peers (in_peers (fst (acceptDecided st org secret body d i tok now))) = pd_peers (in_peers st) @ [row]"
    then show ?thesis by auto
  next
    fix r s c
    assume a: "r \<in> set (pd_peers (in_peers st))" "pe_status r = status_text s" "s \<in> {PPending, PAwaiting, PRejected}"
      "pd_peers (in_peers (fst (acceptDecided st org secret body d i tok now)))
        = tbl_update pe_id (pe_id r) (transition_row (accept_transition secret body now r s c) s) (pd_peers (in_peers st))"
    have other: "pe_id q \<noteq> pe_id r" if "q \<in> set (pd_peers (in_peers st))" "settled_row q" for q
    proof
      assume "pe_id q = pe_id r"
      then have "q = r" using a(1) that(1) ids_okD[OF assms(1)] by (simp add: ids_ok_def distinct_map inj_on_def)
      then show False using that(2) a(2,3) by (auto simp: settled_row_def)
    qed
    show ?thesis unfolding a(4) tbl_update_def using other by force
  next
    fix p e e'
    assume eq: "in_peers (fst (acceptDecided st org secret body d i tok now)) = in_peers (markPeerReset st p org d e e' now)"
    show ?thesis
    proof (rule markPeerReset_rows[OF assms(1), where i = p and org = org and d = d and e = e and e' = e' and now = now])
      assume "in_peers (markPeerReset st p org d e e' now) = in_peers st"
      then show ?thesis by (simp add: eq)
    next
      fix q s t
      assume h: "target_status (pt_to t) = PNeedsAttention" "\<And>s r. credentials (transition_row t s r) = credentials r"
        "in_peers (markPeerReset st p org d e e' now) = transitioned (in_peers st) p t s"
      have "credentials x \<in> credentials ` {r \<in> set (pd_peers (transitioned (in_peers st) p t s)). settled_row r}"
        if "x \<in> set (pd_peers (in_peers st))" "settled_row x" for x
      proof -
        let ?y = "if pe_id x = p then transition_row t s x else x"
        have "?y \<in> set (pd_peers (transitioned (in_peers st) p t s))"
          using that(1) by (simp add: transitioned_def tbl_update_def)
        moreover have "settled_row ?y" using that(2) h(1) by (auto simp: settled_row_def)
        moreover have "credentials x = credentials ?y" by (simp add: h(2))
        ultimately show ?thesis by (intro image_eqI[of _ _ ?y]) simp_all
      qed
      then show ?thesis unfolding eq h(3) by blast
    qed
  next
    assume "in_peers (fst (acceptDecided st org secret body d i tok now)) = in_peers st"
    then show ?thesis by simp
  qed
  show ?thesis by (rule peerAccept_cases, rule subset_refl, rule decided)
qed

lemma accept_never_rekeys_witness:
  "(''1'', ''https://b.example'', ''secret'', None, Some ''epoch-b'', ''remote'') \<in>
     credentials ` {r \<in> set (pd_peers (in_peers (fst (peerAccept https_url False contacted
        (first_contact\<lparr>ab_hmacSecret := Some (WStr ''stolen''), ab_instanceId := Some ''epoch-x''\<rparr>) ''2'' ''tok'' 9)))). settled_row r}"
proof -
  note ok = contacted_ok
  have rows: "pd_peers (in_peers contacted) = [new_peer_row \<lparr>np_origin = ''https://b.example'', np_hmacSecret = ''secret'',
      np_initiatedBy = ''remote'', np_instanceName = Some ''B'', np_peerInstanceId = Some ''epoch-b'', np_lastSeenAt = Some 5,
      np_status = NewActive Accept_new\<rparr> ''1'' 5]"
    by (simp add: contacted_def peerAccept_def first_contact_def https_url_def starts_with_def validateOrigin_def
        acceptDecided_def accept_decision_def decideInboundHandshake_def fresh_instance_def auto_accept_setting_def
        given_def peer_by_origin_def insertPeer_def Let_def)
  have "''2'' \<notin> peer_ids contacted" by (simp add: rows new_peer_row_def)
  from accept_never_rekeys[OF ok this, of https_url False "first_contact\<lparr>ab_hmacSecret := Some (WStr ''stolen''), ab_instanceId := Some ''epoch-x''\<rparr>" "''tok''" 9]
  show ?thesis by (rule subsetD) (auto simp: rows credentials_def new_peer_row_def settled_row_def image_iff)
qed

text \<open>
  C25. With automatic acceptance off, a handshake from outside makes a row active only if a local admin had
  authorised that peering and had not denied it: no new row, and no row local traffic or the remote
  created, is activated.
\<close>

theorem accept_needs_admin:
  assumes "in_ok st" and "auto_accept_setting st \<noteq> 1"
  shows "pe_id ` {r \<in> set (pd_peers (in_peers (fst (peerAccept url_of limited st body i tok now)))). pe_status r = ''active''}
    \<subseteq> pe_id ` {r \<in> set (pd_peers (in_peers st)). pe_status r = ''active'' \<or>
        (pe_initiatedBy r = ''admin'' \<and> pe_status r \<in> {''pending'', ''awaiting_approval'', ''rejected''}
         \<and> (pe_status r, pe_statusReason r) \<noteq> (''rejected'', Some ''denied_by_local_admin''))}"
    (is "_ \<subseteq> pe_id ` ?allowed")
proof -
  have decided: "pe_id ` {r \<in> set (pd_peers (in_peers (fst (acceptDecided st org secret body d i tok now)))). pe_status r = ''active''}
      \<subseteq> pe_id ` ?allowed" for org secret d
  proof (rule accept_rows[OF assms(1), where org = org and body = body and secret = secret and i = i and now = now and d = d and tok = tok])
    assume "auto_accept_setting st = 1"
    then show ?thesis using assms(2) by simp
  next
    fix r s c
    assume a: "r \<in> set (pd_peers (in_peers st))" "pe_status r = status_text s" "s \<in> {PPending, PAwaiting, PRejected}"
      "auto_accept_setting st = 1 \<or> pe_initiatedBy r = ''admin''"
      "pe_statusReason r \<noteq> Some ''denied_by_local_admin'' \<or> s \<noteq> PRejected"
      "pd_peers (in_peers (fst (acceptDecided st org secret body d i tok now)))
        = tbl_update pe_id (pe_id r) (transition_row (accept_transition secret body now r s c) s) (pd_peers (in_peers st))"
    have "r \<in> ?allowed" using a(1-5) assms(2) by auto
    then have "pe_id r \<in> pe_id ` ?allowed" by (rule imageI)
    then show ?thesis unfolding a(6) tbl_update_def by auto
  next
    fix p e e'
    assume eq: "in_peers (fst (acceptDecided st org secret body d i tok now)) = in_peers (markPeerReset st p org d e e' now)"
    show ?thesis
    proof (rule markPeerReset_rows[OF assms(1), where i = p and org = org and d = d and e = e and e' = e' and now = now])
      fix q s t
      assume h: "target_status (pt_to t) = PNeedsAttention"
        "in_peers (markPeerReset st p org d e e' now) = transitioned (in_peers st) p t s"
      show ?thesis unfolding eq h(2) by (auto simp: transitioned_def tbl_update_def h(1) split: if_splits)
    qed (auto simp: eq)
  qed auto
  have "pe_id ` {r \<in> set (pd_peers (in_peers st)). pe_status r = ''active''} \<subseteq> pe_id ` ?allowed" by auto
  then show ?thesis by (rule peerAccept_cases) (rule decided)
qed

definition gated :: instance_state where
  "gated = (fresh_instance ''https://a.example'' (Some 0))\<lparr>in_peers := \<lparr>pd_peers = [pending_row], pd_outbox = []\<rparr>\<rparr>"

lemma gated_ok: "in_ok gated"
  by (simp add: gated_def peers_ok_def ids_ok_def peer_ok_def peerStatusOf_def PEER_STATUSES_def pending_row_def new_peer_row_def)

lemma accept_needs_admin_witness:
  "pe_id ` {r \<in> set (pd_peers (in_peers (fst (peerAccept https_url False gated
      (first_contact\<lparr>ab_sourceOrigin := Some (WStr ''https://c.example'')\<rparr>) ''9'' ''tok'' 9)))). pe_status r = ''active''} \<subseteq> {''7''}"
proof -
  have "auto_accept_setting gated \<noteq> 1" by (simp add: gated_def fresh_instance_def auto_accept_setting_def given_def)
  note a = accept_needs_admin[OF gated_ok this]
  show ?thesis by (rule order_trans[OF a]) (auto simp: gated_def pending_row_def new_peer_row_def)
qed

text \<open>What a decision tells the remote, and what the remote's half makes of it.\<close>

fun answer_of :: "instance_state \<Rightarrow> string \<Rightarrow> InboundHandshakeDecision \<Rightarrow> AcceptAnswer" where
  "answer_of st tok DCreate = AAccepted (if truthy (in_instanceName st) then in_instanceName st else None)
      (if in_instanceId st = [] then None else Some (in_instanceId st))"
| "answer_of st tok (DActivate _ _) = AAccepted (if truthy (in_instanceName st) then in_instanceName st else None)
      (if in_instanceId st = [] then None else Some (in_instanceId st))"
| "answer_of st tok DQueue = AQueued (if tok = [] then None else Some tok)"
| "answer_of st tok DRefuseExists = AExists
      ''This instance already holds peering for you; its admin must reset that peering before a new handshake can be accepted.''"
| "answer_of st tok DRefuseRevoked = ARefused Revoked_by_remote ''Peering with this instance has been revoked''"
| "answer_of st tok DRefuseDenied = ARefused Denied_by_remote ''This instance requires manual peering approval''"
| "answer_of st tok DRefuseInProgress = AInProgress ''This instance is completing its own peering handshake with you''"

text \<open>
  The two halves of the handshake understand each other: what an instance decides about a handshake is
  what the instance that sent it reads from the reply, for every decision.
\<close>

theorem decision_reaches_sender:
  assumes "in_ok st"
  shows "interpretAcceptAnswer (fst (snd (acceptDecided st org secret body d i tok now)))
      (snd (snd (acceptDecided st org secret body d i tok now)))
    = answer_of st tok (accept_decision st org (ab_approvalToken body))"
proof -
  have acc: "interpretAcceptAnswer (fst (accepted_reply st)) (snd (accepted_reply st)) = answer_of st tok DCreate"
    by (cases "in_instanceName st") (auto simp: interpretAcceptAnswer_def accepted_reply_def opt_wire_def)
  show ?thesis
  proof (cases "accept_decision st org (ab_approvalToken body)")
    case DCreate
    then have "peer_by_origin org (pd_peers (in_peers st)) = None" by (simp add: accept_decision_def decide_create)
    with DCreate acc show ?thesis by (simp add: acceptDecided_def insertPeer_def Let_def)
  next
    case (DActivate s c)
    have f: "their_fields secret body now = no_fields\<lparr>pf_hmacSecret := Some secret, pf_instanceName := Some (ab_instanceName body),
       pf_peerInstanceId := Some (ab_instanceId body), pf_lastSeenAt := Some (Some now), pf_approvalToken := Some None\<rparr>"
      by (rule their_fields_def)
    show ?thesis
      by (rule accept_activates[OF assms DActivate f])
         (use acc DActivate in \<open>simp add: acceptDecided_def Let_def f[symmetric]\<close>)
  qed (simp_all add: acceptDecided_def Let_def interpretAcceptAnswer_def queueApprovalRequest_def exists_reply_def coded_reply_def
      in_progress_reply_def given_def)
qed

lemma decision_reaches_sender_witness:
  "interpretAcceptAnswer (fst (snd (acceptDecided gated ''https://c.example'' ''s'' first_contact ''c.example'' ''9'' ''tok'' 9)))
      (snd (snd (acceptDecided gated ''https://c.example'' ''s'' first_contact ''c.example'' ''9'' ''tok'' 9)))
    = AQueued (Some ''tok'')"
  using decision_reaches_sender[OF gated_ok, of "''https://c.example''" "''s''" first_contact "''c.example''" "''9''" "''tok''" 9]
  by (simp add: accept_decision_def decideInboundHandshake_def gated_def fresh_instance_def auto_accept_setting_def given_def
      peer_by_origin_def pending_row_def new_peer_row_def)

lemma handshake_row:
  assumes "ids_ok db" and "peer_get (ho_peerId opts) (pd_peers db) = Some r" and "pe_status r = ''pending''"
    and "pe_hmacSecret r = ho_hmacSecret opts"
  shows "stillOurs opts (readPeerState db (ho_peerId opts))"
    and "\<exists>w. activateVerified db opts (ho_hmacSecret opts) e n PPending c now =
      (db\<lparr>pd_peers := tbl_update pe_id (ho_peerId opts) (transition_row \<lparr>pt_from = [PPending], pt_expectSecret = Some (ho_hmacSecret opts),
          pt_fields = w, pt_to = ToActive c\<rparr> PPending) (pd_peers db)\<rparr>, True) \<and> pf_hmacSecret w = Some (ho_hmacSecret opts)"
proof -
  show "stillOurs opts (readPeerState db (ho_peerId opts))"
    using assms by (simp add: stillOurs_def readPeerState_def snapshot_def peerStatusOf_text)
  define w where "w = no_fields\<lparr>pf_hmacSecret := Some (ho_hmacSecret opts), pf_lastSeenAt := Some (Some now),
          pf_peerInstanceId := Some (Some e), pf_approvalToken := Some None,
          pf_instanceName := (case n of None \<Rightarrow> None | Some n \<Rightarrow> Some (Some n))\<rparr>"
  let ?t = "\<lparr>pt_from = [PPending], pt_expectSecret = Some (ho_hmacSecret opts), pt_fields = w, pt_to = ToActive c\<rparr>"
  have "transition_hits db (ho_peerId opts) ?t r PPending"
    using assms by (simp add: transition_hits_def secret_ok_def)
  note h = apply_hit[OF assms(1) this]
  have "transitioned db (ho_peerId opts) ?t PPending
      = db\<lparr>pd_peers := tbl_update pe_id (ho_peerId opts) (transition_row ?t PPending) (pd_peers db)\<rparr>"
    by (simp add: transitioned_def enters_refusal_def)
  with h have "activateVerified db opts (ho_hmacSecret opts) e n PPending c now =
      (db\<lparr>pd_peers := tbl_update pe_id (ho_peerId opts) (transition_row ?t PPending) (pd_peers db)\<rparr>, True)"
    by (simp add: activateVerified_def w_def)
  then show "\<exists>w. activateVerified db opts (ho_hmacSecret opts) e n PPending c now =
      (db\<lparr>pd_peers := tbl_update pe_id (ho_peerId opts) (transition_row \<lparr>pt_from = [PPending], pt_expectSecret = Some (ho_hmacSecret opts),
          pt_fields = w, pt_to = ToActive c\<rparr> PPending) (pd_peers db)\<rparr>, True) \<and> pf_hmacSecret w = Some (ho_hmacSecret opts)"
    by (intro exI[of _ w] conjI) (auto simp: w_def)
qed

text \<open>The pairs of origin and secret an instance has an active peering on.\<close>

definition peered_on :: "peer_db \<Rightarrow> (origin \<times> string) set" where
  "peered_on db = (\<lambda>r. (pe_origin r, pe_hmacSecret r)) ` {r \<in> set (pd_peers db). pe_status r = ''active''}"

lemma peered_onI:
  "r \<in> set (pd_peers db) \<Longrightarrow> (pe_origin r, pe_hmacSecret r, pe_status r) = (org, sec, ''active'') \<Longrightarrow> (org, sec) \<in> peered_on db"
  by (force simp: peered_on_def)

lemma peerStatusOf_known: "peerStatusOf r = s \<Longrightarrow> s \<noteq> PNeedsAttention \<Longrightarrow> pe_status r = status_text s"
  using peerStatusOf_unknown[of r] peerStatusOf_text[of r] by fastforce

text \<open>
  C22. A handshake that is accepted and proved completes on both sides with one secret: when the remote
  decides to create or activate its row and the signed check succeeds, the sender's row and the remote's
  row are both active, each for the other's origin, and both hold the secret that was sent.
\<close>

theorem handshake_completes:
  assumes "in_ok a" and "in_ok b"
    and row: "peer_get (ho_peerId opts) (pd_peers (in_peers a)) = Some r"
    and pend: "(pe_status r, pe_hmacSecret r, pe_origin r) = (''pending'', ho_hmacSecret opts, in_ourOrigin b)"
    and dec: "accept_decision b (in_ourOrigin a) (ab_approvalToken body) \<in> {DCreate} \<union> {DActivate s c | s c. True}"
  shows "case acceptDecided b (in_ourOrigin a) (ho_hmacSecret opts) body d i tok now of (b1, status, reply) \<Rightarrow>
    (case handshakeAnswered (in_peers a) opts (interpretAcceptAnswer status reply) of (a1, step) \<Rightarrow>
      a1 = in_peers a \<and> step \<in> range HProbeAccepted \<and>
      (case settleAccepted a1 opts name (Verified epoch) now' of (a2, result) \<Rightarrow>
        result = HActive (ho_peerId opts) True \<and> (in_ourOrigin b, ho_hmacSecret opts) \<in> peered_on a2
        \<and> (in_ourOrigin a, ho_hmacSecret opts) \<in> peered_on (in_peers b1)))"
proof -
  let ?sec = "ho_hmacSecret opts"
  let ?res = "acceptDecided b (in_ourOrigin a) ?sec body d i tok now"
  have remote: "(in_ourOrigin a, ?sec) \<in> peered_on (in_peers (fst ?res)) \<and> snd ?res = accepted_reply b"
  proof (rule accept_rows[OF assms(2), where org = "in_ourOrigin a" and body = body and secret = ?sec and i = i and now = now and d = d and tok = tok])
    fix q assume "q = new_peer_row \<lparr>np_origin = in_ourOrigin a, np_hmacSecret = ?sec, np_initiatedBy = ''remote'',
        np_instanceName = ab_instanceName body, np_peerInstanceId = ab_instanceId body, np_lastSeenAt = Some now,
        np_status = NewActive Accept_new\<rparr> i now"
      "pd_peers (in_peers (fst ?res)) = pd_peers (in_peers b) @ [q]" "snd ?res = accepted_reply b"
    then show ?thesis by (auto intro!: peered_onI[of q] simp: new_peer_row_def)
  next
    fix q s c
    assume q: "peer_by_origin (in_ourOrigin a) (pd_peers (in_peers b)) = Some q" "q \<in> set (pd_peers (in_peers b))"
      "pd_peers (in_peers (fst ?res)) = tbl_update pe_id (pe_id q) (transition_row (accept_transition ?sec body now q s c) s) (pd_peers (in_peers b))"
      "snd ?res = accepted_reply b"
    let ?q = "transition_row (accept_transition ?sec body now q s c) s q"
    have "?q \<in> set (pd_peers (in_peers (fst ?res)))"
      using q(2) by (force simp: q(3) tbl_update_def)
    moreover have "(pe_origin ?q, pe_hmacSecret ?q, pe_status ?q) = (in_ourOrigin a, ?sec, ''active'')"
      using by_origin_mem[OF q(1)] by (simp add: accept_transition_def their_fields_def given_def)
    ultimately show ?thesis using q(4) by (auto intro: peered_onI)
  qed (use dec in auto)
  have ans: "interpretAcceptAnswer (fst (snd ?res)) (snd (snd ?res)) \<in> range (case_prod AAccepted)"
    using remote by (auto simp: interpretAcceptAnswer_def accepted_reply_def)
  obtain n m where n: "interpretAcceptAnswer (fst (snd ?res)) (snd (snd ?res)) = AAccepted n m"
    using ans by auto
  obtain w where w: "activateVerified (in_peers a) opts ?sec epoch name PPending (ho_activation opts) now'
      = ((in_peers a)\<lparr>pd_peers := tbl_update pe_id (ho_peerId opts) (transition_row \<lparr>pt_from = [PPending], pt_expectSecret = Some ?sec,
          pt_fields = w, pt_to = ToActive (ho_activation opts)\<rparr> PPending) (pd_peers (in_peers a))\<rparr>, True)"
      and wh: "pf_hmacSecret w = Some ?sec"
    using handshake_row(2)[OF ids_okD[OF assms(1)] row] pend by (metis prod.inject)
  have still: "stillOurs opts (readPeerState (in_peers a) (ho_peerId opts))"
    using handshake_row(1)[OF ids_okD[OF assms(1)] row] pend by simp
  have mem: "r \<in> set (pd_peers (in_peers a))" "pe_id r = ho_peerId opts"
    using row ids_okD[OF assms(1)] by (simp_all add: peer_get_iff)
  have set: "settleAccepted (in_peers a) opts name (Verified epoch) now'
      = (fst (activateVerified (in_peers a) opts ?sec epoch name PPending (ho_activation opts) now'), HActive (ho_peerId opts) True)"
    using still w by (simp add: settleAccepted_def Let_def)
  let ?r = "transition_row \<lparr>pt_from = [PPending], pt_expectSecret = Some ?sec, pt_fields = w, pt_to = ToActive (ho_activation opts)\<rparr> PPending r"
  have "?r \<in> set (pd_peers (fst (settleAccepted (in_peers a) opts name (Verified epoch) now')))"
    using mem by (force simp: set w tbl_update_def)
  moreover have "(pe_origin ?r, pe_hmacSecret ?r, pe_status ?r) = (in_ourOrigin b, ?sec, ''active'')"
    using pend wh by (simp add: given_def)
  ultimately have "(in_ourOrigin b, ?sec) \<in> peered_on (fst (settleAccepted (in_peers a) opts name (Verified epoch) now'))"
    by (rule peered_onI)
  with remote n set show ?thesis
    by (simp add: case_prod_beta handshakeAnswered_def Let_def)
qed

text \<open>
  C27. When two instances handshake with each other at the same moment, both with their own request in
  flight and both willing, exactly one of the two requests is taken: the one started by the lower origin.
\<close>

theorem simultaneous_one_wins:
  assumes "ih_ourOrigin x = ih_sourceOrigin y" and "ih_ourOrigin y = ih_sourceOrigin x" and "ih_ourOrigin x < ih_ourOrigin y"
    and "ih_ownHandshakeInFlight x \<and> ih_ownHandshakeInFlight y"
    and "ih_row x = Some rx" and "ih_row y = Some ry" and "pe_status rx = ''pending''" and "pe_status ry = ''pending''"
    and "ih_autoAccept x \<or> pe_initiatedBy rx = ''admin''" and "ih_autoAccept y \<or> pe_initiatedBy ry = ''admin''"
  shows "decideInboundHandshake x = DRefuseInProgress \<and> decideInboundHandshake y = DActivate PPending Accept_pending"
proof -
  have "peerStatusOf rx = PPending" "peerStatusOf ry = PPending"
    using assms(7,8) by (auto intro: peerStatusOf_text)
  moreover have "\<not> ih_ourOrigin y < ih_sourceOrigin y" using assms(1,3) by simp
  ultimately show ?thesis using assms by (auto simp: decideInboundHandshake_def acceptUncompleted_def)
qed

text \<open>
  C26. With automatic peering off, this instance offers its secret to an origin only on a row an admin
  authorised: \<open>ensurePeered\<close> starts a handshake only on such a pending row, creates no row, and the outbox
  gets no placeholder.
\<close>

theorem outbound_needs_admin:
  assumes "auto_accept_setting st = 0"
  shows "snd (ensurePeered st raw normalized intent s fresh now) \<in> range ESettled \<union> {EShared} \<union>
      {EHandshake opts | opts r. r \<in> set (pd_peers (in_peers st)) \<and> pe_id r = ho_peerId opts \<and> pe_hmacSecret r = ho_hmacSecret opts
         \<and> pe_status r = ''pending'' \<and> pe_initiatedBy r = ''admin''}
    \<and> pe_id ` set (pd_peers (in_peers (fst (ensurePeered st raw normalized intent s fresh now)))) \<subseteq> peer_ids st
    \<and> createAutoPlaceholderPeer st org s' j now' = (st, None, None)"
proof -
  have "snd (ensurePeered st raw normalized intent s fresh now) \<in> range ESettled \<union> {EShared} \<union>
      {EHandshake opts | opts r. r \<in> set (pd_peers (in_peers st)) \<and> pe_id r = ho_peerId opts \<and> pe_hmacSecret r = ho_hmacSecret opts
         \<and> pe_status r = ''pending'' \<and> pe_initiatedBy r = ''admin''}
    \<and> pe_id ` set (pd_peers (in_peers (fst (ensurePeered st raw normalized intent s fresh now)))) \<subseteq> peer_ids st"
  proof (cases normalized)
    case None
    then show ?thesis by (simp add: ensurePeered_def)
  next
    case (Some org)
    let ?ex = "peer_by_origin org (pd_peers (in_peers st))"
    show ?thesis
    proof (cases "org = in_ourOrigin st")
      case True
      then show ?thesis by (simp add: ensurePeered_def Some)
    next
      case False
      show ?thesis
      proof (cases ?ex)
        case None
        have "in_peers (fst (case intent of UserAction u r t \<Rightarrow> (queueOutboundApproval st org u r t i j now, x) | SystemIntent \<Rightarrow> (st, y))) = in_peers st" for i j x y
          by (cases intent) simp_all
        then show ?thesis
          using None False assms by (cases intent) (simp_all add: ensurePeered_def Some)
      next
        case ex: (Some r)
        have mem: "r \<in> set (pd_peers (in_peers st))" using by_origin_mem[OF ex] by simp
        have rem: "pe_id ` set (pd_peers (fst (removePeer (in_peers st) i fs u))) \<subseteq> peer_ids st" for i fs u
          using removePeer_ids[of "in_peers st" i fs u] by (simp add: prod_eq_iff)
        show ?thesis
        proof (cases "settledResultFor r")
          case None
          then have "peerStatusOf r = PPending" by (simp add: settledResultFor_def split: FederationPeerStatus.split_asm)
          then have "pe_status r = ''pending''" using peerStatusOf_known[of r PPending] by simp
          moreover have "insertPeer (in_peers st) v i now = None" if "np_origin v = org" for v i
            using that ex by (simp add: insertPeer_def)
          ultimately show ?thesis
            using ex None False assms mem rem
            by (cases intent) (auto simp: ensurePeered_def Some ungated_placeholder_def performHandshake_def Let_def)
        qed (use False ex in \<open>simp add: ensurePeered_def Some\<close>)
      qed
    qed
  qed
  moreover have "createAutoPlaceholderPeer st org s' j now' = (st, None, None)"
    using assms by (simp add: createAutoPlaceholderPeer_def)
  ultimately show ?thesis by blast
qed

section \<open>Where the code falls short\<close>

text \<open>
  A row whose status text is none of the seven is read as needing an admin's attention, but nothing can
  move it: every compare-and-set compares the stored text, no delete matches it, the reset and delete
  routes refuse it, and revoking reports success without an effect.
\<close>

theorem unknown_status_is_stuck:
  assumes "ids_ok (in_peers st)" and "peer_get i (pd_peers (in_peers st)) = Some r" and "pe_status r \<notin> range status_text"
  shows "peerStatusOf r = PNeedsAttention
    \<and> fst (applyPeerTransition (in_peers st) i t) = in_peers st \<and> \<not> is_applied (snd (applyPeerTransition (in_peers st) i t))
    \<and> removePeer (in_peers st) i fs u = (in_peers st, None)
    \<and> revokePeer st i = (st, success)
    \<and> (fst (resetPeer st i), fst (snd (resetPeer st i))) = (st, 400)
    \<and> (fst (deletePeerPermanently st i), fst (snd (deletePeerPermanently st i))) = (st, 400)"
proof -
  have miss: "\<not> transition_hits (in_peers st) i t q s" for t q s
    using assms(2,3) by (auto simp: transition_hits_def)
  have ap: "applyPeerTransition (in_peers st) i t = (in_peers st, NotApplied (readPeerState (in_peers st) i))" for t
    by (rule apply_miss[OF assms(1) miss])
  have only: "q = r" if "q \<in> set (pd_peers (in_peers st))" "pe_id q = i" for q
    using that assms(1,2) by (metis peer_get_iff option.inject)
  have "\<not> (\<exists>q\<in>set (pd_peers (in_peers st)). pe_id q = i \<and> pe_status q \<in> set (map status_text fs))"
    using only assms(3) by auto
  then have rm: "removePeer (in_peers st) i fs u = (in_peers st, None)"
    by (auto simp: removePeer_def Let_def list_ex_iff split: option.split)
  have "pe_status r \<noteq> status_text s" for s using assms(3) by blast
  from this[of PNeedsAttention] this[of PRevoked] this[of PRejected] show ?thesis
    using peerStatusOf_unknown[OF assms(3)] ap rm assms(2)
    by (simp add: revokePeer_def resetPeer_def deletePeerPermanently_def error_reply_def)
qed

definition odd_state :: instance_state where
  "odd_state = gated\<lparr>in_peers := \<lparr>pd_peers = [pending_row\<lparr>pe_status := ''paused''\<rparr>], pd_outbox = []\<rparr>\<rparr>"

lemma unknown_status_is_stuck_witness:
  "revokePeer odd_state ''7'' = (odd_state, success)
   \<and> removePeer (in_peers odd_state) ''7'' [PNeedsAttention] False = (in_peers odd_state, None)"
proof -
  have "''paused'' \<notin> range status_text"
  proof
    assume "''paused'' \<in> range status_text"
    then obtain s where "''paused'' = status_text s" by auto
    then show False by (cases s) simp_all
  qed
  then have "pe_status (pending_row\<lparr>pe_status := ''paused''\<rparr>) \<notin> range status_text" by simp
  moreover have "ids_ok (in_peers odd_state)" by (simp add: odd_state_def ids_ok_def)
  moreover have "peer_get ''7'' (pd_peers (in_peers odd_state)) = Some (pending_row\<lparr>pe_status := ''paused''\<rparr>)"
    by (simp add: odd_state_def peer_get_def pending_row_def new_peer_row_def)
  ultimately show ?thesis using unknown_status_is_stuck[where st = odd_state] by blast
qed

text \<open>
  When the remote's admin approves and its handshake activates our waiting row, the users here who had
  asked for that peering are never told: the route deletes their request, and its subscribers with it,
  before the fan-out of the activation looks for it.
\<close>

theorem mutual_approval_forgets_subscribers:
  assumes "in_ok st" and "accept_decision st org (ab_approvalToken body) = DActivate PAwaiting c"
    and "peer_by_origin org (pd_peers (in_peers st)) = Some r"
  shows "case acceptDecided st org secret body d i tok now of (st1, reply) \<Rightarrow>
      (org, secret) \<in> peered_on (in_peers st1) \<and> reply = accepted_reply st
      \<and> fanoutOutboundSubscribers st1 (pe_id r) fresh now' = st1 \<and> in_notifications st1 = in_notifications st
      \<and> in_subscribers st1 = filter (\<lambda>s. su_requestId s \<notin> ar_id ` {q \<in> set (in_requests st). ar_origin q = org}) (in_subscribers st)"
proof -
  have f: "their_fields secret body now = no_fields\<lparr>pf_hmacSecret := Some secret, pf_instanceName := Some (ab_instanceName body),
     pf_peerInstanceId := Some (ab_instanceId body), pf_lastSeenAt := Some (Some now), pf_approvalToken := Some None\<rparr>"
    by (rule their_fields_def)
  let ?t = "\<lparr>pt_from = [PAwaiting], pt_expectSecret = Some (pe_hmacSecret r), pt_fields = their_fields secret body now, pt_to = ToActive c\<rparr>"
  let ?db = "(in_peers st)\<lparr>pd_peers := tbl_update pe_id (pe_id r) (transition_row ?t PAwaiting) (pd_peers (in_peers st))\<rparr>"
  let ?st1 = "delete_requests (\<lambda>q. ar_origin q = org) (st\<lparr>in_peers := ?db\<rparr>)"
  obtain e where ap: "applyPeerTransition (in_peers st) (pe_id r) ?t = (?db, Applied PAwaiting e)"
    by (rule accept_activates[OF assms(1,2) f]) (use assms(3) in auto)
  have run: "acceptDecided st org secret body d i tok now = (?st1, accepted_reply st)"
    using ap assms(2,3) by (simp add: acceptDecided_def Let_def f[symmetric])
  have r: "r \<in> set (pd_peers (in_peers st))" "pe_origin r = org" using by_origin_mem[OF assms(3)] by auto
  have "transition_row ?t PAwaiting r \<in> set (pd_peers ?db)" using r(1) by (force simp: tbl_update_def)
  then have on: "(org, secret) \<in> peered_on ?db"
    by (rule peered_onI) (simp add: r(2) their_fields_def given_def)
  have none: "request_for ?st1 o' ''outbound'' = None" if "o' = org" for o'
    unfolding request_for_def delete_requests_def using that by (auto simp: find_None_iff)
  have "peer_get (pe_id r) (pd_peers (in_peers st)) = Some r"
    using r(1) ids_okD[OF assms(1)] by (simp add: peer_get_iff)
  then have "peer_get (pe_id r) (pd_peers ?db) = Some (transition_row ?t PAwaiting r)"
    using peers_by_id.update_same[of "transition_row ?t PAwaiting" "pe_id r" "pd_peers (in_peers st)" r] by (simp add: peer_get_def)
  then have "fanoutOutboundSubscribers ?st1 (pe_id r) fresh now' = ?st1"
    using none[of "pe_origin (transition_row ?t PAwaiting r)"] r(2) by (simp add: fanoutOutboundSubscribers_def)
  moreover have "in_subscribers ?st1
      = filter (\<lambda>s. su_requestId s \<notin> ar_id ` {q \<in> set (in_requests st). ar_origin q = org}) (in_subscribers st)"
    unfolding delete_requests_def by (simp, rule filter_cong) (auto simp: list_ex_iff image_iff)
  moreover have "in_notifications ?st1 = in_notifications st" by (simp add: delete_requests_def)
  ultimately show ?thesis using on by (simp add: run)
qed

text \<open>
  A remote's request to peer is lost behind a local one: while an outbound request for the origin is
  open, \<open>queueApprovalRequest\<close> writes the remote's secret and token into that row, which stays outbound, so
  the gate and the admin's queue see no inbound request at all.
\<close>

theorem inbound_request_swallowed:
  assumes "request_for st org ''inbound'' = None" and "find (\<lambda>q. ar_origin q = org) (in_requests st) = Some q"
  shows "request_for (fst (queueApprovalRequest st org secret name tok i now)) org ''inbound'' = None
    \<and> map ar_direction (in_requests (fst (queueApprovalRequest st org secret name tok i now))) = map ar_direction (in_requests st)
    \<and> fst (snd (queueApprovalRequest st org secret name tok i now)) = 202"
proof -
  obtain g where g: "in_requests (fst (queueApprovalRequest st org secret name tok i now)) = map g (in_requests st)"
      "\<And>x. ar_origin (g x) = ar_origin x \<and> ar_direction (g x) = ar_direction x"
  proof
    show "in_requests (fst (queueApprovalRequest st org secret name tok i now))
      = map (\<lambda>x. if ar_id x = ar_id q then x\<lparr>ar_instanceName := name, ar_hmacSecret := Some secret, ar_requestedAt := now,
      ar_expiresAt := now + THIRTY_DAYS_MS, ar_approvalToken := Some tok\<rparr> else x) (in_requests st)"
      using assms(2) by (simp add: queueApprovalRequest_def)
  qed simp
  have "find (\<lambda>x. ar_origin x = org \<and> ar_direction x = ''inbound'') (map g rows)
      = map_option g (find (\<lambda>x. ar_origin x = org \<and> ar_direction x = ''inbound'') rows)" for rows
    by (induction rows) (simp_all add: g(2))
  moreover have "fst (snd (queueApprovalRequest st org secret name tok i now)) = 202"
    by (simp add: queueApprovalRequest_def)
  ultimately show ?thesis
    using assms(1) by (simp add: request_for_def g comp_def)
qed

section \<open>Examples\<close>

lemma transition_is_cas_witness:
  "\<not> is_applied (snd (applyPeerTransition (in_peers gated) ''7''
      \<lparr>pt_from = [PPending], pt_expectSecret = Some ''theirs'', pt_fields = no_fields, pt_to = ToRevoked Admin_revoked\<rparr>))"
proof -
  have "ids_ok (in_peers gated)" using gated_ok by (rule ids_okD)
  from transition_is_cas[OF this, of "''7''" "\<lparr>pt_from = [PPending], pt_expectSecret = Some ''theirs'', pt_fields = no_fields, pt_to = ToRevoked Admin_revoked\<rparr>"]
  show ?thesis
    by (simp add: transition_hits_def secret_ok_def gated_def peer_get_def pending_row_def new_peer_row_def)
qed

definition waiting_row :: peer_row where
  "waiting_row = pending_row\<lparr>pe_status := ''awaiting_approval'', pe_approvalToken := Some ''tok''\<rparr>"

definition asked :: approval_row where
  "asked = \<lparr>ar_id = ''3'', ar_origin = ''https://b.example'', ar_direction = ''outbound'', ar_instanceName = None,
     ar_hmacSecret = None, ar_requestedAt = 0, ar_expiresAt = 9, ar_approvalToken = None\<rparr>"

definition waiting :: instance_state where
  "waiting = gated\<lparr>in_peers := \<lparr>pd_peers = [waiting_row], pd_outbox = []\<rparr>, in_requests := [asked],
     in_subscribers := [\<lparr>su_id = ''4'', su_requestId = ''3'', su_userId = ''u'', su_triggerReason = ''dm'',
        su_triggerTarget = ''t'', su_createdAt = 0\<rparr>]\<rparr>"

lemma waiting_ok: "in_ok waiting"
  by (simp add: waiting_def peers_ok_def ids_ok_def peer_ok_def peerStatusOf_def PEER_STATUSES_def waiting_row_def
      pending_row_def new_peer_row_def)

lemma mutual_approval_forgets_subscribers_witness:
  "in_subscribers (fst (acceptDecided waiting ''https://b.example'' ''new''
     (first_contact\<lparr>ab_approvalToken := Some ''tok''\<rparr>) ''b.example'' ''9'' ''x'' 9)) = []
   \<and> in_notifications (fst (acceptDecided waiting ''https://b.example'' ''new''
     (first_contact\<lparr>ab_approvalToken := Some ''tok''\<rparr>) ''b.example'' ''9'' ''x'' 9)) = []"
proof -
  let ?b = "first_contact\<lparr>ab_approvalToken := Some ''tok''\<rparr>"
  have dec: "accept_decision waiting ''https://b.example'' (ab_approvalToken ?b) = DActivate PAwaiting Accept_awaiting_approval"
    by (simp add: accept_decision_def decideInboundHandshake_def waiting_def gated_def fresh_instance_def peer_by_origin_def
        waiting_row_def pending_row_def new_peer_row_def peerStatusOf_def PEER_STATUSES_def)
  have row: "peer_by_origin ''https://b.example'' (pd_peers (in_peers waiting)) = Some waiting_row"
    by (simp add: waiting_def peer_by_origin_def waiting_row_def pending_row_def new_peer_row_def)
  have v: "in_notifications waiting = []"
    "filter (\<lambda>s. su_requestId s \<notin> ar_id ` {q \<in> set (in_requests waiting). ar_origin q = ''https://b.example''}) (in_subscribers waiting) = []"
    by (auto simp: waiting_def asked_def gated_def fresh_instance_def image_iff)
  from mutual_approval_forgets_subscribers[OF waiting_ok dec row, where secret = "''new''" and d = "''b.example''" and i = "''9''" and tok = "''x''" and now = 9]
  show ?thesis unfolding case_prod_beta v by blast
qed

lemma inbound_request_swallowed_witness:
  "request_for (fst (queueApprovalRequest waiting ''https://b.example'' ''s'' None ''tok'' ''9'' 5)) ''https://b.example'' ''inbound'' = None"
proof -
  have "request_for waiting ''https://b.example'' ''inbound'' = None"
    "find (\<lambda>q. ar_origin q = ''https://b.example'') (in_requests waiting) = Some asked"
    by (simp_all add: request_for_def waiting_def asked_def)
  from inbound_request_swallowed[OF this] show ?thesis by blast
qed

definition side :: "origin \<Rightarrow> origin \<Rightarrow> InboundHandshakeInput" where
  "side ours theirs = \<lparr>ih_row = Some pending_row, ih_autoAccept = True, ih_inboundToken = None,
     ih_ownHandshakeInFlight = True, ih_ourOrigin = ours, ih_sourceOrigin = theirs\<rparr>"

lemma simultaneous_one_wins_witness:
  "decideInboundHandshake (side ''https://a'' ''https://b'') = DRefuseInProgress
   \<and> decideInboundHandshake (side ''https://b'' ''https://a'') = DActivate PPending Accept_pending"
  by (rule simultaneous_one_wins[where rx = pending_row and ry = pending_row])
     (simp_all add: side_def pending_row_def new_peer_row_def)

lemma outbound_needs_admin_witness:
  "createAutoPlaceholderPeer gated ''https://c.example'' ''s'' ''9'' 5 = (gated, None, None)"
  using outbound_needs_admin[where st = gated] by (simp add: gated_def fresh_instance_def auto_accept_setting_def given_def)

lemma handshake_completes_witness:
  "(''https://a.example'', ''ours'') \<in> peered_on (in_peers (fst
      (acceptDecided (fresh_instance ''https://b.example'' None) ''https://a.example'' ''ours'' first_contact ''a'' ''9'' ''x'' 9)))"
proof -
  have row: "peer_get (ho_peerId pending_opts) (pd_peers (in_peers gated)) = Some pending_row"
    by (simp add: gated_def peer_get_def pending_opts_def pending_row_def new_peer_row_def)
  have pend: "(pe_status pending_row, pe_hmacSecret pending_row, pe_origin pending_row)
      = (''pending'', ho_hmacSecret pending_opts, in_ourOrigin (fresh_instance ''https://b.example'' None))"
    by (simp add: pending_row_def new_peer_row_def pending_opts_def fresh_instance_def)
  have dec: "accept_decision (fresh_instance ''https://b.example'' None) (in_ourOrigin gated) (ab_approvalToken first_contact)
      \<in> {DCreate} \<union> {DActivate s c | s c. True}"
    by (simp add: accept_decision_def decide_create fresh_instance_def peer_by_origin_def auto_accept_setting_def given_def)
  have o: "in_ourOrigin gated = ''https://a.example''" by (simp add: gated_def fresh_instance_def)
  have s: "ho_hmacSecret pending_opts = ''ours''" by (simp add: pending_opts_def)
  from handshake_completes[OF gated_ok fresh_instance_ok row pend dec, where d = "''a''" and i = "''9''" and tok = "''x''" and now = 9]
  show ?thesis by (simp add: case_prod_beta o s)
qed

end
