(* ===== verification/FedAuth.thy ===== *)
theory FedAuth
  imports OutboxWorker
begin

text \<open>
  \<open>packages/server/src/utils/federationAuth.ts\<close>: signing and verifying requests between instances,
  their headers, and the comparison of origins; and the secret rotation of the health check
  (\<open>federationWorker.ts\<close>), which decides how long each of a peer's two secrets verifies. HMAC-SHA256 is a
  parameter \<open>hmac\<close> (secret and text to a hex digest); so is the platform's \<open>Number\<close>.
\<close>

section \<open>Signatures\<close>

definition ROTATION_GRACE_PERIOD_MS :: int where
  "ROTATION_GRACE_PERIOD_MS = 15 * 60 * 1000"

definition DEFAULT_MAX_AGE_MS :: int where
  "DEFAULT_MAX_AGE_MS = 15 * 60 * 1000"

type_synonym hmac = "string \<Rightarrow> string \<Rightarrow> string"

definition signed_text :: "string \<Rightarrow> int \<Rightarrow> string option \<Rightarrow> string" where
  "signed_text body timestamp nonce =
    (if truthy nonce then int_text timestamp @ ''.'' @ the nonce @ ''.'' @ body
     else int_text timestamp @ ''.'' @ body)"

definition signRequest :: "hmac \<Rightarrow> string \<Rightarrow> string \<Rightarrow> int \<Rightarrow> string option \<Rightarrow> string" where
  "signRequest hmac body secret timestamp nonce = hmac secret (signed_text body timestamp nonce)"

text \<open>\<open>Buffer.from(s, 'hex')\<close>: pairs of digits up to the first that is none.\<close>

fun hex_bytes :: "string \<Rightarrow> nat list" where
  "hex_bytes (a # b # s) = (case (hex_val a, hex_val b) of
     (Some x, Some y) \<Rightarrow> (16 * x + y) # hex_bytes s | _ \<Rightarrow> [])"
| "hex_bytes _ = []"

definition verifySignature ::
  "hmac \<Rightarrow> string \<Rightarrow> string \<Rightarrow> string \<Rightarrow> int \<Rightarrow> string option \<Rightarrow> int \<Rightarrow> millis \<Rightarrow> bool" where
  "verifySignature hmac body signature secret timestamp nonce maxAgeMs now =
    (if signature = [] \<or> secret = [] then False
     else if \<bar>now - timestamp\<bar> > maxAgeMs then False
     else
       let expectedBuf = hex_bytes (signRequest hmac body secret timestamp nonce);
           actualBuf = hex_bytes signature
       in length expectedBuf = length actualBuf \<and> expectedBuf = actualBuf)"

text \<open>A stored number used as a condition.\<close>

definition nonzero :: "int option \<Rightarrow> bool" where
  "nonzero t = (case t of None \<Rightarrow> False | Some n \<Rightarrow> n \<noteq> 0)"

definition verifyPeerSignature ::
  "hmac \<Rightarrow> string \<Rightarrow> string \<Rightarrow> int \<Rightarrow> string option \<Rightarrow> peer_row \<Rightarrow> millis \<Rightarrow> bool" where
  "verifyPeerSignature hmac body signature timestamp nonce peer now =
    (if verifySignature hmac body signature (pe_hmacSecret peer) timestamp nonce DEFAULT_MAX_AGE_MS now then True
     else if truthy (pe_pendingHmacSecret peer) \<and> nonzero (pe_secretRotationAt peer)
             \<and> now - the (pe_secretRotationAt peer) \<le> ROTATION_GRACE_PERIOD_MS
     then verifySignature hmac body signature (the (pe_pendingHmacSecret peer)) timestamp nonce DEFAULT_MAX_AGE_MS now
     else False)"

section \<open>Headers\<close>

record fed_headers =
  fh_origin :: origin
  fh_timestamp :: int
  fh_signature :: string
  fh_nonce :: "string option"

text \<open>A header's value: one string, or several.\<close>

datatype header_value = One string | Many "string list"

definition getHeader :: "(string \<times> header_value) list \<Rightarrow> string \<Rightarrow> string option" where
  "getHeader headers name = (case map_of headers name of
     None \<Rightarrow> None
   | Some (One v) \<Rightarrow> Some v
   | Some (Many []) \<Rightarrow> None
   | Some (Many (v # _)) \<Rightarrow> Some v)"

definition either_header :: "(string \<times> header_value) list \<Rightarrow> string \<Rightarrow> string \<Rightarrow> string option" where
  "either_header headers lower upper = (case getHeader headers lower of Some v \<Rightarrow> Some v | None \<Rightarrow> getHeader headers upper)"

definition buildFederationHeaders ::
  "hmac \<Rightarrow> string \<Rightarrow> string \<Rightarrow> origin \<Rightarrow> millis \<Rightarrow> string \<Rightarrow> (string \<times> header_value) list" where
  "buildFederationHeaders hmac body secret org timestamp nonce =
    [(''X-Federation-Signature'', One (''sha256='' @ signRequest hmac body secret timestamp (Some nonce))),
     (''X-Federation-Origin'', One org), (''X-Federation-Timestamp'', One (int_text timestamp)),
     (''X-Federation-Nonce'', One nonce), (''Content-Type'', One ''application/json'')]"

text \<open>
  \<open>num_of\<close> is \<open>Number\<close>, with \<open>None\<close> for what is not finite. A stamp is an integer here: every sender writes
  \<open>Date.now()\<close>, and a header with a fractional number is outside the model.
\<close>

definition parseFederationHeaders ::
  "(string \<Rightarrow> int option) \<Rightarrow> (string \<times> header_value) list \<Rightarrow> fed_headers option" where
  "parseFederationHeaders num_of headers =
    (let rawSignature = either_header headers ''x-federation-signature'' ''X-Federation-Signature'';
         rawOrigin = either_header headers ''x-federation-origin'' ''X-Federation-Origin'';
         rawTimestamp = either_header headers ''x-federation-timestamp'' ''X-Federation-Timestamp'';
         rawNonce = either_header headers ''x-federation-nonce'' ''X-Federation-Nonce''
     in if \<not> truthy rawSignature \<or> \<not> truthy rawOrigin \<or> \<not> truthy rawTimestamp then None
     else if \<not> starts_with ''sha256='' (the rawSignature) then None
     else
       let signature = drop 7 (the rawSignature) in
       if signature = [] \<or> \<not> list_all (\<lambda>c. hex_val c \<noteq> None) signature then None
       else (case num_of (the rawTimestamp) of
           None \<Rightarrow> None
         | Some timestampMs \<Rightarrow>
             if timestampMs \<le> 0 then None
             else if js_trim (the rawOrigin) = [] then None
             else
               let nonce = (if truthy rawNonce \<and> js_trim (the rawNonce) \<noteq> [] then Some (js_trim (the rawNonce)) else None)
               in if nonce \<noteq> None \<and> length (the nonce) > 64 then None
                  else Some \<lparr>fh_origin = js_trim (the rawOrigin), fh_timestamp = timestampMs, fh_signature = signature,
                             fh_nonce = nonce\<rparr>))"

section \<open>Origins\<close>

definition stripTrailingSlashes :: "string \<Rightarrow> string" where
  "stripTrailingSlashes s = rev (dropWhile (\<lambda>c. c = CHR ''/'') (rev s))"

definition strip_slash :: "string \<Rightarrow> string" where
  "strip_slash s = (if s \<noteq> [] \<and> last s = CHR ''/'' then butlast s else s)"

definition getOurOrigin :: "string option \<Rightarrow> string option \<Rightarrow> nat \<Rightarrow> origin" where
  "getOurOrigin publicOrigin domain port =
    (if truthy publicOrigin \<and> js_trim (the publicOrigin) \<noteq> [] then strip_slash (js_trim (the publicOrigin))
     else if truthy domain then ''https://'' @ the domain
     else ''http://localhost:'' @ nat_to_dec port)"

text \<open>\<open>toLowerCase\<close> on the 8-bit range.\<close>

definition lower_char :: "char \<Rightarrow> char" where
  "lower_char c = (let n = of_char c :: nat in
     if (65 \<le> n \<and> n \<le> 90) \<or> (192 \<le> n \<and> n \<le> 222 \<and> n \<noteq> 215) then char_of (n + 32) else c)"

definition lower :: "string \<Rightarrow> string" where
  "lower s = map lower_char s"

text \<open>The length of a leading \<open>http://\<close> or \<open>https://\<close> in any case, 0 without one.\<close>

definition scheme_length :: "string \<Rightarrow> nat" where
  "scheme_length s = (if lower (take 7 s) = ''http://'' then 7 else if lower (take 8 s) = ''https://'' then 8 else 0)"

definition normalizeOriginForCompare :: "string option \<Rightarrow> string option" where
  "normalizeOriginForCompare v =
    (if \<not> truthy v then None
     else let s = js_trim (the v) in
       if s = [] then None
       else let h = stripTrailingSlashes (drop (scheme_length s) s) in
         if h = [] then None else Some (lower h))"

definition canonicalizeHomeInstance :: "string option \<Rightarrow> string option" where
  "canonicalizeHomeInstance v =
    (if \<not> truthy v then None
     else let s = js_trim (the v) in
       if s = [] then None
       else if scheme_length s > 0 then Some (stripTrailingSlashes s)
       else Some (''https://'' @ stripTrailingSlashes s))"

section \<open>Rotating a secret\<close>

text \<open>\<open>processHealthCheckTick\<close>: pending secrets past their grace period become the secret.\<close>

definition rotation_over :: "millis \<Rightarrow> peer_row \<Rightarrow> bool" where
  "rotation_over now p \<longleftrightarrow> pe_pendingHmacSecret p \<noteq> None \<and> (case pe_secretRotationAt p of
     None \<Rightarrow> False | Some t \<Rightarrow> now - t > ROTATION_GRACE_PERIOD_MS)"

definition finalizeRotations :: "peer_db \<Rightarrow> millis \<Rightarrow> peer_db" where
  "finalizeRotations db now = db\<lparr>pd_peers := map (\<lambda>p. if rotation_over now p
     then p\<lparr>pe_hmacSecret := the (pe_pendingHmacSecret p), pe_pendingHmacSecret := None, pe_secretRotationAt := None,
            pe_secretRotatedAt := Some now\<rparr> else p) (pd_peers db)\<rparr>"

definition auto_rotate_due :: "millis \<Rightarrow> peer_row \<Rightarrow> bool" where
  "auto_rotate_due now p \<longleftrightarrow> pe_status p = ''active'' \<and> pe_pendingHmacSecret p = None \<and> pe_autoRotateIntervalDays p > 0
     \<and> now - given (pe_secretRotatedAt p) (pe_createdAt p) \<ge> pe_autoRotateIntervalDays p * 86400000"

text \<open>
  The peer answered the rotation request; \<open>ok\<close> says whether with success. The admin's \<open>POST /peers/:id/rotate\<close> sends
  the same request and stores the same two fields.
\<close>

definition autoRotated :: "peer_db \<Rightarrow> string \<Rightarrow> string \<Rightarrow> bool \<Rightarrow> millis \<Rightarrow> peer_db" where
  "autoRotated db peerId newSecret ok now =
    (if ok then db\<lparr>pd_peers := tbl_update pe_id peerId
       (\<lambda>p. p\<lparr>pe_pendingHmacSecret := Some newSecret, pe_secretRotationAt := Some now\<rparr>) (pd_peers db)\<rparr> else db)"

section \<open>What a receiver makes of a signed request\<close>

text \<open>The platform hands header names to the server in lower case.\<close>

definition delivered :: "(string \<times> header_value) list \<Rightarrow> (string \<times> header_value) list" where
  "delivered hs = map (\<lambda>(k, v). (lower k, v)) hs"

lemma lower_names:
  "lower ''X-Federation-Signature'' = ''x-federation-signature''" "lower ''X-Federation-Origin'' = ''x-federation-origin''"
  "lower ''X-Federation-Timestamp'' = ''x-federation-timestamp''" "lower ''X-Federation-Nonce'' = ''x-federation-nonce''"
  "lower ''Content-Type'' = ''content-type''"
  by code_simp+

lemma delivered_headers:
  "delivered (buildFederationHeaders hmac body secret org ts n) =
    [(''x-federation-signature'', One (''sha256='' @ signRequest hmac body secret ts (Some n))),
     (''x-federation-origin'', One org), (''x-federation-timestamp'', One (int_text ts)),
     (''x-federation-nonce'', One n), (''content-type'', One ''application/json'')]"
  by (simp add: delivered_def buildFederationHeaders_def lower_names)

lemma int_text_nonempty [simp]: "int_text i \<noteq> []"
  by (simp add: int_text_def)

lemma getHeader_simps [simp]:
  "getHeader ((k, One v) # hs) k = Some v" "k \<noteq> l \<Longrightarrow> getHeader ((k, hv) # hs) l = getHeader hs l"
  by (simp_all add: getHeader_def)

lemma either_header_simps [simp]:
  "either_header ((k, One v) # hs) k k' = Some v"
  "k \<noteq> l \<Longrightarrow> k \<noteq> l' \<Longrightarrow> either_header ((k, hv) # hs) l l' = either_header hs l l'"
  by (simp_all add: either_header_def split: option.split)

lemma headers_parsed:
  assumes "num_of (int_text ts) = Some ts" and "0 < ts" and "js_trim org = org" and "org \<noteq> []"
    and "js_trim n = n" and "n \<noteq> []" and "length n \<le> 64"
    and "signRequest hmac body secret ts (Some n) \<noteq> []"
    and "list_all (\<lambda>c. hex_val c \<noteq> None) (signRequest hmac body secret ts (Some n))"
  shows "parseFederationHeaders num_of (delivered (buildFederationHeaders hmac body secret org ts n)) =
    Some \<lparr>fh_origin = org, fh_timestamp = ts, fh_signature = signRequest hmac body secret ts (Some n), fh_nonce = Some n\<rparr>"
  using assms by (simp add: parseFederationHeaders_def delivered_headers starts_with_def Let_def)

text \<open>A signature verifies under the secret it was made with, while its stamp is recent.\<close>

lemma own_signature:
  assumes "secret \<noteq> []" and "signRequest hmac body secret ts n \<noteq> []"
  shows "verifySignature hmac body (signRequest hmac body secret ts n) secret ts n age now \<longleftrightarrow> \<bar>now - ts\<bar> \<le> age"
  using assms by (simp add: verifySignature_def)

lemma other_signature:
  assumes "hex_bytes sig \<noteq> hex_bytes (signRequest hmac body secret ts n)"
  shows "\<not> verifySignature hmac body sig secret ts n age now"
  using assms by (auto simp: verifySignature_def Let_def)

text \<open>A row in the middle of a rotation.\<close>

definition rotating :: "string \<Rightarrow> string \<Rightarrow> millis \<Rightarrow> peer_row \<Rightarrow> bool" where
  "rotating old new t p \<longleftrightarrow> pe_hmacSecret p = old \<and> pe_pendingHmacSecret p = Some new \<and> pe_secretRotationAt p = Some t
     \<and> old \<noteq> [] \<and> new \<noteq> [] \<and> t \<noteq> 0"

lemma signs_with_new: "rotating old new t p \<Longrightarrow> signing_secret p = new"
  by (simp add: rotating_def signing_secret_def)

text \<open>The row after a health check at \<open>tick\<close>.\<close>

definition checked :: "millis \<Rightarrow> peer_row \<Rightarrow> peer_row" where
  "checked tick p = (if rotation_over tick p
     then p\<lparr>pe_hmacSecret := the (pe_pendingHmacSecret p), pe_pendingHmacSecret := None, pe_secretRotationAt := None,
            pe_secretRotatedAt := Some tick\<rparr> else p)"

lemma finalizeRotations_checked: "pd_peers (finalizeRotations db tick) = map (checked tick) (pd_peers db)"
  by (simp add: finalizeRotations_def checked_def[abs_def])

text \<open>
  C29. Both sides of a rotation sign with the new secret from the moment they store it, and the receiver
  accepts such a request exactly until the grace period is over, or from the first health check that runs
  after it. Health checks are a full grace period apart, so there is a stretch of up to fifteen minutes
  after every rotation in which two healthy peers refuse each other's requests.
\<close>

theorem rotation_gap:
  assumes "rotating old new t receiver" and "rotating old new t sender"
    and "sig = signRequest hmac body (signing_secret sender) ts n" and "sig \<noteq> []"
    and "hex_bytes sig \<noteq> hex_bytes (signRequest hmac body old ts n)" and "\<bar>now - ts\<bar> \<le> DEFAULT_MAX_AGE_MS"
  shows "verifyPeerSignature hmac body sig ts n (checked tick receiver) now \<longleftrightarrow>
    now - t \<le> ROTATION_GRACE_PERIOD_MS \<or> ROTATION_GRACE_PERIOD_MS < tick - t"
proof -
  have sig: "sig = signRequest hmac body new ts n" using assms(2,3) by (simp add: signs_with_new)
  have new: "verifySignature hmac body sig new ts n DEFAULT_MAX_AGE_MS now"
    using own_signature[of new hmac body ts n] assms(1,4,6) sig by (simp add: rotating_def)
  have old: "\<not> verifySignature hmac body sig old ts n DEFAULT_MAX_AGE_MS now"
    using assms(5) by (rule other_signature)
  have over: "rotation_over tick receiver \<longleftrightarrow> ROTATION_GRACE_PERIOD_MS < tick - t"
    using assms(1) by (simp add: rotating_def rotation_over_def)
  show ?thesis
    using assms(1) new old by (auto simp: verifyPeerSignature_def checked_def over rotating_def nonzero_def)
qed

end
