(* ===== verification/S2SGuard.thy ===== *)
theory S2SGuard
  imports FedAuth
begin

text \<open>
  What stands before every server-to-server endpoint: the sliding-window limiters and the nonce store of
  \<open>packages/server/src/routes/federation/rateLimits.ts\<close>, the shared preamble
  \<open>routes/federation/handlers/s2sAuth.ts\<close>, and what the relay, sync and epoch endpoints of
  \<open>handlers/relay.ts\<close> check and record around their work. A \<open>Map\<close> is a partial function; a request
  carries the headers and the body text it is verified over.
\<close>

section \<open>Sliding windows\<close>

type_synonym buckets = "string \<rightharpoonup> millis list"

definition prune :: "millis list \<Rightarrow> millis \<Rightarrow> millis list" where
  "prune timestamps cutoff = dropWhile (\<lambda>t. t < cutoff) timestamps"

definition limited :: "int \<Rightarrow> nat \<Rightarrow> buckets \<Rightarrow> string \<Rightarrow> millis \<Rightarrow> buckets \<times> bool" where
  "limited windowMs maxHits buckets key now =
    (let timestamps = prune (case buckets key of None \<Rightarrow> [] | Some ts \<Rightarrow> ts) (now - windowMs)
     in if length timestamps \<ge> maxHits then (buckets(key \<mapsto> timestamps), True)
        else (buckets(key \<mapsto> timestamps @ [now]), False))"

definition limiter_sweep :: "int \<Rightarrow> buckets \<Rightarrow> millis \<Rightarrow> buckets" where
  "limiter_sweep windowMs buckets now = (\<lambda>key. case buckets key of
     None \<Rightarrow> None
   | Some ts \<Rightarrow> let left = prune ts (now - windowMs) in if left = [] then None else Some left)"

definition RATE_WINDOW_MS :: int where
  "RATE_WINDOW_MS = 60000"

definition ENSURE_WINDOW_MS :: int where
  "ENSURE_WINDOW_MS = 15 * 60000"

definition isAcceptRateLimited :: "buckets \<Rightarrow> string \<Rightarrow> millis \<Rightarrow> buckets \<times> bool" where
  "isAcceptRateLimited = limited RATE_WINDOW_MS 10"

definition isRelayRateLimited :: "buckets \<Rightarrow> string \<Rightarrow> millis \<Rightarrow> buckets \<times> bool" where
  "isRelayRateLimited = limited RATE_WINDOW_MS 90"

definition isLookupRateLimited :: "buckets \<Rightarrow> string \<Rightarrow> millis \<Rightarrow> buckets \<times> bool" where
  "isLookupRateLimited = limited RATE_WINDOW_MS 60"

definition isEnsureRateLimited :: "buckets \<Rightarrow> string \<Rightarrow> millis \<Rightarrow> buckets \<times> bool" where
  "isEnsureRateLimited = limited ENSURE_WINDOW_MS 3"

section \<open>Nonces\<close>

type_synonym nonces = "origin \<rightharpoonup> (string \<rightharpoonup> millis)"

definition NONCE_MAX_AGE_MS :: int where
  "NONCE_MAX_AGE_MS = 15 * 60 * 1000"

definition nonces_of :: "nonces \<Rightarrow> origin \<Rightarrow> string \<rightharpoonup> millis" where
  "nonces_of store org = (case store org of None \<Rightarrow> Map.empty | Some m \<Rightarrow> m)"

definition isNonceDuplicate :: "nonces \<Rightarrow> origin \<Rightarrow> string \<Rightarrow> millis \<Rightarrow> nonces \<times> bool" where
  "isNonceDuplicate store org nonce now =
    (let peerNonces = nonces_of store org in
     if peerNonces nonce \<noteq> None then (store(org \<mapsto> peerNonces), True)
     else (store(org \<mapsto> peerNonces(nonce \<mapsto> now)), False))"

text \<open>The periodic cleanup; an origin left without nonces reads as one that was never seen.\<close>

definition nonce_sweep :: "nonces \<Rightarrow> millis \<Rightarrow> nonces" where
  "nonce_sweep store now = (\<lambda>org. case store org of
     None \<Rightarrow> None
   | Some m \<Rightarrow> Some (\<lambda>n. case m n of None \<Rightarrow> None | Some ts \<Rightarrow> if ts < now - NONCE_MAX_AGE_MS then None else Some ts))"

section \<open>The preamble\<close>

record guard_state =
  gd_nonces :: nonces
  gd_relay :: buckets

record s2s_request =
  rq_headers :: "(string \<times> header_value) list"
  rq_body :: string

datatype S2SAuthResult = AuthOk peer_row "string option" | AuthDenied nat string

definition authenticateS2SPeer ::
  "hmac \<Rightarrow> (string \<Rightarrow> int option) \<Rightarrow> bool \<Rightarrow> peer_row list \<Rightarrow> guard_state \<Rightarrow> s2s_request \<Rightarrow> millis
    \<Rightarrow> guard_state \<times> S2SAuthResult" where
  "authenticateS2SPeer hmac num_of relayLimited peers g request now =
    (case parseFederationHeaders num_of (rq_headers request) of
       None \<Rightarrow> (g, AuthDenied 401 ''Missing or malformed federation headers'')
     | Some fed \<Rightarrow> (case peer_by_origin (fh_origin fed) peers of
         None \<Rightarrow> (g, AuthDenied 403 ''Unknown or inactive peer'')
       | Some peer \<Rightarrow>
           if pe_status peer \<noteq> ''active'' then (g, AuthDenied 403 ''Unknown or inactive peer'')
           else
             let (buckets, over) = (if relayLimited then isRelayRateLimited (gd_relay g) (pe_origin peer) now
                                    else (gd_relay g, False));
                 g1 = g\<lparr>gd_relay := buckets\<rparr>
             in if over then (g1, AuthDenied 429 ''Rate limit exceeded'')
             else if \<not> verifyPeerSignature hmac (rq_body request) (fh_signature fed) (fh_timestamp fed) (fh_nonce fed) peer now
             then (g1, AuthDenied 401 ''Invalid signature'')
             else (case fh_nonce fed of
                 Some nonce \<Rightarrow>
                   let (store, duplicate) = isNonceDuplicate (gd_nonces g1) (pe_origin peer) nonce now;
                       g2 = g1\<lparr>gd_nonces := store\<rparr>
                   in if duplicate then (g2, AuthDenied 409 ''Duplicate nonce - possible replay'')
                      else (g2, AuthOk peer (Some nonce))
               | None \<Rightarrow>
                   if pe_nonceSupported peer \<noteq> 0
                   then (g1, AuthDenied 401 ''Nonce required - peer previously supported nonces'')
                   else (g1, AuthOk peer None))))"

definition guard_sweep :: "guard_state \<Rightarrow> millis \<Rightarrow> guard_state" where
  "guard_sweep g now = g\<lparr>gd_relay := limiter_sweep RATE_WINDOW_MS (gd_relay g) now, gd_nonces := nonce_sweep (gd_nonces g) now\<rparr>"

section \<open>The endpoints\<close>

definition rejectionsForSender :: "(string \<times> string) list \<Rightarrow> string list option \<Rightarrow> (string \<times> string) list" where
  "rejectionsForSender rejected capabilities =
    (let retriesUnproven = (case capabilities of None \<Rightarrow> False | Some cs \<Rightarrow> ''attribution_unproven'' \<in> set cs)
     in if retriesUnproven then rejected
        else map (\<lambda>(m, reason). if reason = ''attribution_unproven'' then (m, ''attribution_mismatch'') else (m, reason)) rejected)"

text \<open>What the relay endpoint reads of its body; \<open>rb_events\<close> is \<open>None\<close> when the member is no array.\<close>

record relay_body =
  rb_version :: int
  rb_events :: "(string \<times> json) list list option"
  rb_sourceInstance :: "string option"
  rb_sourceInstanceId :: "string option"
  rb_capabilities :: "string list option"

text \<open>
  \<open>POST /api/federation/relay\<close> around \<open>processRelayEvents\<close>, whose verdicts are the argument \<open>process\<close>:
  the peer table as it is afterwards, and the reply's status with the rejections it carries.
\<close>

text \<open>What it writes before and after the events, which are processed in between one at a time.\<close>

definition relayEpoch :: "peer_db \<Rightarrow> peer_row \<Rightarrow> relay_body \<Rightarrow> peer_db" where
  "relayEpoch db peer body =
    (if truthy (rb_sourceInstanceId body) \<and> \<not> truthy (pe_peerInstanceId peer)
     then db\<lparr>pd_peers := map (\<lambda>r. if pe_id r = pe_id peer \<and> pe_peerInstanceId r = None
            then r\<lparr>pe_peerInstanceId := rb_sourceInstanceId body\<rparr> else r) (pd_peers db)\<rparr> else db)"

definition relaySeen :: "peer_db \<Rightarrow> peer_row \<Rightarrow> string option \<Rightarrow> millis \<Rightarrow> peer_db" where
  "relaySeen db peer nonce now =
    db\<lparr>pd_peers := tbl_update pe_id (pe_id peer) (\<lambda>r. r\<lparr>pe_lastSeenAt := Some now, pe_consecutiveFailures := 0,
         pe_nonceSupported := (if truthy nonce \<and> pe_nonceSupported peer = 0 then 1 else pe_nonceSupported r)\<rparr>)
       (pd_peers db)\<rparr>"

definition relayRequest ::
  "((string \<times> json) list list \<Rightarrow> string \<Rightarrow> origin \<Rightarrow> string list \<times> (string \<times> string) list)
    \<Rightarrow> peer_db \<Rightarrow> peer_row \<Rightarrow> string option \<Rightarrow> relay_body \<Rightarrow> millis
    \<Rightarrow> peer_db \<times> nat \<times> (string list \<times> (string \<times> string) list) option" where
  "relayRequest process db peer nonce body now =
    (let db1 = relayEpoch db peer body
     in if rb_version body \<noteq> 1 \<or> rb_events body = None then (db1, 400, None)
        else if length (the (rb_events body)) > 50 then (db1, 400, None)
        else if \<not> truthy (rb_sourceInstance body) then (db1, 400, None)
        else if normalizeOriginForCompare (rb_sourceInstance body) \<noteq> normalizeOriginForCompare (Some (pe_origin peer))
        then (db1, 403, None)
        else
          let (accepted, rejected) = process (the (rb_events body)) (the (rb_sourceInstance body)) (pe_origin peer)
          in (relaySeen db1 peer nonce now, 200, Some (accepted, rejectionsForSender rejected (rb_capabilities body))))"

text \<open>
  What \<open>POST /api/federation/sync\<close> writes to the peer table and the outbox: the nonce ratchet and, for a
  valid body, the offers before the page is built, and the time after it.
\<close>

definition syncAsked :: "peer_db \<Rightarrow> peer_row \<Rightarrow> string option \<Rightarrow> bool \<Rightarrow> string \<Rightarrow> millis \<Rightarrow> peer_db" where
  "syncAsked db peer nonce valid contextType now =
    (let db1 = (if truthy nonce \<and> pe_nonceSupported peer = 0
           then db\<lparr>pd_peers := tbl_update pe_id (pe_id peer) (\<lambda>r. r\<lparr>pe_nonceSupported := 1\<rparr>) (pd_peers db)\<rparr> else db)
     in if \<not> valid then db1
        else db1\<lparr>pd_outbox := markOutboxOfferedForPeer (pd_outbox db1) (pe_id peer) now contextType\<rparr>)"

definition syncServed :: "peer_db \<Rightarrow> peer_row \<Rightarrow> millis \<Rightarrow> peer_db" where
  "syncServed db peer now =
    db\<lparr>pd_peers := tbl_update pe_id (pe_id peer) (\<lambda>r. r\<lparr>pe_lastSeenAt := Some now\<rparr>) (pd_peers db)\<rparr>"

text \<open>\<open>POST /api/federation/epoch\<close>: the status, and the secret its answer is signed with.\<close>

definition epochRequest ::
  "hmac \<Rightarrow> (string \<Rightarrow> int option) \<Rightarrow> peer_row list \<Rightarrow> s2s_request \<Rightarrow> millis \<Rightarrow> nat \<times> string option" where
  "epochRequest hmac num_of peers request now = (case parseFederationHeaders num_of (rq_headers request) of
     None \<Rightarrow> (400, None)
   | Some fed \<Rightarrow> (case peer_by_origin (fh_origin fed) peers of
       None \<Rightarrow> (403, None)
     | Some peer \<Rightarrow>
         if pe_status peer = ''revoked'' then (403, None)
         else if \<not> verifyPeerSignature hmac (rq_body request) (fh_signature fed) (fh_timestamp fed) (fh_nonce fed) peer now
         then (401, None)
         else (200, Some (pe_hmacSecret peer))))"

section \<open>A limiter never admits more than its maximum in a window\<close>

datatype limiter_event = Hit string | Sweep_buckets

definition limiter_step :: "int \<Rightarrow> nat \<Rightarrow> buckets \<times> (string \<times> millis) list \<Rightarrow> limiter_event \<times> millis
    \<Rightarrow> buckets \<times> (string \<times> millis) list" where
  "limiter_step w n st e = (case fst e of
     Hit key \<Rightarrow> (case limited w n (fst st) key (snd e) of
         (b, over) \<Rightarrow> (b, if over then snd st else snd st @ [(key, snd e)]))
   | Sweep_buckets \<Rightarrow> (limiter_sweep w (fst st) (snd e), snd st))"

text \<open>The admitted requests of a run, with their times.\<close>

definition admitted :: "int \<Rightarrow> nat \<Rightarrow> (limiter_event \<times> millis) list \<Rightarrow> (string \<times> millis) list" where
  "admitted w n es = snd (foldl (limiter_step w n) (Map.empty, []) es)"

definition bucket_of :: "buckets \<Rightarrow> string \<Rightarrow> millis list" where
  "bucket_of b key = (case b key of None \<Rightarrow> [] | Some ts \<Rightarrow> ts)"

text \<open>
  The buckets of a run: a bucket is the tail of what was admitted of its key that is not older than a
  cutoff already passed, and everything the limiter ever dropped is older than the window.
\<close>

definition hits_of :: "string \<Rightarrow> (string \<times> millis) list \<Rightarrow> millis list" where
  "hits_of key log = map snd (filter (\<lambda>p. fst p = key) log)"

definition limiter_ok :: "int \<Rightarrow> nat \<Rightarrow> millis \<Rightarrow> buckets \<times> (string \<times> millis) list \<Rightarrow> bool" where
  "limiter_ok w n now st \<longleftrightarrow> (\<forall>key. sorted (hits_of key (snd st)) \<and> list_all (\<lambda>t. t \<le> now) (hits_of key (snd st))
     \<and> (\<exists>old. hits_of key (snd st) = old @ bucket_of (fst st) key \<and> list_all (\<lambda>t. t < now - w) old)
     \<and> (\<forall>a. length (filter (\<lambda>t. a \<le> t \<and> t \<le> a + w) (hits_of key (snd st))) \<le> n))"

lemma bucket_upd: "bucket_of (b(key \<mapsto> ts)) key = ts"
  by (simp add: bucket_of_def)

lemma length_filter_imp: "(\<And>x. P x \<Longrightarrow> Q x) \<Longrightarrow> length (filter P xs) \<le> length (filter Q xs)"
  by (induction xs) auto

lemma sorted_prune: "sorted ts \<Longrightarrow> prune ts c = filter (\<lambda>t. c \<le> t) ts"
proof (induction ts)
  case (Cons t ts)
  show ?case
  proof (cases "t < c")
    case True
    then show ?thesis using Cons by (simp add: prune_def)
  next
    case False
    then have "filter (\<lambda>t. c \<le> t) ts = ts" using Cons.prems by (auto simp: filter_id_conv)
    then show ?thesis using False by (simp add: prune_def)
  qed
qed (simp add: prune_def)

text \<open>The bucket after pruning holds exactly the admitted times of the window that ends now.\<close>

lemma pruned_bucket:
  assumes "limiter_ok w n t0 st" and "t0 \<le> now"
  shows "prune (bucket_of (fst st) key) (now - w) = filter (\<lambda>t. now - w \<le> t) (hits_of key (snd st))"
proof -
  obtain old where o: "hits_of key (snd st) = old @ bucket_of (fst st) key" "list_all (\<lambda>t. t < t0 - w) old"
    and srt: "sorted (hits_of key (snd st))"
    using assms(1) unfolding limiter_ok_def by blast
  have "sorted (bucket_of (fst st) key)" using srt o(1) by (simp add: sorted_append)
  moreover have "filter (\<lambda>t. now - w \<le> t) old = []"
    using o(2) assms(2) by (auto simp: filter_empty_conv list_all_iff)
  ultimately show ?thesis using o(1) by (simp add: sorted_prune)
qed

text \<open>What a step of the limiter leaves of a key's times, whichever step it is.\<close>

lemma limiter_ok_keep:
  assumes "limiter_ok w n t0 st" and "t0 \<le> now"
    and "\<And>key. hits_of key log = hits_of key (snd st)"
    and "\<And>key. bucket_of b key = bucket_of (fst st) key \<or> bucket_of b key = prune (bucket_of (fst st) key) (now - w)"
  shows "limiter_ok w n now (b, log)"
  unfolding limiter_ok_def fst_conv snd_conv
proof (intro allI conjI)
  fix key
  have ok: "sorted (hits_of key (snd st))" "list_all (\<lambda>t. t \<le> t0) (hits_of key (snd st))"
    and win: "length (filter (\<lambda>t. a \<le> t \<and> t \<le> a + w) (hits_of key (snd st))) \<le> n" for a
    using assms(1) by (auto simp: limiter_ok_def)
  obtain old where o: "hits_of key (snd st) = old @ bucket_of (fst st) key" "list_all (\<lambda>t. t < t0 - w) old"
    using assms(1) unfolding limiter_ok_def by blast
  have old': "list_all (\<lambda>t. t < now - w) old" using o(2) assms(2) by (auto simp: list_all_iff)
  show "sorted (hits_of key log)" using ok assms(3) by simp
  show "list_all (\<lambda>t. t \<le> now) (hits_of key log)" using ok(2) assms(2,3) by (auto simp: list_all_iff)
  show "length (filter (\<lambda>t. a \<le> t \<and> t \<le> a + w) (hits_of key log)) \<le> n" for a using win assms(3) by simp
  show "\<exists>old. hits_of key log = old @ bucket_of b key \<and> list_all (\<lambda>t. t < now - w) old"
    using assms(4)[of key]
  proof
    assume "bucket_of b key = bucket_of (fst st) key"
    then show ?thesis using o(1) old' assms(3) by auto
  next
    assume b: "bucket_of b key = prune (bucket_of (fst st) key) (now - w)"
    have "bucket_of (fst st) key = takeWhile (\<lambda>t. t < now - w) (bucket_of (fst st) key) @ bucket_of b key"
      by (simp add: b prune_def)
    then have "hits_of key log = (old @ takeWhile (\<lambda>t. t < now - w) (bucket_of (fst st) key)) @ bucket_of b key"
      using o(1) assms(3) by (metis append.assoc)
    moreover have "list_all (\<lambda>t. t < now - w) (takeWhile (\<lambda>t. t < now - w) (bucket_of (fst st) key))"
      by (auto simp: list_all_iff dest: set_takeWhileD)
    ultimately show ?thesis using old' by (metis list_all_append)
  qed
qed

lemma limiter_ok_admit:
  assumes ok: "limiter_ok w n t0 st" and le: "t0 \<le> now" and w: "0 \<le> w"
    and room: "length (prune (bucket_of (fst st) key) (now - w)) < n"
  shows "limiter_ok w n now ((fst st)(key \<mapsto> prune (bucket_of (fst st) key) (now - w) @ [now]), snd st @ [(key, now)])"
    (is "limiter_ok w n now (?b, ?log)")
  unfolding limiter_ok_def fst_conv snd_conv
proof
  fix k
  let ?k = "limiter_ok w n now ((fst st)(key \<mapsto> prune (bucket_of (fst st) key) (now - w)), snd st)"
  have kept: ?k by (rule limiter_ok_keep[OF ok le]) (auto simp: bucket_of_def)
  show "sorted (hits_of k ?log) \<and> list_all (\<lambda>t. t \<le> now) (hits_of k ?log)
     \<and> (\<exists>old. hits_of k ?log = old @ bucket_of ?b k \<and> list_all (\<lambda>t. t < now - w) old)
     \<and> (\<forall>a. length (filter (\<lambda>t. a \<le> t \<and> t \<le> a + w) (hits_of k ?log)) \<le> n)"
  proof (cases "k = key")
    case False
    then have "hits_of k ?log = hits_of k (snd st)" "bucket_of ?b k = bucket_of ((fst st)(key \<mapsto> prune (bucket_of (fst st) key) (now - w))) k"
      by (simp_all add: hits_of_def bucket_of_def)
    then show ?thesis using kept by (simp add: limiter_ok_def)
  next
    case True
    have log: "hits_of k ?log = hits_of key (snd st) @ [now]" using True by (simp add: hits_of_def)
    have kk: "sorted (hits_of key (snd st))" "list_all (\<lambda>t. t \<le> now) (hits_of key (snd st))"
      and win: "length (filter (\<lambda>t. a \<le> t \<and> t \<le> a + w) (hits_of key (snd st))) \<le> n" for a
      using kept by (auto simp: limiter_ok_def)
    obtain old where o: "hits_of key (snd st) = old @ prune (bucket_of (fst st) key) (now - w)" "list_all (\<lambda>t. t < now - w) old"
      using kept unfolding limiter_ok_def by (metis bucket_upd fst_conv snd_conv)
    have "\<exists>old. hits_of k ?log = old @ bucket_of ?b k \<and> list_all (\<lambda>t. t < now - w) old"
      using o log True by (auto simp: bucket_of_def)
    moreover have "length (filter (\<lambda>t. a \<le> t \<and> t \<le> a + w) (hits_of k ?log)) \<le> n" for a
    proof (cases "a \<le> now \<and> now \<le> a + w")
      case True
      have "length (filter (\<lambda>t. a \<le> t \<and> t \<le> a + w) (hits_of key (snd st)))
        \<le> length (filter (\<lambda>t. now - w \<le> t) (hits_of key (snd st)))"
        using True by (intro length_filter_imp) simp
      also have "\<dots> = length (prune (bucket_of (fst st) key) (now - w))"
        using pruned_bucket[OF ok le, of key] by simp
      finally show ?thesis using room log True by simp
    next
      case False
      then show ?thesis using win[of a] log by auto
    qed
    ultimately show ?thesis using kk log by (auto simp: sorted_append list_all_iff)
  qed
qed

lemma limiter_ok_step:
  assumes "limiter_ok w n t0 st" and "t0 \<le> snd e" and "0 \<le> w"
  shows "limiter_ok w n (snd e) (limiter_step w n st e)"
proof (cases "fst e")
  case (Hit key)
  let ?left = "prune (bucket_of (fst st) key) (snd e - w)"
  have lim: "limited w n (fst st) key (snd e) = (if length ?left \<ge> n then ((fst st)(key \<mapsto> ?left), True)
      else ((fst st)(key \<mapsto> ?left @ [snd e]), False))"
    by (simp add: limited_def bucket_of_def Let_def)
  show ?thesis
  proof (cases "length ?left \<ge> n")
    case True
    have "limiter_ok w n (snd e) ((fst st)(key \<mapsto> ?left), snd st)"
      by (rule limiter_ok_keep[OF assms(1,2)]) (auto simp: bucket_of_def)
    then show ?thesis using True Hit by (simp add: limiter_step_def lim)
  next
    case False
    then show ?thesis using limiter_ok_admit[OF assms, of key] Hit by (simp add: limiter_step_def lim)
  qed
next
  case Sweep_buckets
  have "limiter_ok w n (snd e) (limiter_sweep w (fst st) (snd e), snd st)"
  proof (rule limiter_ok_keep[OF assms(1,2)])
    fix key
    show "bucket_of (limiter_sweep w (fst st) (snd e)) key = bucket_of (fst st) key
      \<or> bucket_of (limiter_sweep w (fst st) (snd e)) key = prune (bucket_of (fst st) key) (snd e - w)"
      by (cases "fst st key"; cases "prune (bucket_of (fst st) key) (snd e - w) = []")
         (simp_all add: bucket_of_def limiter_sweep_def Let_def)
  qed simp
  then show ?thesis using Sweep_buckets by (simp add: limiter_step_def)
qed

lemma limiter_ok_run:
  assumes "limiter_ok w n t0 st" and "sorted (map snd es)" and "list_all (\<lambda>e. t0 \<le> snd e) es" and "0 \<le> w"
  shows "\<exists>t. limiter_ok w n t (foldl (limiter_step w n) st es)"
  using assms(1,2,3)
proof (induction es arbitrary: st t0)
  case (Cons e es)
  have "limiter_ok w n (snd e) (limiter_step w n st e)"
    using limiter_ok_step[OF Cons.prems(1) _ assms(4)] Cons.prems(3) by simp
  then show ?case using Cons.IH[of "snd e"] Cons.prems(2) by (auto simp: list_all_iff)
qed auto

text \<open>
  C31. Whatever the requests and sweeps, as long as the clock does not run backwards, a limiter never
  admits more than its maximum number of requests of one key within any stretch as long as its window.
\<close>

theorem limiter_bound:
  assumes "sorted (map snd es)" and "0 \<le> w"
  shows "length (filter (\<lambda>(k, t). k = key \<and> a \<le> t \<and> t \<le> a + w) (admitted w n es)) \<le> n"
proof -
  obtain t0 where t0: "list_all (\<lambda>e. t0 \<le> snd e) es"
  proof (cases es)
    case (Cons e es')
    then show ?thesis using assms(1) by (intro that[of "snd e"]) (auto simp: list_all_iff)
  qed (auto intro: that)
  have "limiter_ok w n t0 (Map.empty, [])" by (simp add: limiter_ok_def hits_of_def bucket_of_def)
  then obtain t where "limiter_ok w n t (foldl (limiter_step w n) (Map.empty, []) es)"
    using limiter_ok_run[OF _ assms(1) t0 assms(2)] by blast
  then have "length (filter (\<lambda>t. a \<le> t \<and> t \<le> a + w) (hits_of key (admitted w n es))) \<le> n"
    by (simp add: limiter_ok_def admitted_def)
  moreover have "filter (\<lambda>t. a \<le> t \<and> t \<le> a + w) (hits_of key l)
      = map snd (filter (\<lambda>(k, t). k = key \<and> a \<le> t \<and> t \<le> a + w) l)" for l
    by (induction l) (auto simp: hits_of_def)
  ultimately show ?thesis by simp
qed

lemma limiter_bound_witness:
  "length (filter (\<lambda>(k, t). k = ''u'' \<and> 100 \<le> t \<and> t \<le> 100 + ENSURE_WINDOW_MS)
     (admitted ENSURE_WINDOW_MS 3 [(Hit ''u'', 100), (Hit ''u'', 200), (Sweep_buckets, 250), (Hit ''u'', 300), (Hit ''u'', 400)])) \<le> 3"
  by (rule limiter_bound) (simp_all add: ENSURE_WINDOW_MS_def)

section \<open>Replays\<close>

text \<open>What happens to the guard between two requests: other requests, of any peer, and cleanups.\<close>

datatype guard_event = Incoming bool "peer_row list" s2s_request | Cleanup

definition guard_step :: "hmac \<Rightarrow> (string \<Rightarrow> int option) \<Rightarrow> guard_state \<Rightarrow> guard_event \<times> millis \<Rightarrow> guard_state" where
  "guard_step hmac num_of g e = (case fst e of
     Incoming relayLimited peers rq \<Rightarrow> fst (authenticateS2SPeer hmac num_of relayLimited peers g rq (snd e))
   | Cleanup \<Rightarrow> guard_sweep g (snd e))"

text \<open>The nonce is stored, with the time \<open>t0\<close> it arrived.\<close>

definition remembered :: "origin \<Rightarrow> string \<Rightarrow> millis \<Rightarrow> guard_state \<Rightarrow> bool" where
  "remembered org n t0 g \<longleftrightarrow> nonces_of (gd_nonces g) org n = Some t0"

lemma nonces_of_upd [simp]: "nonces_of (store(org \<mapsto> m)) org' = (if org' = org then m else nonces_of store org')"
  by (simp add: nonces_of_def)

text \<open>A request only ever adds nonces, and changes nothing but through \<open>isNonceDuplicate\<close>.\<close>

lemma auth_nonces:
  "gd_nonces (fst (authenticateS2SPeer hmac num_of lim peers g rq now)) = gd_nonces g
   \<or> (\<exists>org n. gd_nonces (fst (authenticateS2SPeer hmac num_of lim peers g rq now)) = fst (isNonceDuplicate (gd_nonces g) org n now))"
  by (auto simp: authenticateS2SPeer_def Let_def case_prod_beta split: option.split)

lemma duplicate_keeps:
  "nonces_of store org n = Some t \<Longrightarrow> nonces_of (fst (isNonceDuplicate store org' n' now)) org n = Some t"
  by (auto simp: isNonceDuplicate_def Let_def)

lemma remembered_auth: "remembered org n t0 g \<Longrightarrow> remembered org n t0 (fst (authenticateS2SPeer hmac num_of lim peers g rq now))"
  using auth_nonces[of hmac num_of lim peers g rq now] duplicate_keeps[of "gd_nonces g" org n]
  by (auto simp: remembered_def split: option.splits)

lemma remembered_sweep: "remembered org n t0 g \<Longrightarrow> now \<le> t0 + NONCE_MAX_AGE_MS \<Longrightarrow> remembered org n t0 (guard_sweep g now)"
  by (auto simp: remembered_def guard_sweep_def nonce_sweep_def nonces_of_def split: option.splits)

lemma remembered_run:
  assumes "remembered org n t0 g" and "list_all (\<lambda>e. snd e \<le> t0 + NONCE_MAX_AGE_MS) es"
  shows "remembered org n t0 (foldl (guard_step hmac num_of) g es)"
  using assms
  by (induction es arbitrary: g)
     (auto simp: guard_step_def remembered_auth remembered_sweep split: guard_event.split)

lemma auth_ok_nonce:
  assumes "authenticateS2SPeer hmac num_of lim peers g rq now = (g', AuthOk peer (Some n))"
  shows "\<exists>fed. parseFederationHeaders num_of (rq_headers rq) = Some fed \<and> fh_nonce fed = Some n
    \<and> peer_by_origin (fh_origin fed) peers = Some peer
    \<and> verifyPeerSignature hmac (rq_body rq) (fh_signature fed) (fh_timestamp fed) (fh_nonce fed) peer now
    \<and> nonces_of (gd_nonces g) (pe_origin peer) n = None \<and> remembered (pe_origin peer) n now g'"
  using assms
  by (auto simp: authenticateS2SPeer_def isNonceDuplicate_def remembered_def Let_def
      split: option.splits if_splits prod.splits)

lemma verified_recent:
  "verifyPeerSignature hmac body sig ts nonce peer now \<Longrightarrow> \<bar>now - ts\<bar> \<le> DEFAULT_MAX_AGE_MS"
  by (auto simp: verifyPeerSignature_def verifySignature_def split: if_splits)


text \<open>Which secrets a row is checked against does not change with the time, unless it is rotating.\<close>

lemma verify_later:
  assumes "verifyPeerSignature hmac body sig ts nonce peer t0" and "\<not> truthy (pe_pendingHmacSecret peer)"
    and "\<bar>t1 - ts\<bar> \<le> DEFAULT_MAX_AGE_MS"
  shows "verifyPeerSignature hmac body sig ts nonce peer t1"
  using assms by (simp add: verifyPeerSignature_def verifySignature_def Let_def split: if_splits)

lemma forgotten:
  assumes "remembered org n t0 g" and "t0 + NONCE_MAX_AGE_MS < now"
  shows "nonces_of (gd_nonces (guard_sweep g now)) org n = None"
  using assms by (auto simp: remembered_def guard_sweep_def nonce_sweep_def nonces_of_def split: option.splits)

text \<open>
  C30. A request stamped ahead of this instance's clock can be replayed: the cleanup forgets its nonce once fifteen minutes have
  passed since it arrived, while its stamp counts as recent for fifteen minutes from the time it bears. So, whatever came
  in between and left the nonce remembered, the very request that was accepted at \<open>t0\<close> is accepted again at any
  time \<open>t1\<close> after such a cleanup up to fifteen minutes past its stamp; and there is such a time only when the stamp is
  later than the arrival.
\<close>
theorem replay_of_a_stamp_ahead:
  assumes first: "authenticateS2SPeer hmac num_of lim peers g rq t0 = (g0, AuthOk peer (Some n))"
    and stamp: "parseFederationHeaders num_of (rq_headers rq) = Some fed"
    and calm: "list_all (\<lambda>e. snd e \<le> t0 + NONCE_MAX_AGE_MS) es"
    and cleanup: "t0 + NONCE_MAX_AGE_MS < t" "t \<le> t1" and recent: "t1 \<le> fh_timestamp fed + DEFAULT_MAX_AGE_MS"
    and settled: "\<not> truthy (pe_pendingHmacSecret peer)"
  shows "snd (authenticateS2SPeer hmac num_of False peers (guard_sweep (foldl (guard_step hmac num_of) g0 es) t) rq t1) = AuthOk peer (Some n)
    \<and> t0 < fh_timestamp fed"
proof -
  let ?g = "guard_sweep (foldl (guard_step hmac num_of) g0 es) t"
  obtain sig: "verifyPeerSignature hmac (rq_body rq) (fh_signature fed) (fh_timestamp fed) (fh_nonce fed) peer t0"
    and row: "peer_by_origin (fh_origin fed) peers = Some peer" and nonce: "fh_nonce fed = Some n" and rem: "remembered (pe_origin peer) n t0 g0"
    using auth_ok_nonce[OF first] stamp by auto
  have active: "pe_status peer = ''active''"
    using first stamp row by (auto simp: authenticateS2SPeer_def split: if_splits)
  have age: "\<bar>t1 - fh_timestamp fed\<bar> \<le> DEFAULT_MAX_AGE_MS"
    using verified_recent[OF sig] cleanup recent by (simp add: DEFAULT_MAX_AGE_MS_def NONCE_MAX_AGE_MS_def)
  have "verifyPeerSignature hmac (rq_body rq) (fh_signature fed) (fh_timestamp fed) (Some n) peer t1"
    using verify_later[OF sig settled age] nonce by simp
  moreover have "nonces_of (gd_nonces ?g) (pe_origin peer) n = None"
    by (rule forgotten[OF remembered_run[OF rem calm] cleanup(1)])
  ultimately show ?thesis using stamp row active nonce cleanup recent
    by (simp add: authenticateS2SPeer_def isNonceDuplicate_def Let_def DEFAULT_MAX_AGE_MS_def NONCE_MAX_AGE_MS_def)
qed

section \<open>Examples\<close>

text \<open>A stand-in digest that tells secrets and texts apart, a number reader for decimal text.\<close>

definition example_hmac :: hmac where
  "example_hmac secret text = concat (map (\<lambda>c. let n = of_char c in [hex_digit (n div 16), hex_digit (n mod 16)]) (secret @ '':'' @ text))"

definition decimal :: "string \<Rightarrow> int option" where
  "decimal s = (if s \<noteq> [] \<and> list_all is_digit s then Some (int (dec_to_nat s)) else None)"

definition example_request :: "millis \<Rightarrow> s2s_request" where
  "example_request ts = \<lparr>rq_headers = delivered (buildFederationHeaders example_hmac ''{}'' ''k'' ''https://b'' ts ''n''),
     rq_body = ''{}''\<rparr>"

definition no_guard :: guard_state where
  "no_guard = \<lparr>gd_nonces = Map.empty, gd_relay = Map.empty\<rparr>"

lemma hex_val_digit: "d < 16 \<Longrightarrow> hex_val (hex_digit d) \<noteq> None"
  by (simp add: hex_val_hex_digit)

lemma example_hmac_hex: "list_all (\<lambda>c. hex_val c \<noteq> None) (example_hmac secret text)" "example_hmac secret text \<noteq> []"
proof -
  have "of_char c div 16 < (16::nat)" for c :: char
    using nat_of_char_less_256[of c] by linarith
  then show "list_all (\<lambda>c. hex_val c \<noteq> None) (example_hmac secret text)"
    by (auto simp: example_hmac_def Let_def list_all_iff hex_val_hex_digit)
qed (simp add: example_hmac_def Let_def)

lemma decimal_int_text: "0 \<le> i \<Longrightarrow> decimal (int_text i) = Some i"
  by (simp add: decimal_def int_text_def nat_to_dec_digits)

lemma example_parsed:
  "0 < ts \<Longrightarrow> parseFederationHeaders decimal (rq_headers (example_request ts)) =
     Some \<lparr>fh_origin = ''https://b'', fh_timestamp = ts, fh_signature = signRequest example_hmac ''{}'' ''k'' ts (Some ''n''),
           fh_nonce = Some ''n''\<rparr>"
  unfolding example_request_def s2s_request.simps
  by (rule headers_parsed)
     (simp_all add: decimal_int_text signRequest_def example_hmac_hex[unfolded not_None_eq] js_trim_def js_space_def)

lemma example_verified:
  "\<bar>now - ts\<bar> \<le> 900000 \<Longrightarrow> verifyPeerSignature example_hmac ''{}'' (signRequest example_hmac ''{}'' ''k'' ts (Some ''n'')) ts
     (Some ''n'') (example_peer ''p'' ''k'') now"
  using own_signature[of "''k''" example_hmac "''{}''" ts "Some ''n''" DEFAULT_MAX_AGE_MS now]
  by (simp add: verifyPeerSignature_def signRequest_def example_hmac_hex example_peer_def new_peer_row_def DEFAULT_MAX_AGE_MS_def)

lemma example_row: "peer_by_origin ''https://b'' [example_peer ''p'' ''k''] = Some (example_peer ''p'' ''k'')"
  "pe_origin (example_peer ''p'' ''k'') = ''https://b''" "pe_status (example_peer ''p'' ''k'') = ''active''"
  by (simp_all add: peer_by_origin_def example_peer_def new_peer_row_def)

lemma example_body [simp]: "rq_body (example_request ts) = ''{}''"
  by (simp add: example_request_def)



lemma example_ahead:
  "authenticateS2SPeer example_hmac decimal False [example_peer ''p'' ''k''] no_guard (example_request 1500000) 1000000 =
    (\<lparr>gd_nonces = [''https://b'' \<mapsto> [''n'' \<mapsto> 1000000]], gd_relay = Map.empty\<rparr>, AuthOk (example_peer ''p'' ''k'') (Some ''n''))"
  by (simp add: authenticateS2SPeer_def example_parsed example_row example_verified isNonceDuplicate_def nonces_of_def
      no_guard_def Let_def)

lemma replay_of_a_stamp_ahead_witness:
  "snd (authenticateS2SPeer example_hmac decimal False [example_peer ''p'' ''k'']
     (guard_sweep (foldl (guard_step example_hmac decimal)
        \<lparr>gd_nonces = [''https://b'' \<mapsto> [''n'' \<mapsto> 1000000]], gd_relay = Map.empty\<rparr> [(Cleanup, 1060000)]) 1900001)
     (example_request 1500000) 1900002) = AuthOk (example_peer ''p'' ''k'') (Some ''n'')"
  by (rule conjunct1[OF replay_of_a_stamp_ahead[OF example_ahead example_parsed]])
     (simp_all add: NONCE_MAX_AGE_MS_def DEFAULT_MAX_AGE_MS_def example_peer_def new_peer_row_def)

lemma hex_bytes_example: "hex_bytes (example_hmac secret text) = map of_char (secret @ '':'' @ text)"
proof -
  have "of_char c div 16 < (16::nat)" for c :: char using nat_of_char_less_256[of c] by linarith
  then have "hex_bytes (concat (map (\<lambda>c. let n = of_char c in [hex_digit (n div 16), hex_digit (n mod 16)]) s)) = map of_char s" for s :: string
    by (induction s) (simp_all add: Let_def hex_val_hex_digit)
  from this[of "secret @ '':'' @ text"] show ?thesis unfolding example_hmac_def .
qed

definition rotating_peer :: peer_row where
  "rotating_peer = (example_peer ''p'' ''k'')\<lparr>pe_pendingHmacSecret := Some ''l'', pe_secretRotationAt := Some 1000000\<rparr>"

lemma rotation_gap_witness:
  "\<not> verifyPeerSignature example_hmac ''{}'' (signRequest example_hmac ''{}'' (signing_secret rotating_peer) 2700000 (Some ''n''))
      2700000 (Some ''n'') (checked 1899999 rotating_peer) 2700000
   \<and> verifyPeerSignature example_hmac ''{}'' (signRequest example_hmac ''{}'' (signing_secret rotating_peer) 2700000 (Some ''n''))
      2700000 (Some ''n'') (checked 2699999 rotating_peer) 2700000"
proof -
  have rot: "rotating ''k'' ''l'' 1000000 rotating_peer"
    by (simp add: rotating_def rotating_peer_def example_peer_def new_peer_row_def)
  have "signing_secret rotating_peer = ''l''" by (rule signs_with_new[OF rot])
  then have digest: "hex_bytes (signRequest example_hmac ''{}'' (signing_secret rotating_peer) 2700000 (Some ''n''))
      \<noteq> hex_bytes (signRequest example_hmac ''{}'' ''k'' 2700000 (Some ''n''))"
    by (simp add: signRequest_def hex_bytes_example)
  note gap = rotation_gap[OF rot rot refl _ digest]
  from gap[of 2700000 1899999] gap[of 2700000 2699999] show ?thesis
    by (simp add: signRequest_def example_hmac_hex DEFAULT_MAX_AGE_MS_def ROTATION_GRACE_PERIOD_MS_def)
qed

end
