(* ===== verification/Identity.thy ===== *)
theory Identity
  imports FedAuth
begin

text \<open>
  Who a federated event is about: \<open>packages/server/src/routes/federation/identity.ts\<close> (identities, the
  resolution of one to a local user, and whether a peer may speak for it), with the two ledgers the event
  processors share: \<open>utils/federationSubjectClock.ts\<close> (last change per subject) and
  \<open>utils/federationAppliedEvents.ts\<close> (events applied once). An identity is a pair of texts; a member of a
  relayed event that is no text reads as the empty one, which no check accepts. The URL parser and this
  instance's configured names are an argument.
\<close>

section \<open>Names of instances\<close>

record names =
  nm_url_of :: "string \<Rightarrow> url option"
  nm_ourOrigin :: origin
  nm_domain :: "string option"

definition domain_of :: "names \<Rightarrow> string \<Rightarrow> string" where
  "domain_of nm s = lower (extractDomain (nm_url_of nm s) s)"

definition getOurIdentityDomain :: "names \<Rightarrow> string option" where
  "getOurIdentityDomain nm =
    (if truthy (nm_domain nm) then Some (lower (the (nm_domain nm)))
     else if nm_ourOrigin nm = [] then None
     else Some (domain_of nm (nm_ourOrigin nm)))"

definition isOwnDomain :: "names \<Rightarrow> string \<Rightarrow> bool" where
  "isOwnDomain nm domain \<longleftrightarrow> domain \<noteq> [] \<and> (domain = domain_of nm (nm_ourOrigin nm) \<or> Some domain = getOurIdentityDomain nm)"

section \<open>Identities\<close>

record RelayActor =
  ra_homeUserId :: string
  ra_homeInstance :: string

definition relayActorOfUser :: "names \<Rightarrow> user_row \<Rightarrow> RelayActor option" where
  "relayActorOfUser nm u =
    (if \<not> truthy (us_homeInstance u) then Some \<lparr>ra_homeUserId = us_id u, ra_homeInstance = nm_ourOrigin nm\<rparr>
     else if \<not> truthy (us_homeUserId u) then None
     else Some \<lparr>ra_homeUserId = the (us_homeUserId u), ra_homeInstance = the (us_homeInstance u)\<rparr>)"

definition sameRelayActor :: "names \<Rightarrow> RelayActor \<Rightarrow> RelayActor \<Rightarrow> bool" where
  "sameRelayActor nm a b \<longleftrightarrow> ra_homeUserId a = ra_homeUserId b
     \<and> domain_of nm (ra_homeInstance a) \<noteq> [] \<and> domain_of nm (ra_homeInstance a) = domain_of nm (ra_homeInstance b)"

definition formerIdentityOf :: "user_row \<Rightarrow> RelayActor option" where
  "formerIdentityOf u =
    (if \<not> truthy (us_detachedHomeUserId u) \<or> \<not> truthy (us_detachedHomeInstance u) then None
     else Some \<lparr>ra_homeUserId = the (us_detachedHomeUserId u), ra_homeInstance = the (us_detachedHomeInstance u)\<rparr>)"

datatype RelayActorResolution = Found user_row | Unknown | Mismatch

definition actor_candidates :: "RelayActor \<Rightarrow> user_row list \<Rightarrow> user_row list" where
  "actor_candidates actor users = filter (\<lambda>u.
     (us_homeUserId u = Some (ra_homeUserId actor)
      \<or> (us_id u = ra_homeUserId actor \<and> us_homeInstance u = None)
      \<or> us_detachedHomeUserId u = Some (ra_homeUserId actor))
     \<and> us_isDeleted u = Some 0) users"

definition is_actor :: "names \<Rightarrow> RelayActor \<Rightarrow> user_row \<Rightarrow> bool" where
  "is_actor nm actor u \<longleftrightarrow>
    (case formerIdentityOf u of Some former \<Rightarrow> sameRelayActor nm former actor | None \<Rightarrow> False)
    \<or> (if \<not> truthy (us_homeInstance u)
       then us_id u = ra_homeUserId actor \<and> isOwnDomain nm (domain_of nm (ra_homeInstance actor))
       else (case relayActorOfUser nm u of Some identity \<Rightarrow> sameRelayActor nm identity actor | None \<Rightarrow> False))"

definition resolveRelayActor :: "names \<Rightarrow> user_row list \<Rightarrow> RelayActor \<Rightarrow> RelayActorResolution" where
  "resolveRelayActor nm users actor =
    (let candidates = actor_candidates actor users in
     if candidates = [] then Unknown
     else (case find (is_actor nm actor) candidates of Some u \<Rightarrow> Found u | None \<Rightarrow> Mismatch))"

section \<open>Standing and attribution\<close>

datatype HomewardStanding = Proven | Unproven | No_such_user

text \<open>The origins a \<open>replicated_instances\<close> text lists.\<close>

definition entry_origin :: "json \<Rightarrow> string option" where
  "entry_origin e = (case json_get e ''origin'' of Some (JStr u) \<Rightarrow> latin1 u | _ \<Rightarrow> None)"

definition listed_origins :: "string option \<Rightarrow> string list" where
  "listed_origins t = (if \<not> truthy t then [] else (case json_parse (the t) of
     Some (JArr es) \<Rightarrow> List.map_filter entry_origin es | _ \<Rightarrow> []))"

text \<open>\<open>registry\<close> is \<open>user_federation_registry\<close>: a user and the origin of an instance they connected to.\<close>

type_synonym registry = "(user_id \<times> origin) list"

definition localUserStandingOnPeer :: "user_row list \<Rightarrow> registry \<Rightarrow> string \<Rightarrow> origin \<Rightarrow> HomewardStanding" where
  "localUserStandingOnPeer users registry homeUserId peerOrigin =
    (case find (\<lambda>u. us_id u = homeUserId \<and> us_homeInstance u = None \<and> us_isDeleted u = Some 0) users of
       None \<Rightarrow> No_such_user
     | Some native \<Rightarrow> (case normalizeOriginForCompare (Some peerOrigin) of
         None \<Rightarrow> Unproven
       | Some peerHost \<Rightarrow>
           if list_ex (\<lambda>(u, org). u = us_id native \<and> normalizeOriginForCompare (Some org) = Some peerHost) registry
              \<or> list_ex (\<lambda>org. normalizeOriginForCompare (Some org) = Some peerHost) (listed_origins (us_replicatedInstances native))
           then Proven else Unproven))"

datatype AttributionRefusal = Attribution_mismatch | Attribution_unproven

definition attributionRefusal ::
  "names \<Rightarrow> user_row list \<Rightarrow> registry \<Rightarrow> RelayActor option \<Rightarrow> origin \<Rightarrow> AttributionRefusal option" where
  "attributionRefusal nm users registry actor sourceInstance = (case actor of
     None \<Rightarrow> Some Attribution_mismatch
   | Some a \<Rightarrow>
      (let authorDomain = domain_of nm (ra_homeInstance a);
           sourceDomain = domain_of nm sourceInstance;
           ourDomain = domain_of nm (nm_ourOrigin nm)
       in if ra_homeUserId a = [] \<or> ra_homeInstance a = [] then Some Attribution_mismatch
       else if authorDomain = [] \<or> sourceDomain = [] then Some Attribution_mismatch
       else if authorDomain = sourceDomain then
         (case resolveRelayActor nm users a of
            Mismatch \<Rightarrow> Some Attribution_mismatch
          | Found u \<Rightarrow> if us_federationHomeOrphaned u = Some 1 then Some Attribution_mismatch else None
          | Unknown \<Rightarrow> None)
       else if ourDomain \<noteq> [] \<and> authorDomain = ourDomain then
         (case localUserStandingOnPeer users registry (ra_homeUserId a) sourceInstance of
            Proven \<Rightarrow> None
          | Unproven \<Rightarrow> Some Attribution_unproven
          | No_such_user \<Rightarrow> Some Attribution_mismatch)
       else Some Attribution_mismatch))"

section \<open>Subject clocks\<close>

record clock_row =
  cl_subjectKey :: string
  cl_changedAt :: millis
  cl_recordedAt :: millis

definition SUBJECT_CLOCK_RETENTION_MS :: int where
  "SUBJECT_CLOCK_RETENTION_MS = 400 * (24 * 60 * 60 * 1000)"

definition identityPart :: "names \<Rightarrow> RelayActor option \<Rightarrow> (string \<times> string) option" where
  "identityPart nm actor = (case actor of
     None \<Rightarrow> None
   | Some a \<Rightarrow>
      (let domain = domain_of nm (js_trim (ra_homeInstance a)) in
       if ra_homeUserId a = [] \<or> domain = [] then None
       else Some (ra_homeUserId a, if isOwnDomain nm domain then given (getOurIdentityDomain nm) domain else domain)))"

definition memberClockSubject :: "names \<Rightarrow> string option \<Rightarrow> RelayActor option \<Rightarrow> string option" where
  "memberClockSubject nm federatedId member =
    (if \<not> truthy federatedId then None
     else (case identityPart nm member of
         None \<Rightarrow> None
       | Some (i, d) \<Rightarrow> Some (json_strings [Some ''member'', federatedId, Some i, Some d])))"

definition side_text :: "string \<times> string \<Rightarrow> string" where
  "side_text p = json_strings [Some (fst p), Some (snd p)]"

definition friendPairClockSubject :: "names \<Rightarrow> RelayActor option \<Rightarrow> RelayActor option \<Rightarrow> string option" where
  "friendPairClockSubject nm a b = (case (identityPart nm a, identityPart nm b) of
     (Some x, Some y) \<Rightarrow>
       (let (p, q) = (if side_text y < side_text x then (y, x) else (x, y))
        in Some (json_strings [Some ''friend'', Some (fst p), Some (snd p), Some (fst q), Some (snd q)]))
   | _ \<Rightarrow> None)"

definition isSubjectChangeStale :: "clock_row list \<Rightarrow> string \<Rightarrow> millis \<Rightarrow> bool" where
  "isSubjectChangeStale clocks subject at = (case tbl_get cl_subjectKey subject clocks of
     None \<Rightarrow> False | Some row \<Rightarrow> at < cl_changedAt row)"

definition recordSubjectChange :: "clock_row list \<Rightarrow> string \<Rightarrow> millis \<Rightarrow> millis \<Rightarrow> clock_row list" where
  "recordSubjectChange clocks subject at now =
    (if tbl_get cl_subjectKey subject clocks = None
     then clocks @ [\<lparr>cl_subjectKey = subject, cl_changedAt = at, cl_recordedAt = now\<rparr>]
     else tbl_update cl_subjectKey subject
       (\<lambda>r. r\<lparr>cl_changedAt := max (cl_changedAt r) at, cl_recordedAt := now\<rparr>) clocks)"

definition claimSubjectChange :: "clock_row list \<Rightarrow> string \<Rightarrow> millis \<Rightarrow> millis \<Rightarrow> clock_row list \<times> bool" where
  "claimSubjectChange clocks subject at now =
    (if isSubjectChangeStale clocks subject at then (clocks, False)
     else (recordSubjectChange clocks subject at now, True))"

definition sweepSubjectClocks :: "clock_row list \<Rightarrow> millis \<Rightarrow> clock_row list \<times> nat" where
  "sweepSubjectClocks clocks now =
    (let kept = filter (\<lambda>r. \<not> cl_recordedAt r < now - SUBJECT_CLOCK_RETENTION_MS) clocks
     in (kept, length clocks - length kept))"

definition recordLocalMemberChange ::
  "names \<Rightarrow> clock_row list \<Rightarrow> string option \<Rightarrow> RelayActor \<Rightarrow> millis \<Rightarrow> millis \<Rightarrow> clock_row list" where
  "recordLocalMemberChange nm clocks federatedId member at now = (case memberClockSubject nm federatedId (Some member) of
     None \<Rightarrow> clocks | Some s \<Rightarrow> recordSubjectChange clocks s at now)"

definition recordLocalFriendPairChange ::
  "names \<Rightarrow> clock_row list \<Rightarrow> RelayActor \<Rightarrow> RelayActor \<Rightarrow> millis \<Rightarrow> millis \<Rightarrow> clock_row list" where
  "recordLocalFriendPairChange nm clocks a b at now = (case friendPairClockSubject nm (Some a) (Some b) of
     None \<Rightarrow> clocks | Some s \<Rightarrow> recordSubjectChange clocks s at now)"

section \<open>The ledger of applied events\<close>

record applied_row =
  ap_sourceOrigin :: origin
  ap_eventKey :: string
  ap_appliedAt :: millis

definition APPLIED_EVENT_RETENTION_MS :: int where
  "APPLIED_EVENT_RETENTION_MS = 100 * 24 * 60 * 60 * 1000"

definition dmDeleteKey :: "string \<Rightarrow> string" where
  "dmDeleteKey messageId = ''dm_delete:'' @ messageId"

definition relayEventKey :: "string \<Rightarrow> string \<Rightarrow> string" where
  "relayEventKey eventType messageId = eventType @ '':'' @ messageId"

definition hasAppliedEvent :: "applied_row list \<Rightarrow> origin \<Rightarrow> string \<Rightarrow> bool" where
  "hasAppliedEvent ledger org key = (case normalizeOriginForCompare (Some org) of
     None \<Rightarrow> False
   | Some source \<Rightarrow> list_ex (\<lambda>r. ap_sourceOrigin r = source \<and> ap_eventKey r = key) ledger)"

definition recordAppliedEvent :: "applied_row list \<Rightarrow> origin \<Rightarrow> string \<Rightarrow> millis \<Rightarrow> applied_row list" where
  "recordAppliedEvent ledger org key now = (case normalizeOriginForCompare (Some org) of
     None \<Rightarrow> ledger
   | Some source \<Rightarrow>
       if list_ex (\<lambda>r. ap_sourceOrigin r = source \<and> ap_eventKey r = key) ledger then ledger
       else ledger @ [\<lparr>ap_sourceOrigin = source, ap_eventKey = key, ap_appliedAt = now\<rparr>])"

definition sweepAppliedEvents :: "applied_row list \<Rightarrow> millis \<Rightarrow> applied_row list \<times> nat" where
  "sweepAppliedEvents ledger now =
    (let kept = filter (\<lambda>r. \<not> ap_appliedAt r < now - APPLIED_EVENT_RETENTION_MS) ledger
     in (kept, length ledger - length kept))"

section \<open>What the attribution check guarantees\<close>

text \<open>
  What the table of users promises about identities: ids are keys, and a live row that keeps a former identity is marked as
  detached. \<open>rehomeDetachedAccount\<close> moves an identity there only on a row that bears the mark, attaching the account again
  clears both, and only deleting it clears the mark alone.
\<close>

definition identity_rows :: "user_row list \<Rightarrow> bool" where
  "identity_rows users \<longleftrightarrow> distinct (map us_id users)
     \<and> list_all (\<lambda>u. us_isDeleted u = Some 0 \<and> formerIdentityOf u \<noteq> None \<longrightarrow> us_federationHomeOrphaned u = Some 1) users"

text \<open>A native account of that id is live and its own records name an account on that peer.\<close>

definition holds_account :: "user_row list \<Rightarrow> registry \<Rightarrow> string \<Rightarrow> origin \<Rightarrow> bool" where
  "holds_account users registry i org \<longleftrightarrow> (\<exists>v\<in>set users. us_id v = i \<and> us_homeInstance v = None \<and> us_isDeleted v = Some 0
     \<and> (\<exists>host home. normalizeOriginForCompare (Some org) = Some host \<and> normalizeOriginForCompare (Some home) = Some host
         \<and> ((i, home) \<in> set registry \<or> home \<in> set (listed_origins (us_replicatedInstances v)))))"

text \<open>A row that is not native and bears the identity of a native account: one under this instance's own name.\<close>

definition claims_native :: "names \<Rightarrow> user_row \<Rightarrow> string \<Rightarrow> bool" where
  "claims_native nm u i \<longleftrightarrow> (\<exists>identity. (us_homeInstance u \<noteq> None \<and> relayActorOfUser nm u = Some identity \<or> formerIdentityOf u = Some identity)
     \<and> ra_homeUserId identity = i \<and> isOwnDomain nm (domain_of nm (ra_homeInstance identity)))"

lemma find_SomeD: "find P xs = Some x \<Longrightarrow> x \<in> set xs \<and> P x"
  by (auto simp: find_Some_iff)

lemma actor_found:
  assumes "resolveRelayActor nm users a = Found u"
  shows "u \<in> set users \<and> us_isDeleted u = Some 0 \<and> is_actor nm a u"
  using assms by (auto simp: resolveRelayActor_def Let_def actor_candidates_def
      dest!: find_SomeD split: if_splits option.splits)

lemma proven_standing: "localUserStandingOnPeer users registry i org = Proven \<Longrightarrow> holds_account users registry i org"
  by (fastforce simp: localUserStandingOnPeer_def holds_account_def list_ex_iff split: option.splits if_splits dest!: find_SomeD)

text \<open>
  C8. Who an event of another instance is applied as: when the attribution check passes and the actor resolves to a user,
  that user is live and is either homed on the signing peer and not detached, or it was named by the id of a native account of this instance
  whose own records name an account on that peer. In the second case it is that native account, or a row
  that bears its identity without being it: registered under this instance's own name as its home, with that id as its home id, which
  \<open>POST /register\<close> lets anyone do.
\<close>
theorem attribution_sound:
  assumes rows: "identity_rows users"
    and own: "\<not> isOwnDomain nm (domain_of nm source)"
    and accepted: "attributionRefusal nm users registry (Some actor) source = None"
    and found: "resolveRelayActor nm users actor = Found u"
  shows "u \<in> set users \<and> us_isDeleted u = Some 0 \<and>
    ((us_homeUserId u = Some (ra_homeUserId actor) \<and> us_federationHomeOrphaned u \<noteq> Some 1
      \<and> (\<exists>h. us_homeInstance u = Some h \<and> domain_of nm h = domain_of nm source))
     \<or> (holds_account users registry (ra_homeUserId actor) source
      \<and> (us_homeInstance u = None \<and> us_id u = ra_homeUserId actor \<or> claims_native nm u (ra_homeUserId actor))))"
proof -
  let ?d = "domain_of nm (ra_homeInstance actor)"
  have u: "u \<in> set users" "us_isDeleted u = Some 0" and actor: "is_actor nm actor u"
    using actor_found[OF found] by auto
  show ?thesis
  proof (cases "?d = domain_of nm source")
    case True
    then have live: "us_federationHomeOrphaned u \<noteq> Some 1"
      using accepted found by (auto simp: attributionRefusal_def Let_def split: if_splits)
    then have "formerIdentityOf u = None" using rows u by (auto simp: identity_rows_def list_all_iff)
    with actor own True have "truthy (us_homeInstance u)" "us_homeUserId u = Some (ra_homeUserId actor)"
        "domain_of nm (the (us_homeInstance u)) = domain_of nm source"
      by (cases "us_homeUserId u"; auto simp: is_actor_def relayActorOfUser_def sameRelayActor_def split: if_splits option.splits)+
    then show ?thesis using live u by (cases "us_homeInstance u") simp_all
  next
    case False
    then have ours: "?d = domain_of nm (nm_ourOrigin nm)" "?d \<noteq> []"
      and proven: "localUserStandingOnPeer users registry (ra_homeUserId actor) source = Proven"
      using accepted by (auto simp: attributionRefusal_def Let_def split: if_splits HomewardStanding.splits)
    then have own_d: "isOwnDomain nm ?d" by (simp add: isOwnDomain_def)
    note account = proven_standing[OF proven]
    have "us_homeInstance u = None \<and> us_id u = ra_homeUserId actor \<or> claims_native nm u (ra_homeUserId actor)"
    proof (cases "\<exists>former. formerIdentityOf u = Some former \<and> sameRelayActor nm former actor")
      case True
      then show ?thesis using own_d by (auto simp: claims_native_def sameRelayActor_def)
    next
      case named: False
      show ?thesis
      proof (cases "truthy (us_homeInstance u)")
        case True
        then obtain identity where "relayActorOfUser nm u = Some identity" "sameRelayActor nm identity actor"
          using actor named by (auto simp: is_actor_def split: option.splits)
        moreover have "us_homeInstance u \<noteq> None" using True by (cases "us_homeInstance u") simp_all
        ultimately show ?thesis using own_d unfolding claims_native_def sameRelayActor_def by metis
      next
        case False
        then have id: "us_id u = ra_homeUserId actor" using actor named by (auto simp: is_actor_def split: option.splits)
        obtain v where v: "v \<in> set users" "us_id v = us_id u" "us_homeInstance v = None"
          using account unfolding holds_account_def id by blast
        have "v = u" using rows u(1) v(1,2) by (auto simp: identity_rows_def distinct_map inj_on_def)
        then show ?thesis using id v(3) by simp
      qed
    qed
    with u account show ?thesis by simp
  qed
qed

text \<open>Of two rows that bear the identity of a native account the first of the query is taken, be it the other one.\<close>

lemma claim_comes_first:
  assumes "actor_candidates actor users = u # us" and "us_homeInstance u = Some h" "us_homeUserId u = Some (ra_homeUserId actor)"
    and "h \<noteq> []" "ra_homeUserId actor \<noteq> []" and "domain_of nm h = domain_of nm (ra_homeInstance actor)" "domain_of nm h \<noteq> []"
  shows "resolveRelayActor nm users actor = Found u"
  using assms by (auto simp: resolveRelayActor_def is_actor_def relayActorOfUser_def sameRelayActor_def Let_def split: option.split)

section \<open>Last writer wins\<close>

definition clock_of :: "clock_row list \<Rightarrow> string \<Rightarrow> millis option" where
  "clock_of clocks subject = map_option cl_changedAt (tbl_get cl_subjectKey subject clocks)"

text \<open>A run of deliveries: each claims its subject and is applied when the claim holds.\<close>

fun deliver_all :: "clock_row list \<Rightarrow> (string \<times> millis \<times> 'e \<times> millis) list \<Rightarrow> clock_row list \<times> (string \<times> millis \<times> 'e) list" where
  "deliver_all clocks [] = (clocks, [])"
| "deliver_all clocks ((s, at, e, now) # es) =
    (let (clocks1, ok) = claimSubjectChange clocks s at now;
         (clocks2, applied) = deliver_all clocks1 es
     in (clocks2, if ok then (s, at, e) # applied else applied))"

definition last_applied :: "string \<Rightarrow> (string \<times> millis \<times> 'e) list \<Rightarrow> (millis \<times> 'e) option" where
  "last_applied s applied = (case filter (\<lambda>x. fst x = s) applied of [] \<Rightarrow> None | xs \<Rightarrow> Some (snd (last xs)))"

lemma clock_of_record: "clock_of (recordSubjectChange clocks s at now) s' =
  (if s' = s then Some (case clock_of clocks s of None \<Rightarrow> at | Some v \<Rightarrow> max v at) else clock_of clocks s')"
  by (auto simp: clock_of_def recordSubjectChange_def tbl_get_append table_simps split: option.splits)

lemma stale_clock: "isSubjectChangeStale clocks s at \<longleftrightarrow> (\<exists>v. clock_of clocks s = Some v \<and> at < v)"
  by (auto simp: isSubjectChangeStale_def clock_of_def split: option.splits)

lemma claim_clock:
  "clock_of (fst (claimSubjectChange clocks s at now)) s' =
     (if s' = s then Some (case clock_of clocks s of None \<Rightarrow> at | Some v \<Rightarrow> max v at) else clock_of clocks s')"
  by (auto simp: claimSubjectChange_def clock_of_record stale_clock split: option.splits)

lemma claim_ok: "snd (claimSubjectChange clocks s at now) \<longleftrightarrow> (\<forall>v. clock_of clocks s = Some v \<longrightarrow> v \<le> at)"
  by (auto simp: claimSubjectChange_def stale_clock not_less)

definition times_of :: "string \<Rightarrow> (string \<times> millis \<times> 'e \<times> millis) list \<Rightarrow> millis set" where
  "times_of s es = {at. \<exists>e now. (s, at, e, now) \<in> set es}"

lemma finite_times [simp]: "finite (times_of s es)"
proof -
  have "times_of s es \<subseteq> (\<lambda>x. fst (snd x)) ` set es" by (force simp: times_of_def)
  then show ?thesis by (rule finite_subset) simp
qed

lemma times_of_simps [simp]:
  "times_of s [] = {}" "times_of s ((s', at, e, now) # es) = (if s' = s then insert at (times_of s es) else times_of s es)"
  by (auto simp: times_of_def)

lemma deliver_Cons:
  "fst (deliver_all clocks ((s, at, e, now) # es)) = fst (deliver_all (fst (claimSubjectChange clocks s at now)) es)"
  "snd (deliver_all clocks ((s, at, e, now) # es)) = (if snd (claimSubjectChange clocks s at now)
    then (s, at, e) # snd (deliver_all (fst (claimSubjectChange clocks s at now)) es)
    else snd (deliver_all (fst (claimSubjectChange clocks s at now)) es))"
  by (simp_all add: case_prod_beta Let_def)

lemma last_applied_simps [simp]:
  "last_applied s [] = None"
  "last_applied s ((s', x) # xs) = (case last_applied s xs of Some y \<Rightarrow> Some y | None \<Rightarrow> if s' = s then Some x else None)"
  by (auto simp: last_applied_def split: list.splits)

lemma deliver_clock:
  "clock_of (fst (deliver_all clocks es)) s =
    (if times_of s es = {} then clock_of clocks s else Some (Max (times_of s es \<union> set_option (clock_of clocks s))))"
proof (induction es arbitrary: clocks)
  case (Cons x es)
  obtain s' at e now where x: "x = (s', at, e, now)" by (cases x) auto
  show ?case
  proof (cases "s' = s")
    case True
    then show ?thesis unfolding x
      by (cases "clock_of clocks s"; cases "times_of s es = {}")
        (simp_all add: deliver_Cons Cons claim_clock max.commute max.left_commute del: deliver_all.simps)
  next
    case False
    then show ?thesis unfolding x by (simp add: deliver_Cons Cons claim_clock del: deliver_all.simps)
  qed
qed simp

lemma deliver_last:
  "case last_applied s (snd (deliver_all clocks es)) of
     None \<Rightarrow> \<forall>t\<in>times_of s es. \<exists>v. clock_of clocks s = Some v \<and> t < v
   | Some (t, e) \<Rightarrow> (\<forall>t'\<in>times_of s es. t' \<le> t) \<and> (\<exists>now. (s, t, e, now) \<in> set es)
       \<and> (\<forall>v. clock_of clocks s = Some v \<longrightarrow> v \<le> t)"
proof (induction es arbitrary: clocks)
  case (Cons x es)
  obtain s' at e now where x: "x = (s', at, e, now)" by (cases x) auto
  note IH = Cons[of "fst (claimSubjectChange clocks s' at now)"]
  show ?case
  proof (cases "s' = s")
    case True
    then show ?thesis using IH unfolding x
      by (cases "clock_of clocks s")
        (fastforce simp: deliver_Cons claim_clock claim_ok not_le max_def split: option.splits if_splits simp del: deliver_all.simps)+
  next
    case False
    then show ?thesis using IH unfolding x
      by (auto simp: deliver_Cons claim_clock split: option.splits if_splits simp del: deliver_all.simps)
  qed
qed simp

lemma times_ofI: "(s, t, e, now) \<in> set es \<Longrightarrow> t \<in> times_of s es"
  by (auto simp: times_of_def)

definition same_events :: "(string \<times> millis \<times> 'e \<times> millis) list \<Rightarrow> (string \<times> millis \<times> 'e \<times> millis) list \<Rightarrow> bool" where
  "same_events es es' \<longleftrightarrow> (\<lambda>(s, at, e, now). (s, at, e)) ` set es = (\<lambda>(s, at, e, now). (s, at, e)) ` set es'"

lemma same_eventsD: "same_events es es' \<Longrightarrow> (s, t, e, now) \<in> set es \<Longrightarrow> \<exists>now'. (s, t, e, now') \<in> set es'"
  unfolding same_events_def by (drule equalityD1) (force simp: image_subset_iff image_iff)

lemma same_events_sym: "same_events es es' \<Longrightarrow> same_events es' es"
  by (simp add: same_events_def)

lemma same_events_times: "same_events es es' \<Longrightarrow> times_of s es = times_of s es'"
  unfolding times_of_def by (blast dest: same_eventsD same_events_sym)

lemma last_applied_dominates:
  assumes "times_of s es = times_of s es'" and "last_applied s (snd (deliver_all clocks es')) = Some (t', e')"
  shows "\<exists>t e now. last_applied s (snd (deliver_all clocks es)) = Some (t, e) \<and> t' \<le> t \<and> (s, t, e, now) \<in> set es"
proof -
  have t': "t' \<in> times_of s es" "\<forall>v. clock_of clocks s = Some v \<longrightarrow> v \<le> t'"
    using deliver_last[of s es' clocks] assms by (auto dest: times_ofI)
  show ?thesis using deliver_last[of s es clocks] t' by (fastforce split: option.splits)
qed

text \<open>
  C10. Subject clocks make the federation's member and friend events converge: whatever the order the events of
  a subject arrive in, and however often each is delivered again, the last one applied is the same, and so
  is the clock it leaves, provided no two changes of a subject carry one timestamp.
\<close>
theorem last_writer_wins:
  assumes same: "same_events es es'"
    and one: "\<And>s at e e' now now'. (s, at, e, now) \<in> set es \<Longrightarrow> (s, at, e', now') \<in> set es \<Longrightarrow> e = e'"
  shows "clock_of (fst (deliver_all clocks es)) s = clock_of (fst (deliver_all clocks es')) s
    \<and> last_applied s (snd (deliver_all clocks es)) = last_applied s (snd (deliver_all clocks es'))"
proof -
  note times = same_events_times[OF same]
  have "last_applied s (snd (deliver_all clocks es)) = last_applied s (snd (deliver_all clocks es'))"
  proof (cases "last_applied s (snd (deliver_all clocks es'))")
    case None
    then show ?thesis using last_applied_dominates[OF times[symmetric], where clocks = clocks]
      by (cases "last_applied s (snd (deliver_all clocks es))") fastforce+
  next
    case (Some p)
    then obtain t' e' where Some': "last_applied s (snd (deliver_all clocks es')) = Some (t', e')" by (cases p) auto
    then obtain t e now where te: "last_applied s (snd (deliver_all clocks es)) = Some (t, e)" "t' \<le> t" "(s, t, e, now) \<in> set es"
      using last_applied_dominates[OF times] by blast
    obtain now' where "t \<le> t'" "(s, t', e', now') \<in> set es'"
      using last_applied_dominates[OF times[symmetric] te(1)] Some' by auto
    then obtain now'' where "(s, t', e', now'') \<in> set es" using same_eventsD[OF same_events_sym[OF same]] by blast
    with \<open>t \<le> t'\<close> te(2,3) have "t = t'" "e = e'" using one by auto
    with te(1) Some' show ?thesis by simp
  qed
  with times show ?thesis by (simp add: deliver_clock)
qed

definition deliveries :: "(string \<times> millis \<times> string \<times> millis) list" where
  "deliveries = [(''f'', 20, ''remove'', 1), (''f'', 10, ''add'', 2), (''g'', 5, ''add'', 3)]"

definition redeliveries :: "(string \<times> millis \<times> string \<times> millis) list" where
  "redeliveries = [(''f'', 10, ''add'', 4), (''g'', 5, ''add'', 5), (''f'', 20, ''remove'', 6), (''f'', 10, ''add'', 7)]"

lemma last_writer_wins_witness:
  "last_applied ''f'' (snd (deliver_all [] redeliveries)) = Some (20, ''remove'')"
proof -
  have "last_applied ''f'' (snd (deliver_all [] deliveries)) = last_applied ''f'' (snd (deliver_all [] redeliveries))"
    by (rule last_writer_wins[of deliveries redeliveries, THEN conjunct2])
      (auto simp: same_events_def deliveries_def redeliveries_def)
  moreover have "last_applied ''f'' (snd (deliver_all [] deliveries)) = Some (20, ''remove'')"
    by (simp add: deliveries_def claimSubjectChange_def isSubjectChangeStale_def recordSubjectChange_def)
  ultimately show ?thesis by simp
qed

lemma side_text_inj: "side_text x = side_text y \<longleftrightarrow> x = y"
  by (auto simp: side_text_def prod_eq_iff dest!: json_strings_inj)

lemma friend_subject_eq:
  "friendPairClockSubject nm a b = Some s \<Longrightarrow>
   friendPairClockSubject nm c d = Some s \<longleftrightarrow>
     identityPart nm c \<noteq> None \<and> identityPart nm d \<noteq> None \<and>
     {identityPart nm a, identityPart nm b} = {identityPart nm c, identityPart nm d}"
  by (auto simp: friendPairClockSubject_def Let_def doubleton_eq_iff side_text_inj split: option.splits if_splits
      dest!: json_strings_inj)


definition plain_user :: "string \<Rightarrow> string \<Rightarrow> string option \<Rightarrow> string option \<Rightarrow> user_row" where
  "plain_user i username homeInstance homeUserId = \<lparr>us_id = i, us_username = username, us_displayName = None,
     us_passwordHash = ''!federation-replicated'', us_avatar = None, us_status = None, us_chosenStatus = ''online'', us_customStatus = None,
     us_isAdmin = None, us_homeInstance = homeInstance, us_homeUserId = homeUserId, us_replicatedInstances = None, us_banner = None,
     us_accentColor = None, us_avatarColor = None, us_bio = None, us_isDeleted = Some 0, us_discoverable = None,
     us_profileUpdatedAt = None, us_passwordChangedAt = None, us_showActivity = 1, us_federationRegistryUpdatedAt = None,
     us_federationHealPending = None, us_federationHomeOrphaned = Some 0, us_detachedHomeInstance = None,
     us_detachedHomeUserId = None, us_lastActiveDay = None, us_lastClient = None, us_createdAt = 0\<rparr>"

definition example_names :: names where
  "example_names = \<lparr>nm_url_of = (\<lambda>_. None), nm_ourOrigin = ''https://a'', nm_domain = None\<rparr>"

definition example_users :: "user_row list" where
  "example_users = [plain_user ''1'' ''ann'' None None, plain_user ''2'' ''bob@b'' (Some ''b'') (Some ''1'')]"

lemma attribution_sound_witness:
  "us_id (example_users ! 1) = ''2''
   \<and> (\<exists>h. us_homeInstance (example_users ! 1) = Some h \<and> domain_of example_names h = domain_of example_names ''https://b'')"
proof -
  have rows: "identity_rows example_users" by code_simp
  have own: "\<not> isOwnDomain example_names (domain_of example_names ''https://b'')" by code_simp
  have ok: "attributionRefusal example_names example_users [] (Some \<lparr>ra_homeUserId = ''1'', ra_homeInstance = ''https://b''\<rparr>) ''https://b'' = None"
    by code_simp
  have found: "resolveRelayActor example_names example_users \<lparr>ra_homeUserId = ''1'', ra_homeInstance = ''https://b''\<rparr>
      = Found (example_users ! 1)" by code_simp
  have other: "us_homeInstance (example_users ! 1) \<noteq> None" "us_id (example_users ! 1) = ''2''"
    by (simp_all add: example_users_def plain_user_def)
  have "\<not> holds_account example_users [] ''1'' ''https://b''"
    by (auto simp: holds_account_def example_users_def plain_user_def listed_origins_def)
  with attribution_sound[OF rows own ok found] other show ?thesis by simp
qed

end
