(* ===== verification/StubName.thy ===== *)
theory StubName
  imports Identity
begin

text \<open>
  The names this instance gives replicated users, \<open>packages/server/src/routes/federation/stubName.ts\<close>: the
  handle a hint stands for, the first free name for a handle, which rows may be renamed, and the handle
  a name is read back as. A user table is a list of rows; the random suffix is an argument. What a
  rename announces to clients is not modelled.
\<close>

section \<open>Handles and suffixed names\<close>

definition handle_char :: "char \<Rightarrow> bool" where
  "handle_char c \<longleftrightarrow> (let n = of_char c :: nat in (97 \<le> n \<and> n \<le> 122) \<or> (48 \<le> n \<and> n \<le> 57) \<or> n = 95)"

definition lower_hex :: "char \<Rightarrow> bool" where
  "lower_hex c \<longleftrightarrow> (let n = of_char c :: nat in (97 \<le> n \<and> n \<le> 102) \<or> (48 \<le> n \<and> n \<le> 57))"

definition is_handle :: "string \<Rightarrow> bool" where
  "is_handle s \<longleftrightarrow> s \<noteq> [] \<and> list_all handle_char s"

definition handleFromHint :: "string option \<Rightarrow> string option" where
  "handleFromHint username = (case username of
     None \<Rightarrow> None
   | Some u \<Rightarrow> let handle = lower (js_trim u) in if is_handle handle then Some handle else None)"

definition MAX_NUMBERED_SUFFIX :: nat where
  "MAX_NUMBERED_SUFFIX = 10"

text \<open>\<open>/^([a-z0-9_]+)~([0-9a-f]+)$/\<close>: the first group.\<close>

definition suffixedHandleOf :: "string \<Rightarrow> string option" where
  "suffixedHandleOf localPart =
    (let handle = takeWhile (\<lambda>c. c \<noteq> CHR ''~'') localPart;
         rest = drop (length handle) localPart
     in if is_handle handle \<and> rest \<noteq> [] \<and> tl rest \<noteq> [] \<and> list_all lower_hex (tl rest) then Some handle else None)"

definition ends_with :: "string \<Rightarrow> string \<Rightarrow> bool" where
  "ends_with suffix s \<longleftrightarrow> length suffix \<le> length s \<and> drop (length s - length suffix) s = suffix"

definition strip_suffix :: "string \<Rightarrow> string \<Rightarrow> string option" where
  "strip_suffix suffix s = (if ends_with suffix s then Some (take (length s - length suffix) s) else None)"

definition REPLICATED_PASSWORD_HASH :: string where
  "REPLICATED_PASSWORD_HASH = ''!federation-replicated''"

definition localPartOf :: "user_row \<Rightarrow> string option" where
  "localPartOf u = (if \<not> truthy (us_homeInstance u) then None
     else strip_suffix (lower (''@'' @ the (us_homeInstance u))) (lower (us_username u)))"

definition isRenameableReplica :: "user_row \<Rightarrow> bool" where
  "isRenameableReplica u \<longleftrightarrow> truthy (us_homeInstance u) \<and> truthy (us_homeUserId u)
     \<and> us_passwordHash u = REPLICATED_PASSWORD_HASH \<and> us_federationHomeOrphaned u \<noteq> Some 1"

definition isPlaceholderNamedStub :: "user_row \<Rightarrow> bool" where
  "isPlaceholderNamedStub u \<longleftrightarrow> isRenameableReplica u \<and> (case localPartOf u of
     None \<Rightarrow> False
   | Some localPart \<Rightarrow> suffixedHandleOf localPart = None
       \<and> (localPart = lower (the (us_homeUserId u)) \<or> \<not> is_handle localPart))"

definition isSuffixedFor :: "user_row \<Rightarrow> string \<Rightarrow> bool" where
  "isSuffixedFor u handle \<longleftrightarrow> isRenameableReplica u \<and> (case localPartOf u of
     None \<Rightarrow> False | Some localPart \<Rightarrow> suffixedHandleOf localPart = Some handle)"

section \<open>The first free name\<close>

definition nameFor :: "string \<Rightarrow> string \<Rightarrow> string" where
  "nameFor localPart domain = lower (localPart @ ''@'' @ domain)"

definition numbered :: "string \<Rightarrow> nat \<Rightarrow> string" where
  "numbered handle n = (if n = 0 then handle else handle @ ''~'' @ nat_to_dec n)"

definition name_taken :: "user_row list \<Rightarrow> user_row option \<Rightarrow> string \<Rightarrow> bool" where
  "name_taken users owner candidate = (case tbl_get us_username candidate users of
     None \<Rightarrow> False
   | Some holder \<Rightarrow> (case owner of None \<Rightarrow> True | Some r \<Rightarrow> us_id holder \<noteq> us_id r))"

definition own_suffixed_name :: "user_row option \<Rightarrow> string \<Rightarrow> string \<Rightarrow> string option" where
  "own_suffixed_name owner handle domain = (case owner of
     None \<Rightarrow> None
   | Some r \<Rightarrow> (case strip_suffix (lower (''@'' @ domain)) (lower (us_username r)) of
       None \<Rightarrow> None
     | Some localPart \<Rightarrow> if suffixedHandleOf localPart = Some handle then Some (lower (us_username r)) else None))"

definition firstFreeUsername :: "string \<Rightarrow> string \<Rightarrow> user_row list \<Rightarrow> user_row option \<Rightarrow> string \<Rightarrow> string" where
  "firstFreeUsername handle domain users owner random =
    (case find (\<lambda>name. \<not> name_taken users owner name)
        (map (\<lambda>n. nameFor (numbered handle n) domain) [0..<Suc MAX_NUMBERED_SUFFIX]) of
       Some name \<Rightarrow> name
     | None \<Rightarrow> (case own_suffixed_name owner handle domain of
         Some name \<Rightarrow> name
       | None \<Rightarrow> nameFor (handle @ ''~'' @ random) domain))"

section \<open>Renaming\<close>

definition set_username :: "string \<Rightarrow> string \<Rightarrow> user_row list \<Rightarrow> user_row list" where
  "set_username i name = tbl_update us_id i (\<lambda>u. u\<lparr>us_username := name\<rparr>)"

definition applyPlaceholderRename ::
  "user_row list \<Rightarrow> user_row \<Rightarrow> string option \<Rightarrow> string \<Rightarrow> user_row list \<times> user_row" where
  "applyPlaceholderRename users u username random =
    (if \<not> truthy (us_homeInstance u) then (users, u)
     else (case handleFromHint username of
         None \<Rightarrow> (users, u)
       | Some handle \<Rightarrow>
           if \<not> isPlaceholderNamedStub u \<and> \<not> isSuffixedFor u handle then (users, u)
           else let newUsername = firstFreeUsername handle (the (us_homeInstance u)) users (Some u) random in
             if newUsername = us_username u then (users, u)
             else (set_username (us_id u) newUsername users, u\<lparr>us_username := newUsername\<rparr>)))"

definition isSameIdentity :: "user_row \<Rightarrow> user_row \<Rightarrow> bool" where
  "isSameIdentity a b \<longleftrightarrow> truthy (us_homeUserId a) \<and> truthy (us_homeInstance a) \<and> truthy (us_homeUserId b)
     \<and> truthy (us_homeInstance b) \<and> us_homeUserId a = us_homeUserId b
     \<and> lower (the (us_homeInstance a)) = lower (the (us_homeInstance b))"

datatype HandleClaim = Claimed string "user_row option" | HeldBy user_id

text \<open>\<open>None\<close> where the code throws.\<close>

definition claimHandleName ::
  "user_row list \<Rightarrow> user_row \<Rightarrow> string \<Rightarrow> string \<Rightarrow> string \<Rightarrow> (user_row list \<times> HandleClaim) option" where
  "claimHandleName users row handle domain random =
    (if \<not> is_handle handle then None
     else let username = nameFor handle domain in
       (case tbl_get us_username username users of
          Some holder \<Rightarrow>
            if us_id holder = us_id row
            then Some (if us_username row \<noteq> username then set_username (us_id row) username users else users, Claimed username None)
            else if us_passwordHash holder \<noteq> REPLICATED_PASSWORD_HASH \<or> isSameIdentity holder row
            then Some (users, HeldBy (us_id holder))
            else
              let aside = firstFreeUsername handle domain users None random;
                  users1 = set_username (us_id holder) aside users
              in Some (if us_username row \<noteq> username then set_username (us_id row) username users1 else users1,
                   Claimed username (Some (holder\<lparr>us_username := aside\<rparr>)))
        | None \<Rightarrow>
            Some (if us_username row \<noteq> username then set_username (us_id row) username users else users, Claimed username None)))"

text \<open>\<open>/^[a-z0-9_]+_(?:[1-9]|10|[0-9a-f]{8})$/\<close>.\<close>

definition legacy_tail :: "string \<Rightarrow> bool" where
  "legacy_tail t \<longleftrightarrow> t \<in> set (map nat_to_dec [1..<11]) \<or> (length t = 8 \<and> list_all lower_hex t)"

definition legacy_suffixed :: "string \<Rightarrow> bool" where
  "legacy_suffixed s \<longleftrightarrow> list_ex (\<lambda>i. is_handle (take i s) \<and> s ! i = CHR ''_'' \<and> legacy_tail (drop (Suc i) s)) [0..<length s]"

definition mayCarryLegacySuffix :: "user_row \<Rightarrow> bool" where
  "mayCarryLegacySuffix u \<longleftrightarrow> truthy (us_homeInstance u) \<and> truthy (us_homeUserId u)
     \<and> us_federationHomeOrphaned u \<noteq> Some 1
     \<and> (case localPartOf u of None \<Rightarrow> False | Some localPart \<Rightarrow> legacy_suffixed localPart)"

definition relayHandleOf :: "user_row \<Rightarrow> string option" where
  "relayHandleOf u =
    (if \<not> truthy (us_homeInstance u)
     then handleFromHint (Some (takeWhile (\<lambda>c. c \<noteq> CHR ''@'') (us_username u)))
     else (case localPartOf u of
         None \<Rightarrow> None
       | Some localPart \<Rightarrow>
           if truthy (us_homeUserId u) \<and> localPart = lower (the (us_homeUserId u)) then None
           else (case suffixedHandleOf localPart of Some h \<Rightarrow> Some h | None \<Rightarrow> handleFromHint (Some localPart))))"

definition applyHomeHandle ::
  "user_row list \<Rightarrow> user_row \<Rightarrow> string option \<Rightarrow> string \<Rightarrow> user_row list \<times> user_row \<times> user_row option" where
  "applyHomeHandle users u homeUsername random = (case handleFromHint homeUsername of
     None \<Rightarrow> (users, u, None)
   | Some handle \<Rightarrow>
      if \<not> truthy (us_homeInstance u) \<or> \<not> truthy (us_homeUserId u) \<or> us_federationHomeOrphaned u = Some 1
      then (users, u, None)
      else if isRenameableReplica u then
        (let username = firstFreeUsername handle (the (us_homeInstance u)) users (Some u) random in
         if username = us_username u then (users, u, None)
         else (set_username (us_id u) username users, u\<lparr>us_username := username\<rparr>, None))
      else (case claimHandleName users u handle (the (us_homeInstance u)) random of
          Some (users1, Claimed username moved) \<Rightarrow> (users1, u\<lparr>us_username := username\<rparr>, moved)
        | _ \<Rightarrow> (users, u, None)))"

section \<open>Names that read back as their handle\<close>

lemma lower_append [simp]: "lower (s @ t) = lower s @ lower t"
  by (simp add: lower_def)

lemma lower_Cons: "lower (c # s) = lower_char c # lower s"
  by (simp add: lower_def)

lemma lower_char_idem: "lower_char (lower_char c) = lower_char c"
proof -
  have "of_char c < (256::nat)" by (rule nat_of_char_less_256)
  then show ?thesis by (auto simp: lower_char_def Let_def of_char_of)
qed

lemma lower_idem [simp]: "lower (lower s) = lower s"
  by (simp add: lower_def lower_char_idem)

lemma lower_length [simp]: "length (lower s) = length s"
  by (simp add: lower_def)

lemma lower_handle_char: "handle_char c \<or> c = CHR ''~'' \<or> lower_hex c \<Longrightarrow> lower_char c = c"
  by (auto simp: handle_char_def lower_hex_def lower_char_def Let_def)

lemma lower_handle [simp]: "is_handle h \<Longrightarrow> lower h = h"
  by (auto simp: is_handle_def lower_def list_all_iff intro!: map_idI lower_handle_char)

lemma lower_hex_text: "list_all lower_hex t \<Longrightarrow> lower t = t"
  by (auto simp: lower_def list_all_iff intro!: map_idI lower_handle_char)

lemma handle_no_tilde: "handle_char c \<Longrightarrow> c \<noteq> CHR ''~''"
  by (auto simp: handle_char_def)

lemma suffixed_tilde: "CHR ''~'' \<notin> set p \<Longrightarrow> suffixedHandleOf p = None"
proof -
  assume "CHR ''~'' \<notin> set p"
  then have "takeWhile (\<lambda>c. c \<noteq> CHR ''~'') p = p"
    by (auto simp: takeWhile_eq_all_conv)
  then show ?thesis unfolding suffixedHandleOf_def Let_def by (metis drop_eq_Nil order_refl)
qed

lemma suffixed_none: "is_handle h \<Longrightarrow> suffixedHandleOf h = None"
  by (auto simp: is_handle_def list_all_iff dest: handle_no_tilde intro!: suffixed_tilde)

lemma suffixed_some:
  assumes "is_handle h" "t \<noteq> []" "list_all lower_hex t"
  shows "suffixedHandleOf (h @ CHR ''~'' # t) = Some h"
proof -
  have "takeWhile (\<lambda>c. c \<noteq> CHR ''~'') (h @ CHR ''~'' # t) = h"
    using assms(1) by (subst takeWhile_append2) (auto simp: is_handle_def list_all_iff dest: handle_no_tilde)
  with assms show ?thesis by (simp add: suffixedHandleOf_def)
qed

lemma digits_hex: "list_all lower_hex (nat_to_dec n)"
  using nat_to_dec_digits[of n] by (auto simp: list_all_iff is_digit_def lower_hex_def Let_def)

lemma strip_suffix_append [simp]: "strip_suffix t (s @ t) = Some s"
  by (simp add: strip_suffix_def ends_with_def)

lemma strip_suffixD: "strip_suffix t s = Some r \<Longrightarrow> s = r @ t"
  by (auto simp: strip_suffix_def ends_with_def split: if_splits) (metis append_take_drop_id)

lemma js_trim_handle [simp]: "is_handle h \<Longrightarrow> js_trim h = h"
proof -
  have no_space: "\<not> js_space c" if "handle_char c" for c
    using that unfolding handle_char_def js_space_def Let_def by auto
  have keep: "dropWhile js_space s = s" if "list_all handle_char s" for s
    using that by (cases s) (auto simp: no_space)
  assume "is_handle h"
  then show ?thesis by (simp add: js_trim_def is_handle_def keep)
qed

lemma hint_handle [simp]: "is_handle h \<Longrightarrow> handleFromHint (Some h) = Some h"
  by (simp add: handleFromHint_def Let_def)

lemma lower_char_tilde: "lower_char c = CHR ''~'' \<Longrightarrow> c = CHR ''~''"
proof -
  assume *: "lower_char c = CHR ''~''"
  have "of_char (lower_char c) = (126::nat)" using * by simp
  then have "(of_char c :: nat) = 126"
    using nat_of_char_less_256[of c] by (auto simp: lower_char_def Let_def of_char_of split: if_splits)
  with * show ?thesis by (simp add: lower_char_def Let_def split: if_splits)
qed

text \<open>What a name for a handle looks like: the handle, or the handle and a suffix, at the domain.\<close>

definition names_handle :: "string \<Rightarrow> string \<Rightarrow> string \<Rightarrow> bool" where
  "names_handle h d name \<longleftrightarrow> (\<exists>p. name = p @ lower (''@'' @ d) \<and> lower p = p \<and> (p = h \<or> suffixedHandleOf p = Some h))"

lemma numbered_names:
  assumes h: "is_handle h" shows "names_handle h d (nameFor (numbered h n) d)"
proof -
  have "lower (numbered h n) = numbered h n"
    using h digits_hex[of n] by (auto simp: numbered_def lower_Cons lower_handle_char lower_hex_text)
  moreover have "numbered h n = h \<or> suffixedHandleOf (numbered h n) = Some h"
    using suffixed_some[OF h _ digits_hex[of n]] by (auto simp: numbered_def)
  ultimately show ?thesis by (auto simp: names_handle_def nameFor_def)
qed

lemma random_names:
  assumes h: "is_handle h" and r: "r \<noteq> []" "list_all lower_hex r"
  shows "names_handle h d (nameFor (h @ ''~'' @ r) d)"
  unfolding names_handle_def
  by (rule exI[of _ "h @ ''~'' @ r"]) (use assms suffixed_some[OF h r] in \<open>auto simp: nameFor_def lower_Cons lower_handle_char lower_hex_text\<close>)

lemma own_names:
  assumes "own_suffixed_name owner h d = Some name" shows "names_handle h d name"
proof -
  obtain r p where r: "owner = Some r" "strip_suffix (lower (''@'' @ d)) (lower (us_username r)) = Some p"
    "suffixedHandleOf p = Some h" "name = lower (us_username r)"
    using assms by (auto simp: own_suffixed_name_def split: option.splits if_splits)
  have low: "lower (us_username r) = p @ lower (''@'' @ d)" by (rule strip_suffixD[OF r(2)])
  then have "lower (p @ lower (''@'' @ d)) = p @ lower (''@'' @ d)" by (metis lower_idem)
  then have "lower p = p" by simp
  with low r show ?thesis by (auto simp: names_handle_def)
qed

lemma firstFree_cases:
  obtains (numbered) n where "firstFreeUsername h d users owner r = nameFor (numbered h n) d"
      "\<not> name_taken users owner (nameFor (numbered h n) d)"
  | (own) "own_suffixed_name owner h d = Some (firstFreeUsername h d users owner r)"
  | (random) "firstFreeUsername h d users owner r = nameFor (h @ ''~'' @ r) d" "own_suffixed_name owner h d = None"
proof (cases "find (\<lambda>name. \<not> name_taken users owner name) (map (\<lambda>n. nameFor (numbered h n) d) [0..<Suc MAX_NUMBERED_SUFFIX])")
  case None
  then show ?thesis
    using own random by (cases "own_suffixed_name owner h d") (simp_all add: firstFreeUsername_def)
next
  case (Some name)
  then have "firstFreeUsername h d users owner r = name" by (simp add: firstFreeUsername_def)
  moreover have "name \<in> (\<lambda>n. nameFor (numbered h n) d) ` {0..<Suc MAX_NUMBERED_SUFFIX}" "\<not> name_taken users owner name"
    using find_SomeD[OF Some] by (simp_all only: set_map set_upt not_False_eq_True)
  ultimately show ?thesis by (elim imageE) (rule numbered; simp only:)
qed

lemma firstFree_names:
  assumes "is_handle h" "r \<noteq> []" "list_all lower_hex r"
  shows "names_handle h d (firstFreeUsername h d users owner r)"
proof (cases rule: firstFree_cases[of h d users owner r])
  case (numbered n)
  then show ?thesis using numbered_names[OF assms(1)] by simp
next
  case own
  then show ?thesis by (rule own_names)
next
  case random
  then show ?thesis using random_names[OF assms, of d] by simp
qed

text \<open>
  C39. The name a replica is given reads back as the handle it was given for: whatever names are taken, the name
  chosen for a handle at a domain relays that handle onward, never a name of this instance's making; unless the
  handle happens to be the user's own id there, which reads as a placeholder.
\<close>
theorem replica_name_roundtrip:
  assumes h: "is_handle h" and r: "r \<noteq> []" "list_all lower_hex r"
    and u: "us_homeInstance u = Some d" "d \<noteq> []"
    and i: "\<And>i. us_homeUserId u = Some i \<Longrightarrow> lower i \<noteq> h \<and> CHR ''~'' \<notin> set i"
  shows "relayHandleOf (u\<lparr>us_username := firstFreeUsername h d users owner r\<rparr>) = Some h"
proof -
  obtain p where p: "firstFreeUsername h d users owner r = p @ lower (''@'' @ d)" "lower p = p"
      "p = h \<or> suffixedHandleOf p = Some h"
    using firstFree_names[OF h r, of d users owner] by (auto simp: names_handle_def)
  have tilde: "CHR ''~'' \<in> set p" if "suffixedHandleOf p = Some h"
    using that suffixed_tilde by (metis option.simps(3))
  have lowt: "CHR ''~'' \<in> set (lower i) \<Longrightarrow> CHR ''~'' \<in> set i" for i
    by (auto simp: lower_def dest!: lower_char_tilde[OF sym])
  have other: "p \<noteq> lower i" if "us_homeUserId u = Some i" for i
    using i[OF that] p(3) tilde lowt[of i] by auto
  have "localPartOf (u\<lparr>us_username := firstFreeUsername h d users owner r\<rparr>) = Some p"
    using u p by (simp add: localPartOf_def)
  then show ?thesis
    using u other p(3) suffixed_none[OF h] h
    by (cases "us_homeUserId u"; cases "suffixedHandleOf p = Some h") (auto simp: relayHandleOf_def)
qed


section \<open>Renaming settles\<close>

lemma name_taken_iff:
  assumes "distinct (map us_username users)"
  shows "name_taken users (Some u) name \<longleftrightarrow> (\<exists>v\<in>set users. us_username v = name \<and> us_id v \<noteq> us_id u)"
proof (cases "tbl_get us_username name users")
  case None
  then show ?thesis by (simp add: name_taken_def) (auto simp: tbl_get_None_iff)
next
  case (Some v)
  then have v: "v \<in> set users" "us_username v = name" by (auto dest: tbl_get_SomeD)
  with assms have "w = v" if "w \<in> set users" "us_username w = name" for w
    using that by (auto simp: distinct_map inj_on_def)
  then have "(\<exists>w\<in>set users. us_username w = name \<and> us_id w \<noteq> us_id u) \<longleftrightarrow> us_id v \<noteq> us_id u" using v by blast
  with Some show ?thesis by (simp add: name_taken_def)
qed

lemma set_username_ids [simp]: "map us_id (set_username i name users) = map us_id users"
  by (simp add: set_username_def tbl_update_def)

lemma set_username_others: "us_id v \<noteq> i \<Longrightarrow> v \<in> set (set_username i name users) \<longleftrightarrow> v \<in> set users"
  by (auto simp: set_username_def tbl_update_def)

lemma set_username_member:
  assumes "u \<in> set users" "distinct (map us_id users)"
  shows "u\<lparr>us_username := name\<rparr> \<in> set (set_username (us_id u) name users)"
  using assms by (force simp: set_username_def tbl_update_def)

lemma set_username_distinct:
  assumes "distinct (map us_id users)" "distinct (map us_username users)"
    and free: "\<And>v. v \<in> set users \<Longrightarrow> us_id v \<noteq> i \<Longrightarrow> us_username v \<noteq> name"
  shows "distinct (map us_username (set_username i name users))"
  using assms
proof (induction users)
  case (Cons v users)
  have "us_id w \<noteq> us_id v" if "w \<in> set users" for w using Cons.prems(1) imageI[OF that, of us_id] by auto
  moreover have "us_username w \<noteq> us_username v" if "w \<in> set users" for w using Cons.prems(2) imageI[OF that, of us_username] by auto
  ultimately show ?case using Cons by (auto simp: set_username_def tbl_update_def split: if_splits) metis+
qed (simp add: set_username_def tbl_update_def)

lemma set_username_taken:
  assumes "distinct (map us_username users)" "distinct (map us_username (set_username (us_id u) n users))"
  shows "name_taken (set_username (us_id u) n users) (Some (u\<lparr>us_username := n\<rparr>)) name = name_taken users (Some u) name"
  using assms by (auto simp: name_taken_iff) (auto simp: set_username_def tbl_update_def split: if_splits)

text \<open>What a rename of \<open>u\<close> relies on: keys are keys, names are stored in lower case, and the random name is fresh.\<close>

definition rename_ready :: "user_row list \<Rightarrow> user_row \<Rightarrow> string \<Rightarrow> string \<Rightarrow> bool" where
  "rename_ready users u h random \<longleftrightarrow> u \<in> set users \<and> distinct (map us_id users) \<and> distinct (map us_username users)
     \<and> lower (us_username u) = us_username u \<and> random \<noteq> [] \<and> list_all lower_hex random
     \<and> nameFor (h @ ''~'' @ random) (the (us_homeInstance u)) \<notin> us_username ` set users"

lemma rename_free:
  assumes ready: "rename_ready users u h random"
    and v: "v \<in> set users" "us_id v \<noteq> us_id u"
  shows "us_username v \<noteq> firstFreeUsername h (the (us_homeInstance u)) users (Some u) random"
proof (cases rule: firstFree_cases[of h "the (us_homeInstance u)" users "Some u" random])
  case (numbered n)
  then show ?thesis using v ready name_taken_iff[of users u] by (auto simp: rename_ready_def)
next
  case own
  then have "firstFreeUsername h (the (us_homeInstance u)) users (Some u) random = us_username u"
    using ready by (auto simp: own_suffixed_name_def rename_ready_def split: option.splits if_splits)
  then show ?thesis using v ready by (auto simp: rename_ready_def distinct_map inj_on_def)
next
  case random
  then show ?thesis using v ready by (auto simp: rename_ready_def image_iff)
qed

lemma firstFree_again:
  fixes h random users u
  defines "d \<equiv> the (us_homeInstance u)"
  defines "n \<equiv> firstFreeUsername h d users (Some u) random"
  assumes ready: "rename_ready users u h random" and h: "is_handle h"
  shows "firstFreeUsername h d (set_username (us_id u) n users) (Some (u\<lparr>us_username := n\<rparr>)) random' = n"
proof -
  have dist: "distinct (map us_username users)" using ready by (simp add: rename_ready_def)
  have dist': "distinct (map us_username (set_username (us_id u) n users))"
    by (rule set_username_distinct) (use ready rename_free[OF ready] in \<open>auto simp: rename_ready_def n_def d_def\<close>)
  let ?names = "map (\<lambda>n. nameFor (numbered h n) d) [0..<Suc MAX_NUMBERED_SUFFIX]"
  have same: "find (\<lambda>name. \<not> name_taken (set_username (us_id u) n users) (Some (u\<lparr>us_username := n\<rparr>)) name) ?names
      = find (\<lambda>name. \<not> name_taken users (Some u) name) ?names"
    by (simp only: set_username_taken[OF dist dist'])
  show ?thesis
  proof (cases "find (\<lambda>name. \<not> name_taken users (Some u) name) ?names")
    case (Some name)
    with same show ?thesis by (simp add: firstFreeUsername_def n_def)
  next
    case None
    then have n: "n = (case own_suffixed_name (Some u) h d of Some name \<Rightarrow> name | None \<Rightarrow> nameFor (h @ ''~'' @ random) d)"
      by (simp add: firstFreeUsername_def n_def)
    have low: "lower n = n"
      using n ready by (auto simp: own_suffixed_name_def nameFor_def split: option.splits if_splits)
    have "own_suffixed_name (Some (u\<lparr>us_username := n\<rparr>)) h d = Some n"
    proof (cases "own_suffixed_name (Some u) h d")
      case (Some name)
      then show ?thesis using n by (auto simp: own_suffixed_name_def split: option.splits if_splits)
    next
      case None
      then have "n = (h @ CHR ''~'' # random) @ lower (''@'' @ d)"
        using n ready h by (simp add: rename_ready_def nameFor_def lower_Cons lower_handle_char lower_hex_text)
      then have "strip_suffix (lower (''@'' @ d)) (lower n) = Some (h @ CHR ''~'' # random)"
        unfolding low by (metis strip_suffix_append)
      then show ?thesis
        using suffixed_some[OF h] ready low by (simp add: own_suffixed_name_def rename_ready_def)
    qed
    with None same show ?thesis by (simp add: firstFreeUsername_def)
  qed
qed


lemma set_username_same:
  assumes "u \<in> set users" "distinct (map us_id users)"
  shows "set_username (us_id u) (us_username u) users = users"
proof -
  have "v\<lparr>us_username := us_username u\<rparr> = v" if "v \<in> set users" "us_id v = us_id u" for v
  proof -
    have "v = u" using assms that by (auto simp: distinct_map inj_on_def)
    then show ?thesis by simp
  qed
  then show ?thesis by (auto simp: set_username_def tbl_update_def intro!: map_idI)
qed

lemma rename_unfold:
  assumes "u \<in> set users" "distinct (map us_id users)" "handleFromHint hint = Some h"
  shows "applyPlaceholderRename users u hint random =
    (if truthy (us_homeInstance u) \<and> (isPlaceholderNamedStub u \<or> isSuffixedFor u h)
     then (set_username (us_id u) (firstFreeUsername h (the (us_homeInstance u)) users (Some u) random) users,
           u\<lparr>us_username := firstFreeUsername h (the (us_homeInstance u)) users (Some u) random\<rparr>)
     else (users, u))"
  using assms(3) set_username_same[OF assms(1,2)] by (auto simp: applyPlaceholderRename_def Let_def)

text \<open>
  Renaming a replica settles: it changes the name of that one row and of no other, leaves every name held by
  one row, and asked again with the same hint, whatever suffix is drawn, changes nothing; so two rows of one
  handle never trade names.
\<close>
theorem rename_settles:
  assumes ready: "\<And>h. handleFromHint hint = Some h \<Longrightarrow> rename_ready users u h random"
    and renamed: "applyPlaceholderRename users u hint random = (users1, u1)"
    and u: "u \<in> set users" "distinct (map us_id users)" "distinct (map us_username users)"
  shows "u1 \<in> set users1 \<and> u1\<lparr>us_username := us_username u\<rparr> = u \<and> distinct (map us_username users1)
    \<and> (\<forall>v. us_id v \<noteq> us_id u \<longrightarrow> v \<in> set users1 \<longleftrightarrow> v \<in> set users)
    \<and> applyPlaceholderRename users1 u1 hint random' = (users1, u1)"
proof -
  define d where "d = the (us_homeInstance u)"
  consider "users1 = users" "u1 = u" "\<And>r. applyPlaceholderRename users u hint r = (users, u)"
    | h where "handleFromHint hint = Some h" "truthy (us_homeInstance u)"
      "users1 = set_username (us_id u) (firstFreeUsername h d users (Some u) random) users"
      "u1 = u\<lparr>us_username := firstFreeUsername h d users (Some u) random\<rparr>"
  proof (cases "handleFromHint hint")
    case None
    then have "applyPlaceholderRename users u hint r = (users, u)" for r by (simp add: applyPlaceholderRename_def)
    with renamed show thesis by (intro that(1)) simp_all
  next
    case (Some h)
    note unfolded = rename_unfold[OF u(1,2) Some]
    show thesis
    proof (cases "truthy (us_homeInstance u) \<and> (isPlaceholderNamedStub u \<or> isSuffixedFor u h)")
      case True
      with renamed Some show thesis by (intro that(2)) (auto simp: unfolded d_def)
    next
      case False
      then have "applyPlaceholderRename users u hint r = (users, u)" for r by (simp only: unfolded if_False)
      with renamed show thesis by (intro that(1)) simp_all
    qed
  qed
  then show ?thesis
  proof cases
    case 1
    with u show ?thesis by simp
  next
    case (2 h)
    have h: "is_handle h" using 2(1) by (auto simp: handleFromHint_def Let_def split: option.splits if_splits)
    note again = firstFree_again[OF ready[OF 2(1)] h, of random', folded d_def]
    have "distinct (map us_username users1)" unfolding 2
      by (rule set_username_distinct) (use u rename_free[OF ready[OF 2(1)]] in \<open>auto simp: d_def\<close>)
    moreover have "applyPlaceholderRename users1 u1 hint random' = (users1, u1)"
      using again 2 by (simp add: applyPlaceholderRename_def d_def Let_def)
    ultimately show ?thesis
      using u set_username_member by (simp add: 2 set_username_others)
  qed
qed


lemma replica_name_roundtrip_witness:
  "relayHandleOf ((plain_user ''9'' ''x'' (Some ''b'') (Some ''1''))\<lparr>us_username :=
      firstFreeUsername ''kai'' ''b'' [plain_user ''2'' ''kai@b'' (Some ''b'') (Some ''7'')] None ''0a''\<rparr>) = Some ''kai''
   \<and> firstFreeUsername ''kai'' ''b'' [plain_user ''2'' ''kai@b'' (Some ''b'') (Some ''7'')] None ''0a'' = ''kai~1@b''"
proof
  show "relayHandleOf ((plain_user ''9'' ''x'' (Some ''b'') (Some ''1''))\<lparr>us_username :=
      firstFreeUsername ''kai'' ''b'' [plain_user ''2'' ''kai@b'' (Some ''b'') (Some ''7'')] None ''0a''\<rparr>) = Some ''kai''"
  proof (rule replica_name_roundtrip)
    show "is_handle ''kai''" "list_all lower_hex ''0a''" by code_simp+
    show "lower i \<noteq> ''kai'' \<and> CHR ''~'' \<notin> set i"
      if "us_homeUserId (plain_user ''9'' ''x'' (Some ''b'') (Some ''1'')) = Some i" for i
      using that by (auto simp: plain_user_def lower_def)
  qed (simp_all add: plain_user_def)
  show "firstFreeUsername ''kai'' ''b'' [plain_user ''2'' ''kai@b'' (Some ''b'') (Some ''7'')] None ''0a'' = ''kai~1@b''"
    by code_simp
qed

lemma rename_settles_witness:
  "snd (applyPlaceholderRename [plain_user ''2'' ''7@b'' (Some ''b'') (Some ''7'')]
      (plain_user ''2'' ''7@b'' (Some ''b'') (Some ''7'')) (Some '' Kai'') ''0a'') = plain_user ''2'' ''kai@b'' (Some ''b'') (Some ''7'')
   \<and> applyPlaceholderRename [plain_user ''2'' ''kai@b'' (Some ''b'') (Some ''7'')]
      (plain_user ''2'' ''kai@b'' (Some ''b'') (Some ''7'')) (Some '' Kai'') ''0b'' =
     ([plain_user ''2'' ''kai@b'' (Some ''b'') (Some ''7'')], plain_user ''2'' ''kai@b'' (Some ''b'') (Some ''7''))"
proof -
  let ?u = "plain_user ''2'' ''7@b'' (Some ''b'') (Some ''7'')" and ?v = "plain_user ''2'' ''kai@b'' (Some ''b'') (Some ''7'')"
  have hint: "handleFromHint (Some '' Kai'') = Some ''kai''" by code_simp
  have ready: "rename_ready [?u] ?u ''kai'' ''0a''" by code_simp
  have renamed: "applyPlaceholderRename [?u] ?u (Some '' Kai'') ''0a'' = ([?v], ?v)" by code_simp
  from rename_settles[OF _ renamed, of "''0b''"] hint ready show ?thesis
    unfolding renamed by simp
qed

end
