(* ===== verification/MutationLog.thy ===== *)
theory MutationLog
  imports Peering
begin

text \<open>
  The mutation log of \<open>packages/server/src/utils/federationOutbox.ts\<close>: the changes made on this instance,
  which peers read back through the sync endpoint; the DM message rows it names; and \<open>JSON.stringify\<close> of a
  JSON value, which writes its payloads (with every character beyond 8 bits as an escape).
\<close>

record mutation_row =
  mu_id :: string
  mu_entityId :: string
  mu_contextId :: string
  mu_contextType :: string
  mu_mutationType :: string
  mu_mutatedAt :: millis
  mu_payload :: "string option"

record dm_message_row =
  ms_id :: string
  ms_dmChannelId :: channel_id
  ms_userId :: user_id
  ms_replyToId :: "string option"
  ms_content :: "string option"
  ms_type :: string
  ms_editedAt :: "millis option"
  ms_sourceInstance :: "string option"
  ms_sourceMessageId :: "string option"
  ms_encryptionVersion :: "int option"
  ms_createdAt :: millis

definition MUTATION_LOG_RETENTION_MS :: int where
  "MUTATION_LOG_RETENTION_MS = 90 * 24 * 60 * 60 * 1000"

text \<open>The context type defaults to \<open>dm\<close>.\<close>

definition appendMutationLog ::
  "bool \<Rightarrow> string \<Rightarrow> string \<Rightarrow> string \<Rightarrow> string option \<Rightarrow> string \<Rightarrow> string \<Rightarrow> millis \<Rightarrow> mutation_row list \<Rightarrow> mutation_row list" where
  "appendMutationLog relayEnabled entityId contextId mutationType payload contextType newId now log =
    (if \<not> relayEnabled then log
     else log @ [\<lparr>mu_id = newId, mu_entityId = entityId, mu_contextId = contextId, mu_contextType = contextType,
                 mu_mutationType = mutationType, mu_mutatedAt = now, mu_payload = payload\<rparr>])"

section \<open>JSON.stringify\<close>

definition unit_escape :: "nat \<Rightarrow> string" where
  "unit_escape u = (if u < 256 then json_escape (char_of u)
     else [CHR 0x5C, CHR ''u'', hex_digit (u div 4096 mod 16), hex_digit (u div 256 mod 16), hex_digit (u div 16 mod 16), hex_digit (u mod 16)])"

definition quote_units :: "units \<Rightarrow> string" where
  "quote_units u = CHR 0x22 # concat (map unit_escape u) @ [CHR 0x22]"

fun stringify :: "json \<Rightarrow> string" where
  "stringify JNull = ''null''"
| "stringify (JBool b) = (if b then ''true'' else ''false'')"
| "stringify (JNum n) = n"
| "stringify (JStr u) = quote_units u"
| "stringify (JArr js) = ''['' @ json_join (map stringify js) @ '']''"
| "stringify (JObj ms) = ''{'' @ json_join (map (\<lambda>(k, v). quote_units k @ '':'' @ stringify v) ms) @ ''}''"

definition jtext :: "string \<Rightarrow> json" where
  "jtext s = JStr (units_of s)"

definition obj :: "(string \<times> json) list \<Rightarrow> json" where
  "obj ms = JObj (map (\<lambda>(k, v). (units_of k, v)) ms)"

end
