(* ===== verification/SyncServe.thy ===== *)
theory SyncServe
  imports StubName MutationLog
begin

text \<open>
  The serving side of pull sync, \<open>packages/server/src/routes/federation/handlers/syncPage.ts\<close>: which rows of
  the mutation log a peer may read, a page of them in \<open>(mutated_at, id)\<close> order, the event a row stands for, and
  the answer to one request. An event is the members of its JSON object. A logged payload that is no object
  adds no members. The event of a message row (\<open>serializeMessageRow\<close>) is built by the DM relay code and
  is an argument.
\<close>

section \<open>The tables a reader joins\<close>

record dm_reaction_row =
  re_dmMessageId :: string
  re_userId :: user_id
  re_emoji :: units

record sync_db =
  sy_log :: "mutation_row list"
  sy_users :: "user_row list"
  sy_channels :: "dm_channel_row list"
  sy_members :: "dm_member_row list"
  sy_messages :: "dm_message_row list"
  sy_reactions :: "dm_reaction_row list"

record SyncPosition =
  po_ts :: millis
  po_id :: "string option"

record SyncPage =
  pg_read :: "mutation_row list"
  pg_served :: "mutation_row list"

datatype sync_context = CtxDm | CtxFriend | CtxProfile

record SyncRequestScope =
  sc_contextType :: sync_context
  sc_dmChannelId :: "string option"
  sc_federatedId :: "string option"

definition identityHost :: "names \<Rightarrow> string option \<Rightarrow> string option" where
  "identityHost nm v =
    (if \<not> truthy v then None
     else let trimmed = js_trim (the v) in
       if trimmed = [] then None
       else map_option (\<lambda>u. lower (url_hostname u))
         (nm_url_of nm (if scheme_length trimmed \<noteq> 0 then trimmed else ''https://'' @ trimmed)))"

section \<open>Payloads\<close>

definition parsePayload :: "string option \<Rightarrow> json option" where
  "parsePayload p = (if \<not> truthy p then None else json_parse (the p))"

fun json_path :: "json option \<Rightarrow> string list \<Rightarrow> json option" where
  "json_path j [] = j"
| "json_path None (k # ks) = None"
| "json_path (Some j) (k # ks) = json_path (json_get j k) ks"

definition text_at :: "json option \<Rightarrow> string list \<Rightarrow> string option" where
  "text_at j ks = (case json_path j ks of Some (JStr u) \<Rightarrow> latin1 u | _ \<Rightarrow> None)"

definition json_truthy :: "json \<Rightarrow> bool" where
  "json_truthy j = (case j of JNull \<Rightarrow> False | JBool b \<Rightarrow> b | JNum n \<Rightarrow> n \<notin> {''0'', ''-0''} | JStr u \<Rightarrow> u \<noteq> [] | _ \<Rightarrow> True)"

section \<open>A page of the log\<close>

definition log_order :: "mutation_row \<Rightarrow> millis \<times> string" where
  "log_order r = (mu_mutatedAt r, mu_id r)"

definition after_position :: "SyncPosition \<Rightarrow> mutation_row \<Rightarrow> bool" where
  "after_position p r = (case po_id p of
     None \<Rightarrow> po_ts p < mu_mutatedAt r
   | Some i \<Rightarrow> po_ts p < mu_mutatedAt r \<or> (mu_mutatedAt r = po_ts p \<and> i < mu_id r))"

definition readLogPage :: "(mutation_row \<Rightarrow> bool) \<Rightarrow> mutation_row list \<Rightarrow> SyncPosition \<Rightarrow> nat \<Rightarrow> mutation_row list" where
  "readLogPage cond log after limit = take limit (sort_key log_order (filter (\<lambda>r. cond r \<and> after_position after r) log))"

text \<open>A reader: the rows the SQL condition keeps, and those of them that are served.\<close>

record SyncLogReader =
  rd_where :: "mutation_row \<Rightarrow> bool"
  rd_serves :: "mutation_row \<Rightarrow> bool"
  rd_channelFederatedIds :: "(channel_id \<times> string) list"

definition reader_read :: "SyncLogReader \<Rightarrow> mutation_row list \<Rightarrow> SyncPosition \<Rightarrow> nat \<Rightarrow> SyncPage" where
  "reader_read rd log after limit =
    (let page = readLogPage (rd_where rd) log after limit
     in \<lparr>pg_read = page, pg_served = filter (rd_serves rd) page\<rparr>)"

section \<open>Who may read what\<close>

definition member_row_type :: "mutation_row \<Rightarrow> bool" where
  "member_row_type r \<longleftrightarrow> mu_mutationType r = ''member_add'' \<or> mu_mutationType r = ''member_remove''"

definition sharedDmChannels :: "names \<Rightarrow> sync_db \<Rightarrow> string option \<Rightarrow> (channel_id \<times> string) list" where
  "sharedDmChannels nm db peerHost = concat (map (\<lambda>c. concat (map (\<lambda>m.
     if dm_dmChannelId m = dc_id c \<and> dc_federatedId c \<noteq> None \<and> dc_deletedAt c = None then
       (case tbl_get us_id (dm_userId m) (sy_users db) of
          None \<Rightarrow> []
        | Some u \<Rightarrow>
            if us_isDeleted u = Some 0 \<and> us_federationHomeOrphaned u = Some 0 \<and> us_homeInstance u \<noteq> None
               \<and> peerHost \<noteq> None \<and> identityHost nm (us_homeInstance u) = peerHost
            then [(dc_id c, the (dc_federatedId c))] else [])
     else []) (sy_members db))) (sy_channels db))"

definition requesterHomeUserIds :: "names \<Rightarrow> sync_db \<Rightarrow> string option \<Rightarrow> string list" where
  "requesterHomeUserIds nm db peerHost =
    (if peerHost = None then []
     else remdups (List.map_filter (\<lambda>u.
       if us_homeUserId u \<noteq> None \<and> us_homeInstance u \<noteq> None \<and> us_isDeleted u = Some 0 \<and> us_federationHomeOrphaned u = Some 0
          \<and> identityHost nm (us_homeInstance u) = peerHost
       then us_homeUserId u else None) (sy_users db)))"

definition reaction_stands :: "sync_db \<Rightarrow> mutation_row \<Rightarrow> bool" where
  "reaction_stands db r = (case parsePayload (mu_payload r) of
     None \<Rightarrow> False
   | Some p \<Rightarrow> (list_ex (\<lambda>x. re_dmMessageId x = mu_entityId r \<and> text_at (Some p) [''userId''] = Some (re_userId x)
         \<and> json_path (Some p) [''emoji''] = Some (JStr (re_emoji x))) (sy_reactions db))
       \<longleftrightarrow> mu_mutationType r = ''reaction_add'')"

definition dm_where :: "sync_db \<Rightarrow> (channel_id \<times> string) list \<Rightarrow> string list \<Rightarrow> string option \<Rightarrow> mutation_row \<Rightarrow> bool" where
  "dm_where db shared ownHomeUserIds channelFilter r \<longleftrightarrow>
     mu_contextType r = ''dm''
     \<and> (truthy channelFilter \<longrightarrow> Some (mu_contextId r) = channelFilter)
     \<and> (mu_contextId r \<in> fst ` set shared
        \<or> (member_row_type r
           \<and> (\<exists>i\<in>set ownHomeUserIds. text_at (parsePayload (mu_payload r)) [''membership'', ''user'', ''homeUserId''] = Some i)
           \<and> list_ex (\<lambda>c. dc_id c = mu_contextId r \<and> dc_federatedId c \<noteq> None \<and> dc_deletedAt c = None) (sy_channels db)))
     \<and> (mu_mutationType r \<in> {''create'', ''update'', ''reaction_add'', ''reaction_remove''}
          \<longrightarrow> tbl_get ms_id (mu_entityId r) (sy_messages db) \<noteq> None)
     \<and> (mu_mutationType r \<in> {''reaction_add'', ''reaction_remove''} \<longrightarrow> reaction_stands db r)"

definition isOwnMemberRow :: "names \<Rightarrow> string option \<Rightarrow> mutation_row \<Rightarrow> bool" where
  "isOwnMemberRow nm peerHost r \<longleftrightarrow> member_row_type r \<and> peerHost \<noteq> None
     \<and> identityHost nm (text_at (parsePayload (mu_payload r)) [''membership'', ''user'', ''homeInstance'']) = peerHost"

definition empty_reader :: "(channel_id \<times> string) list \<Rightarrow> SyncLogReader" where
  "empty_reader shared = \<lparr>rd_where = (\<lambda>_. False), rd_serves = (\<lambda>_. False), rd_channelFederatedIds = shared\<rparr>"

definition dmReader :: "names \<Rightarrow> sync_db \<Rightarrow> origin \<Rightarrow> SyncRequestScope \<Rightarrow> SyncLogReader" where
  "dmReader nm db peerOrigin scope =
    (let peerHost = identityHost nm (Some peerOrigin);
         shared = sharedDmChannels nm db peerHost;
         ownHomeUserIds = requesterHomeUserIds nm db peerHost;
         named = (if \<not> truthy (sc_dmChannelId scope) \<and> truthy (sc_federatedId scope)
                  then map_option dc_id (find (\<lambda>c. dc_federatedId c = sc_federatedId scope \<and> dc_deletedAt c = None) (sy_channels db))
                  else sc_dmChannelId scope)
     in if \<not> truthy (sc_dmChannelId scope) \<and> truthy (sc_federatedId scope) \<and> named = None then empty_reader shared
        else if shared = [] \<and> ownHomeUserIds = [] then empty_reader shared
        else \<lparr>rd_where = dm_where db shared ownHomeUserIds named,
              rd_serves = (\<lambda>r. mu_contextId r \<in> fst ` set shared \<or> isOwnMemberRow nm peerHost r),
              rd_channelFederatedIds = shared\<rparr>)"

text \<open>\<open>rowsByHomeUserId\<close>: the home, the deletion flag and the detachment flag of the rows with an id.\<close>

definition rowsByHomeUserId :: "user_row list \<Rightarrow> string \<Rightarrow> (string option \<times> int option \<times> int option) list" where
  "rowsByHomeUserId users i =
    map (\<lambda>u. (us_homeInstance u, us_isDeleted u, us_federationHomeOrphaned u)) (filter (\<lambda>u. us_homeUserId u = Some i) users)
    @ map (\<lambda>u. (us_detachedHomeInstance u, us_isDeleted u, Some 1)) (filter (\<lambda>u. us_detachedHomeUserId u = Some i) users)"

definition sideQualifies :: "names \<Rightarrow> user_row list \<Rightarrow> string option \<Rightarrow> json option \<Rightarrow> bool" where
  "sideQualifies nm users peerHost side =
    (let homeUserId = text_at side [''homeUserId'']; homeInstance = text_at side [''homeInstance'']
     in if \<not> truthy homeUserId \<or> \<not> truthy homeInstance \<or> peerHost = None then False
        else if identityHost nm homeInstance \<noteq> peerHost then False
        else (case find (\<lambda>(home, _, _). identityHost nm home = peerHost) (rowsByHomeUserId users (the homeUserId)) of
            None \<Rightarrow> True
          | Some (_, deleted, orphaned) \<Rightarrow> deleted = Some 0 \<and> orphaned = Some 0))"

definition friend_qualifies :: "names \<Rightarrow> user_row list \<Rightarrow> string option \<Rightarrow> mutation_row \<Rightarrow> bool" where
  "friend_qualifies nm users peerHost r =
    (let friendship = json_path (parsePayload (mu_payload r)) [''friendship'']
     in friendship \<noteq> None \<and> (sideQualifies nm users peerHost (json_path friendship [''from''])
        \<or> sideQualifies nm users peerHost (json_path friendship [''to''])))"

definition friendReader :: "names \<Rightarrow> sync_db \<Rightarrow> origin \<Rightarrow> SyncLogReader" where
  "friendReader nm db peerOrigin = \<lparr>rd_where = (\<lambda>r. mu_contextType r = ''friend''),
     rd_serves = friend_qualifies nm (sy_users db) (identityHost nm (Some peerOrigin)), rd_channelFederatedIds = []\<rparr>"

definition profileReader :: SyncLogReader where
  "profileReader = \<lparr>rd_where = (\<lambda>r. mu_contextType r = ''profile''), rd_serves = (\<lambda>_. True), rd_channelFederatedIds = []\<rparr>"

definition reader_of :: "names \<Rightarrow> sync_db \<Rightarrow> origin \<Rightarrow> SyncRequestScope \<Rightarrow> SyncLogReader" where
  "reader_of nm db peerOrigin scope = (case sc_contextType scope of
     CtxFriend \<Rightarrow> friendReader nm db peerOrigin
   | CtxProfile \<Rightarrow> profileReader
   | CtxDm \<Rightarrow> dmReader nm db peerOrigin scope)"


section \<open>The event a row stands for\<close>

type_synonym relay_event = "(string \<times> json) list"

definition event_get :: "relay_event \<Rightarrow> string \<Rightarrow> json option" where
  "event_get e k = map_of e k"

text \<open>Object spread: a member that is there keeps its place and takes the new value; a new one goes last.\<close>

definition set_member :: "relay_event \<Rightarrow> string \<times> json \<Rightarrow> relay_event" where
  "set_member e m = (if map_of e (fst m) = None then e @ [m] else map (\<lambda>(k, v). if k = fst m then (k, snd m) else (k, v)) e)"

definition spread :: "relay_event \<Rightarrow> relay_event \<Rightarrow> relay_event" where
  "spread e ms = foldl set_member e ms"

definition json_members :: "json \<Rightarrow> relay_event" where
  "json_members j = (case j of JObj ms \<Rightarrow> List.map_filter (\<lambda>(k, v). map_option (\<lambda>t. (t, v)) (latin1 k)) ms | _ \<Rightarrow> [])"

definition jnumber :: "int \<Rightarrow> json" where
  "jnumber i = JNum (int_text i)"

definition base_members :: "mutation_row \<Rightarrow> relay_event" where
  "base_members row = [(''messageId'', jtext (mu_entityId row)), (''encryptionVersion'', JNum ''0''), (''timestamp'', jnumber (mu_mutatedAt row))]"

definition EVENT_PAYLOAD_TYPES :: "string set" where
  "EVENT_PAYLOAD_TYPES = {''member_add'', ''member_remove'', ''ownership_transfer'', ''friend_request_create'',
     ''friend_request_update'', ''friend_request_cancel'', ''friend_add'', ''friend_remove''}"

definition payload_event :: "mutation_row \<Rightarrow> relay_event" where
  "payload_event row =
    (spread (spread ([(''eventType'', jtext (mu_mutationType row)), (''contextType'', jtext (mu_contextType row))]
            @ (if mu_contextType row = ''dm'' \<or> mu_contextType row = [] then [(''dmChannelId'', jtext (mu_contextId row))] else []))
          (base_members row))
        (case parsePayload (mu_payload row) of None \<Rightarrow> [] | Some p \<Rightarrow> json_members p))"

definition dmMessageFederationRef :: "names \<Rightarrow> dm_message_row \<Rightarrow> string \<times> string" where
  "dmMessageFederationRef nm m =
    (if truthy (ms_sourceInstance m) \<and> truthy (ms_sourceMessageId m)
     then (the (ms_sourceMessageId m), the (ms_sourceInstance m)) else (ms_id m, nm_ourOrigin nm))"

definition member_or :: "json option \<Rightarrow> json \<Rightarrow> json" where
  "member_or v other = (case v of Some x \<Rightarrow> x | None \<Rightarrow> other)"

text \<open>A member of an event that is \<open>undefined\<close> is not there.\<close>

definition opt_member :: "string \<Rightarrow> json option \<Rightarrow> relay_event" where
  "opt_member k v = (case v of None \<Rightarrow> [] | Some x \<Rightarrow> [(k, x)])"

definition reaction_event :: "names \<Rightarrow> sync_db \<Rightarrow> mutation_row \<Rightarrow> relay_event option" where
  "reaction_event nm db row = (case parsePayload (mu_payload row) of
     None \<Rightarrow> None
   | Some p \<Rightarrow> if \<not> json_truthy p then None else (case tbl_get ms_id (mu_entityId row) (sy_messages db) of
        None \<Rightarrow> None
      | Some message \<Rightarrow>
          (let (messageId, home) = dmMessageFederationRef nm message;
               homeInstance = (case json_get p ''homeInstance'' of Some h \<Rightarrow> if json_truthy h then h else jtext (nm_ourOrigin nm)
                 | None \<Rightarrow> jtext (nm_ourOrigin nm));
               createdAt = (case json_get p ''createdAt'' of None \<Rightarrow> jnumber (mu_mutatedAt row) | Some JNull \<Rightarrow> jnumber (mu_mutatedAt row) | Some c \<Rightarrow> c)
           in Some ([(''eventType'', jtext (mu_mutationType row)), (''dmChannelId'', jtext (mu_contextId row))] @ base_members row
                @ [(''reaction'', obj ([(''messageId'', jtext messageId), (''messageHomeInstance'', jtext home)]
                    @ opt_member ''userId'' (json_get p ''userId'') @ opt_member ''homeUserId'' (json_get p ''homeUserId'')
                    @ [(''homeInstance'', homeInstance)] @ opt_member ''emoji'' (json_get p ''emoji'') @ [(''createdAt'', createdAt)]))]))))"

text \<open>\<open>dm_close\<close>, \<open>dm_reopen\<close>, \<open>read_state_update\<close> and \<open>group_metadata_update\<close>: the payload as one member.\<close>

definition channel_event :: "(channel_id \<times> string) list \<Rightarrow> string \<Rightarrow> mutation_row \<Rightarrow> relay_event option" where
  "channel_event shared key row = (case parsePayload (mu_payload row) of
     None \<Rightarrow> None
   | Some p \<Rightarrow> (case map_of shared (mu_contextId row) of
        None \<Rightarrow> None
      | Some federatedId \<Rightarrow>
          if \<not> json_truthy p \<or> federatedId = [] then None
          else Some ([(''eventType'', jtext (mu_mutationType row)), (''dmChannelId'', jtext (mu_contextId row)), (''federatedId'', jtext federatedId)]
            @ base_members row @ [(key, p)])))"

definition file_rejected_event :: "sync_db \<Rightarrow> origin \<Rightarrow> mutation_row \<Rightarrow> relay_event option" where
  "file_rejected_event db peerOrigin row = (case parsePayload (mu_payload row) of
     None \<Rightarrow> None
   | Some p \<Rightarrow> if \<not> json_truthy p then None else
      (case find (\<lambda>m. ms_sourceMessageId m = Some (mu_entityId row) \<and> ms_dmChannelId m = mu_contextId row) (sy_messages db) of
         None \<Rightarrow> None
       | Some copy \<Rightarrow>
           if \<not> truthy (ms_sourceInstance copy)
              \<or> normalizeOriginForCompare (ms_sourceInstance copy) \<noteq> normalizeOriginForCompare (Some peerOrigin) then None
           else Some ([(''eventType'', jtext ''file_rejected''), (''dmChannelId'', jtext (mu_contextId row))] @ base_members row
             @ concat (map (\<lambda>k. opt_member k (json_get p k))
                 [''attachmentId'', ''sourceFilename'', ''rejectionReason'', ''rejectionLimit'', ''affectedUserIds''])
             @ (case json_get p ''affectedUsers'' of Some a \<Rightarrow> if json_truthy a then [(''affectedUsers'', a)] else [] | None \<Rightarrow> []))))"

definition delete_event :: "mutation_row \<Rightarrow> relay_event" where
  "delete_event row = [(''eventType'', jtext ''delete''), (''dmChannelId'', jtext (mu_contextId row))] @ base_members row
     @ (case json_path (parsePayload (mu_payload row)) [''target''] of
          Some t \<Rightarrow> if json_truthy t then [(''target'', t)] else [] | None \<Rightarrow> [])"

definition profile_event :: "mutation_row \<Rightarrow> relay_event option" where
  "profile_event row = (case json_path (parsePayload (mu_payload row)) [''profileUpdate''] of
     None \<Rightarrow> None
   | Some u \<Rightarrow> if \<not> json_truthy u then None
       else Some ([(''eventType'', jtext ''profile_update''), (''contextType'', jtext ''profile'')] @ base_members row @ [(''profileUpdate'', u)]))"

definition serializeSyncRow ::
  "names \<Rightarrow> sync_db \<Rightarrow> (mutation_row \<Rightarrow> relay_event option) \<Rightarrow> origin \<Rightarrow> (channel_id \<times> string) list \<Rightarrow> mutation_row \<Rightarrow> relay_event option" where
  "serializeSyncRow nm db messageRow peerOrigin shared row =
    (let type = mu_mutationType row in
     if type \<in> EVENT_PAYLOAD_TYPES then Some (payload_event row)
     else if type = ''delete'' then Some (delete_event row)
     else if type = ''reaction_add'' \<or> type = ''reaction_remove'' then reaction_event nm db row
     else if type = ''dm_close'' \<or> type = ''dm_reopen'' then channel_event shared ''dmCloseReopen'' row
     else if type = ''read_state_update'' then channel_event shared ''readState'' row
     else if type = ''group_metadata_update'' then channel_event shared ''metadata'' row
     else if type = ''file_rejected'' then file_rejected_event db peerOrigin row
     else if type = ''profile_update'' then profile_event row
     else if type = ''create'' \<or> type = ''update'' then messageRow row
     else None)"

section \<open>The answer to a request\<close>

record SyncResponse =
  sr_events :: "relay_event list"
  sr_hasMore :: bool
  sr_checkpoint :: millis
  sr_checkpointId :: "string option"

definition row_position :: "mutation_row \<Rightarrow> SyncPosition" where
  "row_position r = \<lparr>po_ts = mu_mutatedAt r, po_id = Some (mu_id r)\<rparr>"

text \<open>
  The pages of one request: read on while a full page serves nothing. The arguments are the position to read
  from, where the request asked from and the last row read; \<open>None\<close> where the loop never ends.
\<close>

partial_function (option) sync_pages ::
  "(mutation_row \<Rightarrow> relay_event option) \<Rightarrow> SyncLogReader \<Rightarrow> mutation_row list \<Rightarrow> nat \<Rightarrow> SyncPosition \<Rightarrow> SyncPosition \<Rightarrow> mutation_row option
   \<Rightarrow> SyncResponse option" where
  "sync_pages serialize rd log limit after position last_row =
    (let page = reader_read rd log position limit;
         events = List.map_filter serialize (pg_served page);
         last_read = (if pg_read page = [] then last_row else Some (last (pg_read page)));
         full = limit \<le> length (pg_read page)
     in if events \<noteq> [] \<or> \<not> full
        then Some \<lparr>sr_events = events, sr_hasMore = full,
               sr_checkpoint = (case last_read of Some r \<Rightarrow> mu_mutatedAt r | None \<Rightarrow> po_ts after),
               sr_checkpointId = map_option mu_id last_read\<rparr>
        else sync_pages serialize rd log limit after
               (if pg_read page = [] then position else row_position (last (pg_read page))) last_read)"

definition buildSyncResponse ::
  "names \<Rightarrow> sync_db \<Rightarrow> (mutation_row \<Rightarrow> relay_event option) \<Rightarrow> origin \<Rightarrow> SyncRequestScope \<Rightarrow> SyncPosition \<Rightarrow> nat \<Rightarrow> SyncResponse option" where
  "buildSyncResponse nm db messageRow peerOrigin scope after limit =
    (let rd = reader_of nm db peerOrigin scope
     in sync_pages (serializeSyncRow nm db messageRow peerOrigin (rd_channelFederatedIds rd)) rd (sy_log db) limit after after None)"

text \<open>The limit a request asks for, as the endpoint reads it.\<close>

definition clamped_limit :: "int option \<Rightarrow> nat" where
  "clamped_limit limit = nat (max 1 (min 500 (given limit 100)))"


section \<open>A page read by keyset\<close>

text \<open>The rows of a reader after a position, in log order: what a requester has still to read.\<close>

definition unread :: "SyncLogReader \<Rightarrow> mutation_row list \<Rightarrow> SyncPosition \<Rightarrow> mutation_row list" where
  "unread rd log p = sort_key log_order (filter (\<lambda>r. rd_where rd r \<and> after_position p r) log)"

lemma read_page: "reader_read rd log p limit = \<lparr>pg_read = take limit (unread rd log p), pg_served = filter (rd_serves rd) (take limit (unread rd log p))\<rparr>"
  by (simp add: reader_read_def readLogPage_def unread_def Let_def)

lemma after_row: "after_position (row_position r) x \<longleftrightarrow> log_order r < log_order x"
  by (auto simp: after_position_def row_position_def log_order_def)

lemma after_trans: "after_position p r \<Longrightarrow> log_order r < log_order x \<Longrightarrow> after_position p x"
  by (auto simp: after_position_def log_order_def split: option.splits)

lemma unread_strict:
  assumes "distinct (map mu_id log)"
  shows "sorted_wrt (\<lambda>a b. log_order a < log_order b) (unread rd log p)"
proof -
  let ?xs = "unread rd log p"
  have "distinct (map mu_id ?xs)"
    using assms by (simp add: unread_def distinct_map) (auto simp: inj_on_def)
  then have "distinct (map log_order ?xs)"
    by (auto simp: distinct_map inj_on_def log_order_def)
  moreover have "sorted (map log_order ?xs)" by (simp add: unread_def)
  ultimately have "sorted_wrt (<) (map log_order ?xs)" by (simp only: strict_sorted_iff)
  then show ?thesis by (simp add: sorted_wrt_map)
qed

lemma filter_past:
  assumes "sorted_wrt (\<lambda>a b. f a < f b) xs" "0 < n" "n \<le> length xs"
  shows "filter (\<lambda>x. f (xs ! (n - 1)) < (f x :: 'b :: linorder)) xs = drop n xs"
proof -
  have idx: "i < j \<Longrightarrow> j < length xs \<Longrightarrow> f (xs ! i) < f (xs ! j)" for i j
    using assms(1) by (simp add: sorted_wrt_iff_nth_less)
  have low: "\<not> f (xs ! (n - 1)) < f x" if x: "x \<in> set (take n xs)" for x
  proof -
    obtain i where i: "i < n" "x = xs ! i" using x by (auto simp: in_set_conv_nth)
    show ?thesis
    proof (cases "i = n - 1")
      case False
      then have "f (xs ! i) < f (xs ! (n - 1))" using i assms by (intro idx) auto
      with i show ?thesis by simp
    qed (simp add: i)
  qed
  have high: "f (xs ! (n - 1)) < f x" if x: "x \<in> set (drop n xs)" for x
  proof -
    obtain i where i: "i < length xs - n" "x = drop n xs ! i" using x by (auto simp: in_set_conv_nth)
    then have "f (xs ! (n - 1)) < f (xs ! (n + i))" using assms by (intro idx) auto
    with i show ?thesis by simp
  qed
  have "filter (\<lambda>x. f (xs ! (n - 1)) < f x) (take n xs @ drop n xs) = drop n xs"
    by (subst filter_append) (use low high in \<open>auto simp: filter_empty_conv filter_id_conv\<close>)
  then show ?thesis by simp
qed

lemma unread_after:
  assumes ids: "distinct (map mu_id log)" and n: "0 < n" "n \<le> length (unread rd log p)"
  shows "unread rd log (row_position (unread rd log p ! (n - 1))) = drop n (unread rd log p)"
proof -
  let ?xs = "unread rd log p"
  let ?r = "?xs ! (n - 1)"
  have "?r \<in> set ?xs" using n by simp
  then have r: "after_position p ?r" by (simp add: unread_def)
  have "unread rd log (row_position ?r) =
      sort_key log_order (filter (\<lambda>x. log_order ?r < log_order x) (filter (\<lambda>x. rd_where rd x \<and> after_position p x) log))"
    unfolding unread_def[of rd log "row_position ?r"] after_row filter_filter
    by (rule arg_cong[where f = "sort_key log_order"], rule filter_cong) (auto intro: after_trans[OF r])
  also have "\<dots> = filter (\<lambda>x. log_order ?r < log_order x) ?xs"
    by (simp add: unread_def filter_sort)
  also have "\<dots> = drop n ?xs" by (rule filter_past[OF unread_strict[OF ids] n])
  finally show ?thesis .
qed

lemma nth_unread_last: "xs \<noteq> [] \<Longrightarrow> 0 < limit \<Longrightarrow> last (take limit xs) = xs ! (min limit (length xs) - 1)"
  by (subst last_conv_nth) (auto simp: min.commute)

definition served_events :: "(mutation_row \<Rightarrow> relay_event option) \<Rightarrow> SyncLogReader \<Rightarrow> mutation_row list \<Rightarrow> relay_event list" where
  "served_events serialize rd rows = List.map_filter serialize (filter (rd_serves rd) rows)"

lemma served_append: "served_events serialize rd (xs @ ys) = served_events serialize rd xs @ served_events serialize rd ys"
  by (simp add: served_events_def List.map_filter_def)

text \<open>What an answer that read the first \<open>n\<close> unread rows says.\<close>

definition answers_rows ::
  "(mutation_row \<Rightarrow> relay_event option) \<Rightarrow> SyncLogReader \<Rightarrow> mutation_row list \<Rightarrow> SyncPosition \<Rightarrow> nat \<Rightarrow> SyncResponse \<Rightarrow> bool" where
  "answers_rows serialize rd rows after n resp \<longleftrightarrow>
     n \<le> length rows
     \<and> sr_events resp = served_events serialize rd (take n rows)
     \<and> (sr_events resp = [] \<longrightarrow> \<not> sr_hasMore resp) \<and> (sr_hasMore resp \<longrightarrow> 0 < n) \<and> (\<not> sr_hasMore resp \<longrightarrow> n = length rows)
     \<and> (if n = 0 then sr_checkpoint resp = po_ts after \<and> sr_checkpointId resp = None
        else sr_checkpoint resp = mu_mutatedAt (rows ! (n - 1)) \<and> sr_checkpointId resp = Some (mu_id (rows ! (n - 1))))"

lemma sync_pages_from:
  assumes ids: "distinct (map mu_id log)" and limit: "0 < limit"
    and k: "k \<le> length R" "unread rd log p = drop k R" "served_events serialize rd (take k R) = []"
    and R: "R = unread rd log after" and lastr: "lastr = (if k = 0 then None else Some (R ! (k - 1)))"
  shows "\<exists>n resp. sync_pages serialize rd log limit after p lastr = Some resp \<and> answers_rows serialize rd R after n resp
    \<and> (sr_hasMore resp \<longrightarrow> k + limit \<le> n)"
  using k lastr
proof (induction "length R - k" arbitrary: k p lastr rule: less_induct)
  case less
  let ?U = "drop k R"
  let ?n = "k + min limit (length R - k)"
  have page: "take limit ?U = take (min limit (length R - k)) ?U" by (simp add: min_def)
  have taken: "take ?n R = take k R @ take limit ?U" by (simp add: take_add page)
  have events: "served_events serialize rd (take ?n R) = List.map_filter serialize (filter (rd_serves rd) (take limit ?U))"
    unfolding taken served_append less.prems(3) by (simp add: served_events_def)
  have lastn: "(if take limit ?U = [] then lastr else Some (last (take limit ?U))) = (if ?n = 0 then None else Some (R ! (?n - 1)))"
  proof (cases "?U = []")
    case True
    then show ?thesis using less.prems(1,4) by auto
  next
    case False
    then have "last (take limit ?U) = R ! (?n - 1)"
      using nth_unread_last[OF False limit] less.prems(1) limit by (simp add: add.commute)
    with False limit show ?thesis by simp
  qed
  have unfold: "sync_pages serialize rd log limit after p lastr =
    (if served_events serialize rd (take ?n R) \<noteq> [] \<or> \<not> limit \<le> length (take limit ?U)
     then Some \<lparr>sr_events = served_events serialize rd (take ?n R), sr_hasMore = (limit \<le> length (take limit ?U)),
        sr_checkpoint = (case (if ?n = 0 then None else Some (R ! (?n - 1))) of Some r \<Rightarrow> mu_mutatedAt r | None \<Rightarrow> po_ts after),
        sr_checkpointId = map_option mu_id (if ?n = 0 then None else Some (R ! (?n - 1)))\<rparr>
     else sync_pages serialize rd log limit after
        (if take limit ?U = [] then p else row_position (last (take limit ?U))) (if ?n = 0 then None else Some (R ! (?n - 1))))"
    by (subst sync_pages.simps) (simp only: read_page less.prems(2) Let_def SyncPage.select_convs events lastn)
  show ?case
  proof (cases "served_events serialize rd (take ?n R) \<noteq> [] \<or> \<not> limit \<le> length (take limit ?U)")
    case True
    then have "sync_pages serialize rd log limit after p lastr = Some \<lparr>sr_events = served_events serialize rd (take ?n R),
        sr_hasMore = (limit \<le> length (take limit ?U)),
        sr_checkpoint = (case (if ?n = 0 then None else Some (R ! (?n - 1))) of Some r \<Rightarrow> mu_mutatedAt r | None \<Rightarrow> po_ts after),
        sr_checkpointId = map_option mu_id (if ?n = 0 then None else Some (R ! (?n - 1)))\<rparr>"
      unfolding unfold by (rule if_P)
    moreover have "answers_rows serialize rd R after ?n \<lparr>sr_events = served_events serialize rd (take ?n R),
        sr_hasMore = (limit \<le> length (take limit ?U)),
        sr_checkpoint = (case (if ?n = 0 then None else Some (R ! (?n - 1))) of Some r \<Rightarrow> mu_mutatedAt r | None \<Rightarrow> po_ts after),
        sr_checkpointId = map_option mu_id (if ?n = 0 then None else Some (R ! (?n - 1)))\<rparr>"
      using True less.prems(1) limit by (auto simp: answers_rows_def min_def split: if_splits)
    ultimately show ?thesis using limit by fastforce
  next
    case False
    then have full: "limit \<le> length R - k" and none: "served_events serialize rd (take (k + limit) R) = []"
      by (auto simp: min_def split: if_splits)
    then have n: "?n = k + limit" by simp
    have nonempty: "take limit ?U \<noteq> []" using full limit by auto
    have last_is: "last (take limit ?U) = R ! (k + limit - 1)"
      using lastn nonempty limit n by simp
    have next_unread: "unread rd log (row_position (last (take limit ?U))) = drop (k + limit) R"
      unfolding last_is using unread_after[OF ids, of "k + limit" rd after, folded R] full limit by simp
    have step: "sync_pages serialize rd log limit after p lastr =
        sync_pages serialize rd log limit after (row_position (last (take limit ?U))) (Some (R ! (k + limit - 1)))"
      unfolding unfold using False nonempty n limit by simp
    have "\<exists>n resp. sync_pages serialize rd log limit after (row_position (last (take limit ?U))) (Some (R ! (k + limit - 1))) = Some resp
        \<and> answers_rows serialize rd R after n resp \<and> (sr_hasMore resp \<longrightarrow> k + limit + limit \<le> n)"
      by (rule less.hyps) (use full limit less.prems(1) none next_unread in auto)
    then show ?thesis unfolding step by fastforce
  qed
qed

lemma sync_page_rows:
  assumes "distinct (map mu_id log)" and "0 < limit"
  shows "\<exists>n resp. sync_pages serialize rd log limit after after None = Some resp
    \<and> answers_rows serialize rd (unread rd log after) after n resp \<and> (sr_hasMore resp \<longrightarrow> limit \<le> n)"
  using sync_pages_from[OF assms, of 0 "unread rd log after" rd after serialize after None]
  by (simp add: served_events_def map_filter_simps)

text \<open>
  Every request is answered. Whatever the log and whoever asks, reading on over pages that serve nothing ends, and
  the answer holds exactly the events of the rows it read, the rows after the position asked from in log order; its
  checkpoint is the last of them, and it says there is no more only when it read them all. An answer without
  events is the end of the log.
\<close>
theorem sync_request_answered:
  assumes "distinct (map mu_id (sy_log db))" and "0 < limit"
  shows "\<exists>n resp. buildSyncResponse nm db messageRow peerOrigin scope after limit = Some resp
    \<and> answers_rows (serializeSyncRow nm db messageRow peerOrigin (rd_channelFederatedIds (reader_of nm db peerOrigin scope)))
        (reader_of nm db peerOrigin scope) (unread (reader_of nm db peerOrigin scope) (sy_log db) after) after n resp"
  using sync_page_rows[OF assms] unfolding buildSyncResponse_def Let_def by blast

end
