(* ===== verification/PullSync.thy ===== *)
theory PullSync
  imports SyncServe
begin

text \<open>
  The reading side of pull sync, \<open>packages/server/src/utils/federationSync.ts\<close>: cursors, the subject an event
  changes, what becomes of a pulled event, the page loop with its budget, and the replay of kept events. An
  event is parsed JSON. The processors of \<open>routes/federation/events\<close>, the peer's answers, SHA-256, \<open>Number\<close>, new
  ids and the clock are arguments. Peers are pulled one after the other: runs of different peers touch no
  common row of these tables, and one peer's runs queue behind each other.
\<close>

section \<open>Constants\<close>

definition SYNC_PAGE_LIMIT :: nat where
  "SYNC_PAGE_LIMIT = 100"

definition FIRST_PAGE_OVERLAP_MS :: int where
  "FIRST_PAGE_OVERLAP_MS = 120000"

definition SYNC_RETRY_BACKOFF_MS :: "int list" where
  "SYNC_RETRY_BACKOFF_MS = [60000, 300000, 1800000, 7200000, 21600000, 86400000]"

definition SYNC_RETRY_MAX_AGE_MS :: int where
  "SYNC_RETRY_MAX_AGE_MS = 7 * 24 * 60 * 60 * 1000"

record SyncPassBudget =
  bu_pages :: nat
  bu_timeMs :: int

definition SYNC_PASS_BUDGET :: SyncPassBudget where
  "SYNC_PASS_BUDGET = \<lparr>bu_pages = 20, bu_timeMs = 45000\<rparr>"

definition ALL_SYNC_CONTEXTS :: "sync_context list" where
  "ALL_SYNC_CONTEXTS = [CtxDm, CtxFriend, CtxProfile]"

datatype SyncContextOutcome = SyncOk | SyncPartial | SyncHttpError | SyncError

record sync_stats =
  ss_applied :: nat
  ss_duplicates :: nat
  ss_deferred :: nat
  ss_dropped :: nat

definition no_stats :: sync_stats where
  "no_stats = \<lparr>ss_applied = 0, ss_duplicates = 0, ss_deferred = 0, ss_dropped = 0\<rparr>"

section \<open>Cursors\<close>

record sync_cursor_row =
  cu_peerId :: string
  cu_contextType :: sync_context
  cu_cursorTs :: millis
  cu_cursorId :: "string option"
  cu_peerEpoch :: "string option"
  cu_lastPulledAt :: "millis option"

record kept_row =
  kr_id :: string
  kr_peerId :: string
  kr_contextType :: sync_context
  kr_subjectKey :: string
  kr_eventType :: string
  kr_messageId :: string
  kr_eventTs :: millis
  kr_eventHash :: string
  kr_eventJson :: string
  kr_lastReason :: units
  kr_attempts :: nat
  kr_firstFailedAt :: millis
  kr_nextRetryAt :: millis

text \<open>\<open>'w\<close> is the rest of the instance, which the processors change.\<close>

record 'w pull_state =
  pl_world :: 'w
  pl_kept :: "kept_row list"
  pl_cursors :: "sync_cursor_row list"
  pl_stats :: sync_stats

definition isAfter :: "SyncPosition \<Rightarrow> SyncPosition \<Rightarrow> bool" where
  "isAfter a b =
    (if po_ts a \<noteq> po_ts b then po_ts b < po_ts a
     else (case po_id a of
         None \<Rightarrow> False
       | Some i \<Rightarrow> (case po_id b of
           None \<Rightarrow> True
         | Some j \<Rightarrow> if length i \<noteq> length j then length j < length i else j < i)))"

definition INITIAL_CURSOR_TS :: millis where
  "INITIAL_CURSOR_TS = 0"

text \<open>\<open>ledgerStartedAt\<close> is the column of the settings row.\<close>

definition friendHistoryFloor :: "millis option \<Rightarrow> millis \<Rightarrow> millis option" where
  "friendHistoryFloor ledgerStartedAt now = (case ledgerStartedAt of
     None \<Rightarrow> None
   | Some startedAt \<Rightarrow> if MUTATION_LOG_RETENTION_MS < now - startedAt then None else Some startedAt)"

definition firstRequestSince :: "millis option \<Rightarrow> sync_context \<Rightarrow> SyncPosition \<Rightarrow> millis \<Rightarrow> millis" where
  "firstRequestSince ledgerStartedAt ctx position now =
    (let since = max 0 (po_ts position - FIRST_PAGE_OVERLAP_MS) in
     if ctx \<noteq> CtxFriend then since
     else (case friendHistoryFloor ledgerStartedAt now of None \<Rightarrow> since | Some flr \<Rightarrow> max since flr))"

definition of_peer :: "string \<Rightarrow> sync_cursor_row \<Rightarrow> bool" where
  "of_peer peerId c \<longleftrightarrow> cu_peerId c = peerId"

definition cursor_key :: "sync_cursor_row \<Rightarrow> string \<times> sync_context" where
  "cursor_key c = (cu_peerId c, cu_contextType c)"

definition reconcileCursorEpoch :: "peer_row \<Rightarrow> 'w pull_state \<Rightarrow> 'w pull_state" where
  "reconcileCursorEpoch peer st =
    (if \<not> truthy (pe_peerInstanceId peer) then st
     else
       let stale = list_ex (\<lambda>c. of_peer (pe_id peer) c \<and> cu_peerEpoch c \<noteq> None \<and> cu_peerEpoch c \<noteq> pe_peerInstanceId peer) (pl_cursors st);
           st1 = (if stale
             then st\<lparr>pl_cursors := map (\<lambda>c. if of_peer (pe_id peer) c then c\<lparr>cu_cursorTs := 0, cu_cursorId := None\<rparr> else c) (pl_cursors st),
                     pl_kept := filter (\<lambda>k. kr_peerId k \<noteq> pe_id peer) (pl_kept st)\<rparr>
             else st)
       in st1\<lparr>pl_cursors := map (\<lambda>c. if of_peer (pe_id peer) c then c\<lparr>cu_peerEpoch := pe_peerInstanceId peer\<rparr> else c) (pl_cursors st1)\<rparr>)"

definition loadCursor :: "peer_row \<Rightarrow> sync_context \<Rightarrow> 'w pull_state \<Rightarrow> 'w pull_state \<times> SyncPosition" where
  "loadCursor peer ctx st = (case tbl_get cursor_key (pe_id peer, ctx) (pl_cursors st) of
     Some row \<Rightarrow> (st, \<lparr>po_ts = cu_cursorTs row, po_id = cu_cursorId row\<rparr>)
   | None \<Rightarrow> (st\<lparr>pl_cursors := pl_cursors st @ [\<lparr>cu_peerId = pe_id peer, cu_contextType = ctx, cu_cursorTs = INITIAL_CURSOR_TS,
         cu_cursorId = None, cu_peerEpoch = pe_peerInstanceId peer, cu_lastPulledAt = None\<rparr>]\<rparr>,
       \<lparr>po_ts = INITIAL_CURSOR_TS, po_id = None\<rparr>))"

definition saveCursor :: "string \<Rightarrow> sync_context \<Rightarrow> SyncPosition \<Rightarrow> 'w pull_state \<Rightarrow> 'w pull_state" where
  "saveCursor peerId ctx position st = st\<lparr>pl_cursors :=
     tbl_update cursor_key (peerId, ctx) (\<lambda>c. c\<lparr>cu_cursorTs := po_ts position, cu_cursorId := po_id position\<rparr>) (pl_cursors st)\<rparr>"

definition markPulled :: "string \<Rightarrow> sync_context \<Rightarrow> millis \<Rightarrow> 'w pull_state \<Rightarrow> 'w pull_state" where
  "markPulled peerId ctx now st = st\<lparr>pl_cursors :=
     tbl_update cursor_key (peerId, ctx) (\<lambda>c. c\<lparr>cu_lastPulledAt := Some now\<rparr>) (pl_cursors st)\<rparr>"

section \<open>What an event is about\<close>

definition nullish :: "json option \<Rightarrow> json" where
  "nullish v = (case v of None \<Rightarrow> JNull | Some j \<Rightarrow> j)"

text \<open>\<open>a ?? b ?? null\<close>.\<close>

definition first_given :: "json option \<Rightarrow> json option \<Rightarrow> json" where
  "first_given a b = (if nullish a \<noteq> JNull then nullish a else nullish b)"

definition identityKey :: "json option \<Rightarrow> json list" where
  "identityKey i = [nullish (json_path i [''homeUserId'']),
     (case json_path i [''homeInstance''] of
        Some (JStr u) \<Rightarrow> (case latin1 u of Some h \<Rightarrow> jtext (given (normalizeOriginForCompare (Some h)) h) | None \<Rightarrow> JStr u)
      | _ \<Rightarrow> JNull)]"

definition actor_of :: "json option \<Rightarrow> RelayActor option" where
  "actor_of i = (if nullish i = JNull then None
     else Some \<lparr>ra_homeUserId = given (text_at i [''homeUserId'']) [], ra_homeInstance = given (text_at i [''homeInstance'']) []\<rparr>)"

definition event_type :: "json \<Rightarrow> string" where
  "event_type e = given (text_at (Some e) [''eventType'']) []"

definition pulled_text :: "json \<Rightarrow> string \<Rightarrow> string" where
  "pulled_text e k = given (text_at (Some e) [k]) []"

definition jarray :: "json list \<Rightarrow> string" where
  "jarray js = stringify (JArr js)"

definition syncSubjectKey :: "names \<Rightarrow> json \<Rightarrow> string" where
  "syncSubjectKey nm e =
    (let type = event_type e; m = json_path (Some e);
         own = jarray [jtext ''event'', nullish (m [''eventType'']), nullish (m [''messageId''])];
         conversation = first_given (m [''federatedId'']) (m [''dmChannelId''])
     in if type \<in> {''create'', ''update'', ''delete'', ''reaction_add'', ''reaction_remove''}
        then jarray [jtext ''message'', nullish (m [''messageId''])]
     else if type = ''file_rejected'' then jarray [jtext ''message_here'', nullish (m [''messageId''])]
     else if type \<in> {''member_add'', ''member_remove''}
        then given (memberClockSubject nm (text_at (Some e) [''federatedId'']) (actor_of (m [''membership'', ''user'']))) own
     else if type \<in> {''friend_request_create'', ''friend_request_update'', ''friend_request_cancel'', ''friend_add'', ''friend_remove''}
        then given (friendPairClockSubject nm (actor_of (m [''friendship'', ''from''])) (actor_of (m [''friendship'', ''to'']))) own
     else if type \<in> {''ownership_transfer'', ''group_metadata_update''} then jarray [jtext ''group'', conversation]
     else if type \<in> {''dm_close'', ''dm_reopen''} then jarray ([jtext ''closed'', conversation] @ identityKey (m [''dmCloseReopen'']))
     else if type = ''read_state_update'' then jarray ([jtext ''read'', conversation] @ identityKey (m [''readState'', ''user'']))
     else if type = ''profile_update'' then jarray (jtext ''profile'' # identityKey (m [''profileUpdate'']))
     else own)"

definition namedMessage :: "json \<Rightarrow> origin \<Rightarrow> (string \<times> string) option" where
  "namedMessage e peerOrigin =
    (let m = json_path (Some e) in
     if event_type e = ''update'' then
       (if m [''target''] = None then Some (pulled_text e ''messageId'', peerOrigin)
        else Some (given (text_at (Some e) [''target'', ''message'', ''messageId'']) [],
                   given (text_at (Some e) [''target'', ''message'', ''messageHomeInstance'']) []))
     else if event_type e = ''reaction_add'' \<and> json_truthy (nullish (m [''reaction''])) then
       Some (if nullish (m [''reaction'', ''messageId'']) \<noteq> JNull then given (text_at (Some e) [''reaction'', ''messageId'']) []
             else pulled_text e ''messageId'',
             (let h = text_at (Some e) [''reaction'', ''messageHomeInstance''] in if truthy h then the h else peerOrigin))
     else None)"

definition messageCannotArrive :: "names \<Rightarrow> applied_row list \<Rightarrow> origin \<Rightarrow> json \<Rightarrow> bool" where
  "messageCannotArrive nm ledger peerOrigin e = (case namedMessage e peerOrigin of
     None \<Rightarrow> True
   | Some (messageId, homeInstance) \<Rightarrow> (case normalizeOriginForCompare (Some homeInstance) of
       None \<Rightarrow> True
     | Some home \<Rightarrow>
         if Some home = normalizeOriginForCompare (Some (nm_ourOrigin nm)) \<or> Some home = normalizeOriginForCompare (Some peerOrigin) then True
         else hasAppliedEvent ledger homeInstance (dmDeleteKey messageId)))"

section \<open>Applying a pulled event\<close>

datatype PulledOutcome = PulledApplied | PulledTaken | PulledRefused units string | PulledRetry units

text \<open>
  \<open>en_process\<close> is \<open>processRelayEvents\<close> of one event: the instance after it and the refusals, by message id.
\<close>

record 'w pull_env =
  en_names :: names
  en_process :: "origin \<Rightarrow> 'w \<Rightarrow> json \<Rightarrow> 'w \<times> (json \<times> units) list"
  en_ledger :: "'w \<Rightarrow> applied_row list"
  en_hash :: "string \<Rightarrow> string"
  en_number :: "string \<Rightarrow> int option"
  en_ledgerStartedAt :: "millis option"

definition pulled_rejection :: "json \<Rightarrow> (json \<times> units) list \<Rightarrow> (json \<times> units) option" where
  "pulled_rejection e rejected = (case find (\<lambda>r. json_get e ''messageId'' = Some (fst r)) rejected of
     Some r \<Rightarrow> Some r
   | None \<Rightarrow> (case rejected of [] \<Rightarrow> None | r # _ \<Rightarrow> Some r))"

definition applyPulledEvent :: "'w pull_env \<Rightarrow> origin \<Rightarrow> 'w \<Rightarrow> json \<Rightarrow> 'w \<times> PulledOutcome" where
  "applyPulledEvent env peerOrigin w e =
    (let (w', rejected) = en_process env peerOrigin w e in
     (w', (case pulled_rejection e rejected of
        None \<Rightarrow> PulledApplied
      | Some (_, reason) \<Rightarrow> (case classifyPulledRejection (Some (event_type e)) reason of
          Taken \<Rightarrow> PulledTaken
        | Refused_for_good \<Rightarrow> PulledRefused reason ''refused''
        | Retry_later \<Rightarrow>
            if reason = units_of ''unknown_message'' \<and> messageCannotArrive (en_names env) (en_ledger env w') peerOrigin e
            then PulledRefused reason ''its message was refused, deleted or never served''
            else PulledRetry reason))))"

definition hasKeptEvents :: "kept_row list \<Rightarrow> string \<Rightarrow> string \<Rightarrow> bool" where
  "hasKeptEvents kept peerId subjectKey \<longleftrightarrow> list_ex (\<lambda>k. kr_peerId k = peerId \<and> kr_subjectKey k = subjectKey) kept"

fun canonicalJson :: "json \<Rightarrow> string" where
  "canonicalJson (JArr js) = ''['' @ json_join (map canonicalJson js) @ '']''"
| "canonicalJson (JObj ms) = ''{'' @ json_join (map (\<lambda>(k, s). quote_units k @ '':'' @ s)
     (sort_key fst (map (\<lambda>(k, v). (k, canonicalJson v)) ms))) @ ''}''"
| "canonicalJson j = stringify j"

definition syncEventHash :: "'w pull_env \<Rightarrow> json \<Rightarrow> string" where
  "syncEventHash env e = en_hash env (canonicalJson e)"

definition event_ts :: "'w pull_env \<Rightarrow> json \<Rightarrow> millis" where
  "event_ts env e = (case json_get e ''timestamp'' of Some (JNum n) \<Rightarrow> given (en_number env n) 0 | _ \<Rightarrow> 0)"

definition keepEvent ::
  "'w pull_env \<Rightarrow> string \<Rightarrow> sync_context \<Rightarrow> string \<Rightarrow> json \<Rightarrow> units \<Rightarrow> millis \<Rightarrow> millis \<Rightarrow> string \<Rightarrow> kept_row list \<Rightarrow> kept_row list" where
  "keepEvent env peerId ctx subjectKey e reason nextRetryAt now newId kept =
    (if list_ex (\<lambda>k. kr_id k = newId \<or> (kr_peerId k = peerId \<and> kr_eventHash k = syncEventHash env e)) kept then kept
     else kept @ [\<lparr>kr_id = newId, kr_peerId = peerId, kr_contextType = ctx, kr_subjectKey = subjectKey,
       kr_eventType = event_type e, kr_messageId = pulled_text e ''messageId'', kr_eventTs = event_ts env e,
       kr_eventHash = syncEventHash env e, kr_eventJson = stringify e, kr_lastReason = reason, kr_attempts = 1,
       kr_firstFailedAt = now, kr_nextRetryAt = nextRetryAt\<rparr>])"

definition handlePulledEvent ::
  "'w pull_env \<Rightarrow> peer_row \<Rightarrow> sync_context \<Rightarrow> millis \<Rightarrow> string \<Rightarrow> json \<Rightarrow> 'w pull_state \<Rightarrow> 'w pull_state" where
  "handlePulledEvent env peer ctx now newId e st =
    (let subjectKey = syncSubjectKey (en_names env) e; stats = pl_stats st in
     if hasKeptEvents (pl_kept st) (pe_id peer) subjectKey
     then st\<lparr>pl_kept := keepEvent env (pe_id peer) ctx subjectKey e (units_of ''held_behind_earlier_event'') now now newId (pl_kept st),
             pl_stats := stats\<lparr>ss_deferred := ss_deferred stats + 1\<rparr>\<rparr>
     else
       let (w, outcome) = applyPulledEvent env (pe_origin peer) (pl_world st) e;
           st1 = st\<lparr>pl_world := w\<rparr>
       in (case outcome of
            PulledApplied \<Rightarrow> st1\<lparr>pl_stats := stats\<lparr>ss_applied := ss_applied stats + 1\<rparr>\<rparr>
          | PulledTaken \<Rightarrow> st1\<lparr>pl_stats := stats\<lparr>ss_duplicates := ss_duplicates stats + 1\<rparr>\<rparr>
          | PulledRefused _ _ \<Rightarrow> st1\<lparr>pl_stats := stats\<lparr>ss_dropped := ss_dropped stats + 1\<rparr>\<rparr>
          | PulledRetry reason \<Rightarrow>
              st1\<lparr>pl_kept := keepEvent env (pe_id peer) ctx subjectKey e reason (now + SYNC_RETRY_BACKOFF_MS ! 0) now newId (pl_kept st1),
                  pl_stats := stats\<lparr>ss_deferred := ss_deferred stats + 1\<rparr>\<rparr>))"


section \<open>Pulling\<close>

text \<open>What became of one request: refused with an HTTP error, answered, cut off at the pass's deadline, or thrown.\<close>

datatype sync_reply = RefusedHttp | Answered json | PastDeadline | FetchThrew

definition json_int :: "'w pull_env \<Rightarrow> json option \<Rightarrow> int option" where
  "json_int env v = (case v of Some (JNum n) \<Rightarrow> en_number env n | _ \<Rightarrow> None)"

text \<open>\<open>isSyncResponse\<close>, with the answer it lets through; the events are what the array holds.\<close>

definition isSyncResponse :: "'w pull_env \<Rightarrow> json \<Rightarrow> (json list \<times> bool \<times> millis \<times> string option) option" where
  "isSyncResponse env v = (case (json_get v ''events'', json_get v ''hasMore'', json_int env (json_get v ''checkpoint'')) of
     (Some (JArr events), Some (JBool hasMore), Some checkpoint) \<Rightarrow>
       (case json_get v ''checkpointId'' of
          None \<Rightarrow> Some (events, hasMore, checkpoint, None)
        | Some (JStr u) \<Rightarrow> Some (events, hasMore, checkpoint, Some (given (latin1 u) []))
        | _ \<Rightarrow> None)
   | _ \<Rightarrow> None)"

text \<open>One turn of the page loop: the clock at its start, the reply, and the clock and the next id at each event.\<close>

record page_turn =
  pt_now :: millis
  pt_reply :: sync_reply
  pt_ticks :: "nat \<Rightarrow> millis \<times> string"

definition request_key :: "millis \<Rightarrow> string option \<Rightarrow> string" where
  "request_key since afterId = int_text since @ ''|'' @ given afterId []"

fun handle_events ::
  "'w pull_env \<Rightarrow> peer_row \<Rightarrow> sync_context \<Rightarrow> (nat \<Rightarrow> millis \<times> string) \<Rightarrow> nat \<Rightarrow> json list \<Rightarrow> 'w pull_state \<Rightarrow> 'w pull_state" where
  "handle_events env peer ctx ticks i [] st = st"
| "handle_events env peer ctx ticks i (e # es) st =
    handle_events env peer ctx ticks (Suc i) es (handlePulledEvent env peer ctx (fst (ticks i)) (snd (ticks i)) e st)"

definition advance_cursor :: "peer_row \<Rightarrow> sync_context \<Rightarrow> SyncPosition \<Rightarrow> SyncPosition \<Rightarrow> 'w pull_state \<Rightarrow> 'w pull_state \<times> SyncPosition" where
  "advance_cursor peer ctx page position st =
    (if isAfter page position then (saveCursor (pe_id peer) ctx page st, page) else (st, position))"

text \<open>Where the next page starts: by keyset, or one millisecond back against a server without it.\<close>

definition next_request :: "millis \<Rightarrow> millis \<Rightarrow> string option \<Rightarrow> millis \<times> string option" where
  "next_request since checkpoint checkpointId = (case checkpointId of
     Some i \<Rightarrow> (checkpoint, Some i)
   | None \<Rightarrow> ((if checkpoint - 1 \<le> since then checkpoint else checkpoint - 1), None))"

text \<open>The page loop; the third argument is how many pages the budget has left.\<close>

fun pull_pages ::
  "'w pull_env \<Rightarrow> peer_row \<Rightarrow> sync_context \<Rightarrow> nat \<Rightarrow> (nat \<Rightarrow> millis \<Rightarrow> string option \<Rightarrow> page_turn) \<Rightarrow> nat \<Rightarrow> millis
   \<Rightarrow> millis \<Rightarrow> string option \<Rightarrow> string option \<Rightarrow> SyncPosition \<Rightarrow> 'w pull_state \<Rightarrow> 'w pull_state \<times> SyncContextOutcome" where
  "pull_pages env peer ctx 0 turns pages deadline since afterId previous position st = (st, SyncPartial)"
| "pull_pages env peer ctx (Suc left) turns pages deadline since afterId previous position st =
    (let turn = turns pages since afterId in
     if deadline \<le> pt_now turn then (st, SyncPartial)
     else if previous = Some (request_key since afterId) then (markPulled (pe_id peer) ctx (pt_now turn) st, SyncOk)
     else (case pt_reply turn of
         RefusedHttp \<Rightarrow> (st, SyncHttpError)
       | PastDeadline \<Rightarrow> (st, SyncPartial)
       | FetchThrew \<Rightarrow> (st, SyncError)
       | Answered data \<Rightarrow> (case isSyncResponse env data of
           None \<Rightarrow> (st, SyncHttpError)
         | Some (events, hasMore, checkpoint, checkpointId) \<Rightarrow>
             (let st1 = handle_events env peer ctx (pt_ticks turn) 0 events st;
                  (st2, position2) = advance_cursor peer ctx \<lparr>po_ts = checkpoint, po_id = checkpointId\<rparr> position st1;
                  (since2, afterId2) = next_request since checkpoint checkpointId
              in if \<not> hasMore then (markPulled (pe_id peer) ctx (fst (pt_ticks turn (length events))) st2, SyncOk)
                 else pull_pages env peer ctx left turns (Suc pages) deadline since2 afterId2
                        (Some (request_key since afterId)) position2 st2))))"

definition pullContext ::
  "'w pull_env \<Rightarrow> peer_row \<Rightarrow> sync_context \<Rightarrow> (nat \<Rightarrow> millis \<Rightarrow> string option \<Rightarrow> page_turn) \<Rightarrow> SyncPassBudget \<Rightarrow> millis
   \<Rightarrow> 'w pull_state \<Rightarrow> 'w pull_state \<times> SyncContextOutcome" where
  "pullContext env peer ctx turns budget now st =
    (let (st1, position) = loadCursor peer ctx st
     in pull_pages env peer ctx (bu_pages budget) turns 0 (now + bu_timeMs budget)
          (firstRequestSince (en_ledgerStartedAt env) ctx position now) None None position st1)"

text \<open>The contexts one after the other; each has its turns and the clock when it starts.\<close>

fun pull_contexts ::
  "'w pull_env \<Rightarrow> peer_row \<Rightarrow> (sync_context \<Rightarrow> millis \<times> (nat \<Rightarrow> millis \<Rightarrow> string option \<Rightarrow> page_turn)) \<Rightarrow> SyncPassBudget
   \<Rightarrow> sync_context list \<Rightarrow> 'w pull_state \<Rightarrow> 'w pull_state \<times> (sync_context \<times> SyncContextOutcome) list" where
  "pull_contexts env peer turns budget [] st = (st, [])"
| "pull_contexts env peer turns budget (ctx # ctxs) st =
    (let (st1, outcome) = pullContext env peer ctx (snd (turns ctx)) budget (fst (turns ctx)) st;
         (st2, outcomes) = pull_contexts env peer turns budget ctxs st1
     in (st2, (ctx, outcome) # outcomes))"

definition pullCompleted :: "peer_row list \<Rightarrow> string \<Rightarrow> millis \<Rightarrow> peer_row list" where
  "pullCompleted peers peerId now = tbl_update pe_id peerId (\<lambda>p. p\<lparr>pe_lastSyncedAt := Some now\<rparr>) peers"

definition pullPeer ::
  "'w pull_env \<Rightarrow> bool \<Rightarrow> peer_row list \<Rightarrow> string \<Rightarrow> (sync_context \<Rightarrow> millis \<times> (nat \<Rightarrow> millis \<Rightarrow> string option \<Rightarrow> page_turn))
   \<Rightarrow> SyncPassBudget \<Rightarrow> sync_context list \<Rightarrow> millis \<Rightarrow> 'w pull_state
   \<Rightarrow> (peer_row list \<times> 'w pull_state \<times> (sync_context \<times> SyncContextOutcome) list) option" where
  "pullPeer env relayEnabled peers peerId turns budget contexts now st =
    (if \<not> relayEnabled then None
     else (case peer_get peerId peers of
         None \<Rightarrow> None
       | Some peer \<Rightarrow>
           if pe_status peer \<noteq> ''active'' then None
           else
             let (st1, outcomes) = pull_contexts env peer turns budget contexts ((reconcileCursorEpoch peer st)\<lparr>pl_stats := no_stats\<rparr>);
                 complete = list_all (\<lambda>c. map_of outcomes c = Some SyncOk) contexts
             in Some (if complete then pullCompleted peers peerId now else peers, st1, outcomes)))"

section \<open>Replaying kept events\<close>

definition retryBackoffMs :: "nat \<Rightarrow> int" where
  "retryBackoffMs attempts = SYNC_RETRY_BACKOFF_MS ! (min (max attempts 1) (length SYNC_RETRY_BACKOFF_MS) - 1)"

definition drop_kept :: "string \<Rightarrow> 'w pull_state \<Rightarrow> 'w pull_state" where
  "drop_kept i st = st\<lparr>pl_kept := tbl_delete kr_id i (pl_kept st)\<rparr>"

text \<open>One row due for its replay: the instance after it, whether the row was resolved, and whether its subject waits.\<close>

definition retry_row :: "'w pull_env \<Rightarrow> peer_row \<Rightarrow> millis \<Rightarrow> kept_row \<Rightarrow> 'w pull_state \<Rightarrow> 'w pull_state \<times> bool" where
  "retry_row env peer now row st = (case json_parse (kr_eventJson row) of
     None \<Rightarrow> (drop_kept (kr_id row) st, True)
   | Some e \<Rightarrow>
       if SYNC_RETRY_MAX_AGE_MS < now - kr_firstFailedAt row then (drop_kept (kr_id row) st, True)
       else
         let (w, outcome) = applyPulledEvent env (pe_origin peer) (pl_world st) e;
             st1 = st\<lparr>pl_world := w\<rparr>
         in (case outcome of
              PulledRetry reason \<Rightarrow>
                (st1\<lparr>pl_kept := tbl_update kr_id (kr_id row)
                   (\<lambda>k. k\<lparr>kr_attempts := kr_attempts row + 1, kr_lastReason := reason,
                          kr_nextRetryAt := now + retryBackoffMs (kr_attempts row + 1)\<rparr>) (pl_kept st1)\<rparr>, False)
            | _ \<Rightarrow> (drop_kept (kr_id row) st1, True)))"

fun retry_rows ::
  "'w pull_env \<Rightarrow> peer_row \<Rightarrow> millis \<Rightarrow> kept_row list \<Rightarrow> string set \<Rightarrow> string set \<Rightarrow> nat \<Rightarrow> 'w pull_state \<Rightarrow> 'w pull_state \<times> nat" where
  "retry_rows env peer now [] seen blocked resolved st = (st, resolved)"
| "retry_rows env peer now (row # rows) seen blocked resolved st =
    (let s = kr_subjectKey row in
     if s \<in> blocked then retry_rows env peer now rows seen blocked resolved st
     else if s \<notin> seen \<and> now < kr_nextRetryAt row then retry_rows env peer now rows (insert s seen) (insert s blocked) resolved st
     else (case retry_row env peer now row st of
         (st1, True) \<Rightarrow> retry_rows env peer now rows (insert s seen) blocked (resolved + 1) st1
       | (st1, False) \<Rightarrow> retry_rows env peer now rows (insert s seen) (insert s blocked) resolved st1))"

definition kept_order :: "kept_row \<Rightarrow> millis \<times> string" where
  "kept_order k = (kr_eventTs k, kr_id k)"

definition kept_of :: "string \<Rightarrow> kept_row list \<Rightarrow> kept_row list" where
  "kept_of peerId kept = sort_key kept_order (filter (\<lambda>k. kr_peerId k = peerId) kept)"

definition retryPeerEvents :: "'w pull_env \<Rightarrow> peer_row \<Rightarrow> millis \<Rightarrow> 'w pull_state \<Rightarrow> 'w pull_state \<times> nat" where
  "retryPeerEvents env peer now st = retry_rows env peer now (kept_of (pe_id peer) (pl_kept st)) {} {} 0 st"

fun retry_peers :: "'w pull_env \<Rightarrow> peer_row list \<Rightarrow> millis \<Rightarrow> string list \<Rightarrow> 'w pull_state \<Rightarrow> 'w pull_state \<times> nat" where
  "retry_peers env peers now [] st = (st, 0)"
| "retry_peers env peers now (peerId # ids) st =
    (let (st1, n) = (case peer_get peerId peers of
           None \<Rightarrow> (st, 0)
         | Some peer \<Rightarrow> if pe_status peer \<noteq> ''active'' then (st, 0)
             else retryPeerEvents env peer now (reconcileCursorEpoch peer st));
         (st2, m) = retry_peers env peers now ids st1
     in (st2, n + m))"

definition processSyncRetryTick :: "'w pull_env \<Rightarrow> bool \<Rightarrow> peer_row list \<Rightarrow> millis \<Rightarrow> 'w pull_state \<Rightarrow> 'w pull_state \<times> nat" where
  "processSyncRetryTick env relayEnabled peers now st =
    (if \<not> relayEnabled then (st, 0) else retry_peers env peers now (remdups (map kr_peerId (pl_kept st))) st)"

text \<open>
  The periodic tick: every active peer, then the kept events. The last component is whether a pass stopped at
  its budget, which brings the next tick forward.
\<close>

fun resync_peers ::
  "'w pull_env \<Rightarrow> (string \<Rightarrow> millis \<times> (sync_context \<Rightarrow> millis \<times> (nat \<Rightarrow> millis \<Rightarrow> string option \<Rightarrow> page_turn)))
   \<Rightarrow> SyncPassBudget \<Rightarrow> string list \<Rightarrow> peer_row list \<Rightarrow> 'w pull_state \<Rightarrow> peer_row list \<times> 'w pull_state \<times> bool" where
  "resync_peers env answers budget [] peers st = (peers, st, False)"
| "resync_peers env answers budget (i # ids) peers st =
    (case pullPeer env True peers i (snd (answers i)) budget ALL_SYNC_CONTEXTS (fst (answers i)) st of
       None \<Rightarrow> resync_peers env answers budget ids peers st
     | Some (peers1, st1, outcomes) \<Rightarrow>
         (let (peers2, st2, stopped) = resync_peers env answers budget ids peers1 st1
          in (peers2, st2, SyncPartial \<in> snd ` set outcomes \<or> stopped)))"

definition processResyncTick ::
  "'w pull_env \<Rightarrow> bool \<Rightarrow> (string \<Rightarrow> millis \<times> (sync_context \<Rightarrow> millis \<times> (nat \<Rightarrow> millis \<Rightarrow> string option \<Rightarrow> page_turn)))
   \<Rightarrow> SyncPassBudget \<Rightarrow> peer_row list \<Rightarrow> millis \<Rightarrow> 'w pull_state \<Rightarrow> peer_row list \<times> 'w pull_state \<times> bool" where
  "processResyncTick env relayEnabled answers budget peers now st =
    (if \<not> relayEnabled then (peers, st, False)
     else
       let (peers1, st1, stopped) = resync_peers env answers budget (map pe_id (filter (\<lambda>p. pe_status p = ''active'') peers)) peers st
       in (peers1, fst (processSyncRetryTick env relayEnabled peers1 now st1), stopped))"

definition RESYNC_INTERVAL_MS :: int where
  "RESYNC_INTERVAL_MS = 15 * 60000"

definition RESYNC_CONTINUE_DELAY_MS :: int where
  "RESYNC_CONTINUE_DELAY_MS = 60000"

definition next_resync_delay :: "bool \<Rightarrow> int" where
  "next_resync_delay stoppedAtBudget = (if stoppedAtBudget then RESYNC_CONTINUE_DELAY_MS else RESYNC_INTERVAL_MS)"

end
