(* ===== verification/PeerTable.thy ===== *)
theory PeerTable
  imports PeeringSafety S2SGuard PullSync
begin

text \<open>
  The peer table of an instance over its whole life. What is left of its writers is defined first: the epoch
  refresh (\<open>federationEpoch.ts\<close>), the sweep of unused placeholders (\<open>storageJanitor.ts\<close>) and the two writes
  to the outbox that follow a DM channel (\<open>storageJanitor.ts\<close>, \<open>dmConversation.ts\<close>). \<open>peering_step\<close> then has
  one rule for every uninterrupted stretch of code that writes \<open>federation_peers\<close> or \<open>federation_outbox\<close>, and
  the invariant of the table is shown for all runs. Only the seeding route of the test builds is left out.
\<close>

section \<open>The remaining writers\<close>

text \<open>\<open>refreshPeerEpochs\<close>: the peers it asks, and what the answer of one (\<open>None\<close>: not verified) does.\<close>

definition epoch_candidates :: "peer_db \<Rightarrow> peer_row list" where
  "epoch_candidates db = filter (\<lambda>p. pe_status p = ''active'' \<and> pe_peerInstanceId p = None) (pd_peers db)"

definition epochFetched :: "peer_db \<Rightarrow> string \<Rightarrow> string option \<Rightarrow> peer_db" where
  "epochFetched db peerId epoch =
    (if \<not> truthy epoch then db
     else db\<lparr>pd_peers := map (\<lambda>p. if pe_id p = peerId \<and> pe_peerInstanceId p = None
            then p\<lparr>pe_peerInstanceId := epoch\<rparr> else p) (pd_peers db)\<rparr>)"

definition AUTO_PENDING_PEER_GRACE_MS :: int where
  "AUTO_PENDING_PEER_GRACE_MS = 60 * 60 * 1000"

definition unused_row :: "peer_db \<Rightarrow> millis \<Rightarrow> peer_row \<Rightarrow> bool" where
  "unused_row db now p \<longleftrightarrow> pe_status p = ''pending'' \<and> pe_initiatedBy p = ''auto''
     \<and> pe_createdAt p < now - AUTO_PENDING_PEER_GRACE_MS \<and> \<not> has_mail db (pe_id p)"

text \<open>The delete of one candidate, under the same conditions; the queue goes with the row by the foreign key.\<close>

definition remove_unused :: "millis \<Rightarrow> peer_db \<times> nat \<Rightarrow> peer_row \<Rightarrow> peer_db \<times> nat" where
  "remove_unused now acc peer = (case acc of (db, removed) \<Rightarrow>
     let hit = (\<lambda>r. pe_id r = pe_id peer \<and> unused_row db now r) in
     if list_ex hit (pd_peers db)
     then (db\<lparr>pd_peers := filter (\<lambda>r. \<not> hit r) (pd_peers db),
              pd_outbox := filter (\<lambda>e. ob_peerId e \<noteq> pe_id peer) (pd_outbox db)\<rparr>, removed + 1)
     else (db, removed))"

definition cleanupUnusedAutoPendingPeers :: "instance_state \<Rightarrow> millis \<Rightarrow> instance_state \<times> nat" where
  "cleanupUnusedAutoPendingPeers st now =
    (let candidates = filter (\<lambda>p. unused_row (in_peers st) now p \<and> \<not> isHandshakeInFlight st (pe_origin p))
           (pd_peers (in_peers st));
         (db, removed) = foldl (remove_unused now) (in_peers st, 0) candidates
     in (st\<lparr>in_peers := db\<rparr>, removed))"

text \<open>A purged DM channel takes its queued events along; a merged one hands them to the channel that stays.\<close>

definition dropOutboxContext :: "outbox_row list \<Rightarrow> string \<Rightarrow> outbox_row list" where
  "dropOutboxContext rows channelId = filter (\<lambda>r. ob_contextId r \<noteq> channelId) rows"

definition moveOutboxContext :: "outbox_row list \<Rightarrow> string \<Rightarrow> string \<Rightarrow> outbox_row list" where
  "moveOutboxContext rows channelId targetId =
    map (\<lambda>r. if ob_contextId r = channelId \<and> ob_contextType r = ''dm'' then r\<lparr>ob_contextId := targetId\<rparr> else r) rows"

section \<open>They keep the table healthy\<close>

text \<open>A write that touches neither ids nor states.\<close>

lemma peers_ok_rows:
  assumes "peers_ok db" and "\<And>r. pe_id (f r) = pe_id r \<and> pe_origin (f r) = pe_origin r \<and> pe_status (f r) = pe_status r
    \<and> pe_statusReason (f r) = pe_statusReason r \<and> pe_probeAttempts (f r) = pe_probeAttempts r \<and> pe_lastProbeAt (f r) = pe_lastProbeAt r"
  shows "peers_ok (db\<lparr>pd_peers := map f (pd_peers db)\<rparr>)"
proof -
  have "peers_ok \<lparr>pd_peers = map f (pd_peers db), pd_outbox = pd_outbox db\<rparr>"
  proof (rule peers_ok_map[OF assms(1)])
    fix r assume "r \<in> set (pd_peers db)"
    then have "peer_ok r" using assms(1) by (simp add: peers_ok_def list_all_iff)
    then show "peer_ok (f r)" using assms(2)[of r] by (simp add: peer_ok_def peerStatusOf_def)
  qed (use assms(2) in \<open>auto simp: refuses_def\<close>)
  then show ?thesis by (cases db) simp
qed

lemma peers_ok_row [preserved]:
  assumes "peers_ok db" and "\<And>r. pe_id (f r) = pe_id r \<and> pe_origin (f r) = pe_origin r \<and> pe_status (f r) = pe_status r
    \<and> pe_statusReason (f r) = pe_statusReason r \<and> pe_probeAttempts (f r) = pe_probeAttempts r \<and> pe_lastProbeAt (f r) = pe_lastProbeAt r"
  shows "peers_ok (db\<lparr>pd_peers := tbl_update pe_id i f (pd_peers db)\<rparr>)"
  unfolding tbl_update_def by (rule peers_ok_rows[OF assms(1)]) (use assms(2) in auto)

text \<open>A write to the outbox that adds rows for no other peer.\<close>

lemma peers_ok_mail:
  "peers_ok db \<Longrightarrow> ob_peerId ` set out \<subseteq> ob_peerId ` set (pd_outbox db) \<Longrightarrow> peers_ok (db\<lparr>pd_outbox := out\<rparr>)"
  by (rule peers_ok_outbox) auto

lemma epochFetched_ok [preserved]: "peers_ok db \<Longrightarrow> peers_ok (epochFetched db i e)"
  by (simp add: epochFetched_def peers_ok_rows)

lemma relayEpoch_ok [preserved]: "peers_ok db \<Longrightarrow> peers_ok (relayEpoch db peer body)"
  by (simp add: relayEpoch_def peers_ok_rows)

lemma relaySeen_ok [preserved]: "peers_ok db \<Longrightarrow> peers_ok (relaySeen db peer nonce now)"
  by (simp add: relaySeen_def peers_ok_row)

lemma syncServed_ok [preserved]: "peers_ok db \<Longrightarrow> peers_ok (syncServed db peer now)"
  by (simp add: syncServed_def peers_ok_row)

lemma same_owners: "(\<And>r. ob_peerId (f r) = ob_peerId r) \<Longrightarrow> ob_peerId ` set (map f rows) = ob_peerId ` set rows"
  by (simp only: set_map image_image)

lemma offered_peers:
  "ob_peerId ` set (markOutboxOfferedForPeer rows i t ct) = ob_peerId ` set rows"
  "ob_peerId ` set (markOutboxOffered rows ids t) = ob_peerId ` set rows"
  unfolding markOutboxOfferedForPeer_def markOutboxOffered_def
  by (rule same_owners, simp add: offer_def) (cases "ids = []", simp, simp only: if_False, rule same_owners, simp add: offer_def)

lemma syncAsked_ok [preserved]:
  assumes "peers_ok db"
  shows "peers_ok (syncAsked db peer nonce valid ct now)"
proof -
  have "peers_ok (db\<lparr>pd_peers := tbl_update pe_id (pe_id peer) (\<lambda>r. r\<lparr>pe_nonceSupported := 1\<rparr>) (pd_peers db)\<rparr>)"
    using assms by (simp add: peers_ok_row)
  moreover have "peers_ok (db1\<lparr>pd_outbox := markOutboxOfferedForPeer (pd_outbox db1) i now ct\<rparr>)" if "peers_ok db1" for db1 i
    by (rule peers_ok_mail[OF that]) (simp add: offered_peers)
  ultimately show ?thesis using assms by (simp add: syncAsked_def Let_def)
qed

lemma finalizeRotations_ok [preserved]: "peers_ok db \<Longrightarrow> peers_ok (finalizeRotations db now)"
  by (simp add: finalizeRotations_def peers_ok_rows)

lemma autoRotated_ok [preserved]: "peers_ok db \<Longrightarrow> peers_ok (autoRotated db i s ok now)"
  by (simp add: autoRotated_def peers_ok_row)

lemma pullCompleted_ok [preserved]: "peers_ok db \<Longrightarrow> peers_ok (db\<lparr>pd_peers := pullCompleted (pd_peers db) i now\<rparr>)"
  by (simp add: pullCompleted_def peers_ok_row)

lemma takeOutboxBatch_ok [preserved]: "peers_ok db \<Longrightarrow> peers_ok (fst (takeOutboxBatch db ids now))"
  by (simp add: takeOutboxBatch_def Let_def peers_ok_mail offered_peers)

lemma backoff_peers: "ob_peerId ` set (applyOutboxEntryBackoff d rows es t) = ob_peerId ` set rows"
proof (induction es arbitrary: rows)
  case (Cons e es)
  have "ob_peerId ` set (map (\<lambda>r. if ob_id r = ob_id e then bumped d t e r else r) rows) = ob_peerId ` set rows"
    by (rule same_owners) (simp add: bumped_def)
  then show ?case using Cons by (simp add: applyOutboxEntryBackoff_def)
qed (simp add: applyOutboxEntryBackoff_def)

lemma settle_entry_rows: "set (fst (settle_entry res p acc e)) \<subseteq> set (fst acc)"
  by (cases acc) (auto simp: Let_def split: RejectionOutcome.split)

lemma settle_fold_rows: "set (fst (foldl (settle_entry res p) acc es)) \<subseteq> set (fst acc)"
proof (induction es arbitrary: acc)
  case (Cons e es)
  then show ?case using settle_entry_rows[of res p acc e] by fastforce
qed simp

lemma settleAnsweredBatch_ok [preserved]:
  assumes "peers_ok db"
  shows "peers_ok (fst (settleAnsweredBatch d db p batch res t))"
proof -
  obtain rows retry refusals where f: "foldl (settle_entry res p) (pd_outbox db, [], []) batch = (rows, retry, refusals)"
    by (cases "foldl (settle_entry res p) (pd_outbox db, [], []) batch") auto
  then have "set rows \<subseteq> set (pd_outbox db)" using settle_fold_rows[of res p "(pd_outbox db, [], [])" batch] by simp
  then have "peers_ok (db\<lparr>pd_outbox := applyOutboxEntryBackoff d rows retry t\<rparr>)"
    using assms by (intro peers_ok_mail) (auto simp: backoff_peers)
  from peers_ok_row[OF this] show ?thesis
    by (simp add: settleAnsweredBatch_def f)
qed

lemma settleDelivery_ok [preserved]:
  assumes "peers_ok db"
  shows "peers_ok (fst (settleDelivery d db p batch out t))"
proof -
  have off: "peers_ok (db\<lparr>pd_outbox := applyOutboxEntryBackoff d (pd_outbox db) batch t\<rparr>)"
    using assms by (intro peers_ok_mail) (auto simp: backoff_peers)
  have "peers_ok (handleRelayAuthRefusal db1 p t)" if "peers_ok db1" for db1
    using that by (simp add: handleRelayAuthRefusal_def preserved peers_ok_row split: AuthFailureAction.split)
  moreover have "peers_ok (handleOutboxDeliveryFailure d db p batch t)"
    using peers_ok_row[OF off] by (auto simp: handleOutboxDeliveryFailure_def markPeerUnreachable_def Let_def preserved)
  ultimately show ?thesis using off assms
    by (simp add: settleDelivery_def preserved split: DeliveryOutcome.split)
qed

lemma remove_unused_ok:
  assumes "peers_ok (fst acc)"
  shows "peers_ok (fst (remove_unused now acc p))"
proof -
  have "peers_ok (db\<lparr>pd_peers := filter (\<lambda>r. \<not> (pe_id r = i \<and> P r)) (pd_peers db),
      pd_outbox := filter (\<lambda>e. ob_peerId e \<noteq> i) (pd_outbox db)\<rparr>)" if "peers_ok db" for db P i
    using that by (fastforce simp: peers_ok_def ids_ok_def list_all_iff list_ex_iff distinct_map_filter)
  then show ?thesis using assms by (cases acc) (auto simp: remove_unused_def Let_def)
qed

lemma cleanup_ok [preserved]:
  assumes "in_ok st"
  shows "in_ok (fst (cleanupUnusedAutoPendingPeers st now))"
proof -
  have "peers_ok (fst (foldl (remove_unused now) acc ps))" if "peers_ok (fst acc)" for acc ps
    using that by (induction ps arbitrary: acc) (simp_all add: remove_unused_ok)
  from this[of "(in_peers st, 0)"] assms show ?thesis
    by (simp add: cleanupUnusedAutoPendingPeers_def Let_def split: prod.split) (metis fst_conv)
qed

lemma outbox_writes_ok [preserved]:
  assumes "peers_ok db"
  shows "peers_ok (db\<lparr>pd_outbox := fst (expireOutboxQueues (pd_outbox db) now)\<rparr>)"
    and "peers_ok (db\<lparr>pd_outbox := fst (backfillOutboxQueueKeys (pd_outbox db))\<rparr>)"
    and "peers_ok (db\<lparr>pd_outbox := dropOutboxContext (pd_outbox db) c\<rparr>)"
    and "peers_ok (db\<lparr>pd_outbox := moveOutboxContext (pd_outbox db) c target\<rparr>)"
  unfolding expireOutboxQueues_def backfillOutboxQueueKeys_def dropOutboxContext_def moveOutboxContext_def Let_def fst_conv
  by (rule peers_ok_mail[OF assms]; (rule equalityD1[OF same_owners], simp)?; auto)+

lemma recoveryProbed_ok [preserved]: "in_ok st \<Longrightarrow> in_ok (recoveryProbed st peer probe domain now at)"
  by (simp add: recoveryProbed_def preserved)

lemma resolvePendingPeer_ok [preserved]:
  "in_ok st \<Longrightarrow> fresh 0 \<notin> peer_ids st \<Longrightarrow> in_ok (fst (resolvePendingPeer st org s fresh now))"
  using ensurePeered_ok[of st fresh org "Some org" SystemIntent s now]
  by (auto simp: resolvePendingPeer_def split: prod.split)

section \<open>The peering of an instance, step by step\<close>

text \<open>
  One step is one uninterrupted stretch of one request or worker, with any rows, any answers and any
  options in flight: a handshake's continuation, a delivery's outcome or a probe's answer may come at any time,
  also when the row it was about has moved on or gone. Generated ids are fresh.
\<close>

inductive peering_step :: "instance_state \<Rightarrow> instance_state \<Rightarrow> bool" where
  accept: "i \<notin> peer_ids st \<Longrightarrow> peering_step st (fst (peerAccept url_of over st body i tok now))"
| ensure: "fresh 0 \<notin> peer_ids st \<Longrightarrow> peering_step st (fst (ensurePeered st raw normalized intent s fresh now))"
| finish: "peering_step st (finishPeering st org)"
| claim: "claimAdminHandshake st org = Some st1 \<Longrightarrow> peering_step st st1"
| release: "peering_step st (releaseAdminHandshake st org)"
| prepare: "i \<notin> peer_ids st \<Longrightarrow> peering_step st (st\<lparr>in_peers := fst (prepareAdminHandshakeRow (in_peers st) org m n s i now)\<rparr>)"
| answered: "peering_step st (st\<lparr>in_peers := fst (handshakeAnswered (in_peers st) opts answer)\<rparr>)"
| exists_probed: "peering_step st (st\<lparr>in_peers := fst (handshakeExistsProbed (in_peers st) opts err probe now)\<rparr>)"
| settled: "peering_step st (st\<lparr>in_peers := fst (settleAccepted (in_peers st) opts name probe now)\<rparr>)"
| denied: "peering_step st (fst (peerDenied st header verify reason))"
| rotate: "peering_step st (fst (peerRotate st header verify' secret now))"
| revoke: "peering_step st (fst (revokePeer st i))"
| reset: "peering_step st (fst (resetPeer st i))"
| forget: "peering_step st (fst (deletePeerPermanently st i))"
| recheck: "peering_step st (fst (recheckProbed st peer reach domain now))"
| patch: "peering_step st (fst (patchPeer st i days))"
| approved: "peering_step st (inboundApproved st req outcome)"
| refused: "i \<notin> peer_ids st \<Longrightarrow> peering_step st (fst (inboundDenied st req sent i now))"
| turned_down: "peering_step st (fst (outboundDenied st req fresh now))"
| recover: "peering_step st (fst (recoverOrDetectReset st peer reach domain now))"
| detect: "peering_step st (detectResetForPeer st peer reach domain now)"
| parked: "peering_step st (st\<lparr>in_peers := fst (parkedProbed (in_peers st) peer probe now)\<rparr>)"
| retried: "peering_step st (st\<lparr>in_peers := parkedRetried (in_peers st) peer result\<rparr>)"
| activated: "peering_step st (st\<lparr>in_peers := resetOutboxBackoff (in_peers st) i now\<rparr>)"
| fanout: "peering_step st (fanoutOutboundSubscribers st i fresh now)"
| queue: "inj fresh \<Longrightarrow> (\<And>j. fresh j \<notin> peer_ids st) \<Longrightarrow>
    peering_step st (queueOutboxEvent enabled ttl st event secrets fresh now)"
| resolve: "fresh 0 \<notin> peer_ids st \<Longrightarrow> peering_step st (fst (resolvePendingPeer st org s fresh now))"
| offered: "peering_step st (st\<lparr>in_peers := fst (takeOutboxBatch (in_peers st) ids now)\<rparr>)"
| delivered: "peering_step st (st\<lparr>in_peers := fst (settleDelivery divisor (in_peers st) i batch outcome now)\<rparr>)"
| recovery_probed: "peering_step st (recoveryProbed st peer reach domain now at)"
| rotations_done: "peering_step st (st\<lparr>in_peers := finalizeRotations (in_peers st) now\<rparr>)"
| rotation_sent: "peering_step st (st\<lparr>in_peers := autoRotated (in_peers st) i secret taken now\<rparr>)"
| epoch_refreshed: "peering_step st (st\<lparr>in_peers := epochFetched (in_peers st) i epoch\<rparr>)"
| relay_epoch: "peering_step st (st\<lparr>in_peers := relayEpoch (in_peers st) peer body'\<rparr>)"
| relay_seen: "peering_step st (st\<lparr>in_peers := relaySeen (in_peers st) peer nonce now\<rparr>)"
| sync_asked: "peering_step st (st\<lparr>in_peers := syncAsked (in_peers st) peer nonce valid ctype now\<rparr>)"
| sync_served: "peering_step st (st\<lparr>in_peers := syncServed (in_peers st) peer now\<rparr>)"
| pulled: "peering_step st (st\<lparr>in_peers := (in_peers st)\<lparr>pd_peers := pullCompleted (pd_peers (in_peers st)) i now\<rparr>\<rparr>)"
| swept: "peering_step st (fst (cleanupUnusedAutoPendingPeers st now))"
| expired: "peering_step st (st\<lparr>in_peers := (in_peers st)\<lparr>pd_outbox := fst (expireOutboxQueues (pd_outbox (in_peers st)) now)\<rparr>\<rparr>)"
| keyed: "peering_step st (st\<lparr>in_peers := (in_peers st)\<lparr>pd_outbox := fst (backfillOutboxQueueKeys (pd_outbox (in_peers st)))\<rparr>\<rparr>)"
| channel_purged: "peering_step st (st\<lparr>in_peers := (in_peers st)\<lparr>pd_outbox := dropOutboxContext (pd_outbox (in_peers st)) c\<rparr>\<rparr>)"
| channel_merged: "peering_step st (st\<lparr>in_peers := (in_peers st)\<lparr>pd_outbox := moveOutboxContext (pd_outbox (in_peers st)) c target\<rparr>\<rparr>)"

inductive peering_run :: "instance_state \<Rightarrow> instance_state \<Rightarrow> bool" where
  start: "peering_run st st"
| step: "peering_run st st1 \<Longrightarrow> peering_step st1 st2 \<Longrightarrow> peering_run st st2"

lemma peering_step_ok: "peering_step st st1 \<Longrightarrow> in_ok st \<Longrightarrow> in_ok st1"
  by (induction rule: peering_step.induct)
     (auto simp: preserved finishPeering_def releaseAdminHandshake_def claimAdminHandshake_def split: if_split_asm)

lemma peering_run_ok: "peering_run st st1 \<Longrightarrow> in_ok st \<Longrightarrow> in_ok st1"
  by (induction rule: peering_run.induct) (auto dest: peering_step_ok)

text \<open>
  C5. However requests, answers and workers interleave (the delivery, handshake, recovery, rotation and pull
  workers and the janitor included), from an empty table the peer table stays sound: ids and origins are unique, a status is one of the seven and carries a reason exactly when it is one that
  explains it, an active row's pacing is clear, and no row that is rejected or revoked has mail queued
  against it.
\<close>

theorem peer_table_sound:
  assumes "peering_run (fresh_instance org setting) st"
  shows "distinct (map pe_id (pd_peers (in_peers st))) \<and> distinct (map pe_origin (pd_peers (in_peers st)))
    \<and> list_all (\<lambda>r. \<exists>s. pe_status r = status_text s \<and> reason_fits s (pe_statusReason r)
         \<and> (s, pe_probeAttempts r, pe_lastProbeAt r) \<notin> {PActive} \<times> - ({0} \<times> {None})) (pd_peers (in_peers st))
    \<and> ob_peerId ` set (pd_outbox (in_peers st)) \<subseteq> pe_id ` {r \<in> set (pd_peers (in_peers st)). pe_status r \<notin> {''rejected'', ''revoked''}}"
proof -
  have ok: "in_ok st" using peering_run_ok[OF assms fresh_instance_ok] .
  have "\<exists>s. pe_status r = status_text s \<and> reason_fits s (pe_statusReason r)
         \<and> (s, pe_probeAttempts r, pe_lastProbeAt r) \<notin> {PActive} \<times> - ({0} \<times> {None})"
    if "r \<in> set (pd_peers (in_peers st))" for r
  proof -
    have "peer_ok r" using ok that by (simp add: peers_ok_def list_all_iff)
    then obtain s where "pe_status r = status_text s" "reason_fits s (pe_statusReason r)"
        "s = PActive \<longrightarrow> pe_probeAttempts r = 0 \<and> pe_lastProbeAt r = None"
      by (auto simp: peer_ok_def peerStatusOf_text)
    then show ?thesis by auto
  qed
  moreover have "ob_peerId e \<in> pe_id ` {r \<in> set (pd_peers (in_peers st)). pe_status r \<notin> {''rejected'', ''revoked''}}"
    if "e \<in> set (pd_outbox (in_peers st))" for e
    using mail_owner[OF ok that] by (force simp: refuses_def)
  ultimately show ?thesis using ok by (auto simp: peers_ok_def ids_ok_def list_all_iff)
qed

section \<open>Example\<close>

text \<open>A peer is taken up and then fails ten deliveries.\<close>

definition ten_failures :: "(DeliveryOutcome \<times> outbox_row list \<times> millis) list" where
  "ten_failures = map (\<lambda>(s, b, t). (Failed s, b, t)) (replicate 10 (''HTTP 502'', [], 7))"

definition lost :: instance_state where
  "lost = contacted\<lparr>in_peers := OutboxWorker.deliveries 1 ''1'' (in_peers contacted) ten_failures\<rparr>"

lemma deliveries_run:
  "peering_run st0 st \<Longrightarrow> peering_run st0 (st\<lparr>in_peers := OutboxWorker.deliveries d p (in_peers st) fs\<rparr>)"
proof (induction fs arbitrary: st)
  case Nil
  then show ?case by (simp add: OutboxWorker.deliveries_def)
next
  case (Cons f fs)
  obtain out b t where f: "f = (out, b, t)" by (cases f)
  have "peering_run st0 (st\<lparr>in_peers := fst (settleDelivery d (in_peers st) p b out t)\<rparr>)"
    by (rule peering_run.step[OF Cons.prems peering_step.delivered])
  from Cons.IH[OF this] show ?case by (simp add: OutboxWorker.deliveries_def f)
qed

lemma lost_run: "peering_run (fresh_instance ''https://a.example'' None) lost"
proof -
  have "peering_run (fresh_instance ''https://a.example'' None) contacted"
    unfolding contacted_def by (rule peering_run.step[OF peering_run.start peering_step.accept]) (simp add: fresh_instance_def)
  then show ?thesis unfolding lost_def by (rule deliveries_run)
qed

lemma contacted_row: "\<exists>r. pd_peers (in_peers contacted) = [r] \<and> pe_id r = ''1'' \<and> pe_status r = ''active'' \<and> pe_consecutiveFailures r = 0"
  by (simp add: contacted_def peerAccept_def first_contact_def https_url_def starts_with_def validateOrigin_def
      acceptDecided_def accept_decision_def decideInboundHandshake_def fresh_instance_def auto_accept_setting_def
      given_def peer_by_origin_def insertPeer_def new_peer_row_def Let_def)

lemma lost_unreachable: "\<exists>r \<in> set (pd_peers (in_peers lost)). pe_status r = ''unreachable''"
proof -
  obtain r where r: "pd_peers (in_peers contacted) = [r]" "pe_id r = ''1''" "pe_status r = ''active''" "pe_consecutiveFailures r = 0"
    using contacted_row by blast
  have "network_state ''1'' 0 (in_peers contacted)"
    using r ids_okD[OF contacted_ok] by (simp add: network_state_def peer_get_def tbl_get_def)
  from network_run[OF this, where fs = "replicate 10 (''HTTP 502'', [], 7)" and d = 1] show ?thesis
    by (auto simp: network_state_def lost_def ten_failures_def peer_get_def dest!: tbl_get_SomeD)
qed

lemma peer_table_sound_witness:
  "\<exists>r \<in> set (pd_peers (in_peers lost)). pe_status r = ''unreachable'' \<and> reason_fits PUnreachable (pe_statusReason r)"
proof -
  obtain r where r: "r \<in> set (pd_peers (in_peers lost))" "pe_status r = ''unreachable''" using lost_unreachable by blast
  moreover obtain s where "pe_status r = status_text s" "reason_fits s (pe_statusReason r)"
    using peer_table_sound[OF lost_run] r(1) by (auto simp: list_all_iff)
  moreover from this(1) r(2) have "s = PUnreachable" by (cases s) simp_all
  ultimately show ?thesis by blast
qed

end
