(* ===== verification/FileQueue.thy ===== *)
theory FileQueue
  imports FedAuth MutationLog
begin

text \<open>
  The file queue of \<open>packages/server/src/utils/federationWorker.ts\<close>: relayed attachments waiting to be
  downloaded from the instance that sent them. An entry is checked, downloaded (the one \<open>await\<close>) and
  settled; a file over the size limit is refused, and its sender is told. The URL parser, the download and
  the thumbnailer are arguments.
\<close>

record file_row =
  fq_id :: string
  fq_peerOrigin :: origin
  fq_dmMessageId :: string
  fq_sourceUrl :: string
  fq_targetFilename :: "string option"
  fq_originalName :: string
  fq_mimetype :: string
  fq_size :: int
  fq_status :: string
  fq_rejectionReason :: "string option"
  fq_attempts :: int
  fq_nextRetryAt :: millis
  fq_expiresAt :: millis
  fq_createdAt :: millis

record attachment_row =
  at_id :: string
  at_messageId :: "string option"
  at_dmMessageId :: "string option"
  at_uploaderId :: "string option"
  at_filename :: string
  at_originalName :: string
  at_mimetype :: string
  at_size :: int
  at_thumbnailFilename :: "string option"
  at_sourceUrl :: "string option"
  at_federationStatus :: "string option"
  at_federationMeta :: "string option"
  at_createdAt :: millis

record file_db =
  fd_queue :: "file_row list"
  fd_attachments :: "attachment_row list"

definition FILE_QUEUE_BATCH_LIMIT :: nat where
  "FILE_QUEUE_BATCH_LIMIT = 5"

definition MAX_FILE_ATTEMPTS :: int where
  "MAX_FILE_ATTEMPTS = 10"

definition due_files :: "file_db \<Rightarrow> millis \<Rightarrow> file_row list" where
  "due_files db now = take FILE_QUEUE_BATCH_LIMIT
     (filter (\<lambda>e. fq_status e = ''pending'' \<and> fq_nextRetryAt e \<le> now) (fd_queue db))"

definition set_file :: "string \<Rightarrow> (file_row \<Rightarrow> file_row) \<Rightarrow> file_db \<Rightarrow> file_db" where
  "set_file i f db = db\<lparr>fd_queue := tbl_update fq_id i f (fd_queue db)\<rparr>"

definition reject_file :: "string \<Rightarrow> string \<Rightarrow> file_db \<Rightarrow> file_db" where
  "reject_file i reason = set_file i (\<lambda>e. e\<lparr>fq_status := ''rejected'', fq_rejectionReason := Some reason\<rparr>)"

text \<open>What stands against downloading an entry at all.\<close>

definition file_refusal :: "(string \<Rightarrow> url option) \<Rightarrow> int \<Rightarrow> file_row \<Rightarrow> string option" where
  "file_refusal url_of maxUploadSize e = (case (url_of (fq_sourceUrl e), url_of (fq_peerOrigin e)) of
     (Some source, Some peer) \<Rightarrow>
        if url_hostname source \<noteq> url_hostname peer then Some ''ssrf_hostname_mismatch''
        else if fq_size e > maxUploadSize then Some ''size_limit_exceeded''
        else None
   | _ \<Rightarrow> Some ''invalid_url'')"

datatype download = DownloadAborted | DownloadFailed | Downloaded string int "string option"

definition file_failed :: "int \<Rightarrow> file_row \<Rightarrow> millis \<Rightarrow> file_db \<Rightarrow> file_db" where
  "file_failed divisor e now db =
    (let newAttempts = fq_attempts e + 1 in
     if newAttempts > MAX_FILE_ATTEMPTS
     then set_file (fq_id e) (\<lambda>r. r\<lparr>fq_status := ''failed'', fq_attempts := newAttempts,
            fq_rejectionReason := Some ''max_attempts_exceeded''\<rparr>) db
     else set_file (fq_id e) (\<lambda>r. r\<lparr>fq_attempts := newAttempts, fq_nextRetryAt := now + getBackoffMs divisor newAttempts\<rparr>) db)"

definition attachment_of :: "file_row \<Rightarrow> attachment_row \<Rightarrow> bool" where
  "attachment_of e a \<longleftrightarrow> at_dmMessageId a = Some (fq_dmMessageId e) \<and> at_sourceUrl a = Some (fq_sourceUrl e)"

definition file_stored :: "file_row \<Rightarrow> string \<Rightarrow> int \<Rightarrow> string option \<Rightarrow> string \<Rightarrow> millis \<Rightarrow> file_db \<Rightarrow> file_db" where
  "file_stored e localFilename fileSize thumbnail newId now db =
    (let updated = map (\<lambda>a. if attachment_of e a
            then a\<lparr>at_filename := localFilename, at_size := fileSize, at_thumbnailFilename := thumbnail\<rparr> else a) (fd_attachments db);
         rows = (if list_ex (attachment_of e) (fd_attachments db) then updated
            else updated @ [\<lparr>at_id = newId, at_messageId = None, at_dmMessageId = Some (fq_dmMessageId e), at_uploaderId = None,
              at_filename = localFilename, at_originalName = fq_originalName e, at_mimetype = fq_mimetype e, at_size = fileSize,
              at_thumbnailFilename = thumbnail, at_sourceUrl = Some (fq_sourceUrl e), at_federationStatus = None,
              at_federationMeta = None, at_createdAt = now\<rparr>])
     in set_file (fq_id e) (\<lambda>r. r\<lparr>fq_status := ''completed'', fq_targetFilename := Some localFilename\<rparr>)
          (db\<lparr>fd_attachments := rows\<rparr>))"

section \<open>A file over the limit\<close>

text \<open>What the worker works on, and what it takes from the settings and the platform.\<close>

record file_world =
  fw_files :: file_db
  fw_messages :: "dm_message_row list"
  fw_members :: "dm_member_row list"
  fw_log :: "mutation_row list"
  fw_instance :: instance_state

record file_env =
  fe_url_of :: "string \<Rightarrow> url option"
  fe_divisor :: int
  fe_maxUploadSize :: int
  fe_relayEnabled :: bool
  fe_ttlDays :: int
  fe_secrets :: "nat \<Rightarrow> string"
  fe_fresh :: "nat \<Rightarrow> string"

definition source_username :: "user_row option \<Rightarrow> string" where
  "source_username u = (case u of None \<Rightarrow> ''unknown''
     | Some u \<Rightarrow> if truthy (us_displayName u) then the (us_displayName u)
        else if us_username u \<noteq> [] then us_username u else ''unknown'')"

definition federation_meta :: "string \<Rightarrow> user_id \<Rightarrow> string \<Rightarrow> string" where
  "federation_meta sourceInstance userId username = stringify (obj
     [(''sourceInstance'', jtext sourceInstance), (''sourceUserId'', jtext userId), (''sourceUsername'', jtext username)])"

text \<open>A member homed on this instance, with the id its home knows it by.\<close>

definition native_here :: "origin \<Rightarrow> user_row \<Rightarrow> bool" where
  "native_here ourOrigin u \<longleftrightarrow> \<not> truthy (us_homeInstance u)
     \<or> (if starts_with ''http'' (the (us_homeInstance u)) then the (us_homeInstance u)
        else ''https://'' @ the (us_homeInstance u)) = ourOrigin"

definition home_id :: "user_row \<Rightarrow> string" where
  "home_id u = (if truthy (us_homeUserId u) then the (us_homeUserId u) else us_id u)"

definition affected_members :: "file_world \<Rightarrow> channel_id \<Rightarrow> string list" where
  "affected_members w channel = map home_id (filter (native_here (in_ourOrigin (fw_instance w)))
     (List.map_filter (\<lambda>m. if dm_dmChannelId m = channel then tbl_get us_id (dm_userId m) (in_users (fw_instance w)) else None)
        (fw_members w)))"

definition last_segment :: "string \<Rightarrow> string" where
  "last_segment s = rev (takeWhile (\<lambda>c. c \<noteq> CHR ''/'') (rev s))"

definition rejection_fields :: "string \<Rightarrow> string \<Rightarrow> int \<Rightarrow> string list \<Rightarrow> origin \<Rightarrow> (string \<times> json) list" where
  "rejection_fields attachmentId sourceUrl limit affected ourOrigin =
    [(''attachmentId'', jtext attachmentId), (''sourceFilename'', jtext (last_segment sourceUrl)),
     (''rejectionReason'', jtext ''size_limit_exceeded''), (''rejectionLimit'', JNum (int_text limit)),
     (''affectedUserIds'', JArr (map jtext affected)),
     (''affectedUsers'', JArr (map (\<lambda>u. obj [(''homeUserId'', jtext u), (''homeInstance'', jtext ourOrigin)]) affected))]"

definition handleSizeRejection :: "file_env \<Rightarrow> file_row \<Rightarrow> millis \<Rightarrow> file_world \<Rightarrow> file_world" where
  "handleSizeRejection env e now w = (case tbl_get ms_id (fq_dmMessageId e) (fw_messages w) of
     None \<Rightarrow> w
   | Some msg \<Rightarrow>
      if \<not> truthy (ms_sourceInstance msg) \<or> \<not> truthy (ms_sourceMessageId msg) then w
      else
        let source = the (ms_sourceInstance msg);
            sourceMessageId = the (ms_sourceMessageId msg);
            att = find (attachment_of e) (fd_attachments (fw_files w));
            sender = tbl_get us_id (ms_userId msg) (in_users (fw_instance w));
            meta = federation_meta source (ms_userId msg) (source_username sender);
            attachments = (case att of None \<Rightarrow> fd_attachments (fw_files w)
              | Some a \<Rightarrow> tbl_update at_id (at_id a)
                  (\<lambda>r. r\<lparr>at_federationStatus := Some ''remote'', at_federationMeta := Some meta\<rparr>) (fd_attachments (fw_files w)));
            payload = rejection_fields (case att of None \<Rightarrow> fq_sourceUrl e | Some a \<Rightarrow> at_id a) (fq_sourceUrl e)
              (fe_maxUploadSize env) (affected_members w (ms_dmChannelId msg)) (in_ourOrigin (fw_instance w));
            event = [(''eventType'', jtext ''file_rejected''), (''messageId'', jtext sourceMessageId),
              (''encryptionVersion'', JNum ''0''), (''timestamp'', JNum (int_text now))] @ payload
        in w\<lparr>fw_files := (fw_files w)\<lparr>fd_attachments := attachments\<rparr>,
             fw_log := appendMutationLog (fe_relayEnabled env) sourceMessageId (ms_dmChannelId msg) ''file_rejected''
               (Some (stringify (obj payload))) ''dm'' (fe_fresh env 0) now (fw_log w),
             fw_instance := queueOutboxEvent (fe_relayEnabled env) (fe_ttlDays env) (fw_instance w)
               \<lparr>or_entityId = sourceMessageId, or_contextId = ms_dmChannelId msg, or_eventType = File_rejected,
                or_payload = stringify (obj event), or_targets = Some [source], or_contextType = ''dm''\<rparr>
               (fe_secrets env) (\<lambda>k. fe_fresh env (Suc k)) now\<rparr>)"

text \<open>\<open>processFileQueueEntry\<close>; the download is only made, and its answer only read, when nothing refuses it.\<close>

definition in_files :: "(file_db \<Rightarrow> file_db) \<Rightarrow> file_world \<Rightarrow> file_world" where
  "in_files f w = w\<lparr>fw_files := f (fw_files w)\<rparr>"

definition processFileQueueEntry :: "file_env \<Rightarrow> file_row \<Rightarrow> download \<Rightarrow> string \<Rightarrow> millis \<Rightarrow> file_world \<Rightarrow> file_world" where
  "processFileQueueEntry env e answer newId now w =
    (case file_refusal (fe_url_of env) (fe_maxUploadSize env) e of
       Some reason \<Rightarrow>
         (let w1 = in_files (reject_file (fq_id e) reason) w in
          if reason = ''size_limit_exceeded'' then handleSizeRejection env e now w1 else w1)
     | None \<Rightarrow> (case answer of
         DownloadAborted \<Rightarrow> w
       | DownloadFailed \<Rightarrow> in_files (file_failed (fe_divisor env) e now) w
       | Downloaded localFilename fileSize thumbnail \<Rightarrow>
           if fileSize > fe_maxUploadSize env
           then handleSizeRejection env e now (in_files (reject_file (fq_id e) ''size_limit_exceeded'') w)
           else in_files (file_stored e localFilename fileSize thumbnail newId now) w))"

section \<open>Files end\<close>

definition file_get :: "string \<Rightarrow> file_db \<Rightarrow> file_row option" where
  "file_get i db = tbl_get fq_id i (fd_queue db)"

lemma file_get_set: "(\<And>e. fq_id (f e) = fq_id e) \<Longrightarrow>
    file_get i (set_file j f db) = (if i = j then map_option f (file_get i db) else file_get i db)"
  by (simp add: file_get_def set_file_def table_simps)

lemma file_get_attachments [simp]: "file_get i (db\<lparr>fd_attachments := x\<rparr>) = file_get i db"
  by (simp add: file_get_def)

lemma size_rejection_queue [simp]: "fd_queue (fw_files (handleSizeRejection env e now w)) = fd_queue (fw_files w)"
  by (simp add: handleSizeRejection_def Let_def split: option.split)

definition entry_of :: "string \<Rightarrow> file_world \<Rightarrow> file_row option" where
  "entry_of i w = file_get i (fw_files w)"

lemma entry_of_size_rejection [simp]: "entry_of i (handleSizeRejection env e now w) = entry_of i w"
  by (simp add: entry_of_def file_get_def)

lemma entry_of_in_files: "entry_of i (in_files f w) = file_get i (f (fw_files w))"
  by (simp add: entry_of_def in_files_def)

text \<open>One turn: the worker takes the entry up when it is pending, and an answer comes for it.\<close>

definition file_turn :: "file_env \<Rightarrow> string \<Rightarrow> file_world \<Rightarrow> download \<times> string \<times> millis \<Rightarrow> file_world" where
  "file_turn env i w step = (case step of (answer, newId, now) \<Rightarrow>
     (case entry_of i w of None \<Rightarrow> w
      | Some e \<Rightarrow> if fq_status e = ''pending'' then processFileQueueEntry env e answer newId now w else w))"

definition file_runs :: "file_env \<Rightarrow> string \<Rightarrow> file_world \<Rightarrow> (download \<times> string \<times> millis) list \<Rightarrow> file_world" where
  "file_runs env i = foldl (file_turn env i)"

text \<open>How many more turns an entry may take: none once it is settled.\<close>

definition file_fuel :: "file_row \<Rightarrow> int" where
  "file_fuel e = (if fq_status e = ''pending'' then 11 - fq_attempts e else 0)"

definition file_ok :: "file_row \<Rightarrow> bool" where
  "file_ok e \<longleftrightarrow> fq_status e \<in> {''pending'', ''completed'', ''rejected'', ''failed''}
     \<and> (fq_status e = ''pending'' \<longrightarrow> fq_attempts e \<le> 10)"

lemma file_turn_step:
  assumes "entry_of i w = Some e" and "file_ok e" and "a \<noteq> DownloadAborted"
  shows "\<exists>e'. entry_of i (file_turn env i w (a, newId, now)) = Some e' \<and> file_ok e'
    \<and> (fq_status e \<noteq> ''pending'' \<longrightarrow> e' = e) \<and> (fq_status e = ''pending'' \<longrightarrow> file_fuel e' < file_fuel e)"
proof (cases "fq_status e = ''pending''")
  case False
  then show ?thesis using assms by (simp add: file_turn_def)
next
  case True
  have get: "file_get i (fw_files w) = Some e" using assms(1) by (simp add: entry_of_def)
  then have i: "fq_id e = i" by (auto simp: file_get_def dest: tbl_get_SomeD)
  have att: "fq_attempts e \<le> 10" using assms(2) True by (simp add: file_ok_def)
  have rej: "file_get i (reject_file i r (fw_files w)) = Some (e\<lparr>fq_status := ''rejected'', fq_rejectionReason := Some r\<rparr>)" for r
    using get by (simp add: reject_file_def file_get_set)
  note defs = file_turn_def processFileQueueEntry_def entry_of_in_files file_ok_def file_fuel_def
  show ?thesis
  proof (cases "file_refusal (fe_url_of env) (fe_maxUploadSize env) e")
    case (Some r)
    then show ?thesis using assms(1) True att i rej by (simp add: defs Let_def)
  next
    case None
    show ?thesis
    proof (cases a)
      case DownloadAborted
      then show ?thesis using assms(3) by simp
    next
      case DownloadFailed
      then show ?thesis using assms(1) get True att i None
        by (auto simp: defs file_failed_def file_get_set Let_def MAX_FILE_ATTEMPTS_def)
    next
      case (Downloaded n s t)
      then show ?thesis using assms(1) get True att i None rej[of "''size_limit_exceeded''"]
        by (auto simp: defs file_stored_def file_get_set Let_def)
    qed
  qed
qed

lemma file_runs_fuel:
  assumes "entry_of i w = Some e" and "file_ok e" and "DownloadAborted \<notin> fst ` set steps"
  shows "\<exists>e'. entry_of i (file_runs env i w steps) = Some e' \<and> file_ok e'
    \<and> (fq_status e' = ''pending'' \<longrightarrow> file_fuel e' + int (length steps) \<le> file_fuel e)"
  using assms
proof (induction steps arbitrary: w e)
  case Nil
  then show ?case by (simp add: file_runs_def)
next
  case (Cons s steps)
  obtain a newId now where s: "s = (a, newId, now)" by (cases s)
  have "a \<noteq> DownloadAborted" using Cons.prems(3) s by auto
  from file_turn_step[OF Cons.prems(1,2) this, of env newId now] obtain e1 where
    e1: "entry_of i (file_turn env i w s) = Some e1" "file_ok e1"
      "fq_status e \<noteq> ''pending'' \<longrightarrow> e1 = e" "fq_status e = ''pending'' \<longrightarrow> file_fuel e1 < file_fuel e"
    by (auto simp: s)
  have "DownloadAborted \<notin> fst ` set steps" using Cons.prems(3) by auto
  from Cons.IH[OF e1(1,2) this] obtain e2 where
    e2: "entry_of i (file_runs env i (file_turn env i w s) steps) = Some e2" "file_ok e2"
      "fq_status e2 = ''pending'' \<longrightarrow> file_fuel e2 + int (length steps) \<le> file_fuel e1" by blast
  have "file_fuel e2 \<ge> 1" if "fq_status e2 = ''pending''" using that e2(2) by (simp add: file_fuel_def file_ok_def)
  then have "fq_status e2 = ''pending'' \<longrightarrow> file_fuel e2 + int (length (s # steps)) \<le> file_fuel e"
    using e1(3,4) e2(3) by (cases "fq_status e = ''pending''") (auto simp: file_fuel_def)
  then show ?case using e2(1,2) by (simp add: file_runs_def)
qed

text \<open>
  C40. A queued file does not stay in the queue: whatever its downloads answer, the eleventh one at the
  latest leaves the entry completed, rejected or failed, and nothing moves it again.
\<close>

theorem file_settles:
  assumes "entry_of i w = Some e" and "fq_status e = ''pending''" and "0 \<le> fq_attempts e" and "fq_attempts e \<le> 10"
    and "DownloadAborted \<notin> fst ` set steps" and "length steps \<ge> 11"
  shows "map_option fq_status (entry_of i (file_runs env i w steps)) \<in> {Some ''completed'', Some ''rejected'', Some ''failed''}
    \<and> file_runs env i w (steps @ later) = file_runs env i w steps"
proof -
  have "file_ok e" using assms by (simp add: file_ok_def)
  from file_runs_fuel[OF assms(1) this assms(5)] obtain e' where
    e': "entry_of i (file_runs env i w steps) = Some e'" "file_ok e'"
      "fq_status e' = ''pending'' \<longrightarrow> file_fuel e' + int (length steps) \<le> file_fuel e" by blast
  have np: "fq_status e' \<noteq> ''pending''"
  proof
    assume p: "fq_status e' = ''pending''"
    then have "file_fuel e' \<ge> 1" using e'(2) by (simp add: file_fuel_def file_ok_def)
    moreover have "file_fuel e \<le> 11" using assms(2,3) by (simp add: file_fuel_def)
    ultimately show False using e'(3) p assms(6) by linarith
  qed
  have stuck: "file_turn env i (file_runs env i w steps) s = file_runs env i w steps" for s
    using e'(1) np by (cases s) (simp add: file_turn_def)
  have "file_runs env i w (steps @ later) = file_runs env i w steps"
  proof (induction later rule: rev_induct)
    case (snoc s later)
    then have "file_runs env i w (steps @ later @ [s]) = file_turn env i (file_runs env i w steps) s"
      by (simp add: file_runs_def)
    then show ?case by (simp add: stuck)
  qed simp
  then show ?thesis using e' np by (simp add: file_ok_def)
qed

definition example_file :: file_row where
  "example_file = \<lparr>fq_id = ''f'', fq_peerOrigin = ''https://b'', fq_dmMessageId = ''m'', fq_sourceUrl = ''https://b/x'',
     fq_targetFilename = None, fq_originalName = ''x'', fq_mimetype = ''text/plain'', fq_size = 3, fq_status = ''pending'',
     fq_rejectionReason = None, fq_attempts = 0, fq_nextRetryAt = 0, fq_expiresAt = 9, fq_createdAt = 0\<rparr>"

definition example_files :: file_world where
  "example_files = \<lparr>fw_files = \<lparr>fd_queue = [example_file], fd_attachments = []\<rparr>, fw_messages = [], fw_members = [], fw_log = [],
     fw_instance = \<lparr>in_peers = \<lparr>pd_peers = [], pd_outbox = []\<rparr>, in_requests = [], in_subscribers = [], in_notifications = [],
       in_users = [], in_resetEvents = [], in_autoAccept = None, in_instanceName = None, in_instanceId = ''e'',
       in_ourOrigin = ''https://a'', in_inFlightPeering = [], in_adminHandshakes = []\<rparr>\<rparr>"

definition example_env :: file_env where
  "example_env = \<lparr>fe_url_of = (\<lambda>_. Some \<lparr>url_protocol = ''https:'', url_hostname = ''b'', url_origin = ''https://b''\<rparr>),
     fe_divisor = 1, fe_maxUploadSize = 10, fe_relayEnabled = True, fe_ttlDays = 30, fe_secrets = nat_to_dec, fe_fresh = nat_to_dec\<rparr>"

lemma file_settles_witness:
  "map_option fq_status (entry_of ''f'' (file_runs example_env ''f'' example_files (replicate 11 (DownloadFailed, ''1'', 5))))
   \<in> {Some ''completed'', Some ''rejected'', Some ''failed''}"
  using file_settles[of "''f''" example_files example_file "replicate 11 (DownloadFailed, ''1'', 5)" example_env "[]"]
  by (simp add: entry_of_def file_get_def example_files_def example_file_def)

end
