(* ===== verification/SyncSafety.thy ===== *)
theory SyncSafety
  imports PullSync
begin

text \<open>
  What pull sync guarantees: kept events are settled in the order of their subject; a pass against a serving peer
  hands on every row it may see exactly once and in order, by keyset over both sides
  (\<open>SyncServe\<close>, \<open>PullSync\<close>); and a burst within the overlap stops it for good.
\<close>

section \<open>Kept events are settled in order\<close>

text \<open>What no replay changes of a kept row.\<close>

definition kept_sig :: "kept_row \<Rightarrow> string \<times> string \<times> string \<times> millis" where
  "kept_sig k = (kr_id k, kr_peerId k, kr_subjectKey k, kr_eventTs k)"

lemma sig_update: "(\<And>k. kept_sig (f k) = kept_sig k) \<Longrightarrow> map kept_sig (tbl_update kr_id i f kept) = map kept_sig kept"
  by (induction kept) (auto simp: tbl_update_def)

lemma sig_delete: "map kept_sig (tbl_delete kr_id i kept) = filter (\<lambda>x. fst x \<noteq> i) (map kept_sig kept)"
  by (induction kept) (auto simp: tbl_delete_def kept_sig_def)

lemma retry_row_sig:
  "retry_row env peer now row st = (st', ok) \<Longrightarrow>
     map kept_sig (pl_kept st') = filter (\<lambda>x. ok \<longrightarrow> fst x \<noteq> kr_id row) (map kept_sig (pl_kept st))"
  by (auto simp: retry_row_def Let_def case_prod_beta drop_kept_def sig_delete sig_update kept_sig_def
      split: option.splits if_splits PulledOutcome.splits)

text \<open>
  \<open>settles rows blocked D\<close>: of every subject the rows settled are a prefix of its rows, and none of a blocked one.
\<close>

definition settles :: "kept_row list \<Rightarrow> string set \<Rightarrow> string set \<Rightarrow> bool" where
  "settles rows blocked D \<longleftrightarrow> D \<subseteq> kr_id ` set rows \<and> (\<forall>s. \<exists>k.
     {r \<in> set rows. kr_subjectKey r = s \<and> kr_id r \<in> D} = set (take k (filter (\<lambda>r. kr_subjectKey r = s) rows))
     \<and> (s \<in> blocked \<longrightarrow> k = 0))"

lemma settles_Nil: "settles [] blocked {}"
  by (simp add: settles_def)

lemma settles_waits:
  assumes D: "settles rows (insert (kr_subjectKey row) blocked) D" and fresh: "kr_id row \<notin> kr_id ` set rows"
  shows "settles (row # rows) blocked D"
proof -
  have sub: "D \<subseteq> kr_id ` set rows" and pre: "\<And>s. \<exists>k. {r \<in> set rows. kr_subjectKey r = s \<and> kr_id r \<in> D}
      = set (take k (filter (\<lambda>r. kr_subjectKey r = s) rows)) \<and> (s \<in> insert (kr_subjectKey row) blocked \<longrightarrow> k = 0)"
    using D by (auto simp: settles_def)
  have split: "{r \<in> set (row # rows). kr_subjectKey r = s \<and> kr_id r \<in> D} = {r \<in> set rows. kr_subjectKey r = s \<and> kr_id r \<in> D}" for s
    using sub fresh by auto
  have "\<exists>k. {r \<in> set (row # rows). kr_subjectKey r = s \<and> kr_id r \<in> D}
      = set (take k (filter (\<lambda>r. kr_subjectKey r = s) (row # rows))) \<and> (s \<in> blocked \<longrightarrow> k = 0)" for s
  proof (cases "kr_subjectKey row = s")
    case True
    then have "{r \<in> set rows. kr_subjectKey r = s \<and> kr_id r \<in> D} = {}" using pre[of s] by auto
    then show ?thesis unfolding split by (intro exI[of _ 0]) simp
  next
    case False
    then show ?thesis unfolding split using pre[of s] by auto
  qed
  then show ?thesis using sub by (auto simp: settles_def)
qed

lemma settles_goes:
  assumes D: "settles rows blocked D" and fresh: "kr_id row \<notin> kr_id ` set rows" and free: "kr_subjectKey row \<notin> blocked"
  shows "settles (row # rows) blocked (insert (kr_id row) D)"
proof -
  have sub: "D \<subseteq> kr_id ` set rows" and pre: "\<And>s. \<exists>k. {r \<in> set rows. kr_subjectKey r = s \<and> kr_id r \<in> D}
      = set (take k (filter (\<lambda>r. kr_subjectKey r = s) rows)) \<and> (s \<in> blocked \<longrightarrow> k = 0)"
    using D by (auto simp: settles_def)
  have "\<exists>k. {r \<in> set (row # rows). kr_subjectKey r = s \<and> kr_id r \<in> insert (kr_id row) D}
      = set (take k (filter (\<lambda>r. kr_subjectKey r = s) (row # rows))) \<and> (s \<in> blocked \<longrightarrow> k = 0)" for s
  proof -
    obtain k where k: "{r \<in> set rows. kr_subjectKey r = s \<and> kr_id r \<in> D}
      = set (take k (filter (\<lambda>r. kr_subjectKey r = s) rows))" "s \<in> blocked \<longrightarrow> k = 0" using pre by blast
    have split: "{r \<in> set (row # rows). kr_subjectKey r = s \<and> kr_id r \<in> insert (kr_id row) D}
      = {r \<in> {row}. kr_subjectKey r = s} \<union> {r \<in> set rows. kr_subjectKey r = s \<and> kr_id r \<in> D}"
      using fresh by (auto simp: image_iff)
    show ?thesis
    proof (cases "kr_subjectKey row = s")
      case True
      then have "{r \<in> {row}. kr_subjectKey r = s} = {row}" by auto
      then show ?thesis unfolding split k(1) using True free by (intro exI[of _ "Suc k"]) auto
    next
      case False
      then have "{r \<in> {row}. kr_subjectKey r = s} = {}" by auto
      then show ?thesis unfolding split k(1) using False k(2) by (intro exI[of _ k]) (simp only: filter.simps if_False Un_empty_left; simp)
    qed
  qed
  then show ?thesis using sub by (auto simp: settles_def)
qed

lemma retry_rows_settles:
  assumes "distinct (map kr_id rows)"
  shows "\<exists>D. settles rows blocked D
    \<and> map kept_sig (pl_kept (fst (retry_rows env peer now rows seen blocked n st))) = filter (\<lambda>x. fst x \<notin> D) (map kept_sig (pl_kept st))
    \<and> snd (retry_rows env peer now rows seen blocked n st) = n + card D"
  using assms
proof (induction rows arbitrary: seen blocked n st)
  case Nil
  then show ?case by (intro exI[of _ "{}"]) (simp add: settles_Nil)
next
  case (Cons row rows)
  let ?s = "kr_subjectKey row"
  have dist: "distinct (map kr_id rows)" and fresh: "kr_id row \<notin> kr_id ` set rows" using Cons.prems by auto
  note IH = Cons.IH[OF dist]
  have waits: "\<exists>D. settles (row # rows) blocked D
    \<and> map kept_sig (pl_kept (fst (retry_rows env peer now rows seen1 blocked1 n st1))) = filter (\<lambda>x. fst x \<notin> D) (map kept_sig (pl_kept st))
    \<and> snd (retry_rows env peer now rows seen1 blocked1 n st1) = n + card D"
    if "map kept_sig (pl_kept st1) = map kept_sig (pl_kept st)" "blocked1 = insert ?s blocked" for seen1 blocked1 st1
    using IH[of blocked1 seen1 n st1] that settles_waits[OF _ fresh] by metis
  consider "?s \<in> blocked" | "?s \<notin> blocked" "?s \<notin> seen \<and> now < kr_nextRetryAt row"
    | "?s \<notin> blocked" "\<not> (?s \<notin> seen \<and> now < kr_nextRetryAt row)" by blast
  then show ?case
  proof cases
    case 1
    then show ?thesis using waits[OF refl, of blocked seen] by (simp add: insert_absorb Let_def)
  next
    case 2
    then show ?thesis using waits[OF refl refl, of "insert ?s seen"] by (simp add: Let_def)
  next
    case 3
    obtain st1 ok where r: "retry_row env peer now row st = (st1, ok)" by fastforce
    note sig = retry_row_sig[OF r]
    show ?thesis
    proof (cases ok)
      case False
      have "retry_rows env peer now (row # rows) seen blocked n st = retry_rows env peer now rows (insert ?s seen) (insert ?s blocked) n st1"
        using 3 r False by (auto simp: Let_def)
      then show ?thesis using waits[of st1 "insert ?s blocked" "insert ?s seen"] sig False by simp
    next
      case True
      obtain D where D: "settles rows blocked D"
        "map kept_sig (pl_kept (fst (retry_rows env peer now rows (insert ?s seen) blocked (n + 1) st1))) = filter (\<lambda>x. fst x \<notin> D) (map kept_sig (pl_kept st1))"
        "snd (retry_rows env peer now rows (insert ?s seen) blocked (n + 1) st1) = n + 1 + card D"
        using IH by blast
      have "finite D" "kr_id row \<notin> D" using D(1) fresh finite_subset by (auto simp: settles_def)
      moreover have "retry_rows env peer now (row # rows) seen blocked n st = retry_rows env peer now rows (insert ?s seen) blocked (n + 1) st1"
        using 3 r True by (auto simp: Let_def)
      ultimately show ?thesis using settles_goes[OF D(1) fresh 3(1)] D(2,3) sig True
        by (intro exI[of _ "insert (kr_id row) D"]) (auto intro: filter_cong)
    qed
  qed
qed


text \<open>The kept rows of one subject of a peer, in the order they are replayed, by what a replay does not change.\<close>

definition subject_queue :: "string \<Rightarrow> string \<Rightarrow> kept_row list \<Rightarrow> (string \<times> string \<times> string \<times> millis) list" where
  "subject_queue peerId s kept = map kept_sig (filter (\<lambda>r. kr_subjectKey r = s) (kept_of peerId kept))"

lemma subject_queue_sig:
  "subject_queue peerId s kept = filter (\<lambda>x. fst (snd (snd x)) = s) (sort_key (\<lambda>x. (snd (snd (snd x)), fst x))
     (filter (\<lambda>x. fst (snd x) = peerId) (map kept_sig kept)))"
proof -
  have "map kept_sig (sort_key kept_order xs) = sort_key (\<lambda>x. (snd (snd (snd x)), fst x)) (map kept_sig xs)" for xs
  proof -
    have order: "kept_order k = (\<lambda>x. (snd (snd (snd x)), fst x)) (kept_sig k)" for k by (simp add: kept_order_def kept_sig_def)
    have insort: "map kept_sig (insort_key kept_order k ys) = insort_key (\<lambda>x. (snd (snd (snd x)), fst x)) (kept_sig k) (map kept_sig ys)" for k ys
      by (induction ys) (simp_all add: order)
    show ?thesis by (induction xs) (simp_all add: insort)
  qed
  then have "sort_key (\<lambda>x. (snd (snd (snd x)), fst x)) (map kept_sig xs) = map kept_sig (sort_key kept_order xs)" for xs
    by simp
  then show ?thesis by (simp add: subject_queue_def kept_of_def filter_map o_def) (simp add: kept_sig_def)
qed

lemma filter_prefix:
  assumes "distinct (map f xs)" and "\<And>x. x \<in> set xs \<Longrightarrow> f x \<in> D \<longleftrightarrow> x \<in> set (take k xs)"
  shows "filter (\<lambda>x. f x \<notin> D) xs = drop k xs"
proof -
  have "x \<notin> set (take k xs)" if "x \<in> set (drop k xs)" for x
    using that assms(1) distinct_append[of "take k xs" "drop k xs"] by (auto simp: distinct_map)
  then have "filter (\<lambda>x. f x \<notin> D) (take k xs) = []" "filter (\<lambda>x. f x \<notin> D) (drop k xs) = drop k xs"
    using assms(2) by (auto simp: filter_empty_conv filter_id_conv dest: in_set_takeD in_set_dropD)
  then show ?thesis by (metis append_Nil append_take_drop_id filter_append)
qed

lemma retry_queue:
  assumes ids: "distinct (map kr_id (pl_kept st))"
  shows "\<exists>k. subject_queue (pe_id peer) s (pl_kept (fst (retryPeerEvents env peer now st)))
      = drop k (subject_queue (pe_id peer) s (pl_kept st))"
proof -
  let ?rows = "kept_of (pe_id peer) (pl_kept st)"
  let ?q = "filter (\<lambda>r. kr_subjectKey r = s) ?rows"
  have "distinct (map kr_id ?rows)"
    using ids by (simp add: kept_of_def distinct_map) (auto simp: inj_on_def)
  then obtain D where D: "settles ?rows {} D"
    and sig: "map kept_sig (pl_kept (fst (retryPeerEvents env peer now st))) = filter (\<lambda>x. fst x \<notin> D) (map kept_sig (pl_kept st))"
    using retry_rows_settles[of ?rows "{}" env peer now "{}" 0 st] unfolding retryPeerEvents_def by blast
  obtain k where k: "{r \<in> set ?rows. kr_subjectKey r = s \<and> kr_id r \<in> D} = set (take k ?q)"
    using D unfolding settles_def by blast
  have "subject_queue (pe_id peer) s (pl_kept (fst (retryPeerEvents env peer now st)))
      = filter (\<lambda>x. fst x \<notin> D) (subject_queue (pe_id peer) s (pl_kept st))"
    unfolding subject_queue_sig sig filter_sort by (simp add: conj_commute conj_left_commute)
  also have "\<dots> = map kept_sig (filter (\<lambda>r. kr_id r \<notin> D) ?q)"
    by (simp add: subject_queue_def filter_map o_def kept_sig_def conj_commute)
  also have "filter (\<lambda>r. kr_id r \<notin> D) ?q = drop k ?q"
  proof (rule filter_prefix)
    show "distinct (map kr_id ?q)" using \<open>distinct (map kr_id ?rows)\<close> by (rule distinct_map_filter)
    show "kr_id r \<in> D \<longleftrightarrow> r \<in> set (take k ?q)" if "r \<in> set ?q" for r
      using that unfolding k[symmetric] by auto
  qed
  finally show ?thesis unfolding subject_queue_def drop_map[symmetric] by blast
qed

lemma kept_ids: "distinct (map kr_id kept) \<Longrightarrow> distinct (map kr_id (keepEvent env p ctx s e reason nextAt now newId kept))"
  by (auto simp: keepEvent_def list_ex_iff)

text \<open>
  C28. Events of a subject are settled in the order they were kept. While an event of a subject is kept, a pulled
  one is not applied and no kept row goes; and a replay settles, of each subject, a prefix of its kept events in the
  peer's order and leaves the rest: so no event is applied over an earlier one of its subject that still waits.
\<close>
theorem kept_events_in_order:
  assumes "distinct (map kr_id (pl_kept st))"
  shows "(hasKeptEvents (pl_kept st) (pe_id peer) (syncSubjectKey (en_names env) e) \<longrightarrow>
      pl_world (handlePulledEvent env peer ctx now newId e st) = pl_world st
      \<and> take (length (pl_kept st)) (pl_kept (handlePulledEvent env peer ctx now newId e st)) = pl_kept st)
    \<and> (\<forall>s. \<exists>k. subject_queue (pe_id peer) s (pl_kept (fst (retryPeerEvents env peer now st)))
        = drop k (subject_queue (pe_id peer) s (pl_kept st)))"
  using retry_queue[OF assms] by (auto simp: handlePulledEvent_def Let_def keepEvent_def)


section \<open>A pull reads the log\<close>

text \<open>An answer on the wire.\<close>

definition syncResponse_json :: "SyncResponse \<Rightarrow> json" where
  "syncResponse_json r = obj ([(''events'', JArr (map obj (sr_events r))), (''hasMore'', JBool (sr_hasMore r)),
     (''checkpoint'', jnumber (sr_checkpoint r))] @ (case sr_checkpointId r of None \<Rightarrow> [] | Some i \<Rightarrow> [(''checkpointId'', jtext i)]))"

lemma response_keys:
  "units_of ''events'' \<noteq> units_of ''hasMore''" "units_of ''events'' \<noteq> units_of ''checkpoint''" "units_of ''events'' \<noteq> units_of ''checkpointId''"
  "units_of ''hasMore'' \<noteq> units_of ''checkpoint''" "units_of ''hasMore'' \<noteq> units_of ''checkpointId''"
  "units_of ''checkpoint'' \<noteq> units_of ''checkpointId''"
  by code_simp+

lemma response_read:
  assumes "\<And>i. en_number env (int_text i) = Some i"
  shows "isSyncResponse env (syncResponse_json r) = Some (map obj (sr_events r), sr_hasMore r, sr_checkpoint r, sr_checkpointId r)"
  by (cases "sr_checkpointId r")
    (simp_all add: isSyncResponse_def given_def syncResponse_json_def json_get_def obj_def json_int_def jnumber_def jtext_def assms
      response_keys response_keys[symmetric])

lemma int_text_no_bar: "CHR ''|'' \<notin> set (int_text i)"
proof -
  have "CHR ''|'' \<notin> set (nat_to_dec n)" for n
    using nat_to_dec_digits[of n] by (auto simp: list_all_iff is_digit_def)
  then show ?thesis by (simp add: int_text_def)
qed

lemma nat_to_dec_inj: "nat_to_dec m = nat_to_dec n \<Longrightarrow> m = n"
  by (metis dec_nat_roundtrip)

lemma int_text_inj:
  assumes "int_text i = int_text j" shows "i = j"
proof -
  have "hd (nat_to_dec n) \<noteq> CHR ''-''" for n
    using nat_to_dec_digits[of n] by (cases "nat_to_dec n") (auto simp: is_digit_def)
  then show ?thesis using assms
    by (auto simp: int_text_def split: if_splits dest!: nat_to_dec_inj) (metis list.sel(1))+
qed

lemma request_key_inj:
  assumes "request_key s a = request_key t b" shows "s = t \<and> given a [] = given b []"
proof -
  have "takeWhile (\<lambda>c. c \<noteq> CHR ''|'') (request_key s a) = int_text s" for s a
    using int_text_no_bar[of s] unfolding request_key_def by (subst takeWhile_append2) auto
  then have "int_text s = int_text t" using assms by metis
  with assms show ?thesis using int_text_inj by (auto simp: request_key_def)
qed

text \<open>A handled page leaves the cursors alone and does not read them.\<close>

lemma handle_cursors:
  "handlePulledEvent env peer ctx now i e (st\<lparr>pl_cursors := c\<rparr>) = (handlePulledEvent env peer ctx now i e st)\<lparr>pl_cursors := c\<rparr>"
  by (simp add: handlePulledEvent_def Let_def case_prod_beta split: PulledOutcome.splits)

lemma handle_events_cursors:
  "handle_events env peer ctx ticks i es (st\<lparr>pl_cursors := c\<rparr>) = (handle_events env peer ctx ticks i es st)\<lparr>pl_cursors := c\<rparr>"
  by (induction es arbitrary: i st) (simp_all add: handle_cursors)

lemma handle_events_keeps: "pl_cursors (handle_events env peer ctx ticks i es st) = pl_cursors st"
  using handle_events_cursors[where st = st and c = "pl_cursors st" and env = env and peer = peer and ctx = ctx and ticks = ticks and i = i and es = es]
  by (metis pull_state.surjective pull_state.update_convs(3) pull_state.select_convs(3))

lemma handle_events_append:
  "handle_events env peer ctx (\<lambda>_. tick) i (es @ es') st = handle_events env peer ctx (\<lambda>_. tick) j es' (handle_events env peer ctx (\<lambda>_. tick) k es st)"
proof (induction es arbitrary: i k st)
  case Nil
  show ?case by (simp, induction es' arbitrary: i j st) simp_all
qed simp


text \<open>What a pull does besides its cursor, and the position of a cursor.\<close>

definition work :: "'w pull_state \<Rightarrow> 'w \<times> kept_row list \<times> sync_stats" where
  "work st = (pl_world st, pl_kept st, pl_stats st)"

definition cursor_at :: "'w pull_state \<Rightarrow> string \<Rightarrow> sync_context \<Rightarrow> SyncPosition option" where
  "cursor_at st peerId ctx = map_option (\<lambda>c. \<lparr>po_ts = cu_cursorTs c, po_id = cu_cursorId c\<rparr>) (tbl_get cursor_key (peerId, ctx) (pl_cursors st))"

lemma work_handled:
  assumes "work st = work st'"
  shows "work (handle_events env peer ctx ticks i es st) = work (handle_events env peer ctx ticks i es st')"
proof -
  have "st' = st\<lparr>pl_cursors := pl_cursors st'\<rparr>" using assms by (simp add: work_def)
  then have "handle_events env peer ctx ticks i es st' = (handle_events env peer ctx ticks i es st)\<lparr>pl_cursors := pl_cursors st'\<rparr>"
    by (metis handle_events_cursors)
  then show ?thesis by (simp add: work_def)
qed

lemma work_saved [simp]: "work (saveCursor p ctx pos st) = work st" "work (markPulled p ctx now st) = work st"
  by (simp_all add: work_def saveCursor_def markPulled_def)

lemma work_advance [simp]: "work (fst (advance_cursor peer ctx page pos st)) = work st"
  by (simp add: advance_cursor_def)

lemma cursor_saved: "cursor_at st p ctx \<noteq> None \<Longrightarrow> cursor_at (saveCursor p ctx pos st) p ctx = Some pos"
  by (auto simp: cursor_at_def saveCursor_def tbl_get_update cursor_key_def)

lemma cursor_marked [simp]: "cursor_at (markPulled p ctx now st) p ctx = cursor_at st p ctx"
  by (simp add: cursor_at_def markPulled_def tbl_get_update cursor_key_def option.map_comp o_def)

lemma cursor_handled [simp]: "cursor_at (handle_events env peer ctx ticks i es st) p c = cursor_at st p c"
  by (simp add: cursor_at_def handle_events_keeps)

lemma cursor_advance:
  "cursor_at st (pe_id peer) ctx = Some pos \<Longrightarrow>
     cursor_at (fst (advance_cursor peer ctx page pos st)) (pe_id peer) ctx = Some (snd (advance_cursor peer ctx page pos st))"
  by (simp add: advance_cursor_def cursor_saved)

text \<open>The peer as this instance runs it: it answers every request from one state of its tables.\<close>

definition serving ::
  "names \<Rightarrow> sync_db \<Rightarrow> (mutation_row \<Rightarrow> relay_event option) \<Rightarrow> origin \<Rightarrow> millis \<Rightarrow> millis \<times> string \<Rightarrow> sync_context
   \<Rightarrow> nat \<Rightarrow> millis \<Rightarrow> string option \<Rightarrow> page_turn" where
  "serving nm db messageRow requester now tick ctx pages since afterId =
    \<lparr>pt_now = now,
     pt_reply = (case buildSyncResponse nm db messageRow requester \<lparr>sc_contextType = ctx, sc_dmChannelId = None, sc_federatedId = None\<rparr>
         \<lparr>po_ts = since, po_id = afterId\<rparr> (clamped_limit (Some (int SYNC_PAGE_LIMIT))) of
        Some r \<Rightarrow> Answered (syncResponse_json r) | None \<Rightarrow> PastDeadline),
     pt_ticks = (\<lambda>_. tick)\<rparr>"

definition served_reader :: "names \<Rightarrow> sync_db \<Rightarrow> origin \<Rightarrow> sync_context \<Rightarrow> SyncLogReader" where
  "served_reader nm db requester ctx = reader_of nm db requester \<lparr>sc_contextType = ctx, sc_dmChannelId = None, sc_federatedId = None\<rparr>"

definition log_events ::
  "names \<Rightarrow> sync_db \<Rightarrow> (mutation_row \<Rightarrow> relay_event option) \<Rightarrow> origin \<Rightarrow> sync_context \<Rightarrow> mutation_row list \<Rightarrow> json list" where
  "log_events nm db messageRow requester ctx rows =
    (let rd = served_reader nm db requester ctx
     in map obj (served_events (serializeSyncRow nm db messageRow requester (rd_channelFederatedIds rd)) rd rows))"

lemma clamped_page: "clamped_limit (Some (int SYNC_PAGE_LIMIT)) = SYNC_PAGE_LIMIT"
  by (simp add: clamped_limit_def SYNC_PAGE_LIMIT_def given_def)

lemma log_events_append: "log_events nm db m r ctx (xs @ ys) = log_events nm db m r ctx xs @ log_events nm db m r ctx ys"
  by (simp add: log_events_def Let_def served_append)

lemma pull_answered:
  assumes "pt_reply (turns pages since afterId) = Answered data" "isSyncResponse env data = Some (events, hasMore, cp, cpId)"
    and "pt_now (turns pages since afterId) < deadline" "previous \<noteq> Some (request_key since afterId)"
  shows "pull_pages env peer ctx (Suc left) turns pages deadline since afterId previous pos st =
      (let st1 = handle_events env peer ctx (pt_ticks (turns pages since afterId)) 0 events st;
           st2 = fst (advance_cursor peer ctx \<lparr>po_ts = cp, po_id = cpId\<rparr> pos st1);
           pos2 = snd (advance_cursor peer ctx \<lparr>po_ts = cp, po_id = cpId\<rparr> pos st1);
           nxt = next_request since cp cpId
       in if \<not> hasMore then (markPulled (pe_id peer) ctx (fst (pt_ticks (turns pages since afterId) (length events))) st2, SyncOk)
          else pull_pages env peer ctx left turns (Suc pages) deadline (fst nxt) (snd nxt)
                 (Some (request_key since afterId)) pos2 st2)"
  using assms by (simp add: Let_def case_prod_beta)

text \<open>One turn of the page loop against such a peer.\<close>

lemma pull_turn_with:
  assumes num: "\<And>i. en_number env (int_text i) = Some i"
    and time: "now < deadline" and prev: "previous \<noteq> Some (request_key since afterId)"
    and resp: "sync_pages (serializeSyncRow nm db m requester (rd_channelFederatedIds (served_reader nm db requester ctx)))
       (served_reader nm db requester ctx) (sy_log db) SYNC_PAGE_LIMIT \<lparr>po_ts = since, po_id = afterId\<rparr> \<lparr>po_ts = since, po_id = afterId\<rparr> None = Some resp"
    and ans: "answers_rows (serializeSyncRow nm db m requester (rd_channelFederatedIds (served_reader nm db requester ctx)))
       (served_reader nm db requester ctx) U \<lparr>po_ts = since, po_id = afterId\<rparr> n resp"
  shows "pull_pages env peer ctx (Suc left) (serving nm db m requester now tick ctx) pages deadline since afterId previous pos st =
      (let st1 = handle_events env peer ctx (\<lambda>_. tick) 0 (log_events nm db m requester ctx (take n U)) st;
           st2 = fst (advance_cursor peer ctx \<lparr>po_ts = sr_checkpoint resp, po_id = sr_checkpointId resp\<rparr> pos st1);
           pos2 = snd (advance_cursor peer ctx \<lparr>po_ts = sr_checkpoint resp, po_id = sr_checkpointId resp\<rparr> pos st1);
           nxt = next_request since (sr_checkpoint resp) (sr_checkpointId resp)
       in if \<not> sr_hasMore resp then (markPulled (pe_id peer) ctx (fst tick) st2, SyncOk)
          else pull_pages env peer ctx left (serving nm db m requester now tick ctx) (Suc pages) deadline (fst nxt) (snd nxt)
                 (Some (request_key since afterId)) pos2 st2)"
proof -
  have reply: "pt_reply (serving nm db m requester now tick ctx pages since afterId) = Answered (syncResponse_json resp)"
    using resp by (simp add: serving_def buildSyncResponse_def clamped_page served_reader_def[symmetric])
  have events: "map obj (sr_events resp) = log_events nm db m requester ctx (take n U)"
    using ans unfolding answers_rows_def by (simp only: log_events_def Let_def)
  have before: "pt_now (serving nm db m requester now tick ctx pages since afterId) < deadline"
    and ticks: "pt_ticks (serving nm db m requester now tick ctx pages since afterId) = (\<lambda>_. tick)"
    using time by (simp_all add: serving_def)
  show ?thesis
    using pull_answered[where turns = "serving nm db m requester now tick ctx" and pages = pages and since = since and afterId = afterId
        and peer = peer and left = left and pos = pos and st = st, OF reply response_read[OF num] before prev] by (simp only: ticks events)
qed

text \<open>Positions: ids of one length, as snowflakes are, compare alike on both sides.\<close>

definition same_width :: "mutation_row list \<Rightarrow> bool" where
  "same_width log \<longleftrightarrow> (\<exists>w. 0 < w \<and> (\<forall>r\<in>set log. length (mu_id r) = w))"

lemma after_rows:
  assumes "same_width log" "a \<in> set log" "b \<in> set log"
  shows "isAfter (row_position b) (row_position a) \<longleftrightarrow> log_order a < log_order b"
  using assms by (auto simp: same_width_def isAfter_def row_position_def log_order_def)

lemma after_later:
  assumes "same_width log" "a \<in> set log" "b \<in> set log" "log_order a < log_order b" "isAfter (row_position a) pos"
  shows "isAfter (row_position b) pos"
  using assms by (auto simp: same_width_def isAfter_def row_position_def log_order_def split: if_splits option.splits)

definition cursor_after :: "mutation_row list \<Rightarrow> SyncPosition \<Rightarrow> SyncPosition" where
  "cursor_after rows pos = (if rows \<noteq> [] \<and> isAfter (row_position (last rows)) pos then row_position (last rows) else pos)"

lemma last_take: "0 < n \<Longrightarrow> n \<le> length U \<Longrightarrow> last (take n U) = U ! (n - 1) \<and> take n U \<noteq> []"
proof -
  assume n: "0 < n" "n \<le> length U"
  then have "take n U \<noteq> []" by auto
  then show ?thesis using n by (simp add: last_conv_nth[of "take n U"] min_def)
qed

lemma answers_rowsD:
  assumes "answers_rows ser rd U after n resp"
  shows "n \<le> length U" "sr_hasMore resp \<Longrightarrow> 0 < n" "\<not> sr_hasMore resp \<Longrightarrow> n = length U"
    "n = 0 \<Longrightarrow> sr_checkpoint resp = po_ts after" "n = 0 \<Longrightarrow> sr_checkpointId resp = None"
    "0 < n \<Longrightarrow> sr_checkpoint resp = mu_mutatedAt (U ! (n - 1))" "0 < n \<Longrightarrow> sr_checkpointId resp = Some (mu_id (U ! (n - 1)))"
  using assms unfolding answers_rows_def by (fastforce dest: less_not_refl3)+

lemma cursor_after_split:
  assumes "same_width log" "sorted_wrt (\<lambda>a b. log_order a < log_order b) U" "set U \<subseteq> set log" "n \<le> length U"
  shows "cursor_after (drop n U) (cursor_after (take n U) pos) = cursor_after U pos"
proof (cases "n = 0 \<or> n = length U")
  case True
  then show ?thesis by (auto simp: cursor_after_def)
next
  case False
  then have n: "0 < n" "n < length U" using assms(4) by auto
  let ?a = "U ! (n - 1)" and ?b = "last U"
  have last: "last (take n U) = ?a" "last (drop n U) = ?b" "take n U \<noteq> []" "drop n U \<noteq> []" "U \<noteq> []"
    using n last_take[of n U] by auto
  have "log_order ?a < log_order ?b"
    unfolding last_conv_nth[OF last(5)] using assms(2) n by (auto simp: sorted_wrt_iff_nth_less)
  moreover have "?a \<in> set log" "?b \<in> set log" using assms(3) n last(5) by (auto intro!: subsetD[OF assms(3)])
  ultimately show ?thesis
    using after_later[OF assms(1)] after_rows[OF assms(1)] last by (auto simp: cursor_after_def)
qed

lemma answered_cursor:
  assumes "answers_rows ser rd U after n resp" "cursor_at st (pe_id peer) ctx = Some pos"
    and "n = 0 \<longrightarrow> \<not> isAfter after pos"
  shows "snd (advance_cursor peer ctx \<lparr>po_ts = sr_checkpoint resp, po_id = sr_checkpointId resp\<rparr> pos st) = cursor_after (take n U) pos"
proof (cases "n = 0")
  case True
  then have "\<lparr>po_ts = sr_checkpoint resp, po_id = sr_checkpointId resp\<rparr> = \<lparr>po_ts = po_ts after, po_id = None\<rparr>"
    using answers_rowsD(4,5)[OF assms(1)] by simp
  moreover have "\<not> isAfter \<lparr>po_ts = po_ts after, po_id = None\<rparr> pos"
    using assms(3) True by (auto simp: isAfter_def split: option.splits if_splits)
  ultimately show ?thesis using True by (simp add: advance_cursor_def cursor_after_def)
next
  case False
  then have resp: "\<lparr>po_ts = sr_checkpoint resp, po_id = sr_checkpointId resp\<rparr> = row_position (U ! (n - 1))" "n \<le> length U"
    using answers_rowsD(1,6,7)[OF assms(1)] False by (simp_all add: row_position_def)
  then have "last (take n U) = U ! (n - 1)" "take n U \<noteq> []" using False last_take[of n U] by auto
  then show ?thesis unfolding resp(1) by (simp add: advance_cursor_def cursor_after_def)
qed

lemma next_unread:
  assumes "answers_rows ser rd U after n resp" "0 < n"
  shows "next_request since (sr_checkpoint resp) (sr_checkpointId resp) = (mu_mutatedAt (U ! (n - 1)), Some (mu_id (U ! (n - 1))))"
  using answers_rowsD(6,7)[OF assms] by (simp add: next_request_def)

lemma next_key:
  assumes "after_position \<lparr>po_ts = since, po_id = afterId\<rparr> r" "mu_id r \<noteq> []"
  shows "request_key since afterId \<noteq> request_key (mu_mutatedAt r) (Some (mu_id r))"
  using assms by (auto simp: after_position_def given_def split: option.splits dest!: request_key_inj)


text \<open>The setting of both results: a fixed log on the peer, read within the time the pass has.\<close>

definition log_ready :: "'w pull_env \<Rightarrow> mutation_row list \<Rightarrow> millis \<Rightarrow> millis \<Rightarrow> bool" where
  "log_ready env log now deadline \<longleftrightarrow> (\<forall>i. en_number env (int_text i) = Some i) \<and> distinct (map mu_id log) \<and> same_width log \<and> now < deadline"

lemma pull_loop_complete:
  fixes db nm m requester ctx env peer
  defines "R \<equiv> \<lambda>since afterId. unread (served_reader nm db requester ctx) (sy_log db) \<lparr>po_ts = since, po_id = afterId\<rparr>"
  assumes ready: "log_ready env (sy_log db) now deadline"
    and room: "length (R since afterId) < left * SYNC_PAGE_LIMIT"
    and prev: "previous \<noteq> Some (request_key since afterId)"
    and pos: "cursor_at st (pe_id peer) ctx = Some pos" "\<not> isAfter \<lparr>po_ts = since, po_id = afterId\<rparr> pos"
  shows "\<exists>st'. pull_pages env peer ctx left (serving nm db m requester now tick ctx) pages deadline since afterId previous pos st = (st', SyncOk)
    \<and> work st' = work (handle_events env peer ctx (\<lambda>_. tick) 0 (log_events nm db m requester ctx (R since afterId)) st)
    \<and> cursor_at st' (pe_id peer) ctx = Some (cursor_after (R since afterId) pos)"
  using room prev pos
proof (induction left arbitrary: pages since afterId previous pos st)
  case 0
  then show ?case by simp
next
  case (Suc left)
  let ?U = "R since afterId"
  have num: "\<And>i. en_number env (int_text i) = Some i" and ids: "distinct (map mu_id (sy_log db))"
    and width: "same_width (sy_log db)" and time: "now < deadline"
    using ready by (auto simp: log_ready_def)
  obtain n resp where page: "sync_pages (serializeSyncRow nm db m requester (rd_channelFederatedIds (served_reader nm db requester ctx)))
       (served_reader nm db requester ctx) (sy_log db) SYNC_PAGE_LIMIT \<lparr>po_ts = since, po_id = afterId\<rparr> \<lparr>po_ts = since, po_id = afterId\<rparr> None = Some resp"
    and ans: "answers_rows (serializeSyncRow nm db m requester (rd_channelFederatedIds (served_reader nm db requester ctx)))
       (served_reader nm db requester ctx) ?U \<lparr>po_ts = since, po_id = afterId\<rparr> n resp"
    and full: "sr_hasMore resp \<longrightarrow> SYNC_PAGE_LIMIT \<le> n"
    using sync_page_rows[OF ids, of SYNC_PAGE_LIMIT] unfolding R_def SYNC_PAGE_LIMIT_def by (metis zero_less_numeral)
  note turn = pull_turn_with[where peer = peer and left = left and pages = pages and pos = pos and st = st and tick = tick,
      OF num time Suc.prems(2) page ans]
  let ?st1 = "handle_events env peer ctx (\<lambda>_. tick) 0 (log_events nm db m requester ctx (take n ?U)) st"
  let ?page = "\<lparr>po_ts = sr_checkpoint resp, po_id = sr_checkpointId resp\<rparr>"
  let ?st2 = "fst (advance_cursor peer ctx ?page pos ?st1)"
  have at1: "cursor_at ?st1 (pe_id peer) ctx = Some pos" using Suc.prems(3) by simp
  have pos2: "snd (advance_cursor peer ctx ?page pos ?st1) = cursor_after (take n ?U) pos"
    by (rule answered_cursor[OF ans at1]) (use Suc.prems(4) in simp)
  have at2: "cursor_at ?st2 (pe_id peer) ctx = Some (cursor_after (take n ?U) pos)"
    using cursor_advance[OF at1, of ?page] pos2 by simp
  show ?case
  proof (cases "sr_hasMore resp")
    case False
    have n: "n = length ?U" by (rule answers_rowsD(3)[OF ans False])
    have whole: "take n ?U = ?U" unfolding n by simp
    show ?thesis unfolding turn Let_def using False at2 by (simp add: whole)
  next
    case True
    have n: "0 < n" "n \<le> length ?U" using answers_rowsD(1,2)[OF ans] True by auto
    let ?r = "?U ! (n - 1)"
    have r_in: "?r \<in> set ?U" using n by simp
    then have r: "after_position \<lparr>po_ts = since, po_id = afterId\<rparr> ?r" "?r \<in> set (sy_log db)" by (auto simp: R_def unread_def)
    have nonempty: "mu_id ?r \<noteq> []" using width r(2) by (auto simp: same_width_def)
    have rest: "R (mu_mutatedAt ?r) (Some (mu_id ?r)) = drop n ?U"
      using unread_after[OF ids n[unfolded R_def]] unfolding R_def row_position_def .
    have "\<exists>st'. pull_pages env peer ctx left (serving nm db m requester now tick ctx) (Suc pages) deadline (mu_mutatedAt ?r) (Some (mu_id ?r))
          (Some (request_key since afterId)) (cursor_after (take n ?U) pos) ?st2 = (st', SyncOk)
        \<and> work st' = work (handle_events env peer ctx (\<lambda>_. tick) 0 (log_events nm db m requester ctx (drop n ?U)) ?st2)
        \<and> cursor_at st' (pe_id peer) ctx = Some (cursor_after (drop n ?U) (cursor_after (take n ?U) pos))"
      unfolding rest[symmetric]
    proof (rule Suc.IH)
      show "length (R (mu_mutatedAt ?r) (Some (mu_id ?r))) < left * SYNC_PAGE_LIMIT"
        using Suc.prems(1) full True n unfolding rest by auto
      show "Some (request_key since afterId) \<noteq> Some (request_key (mu_mutatedAt ?r) (Some (mu_id ?r)))"
        using next_key[OF r(1) nonempty] by simp
      show "cursor_at ?st2 (pe_id peer) ctx = Some (cursor_after (take n ?U) pos)" by (rule at2)
      show "\<not> isAfter \<lparr>po_ts = mu_mutatedAt ?r, po_id = Some (mu_id ?r)\<rparr> (cursor_after (take n ?U) pos)"
        using last_take[OF n] after_rows[OF width r(2) r(2)]
        by (auto simp: cursor_after_def row_position_def[symmetric])
    qed
    then obtain st' where st': "pull_pages env peer ctx left (serving nm db m requester now tick ctx) (Suc pages) deadline (mu_mutatedAt ?r) (Some (mu_id ?r))
          (Some (request_key since afterId)) (cursor_after (take n ?U) pos) ?st2 = (st', SyncOk)"
        "work st' = work (handle_events env peer ctx (\<lambda>_. tick) 0 (log_events nm db m requester ctx (drop n ?U)) ?st2)"
        "cursor_at st' (pe_id peer) ctx = Some (cursor_after (drop n ?U) (cursor_after (take n ?U) pos))" by blast
    have whole: "log_events nm db m requester ctx ?U = log_events nm db m requester ctx (take n ?U) @ log_events nm db m requester ctx (drop n ?U)"
      unfolding log_events_append[symmetric] by simp
    have "work st' = work (handle_events env peer ctx (\<lambda>_. tick) 0 (log_events nm db m requester ctx ?U) st)"
      unfolding st'(2) whole handle_events_append[of env peer ctx tick 0 _ _ st 0 0] by (rule work_handled) simp
    moreover have "cursor_after (drop n ?U) (cursor_after (take n ?U) pos) = cursor_after ?U pos"
      by (rule cursor_after_split[OF width _ _ n(2)]) (auto simp: R_def unread_strict[OF ids], auto simp: unread_def)
    moreover have "pull_pages env peer ctx (Suc left) (serving nm db m requester now tick ctx) pages deadline since afterId previous pos st = (st', SyncOk)"
      unfolding turn Let_def pos2 next_unread[OF ans n(1)] using True st'(1) by simp
    ultimately show ?thesis using st'(3) by metis
  qed
qed


text \<open>Rows that are all served fill every page.\<close>

definition all_served ::
  "names \<Rightarrow> sync_db \<Rightarrow> (mutation_row \<Rightarrow> relay_event option) \<Rightarrow> origin \<Rightarrow> sync_context \<Rightarrow> mutation_row list \<Rightarrow> bool" where
  "all_served nm db m requester ctx rows \<longleftrightarrow> (let rd = served_reader nm db requester ctx in
     list_all (\<lambda>r. rd_serves rd r \<and> serializeSyncRow nm db m requester (rd_channelFederatedIds rd) r \<noteq> None) rows)"

lemma full_page:
  assumes served: "served_events ser rd (take limit R) \<noteq> []" and full: "limit \<le> length R" "0 < limit" and R: "R = unread rd log after"
  shows "\<exists>resp. sync_pages ser rd log limit after after None = Some resp \<and> answers_rows ser rd R after limit resp \<and> sr_hasMore resp"
proof -
  have "take limit R \<noteq> []" "last (take limit R) = R ! (limit - 1)" using last_take[OF full(2,1)] by auto
  then show ?thesis
    using served full unfolding served_events_def
    by (subst sync_pages.simps) (simp add: read_page R[symmetric] Let_def answers_rows_def served_events_def)
qed

lemma pull_loop_stalls:
  fixes db nm m requester ctx env peer
  defines "R \<equiv> \<lambda>since afterId. unread (served_reader nm db requester ctx) (sy_log db) \<lparr>po_ts = since, po_id = afterId\<rparr>"
  assumes ready: "log_ready env (sy_log db) now deadline"
    and rows: "left * SYNC_PAGE_LIMIT \<le> length (R since afterId)" "all_served nm db m requester ctx (R since afterId)"
    and behind: "0 < left \<longrightarrow> \<not> isAfter (row_position (R since afterId ! (left * SYNC_PAGE_LIMIT - 1))) pos"
    and prev: "previous \<noteq> Some (request_key since afterId)" and pos: "cursor_at st (pe_id peer) ctx = Some pos"
  shows "\<exists>st'. pull_pages env peer ctx left (serving nm db m requester now tick ctx) pages deadline since afterId previous pos st = (st', SyncPartial)
    \<and> work st' = work (handle_events env peer ctx (\<lambda>_. tick) 0 (log_events nm db m requester ctx (take (left * SYNC_PAGE_LIMIT) (R since afterId))) st)
    \<and> cursor_at st' (pe_id peer) ctx = Some pos"
  using rows behind prev pos
proof (induction left arbitrary: pages since afterId previous st)
  case 0
  then show ?case by (simp add: log_events_def served_events_def List.map_filter_def)
next
  case (Suc left)
  let ?U = "R since afterId" and ?L = SYNC_PAGE_LIMIT
  have num: "\<And>i. en_number env (int_text i) = Some i" and ids: "distinct (map mu_id (sy_log db))"
    and width: "same_width (sy_log db)" and time: "now < deadline"
    using ready by (auto simp: log_ready_def)
  have L: "0 < ?L" "?L \<le> length ?U" using Suc.prems(1) by (auto simp: SYNC_PAGE_LIMIT_def)
  let ?rd = "served_reader nm db requester ctx"
  let ?ser = "serializeSyncRow nm db m requester (rd_channelFederatedIds ?rd)"
  let ?after = "\<lparr>po_ts = since, po_id = afterId\<rparr>"
  have first: "?U ! 0 \<in> set (take ?L ?U)" using L by (auto simp: in_set_conv_nth intro!: exI[of _ 0])
  have first_served: "rd_serves ?rd (?U ! 0)" "?ser (?U ! 0) \<noteq> None"
    using Suc.prems(2) in_set_takeD[OF first] by (auto simp: all_served_def Let_def list_all_iff)
  have "served_events ?ser ?rd (take ?L ?U) \<noteq> []"
    using first first_served unfolding served_events_def List.map_filter_def by (auto simp: filter_empty_conv)
  then obtain resp where resp: "sync_pages ?ser ?rd (sy_log db) ?L ?after ?after None = Some resp"
      "answers_rows ?ser ?rd ?U ?after ?L resp" "sr_hasMore resp"
    using full_page[of ?ser ?rd ?L ?U "sy_log db" ?after] L unfolding R_def by blast
  note turn = pull_turn_with[where peer = peer and left = left and pages = pages and pos = pos and st = st and tick = tick,
      OF num time Suc.prems(4) resp(1,2)]
  let ?r = "?U ! (?L - 1)" and ?x = "?U ! (Suc left * ?L - 1)"
  have in_log: "?r \<in> set (sy_log db)" "?x \<in> set (sy_log db)" "after_position ?after ?r"
  proof -
    have "?r \<in> set ?U" "?x \<in> set ?U" using L Suc.prems(1) by auto
    then show "?r \<in> set (sy_log db)" "?x \<in> set (sy_log db)" "after_position ?after ?r" by (auto simp: R_def unread_def)
  qed
  have not_after: "\<not> isAfter (row_position ?r) pos"
  proof (cases "left = 0")
    case True
    then show ?thesis using Suc.prems(3) by simp
  next
    case False
    have strict: "sorted_wrt (\<lambda>a b. log_order a < log_order b) ?U" unfolding R_def by (rule unread_strict[OF ids])
    have "?L - 1 < Suc left * ?L - 1" using False L by (cases left) auto
    then have "log_order ?r < log_order ?x"
      using strict Suc.prems(1) L by (auto simp: sorted_wrt_iff_nth_less)
    then show ?thesis using after_later[OF width in_log(1,2)] Suc.prems(3) by auto
  qed
  let ?st1 = "handle_events env peer ctx (\<lambda>_. tick) 0 (log_events nm db m requester ctx (take ?L ?U)) st"
  have stay: "advance_cursor peer ctx \<lparr>po_ts = sr_checkpoint resp, po_id = sr_checkpointId resp\<rparr> pos ?st1 = (?st1, pos)"
    using answers_rowsD(6,7)[OF resp(2) L(1)] not_after by (simp add: advance_cursor_def row_position_def)
  have rest: "R (mu_mutatedAt ?r) (Some (mu_id ?r)) = drop ?L ?U"
    using unread_after[OF ids L[unfolded R_def]] unfolding R_def row_position_def .
  have "\<exists>st'. pull_pages env peer ctx left (serving nm db m requester now tick ctx) (Suc pages) deadline (mu_mutatedAt ?r) (Some (mu_id ?r))
        (Some (request_key since afterId)) pos ?st1 = (st', SyncPartial)
      \<and> work st' = work (handle_events env peer ctx (\<lambda>_. tick) 0 (log_events nm db m requester ctx (take (left * ?L) (drop ?L ?U))) ?st1)
      \<and> cursor_at st' (pe_id peer) ctx = Some pos"
    unfolding rest[symmetric]
  proof (rule Suc.IH)
    show "left * ?L \<le> length (R (mu_mutatedAt ?r) (Some (mu_id ?r)))" using Suc.prems(1) unfolding rest by simp
    show "all_served nm db m requester ctx (R (mu_mutatedAt ?r) (Some (mu_id ?r)))"
      using Suc.prems(2) unfolding rest by (auto simp: all_served_def Let_def list_all_iff dest: in_set_dropD)
    show "0 < left \<longrightarrow> \<not> isAfter (row_position (R (mu_mutatedAt ?r) (Some (mu_id ?r)) ! (left * ?L - 1))) pos"
      using Suc.prems(3) L Suc.prems(1) unfolding rest by (auto simp: SYNC_PAGE_LIMIT_def)
    show "Some (request_key since afterId) \<noteq> Some (request_key (mu_mutatedAt ?r) (Some (mu_id ?r)))"
      using next_key[OF in_log(3)] width in_log(1) by (auto simp: same_width_def)
    show "cursor_at ?st1 (pe_id peer) ctx = Some pos" using Suc.prems(5) by simp
  qed
  then show ?case
    unfolding turn Let_def stay next_unread[OF resp(2) L(1)] using resp(3)
    by (simp add: take_add log_events_append handle_events_append[of env peer ctx tick 0 _ _ st 0 0] del: pull_pages.simps)
qed


text \<open>
  C11. A pull loses nothing. Against a peer that serves its mutation log, a pass whose budget covers the rows there
  are ends complete, hands every event the peer may show, from the overlap on, to its handler exactly once and in
  log order, whichever way the rows fall into pages, and leaves the cursor at the last row read.
\<close>
theorem pull_reads_log:
  assumes ready: "log_ready env (sy_log db) now (now + bu_timeMs budget)"
    and start: "loadCursor peer ctx st = (st1, pos)" "firstRequestSince (en_ledgerStartedAt env) ctx pos now \<le> po_ts pos"
    and U: "U = unread (served_reader nm db requester ctx) (sy_log db)
      \<lparr>po_ts = firstRequestSince (en_ledgerStartedAt env) ctx pos now, po_id = None\<rparr>"
    and room: "length U < bu_pages budget * SYNC_PAGE_LIMIT"
  shows "\<exists>st'. pullContext env peer ctx (serving nm db m requester now tick ctx) budget now st = (st', SyncOk)
    \<and> work st' = work (handle_events env peer ctx (\<lambda>_. tick) 0 (log_events nm db m requester ctx U) st)
    \<and> cursor_at st' (pe_id peer) ctx = Some (cursor_after U pos)"
proof -
  have "cursor_at st1 (pe_id peer) ctx = Some pos" "work st1 = work st"
    using start(1) by (auto simp: loadCursor_def cursor_at_def work_def tbl_get_append cursor_key_def split: option.splits)
  moreover have "\<not> isAfter \<lparr>po_ts = firstRequestSince (en_ledgerStartedAt env) ctx pos now, po_id = None\<rparr> pos"
    using start(2) by (auto simp: isAfter_def)
  ultimately show ?thesis
    using pull_loop_complete[OF ready, of nm requester ctx "firstRequestSince (en_ledgerStartedAt env) ctx pos now" None
        "bu_pages budget" None st1 peer pos m tick 0] room
    by (simp add: pullContext_def start(1) U) (metis work_handled)
qed

text \<open>Passes at the given times, each with the usual budget.\<close>

fun passes ::
  "'w pull_env \<Rightarrow> peer_row \<Rightarrow> sync_context \<Rightarrow> (millis \<Rightarrow> nat \<Rightarrow> millis \<Rightarrow> string option \<Rightarrow> page_turn) \<Rightarrow> millis list
   \<Rightarrow> 'w pull_state \<Rightarrow> 'w pull_state" where
  "passes env peer ctx serve [] st = st"
| "passes env peer ctx serve (t # ts) st = passes env peer ctx serve ts (fst (pullContext env peer ctx (serve t) SYNC_PASS_BUDGET t st))"

lemma loaded_cursor:
  "cursor_at st (pe_id peer) ctx = Some pos \<Longrightarrow> loadCursor peer ctx st = (st, pos)"
  by (auto simp: cursor_at_def loadCursor_def split: option.splits)

lemma pass_stalls:
  assumes ready: "log_ready env (sy_log db) now (now + 45000)" and ctx: "ctx \<noteq> CtxFriend"
    and pos: "cursor_at st (pe_id peer) ctx = Some pos"
    and U: "U = unread (served_reader nm db requester ctx) (sy_log db) \<lparr>po_ts = max 0 (po_ts pos - FIRST_PAGE_OVERLAP_MS), po_id = None\<rparr>"
    and rows: "2000 \<le> length U" "all_served nm db m requester ctx U" "\<not> isAfter (row_position (U ! 1999)) pos"
  shows "\<exists>st'. pullContext env peer ctx (serving nm db m requester now tick ctx) SYNC_PASS_BUDGET now st = (st', SyncPartial)
    \<and> work st' = work (handle_events env peer ctx (\<lambda>_. tick) 0 (log_events nm db m requester ctx (take 2000 U)) st)
    \<and> cursor_at st' (pe_id peer) ctx = Some pos"
proof -
  have size: "20 * SYNC_PAGE_LIMIT = 2000" by (simp add: SYNC_PAGE_LIMIT_def)
  have "\<exists>st'. pull_pages env peer ctx 20 (serving nm db m requester now tick ctx) 0 (now + 45000)
        (max 0 (po_ts pos - FIRST_PAGE_OVERLAP_MS)) None None pos st = (st', SyncPartial)
    \<and> work st' = work (handle_events env peer ctx (\<lambda>_. tick) 0 (log_events nm db m requester ctx (take (20 * SYNC_PAGE_LIMIT) U)) st)
    \<and> cursor_at st' (pe_id peer) ctx = Some pos"
    unfolding U by (rule pull_loop_stalls[OF ready]) (use rows pos in \<open>simp_all add: size U\<close>)
  then show ?thesis
    using ctx by (simp add: pullContext_def loaded_cursor[OF pos] firstRequestSince_def SYNC_PASS_BUDGET_def size del: pull_pages.simps)
qed

text \<open>
  C12. A burst of the log within the overlap stops a pull for good. When the two minutes before a cursor hold the 2000
  rows one pass can read, every pass reads those rows again, stops at its budget and leaves the cursor where it
  was: however many passes follow, no later row is ever read.
\<close>
theorem pull_stalls:
  assumes ready: "\<And>now. log_ready env (sy_log db) now (now + 45000)" and ctx: "ctx \<noteq> CtxFriend"
    and pos: "cursor_at st (pe_id peer) ctx = Some pos"
    and U: "U = unread (served_reader nm db requester ctx) (sy_log db) \<lparr>po_ts = max 0 (po_ts pos - FIRST_PAGE_OVERLAP_MS), po_id = None\<rparr>"
    and rows: "2000 \<le> length U" "all_served nm db m requester ctx U" "\<not> isAfter (row_position (U ! 1999)) pos"
  shows "cursor_at (passes env peer ctx (\<lambda>t. serving nm db m requester t tick ctx) ts st) (pe_id peer) ctx = Some pos
    \<and> work (passes env peer ctx (\<lambda>t. serving nm db m requester t tick ctx) ts st) =
      work (handle_events env peer ctx (\<lambda>_. tick) 0 (concat (map (\<lambda>_. log_events nm db m requester ctx (take 2000 U)) ts)) st)"
  using pos
proof (induction ts arbitrary: st)
  case (Cons t ts)
  obtain st' where st': "pullContext env peer ctx (serving nm db m requester t tick ctx) SYNC_PASS_BUDGET t st = (st', SyncPartial)"
      "work st' = work (handle_events env peer ctx (\<lambda>_. tick) 0 (log_events nm db m requester ctx (take 2000 U)) st)"
      "cursor_at st' (pe_id peer) ctx = Some pos"
    using pass_stalls[OF ready ctx Cons.prems U rows] by blast
  show ?case
    using Cons.IH[OF st'(3)] work_handled[OF st'(2)] unfolding passes.simps st'(1) fst_conv
    by (simp add: handle_events_append[of env peer ctx tick 0 _ _ st 0 0])
qed simp


section \<open>Examples\<close>

definition decimal_number :: "string \<Rightarrow> int option" where
  "decimal_number s = (if s = [] then None else if hd s = CHR ''-'' then Some (- int (dec_to_nat (tl s))) else Some (int (dec_to_nat s)))"

lemma decimal_number_text: "decimal_number (int_text i) = Some i"
proof -
  have "nat_to_dec n \<noteq> [] \<and> hd (nat_to_dec n) \<noteq> CHR ''-''" for n
    using nat_to_dec_digits[of n] by (cases "nat_to_dec n") (auto simp: is_digit_def)
  then show ?thesis by (auto simp: decimal_number_def int_text_def)
qed

definition counting_env :: "nat pull_env" where
  "counting_env = \<lparr>en_names = example_names, en_process = (\<lambda>_ w _. (Suc w, [])), en_ledger = (\<lambda>_. []), en_hash = id,
     en_number = decimal_number, en_ledgerStartedAt = None\<rparr>"

definition profile_row :: "nat \<Rightarrow> mutation_row" where
  "profile_row i = \<lparr>mu_id = nat_to_dec (1000 + i), mu_entityId = ''7'', mu_contextId = ''profile'', mu_contextType = ''profile'',
     mu_mutationType = ''profile_update'', mu_mutatedAt = 200000 + int i, mu_payload = Some (stringify (obj [(''profileUpdate'', obj [])]))\<rparr>"

definition profile_db :: "nat \<Rightarrow> sync_db" where
  "profile_db n = \<lparr>sy_log = map profile_row [0..<n], sy_users = [], sy_channels = [], sy_members = [], sy_messages = [], sy_reactions = []\<rparr>"

definition cursor_state :: "nat \<Rightarrow> nat pull_state" where
  "cursor_state i = \<lparr>pl_world = 0, pl_kept = [], pl_cursors = [\<lparr>cu_peerId = ''p'', cu_contextType = CtxProfile,
     cu_cursorTs = mu_mutatedAt (profile_row i), cu_cursorId = Some (mu_id (profile_row i)), cu_peerEpoch = None, cu_lastPulledAt = None\<rparr>],
     pl_stats = no_stats\<rparr>"

lemma four_digits: "1000 \<le> n \<Longrightarrow> n < 10000 \<Longrightarrow> length (nat_to_dec n) = 4"
proof -
  assume n: "1000 \<le> n" "n < 10000"
  then have "\<not> n < 10" "\<not> n div 10 < 10" "\<not> n div 10 div 10 < 10" "n div 10 div 10 div 10 < 10" by auto
  then show ?thesis
    by (simp add: nat_to_dec.simps[of n] nat_to_dec.simps[of "n div 10"] nat_to_dec.simps[of "n div 10 div 10"]
        nat_to_dec.simps[of "n div 10 div 10 div 10"] del: div_mult2_eq[symmetric])
qed

lemma profile_log_ready:
  assumes "n \<le> 9000" shows "log_ready counting_env (sy_log (profile_db n)) now (now + 45000)"
proof -
  have "length (mu_id r) = 4" if "r \<in> set (map profile_row [0..<n])" for r
    using that assms by (auto simp: profile_row_def intro!: four_digits)
  moreover have "distinct (map mu_id (map profile_row [0..<n]))"
    by (auto simp: distinct_map inj_on_def profile_row_def dest!: nat_to_dec_inj)
  ultimately show ?thesis
    unfolding log_ready_def same_width_def by (auto simp: counting_env_def profile_db_def decimal_number_text)
qed

lemma profile_unread:
  assumes "since < 200000"
  shows "unread (served_reader nm (profile_db n) requester CtxProfile) (sy_log (profile_db n)) \<lparr>po_ts = since, po_id = None\<rparr> = map profile_row [0..<n]"
proof -
  have "sorted (map log_order (map profile_row [0..<n]))"
    by (auto simp: sorted_iff_nth_mono log_order_def profile_row_def less_eq_prod_def nat_less_le)
  moreover have "filter (\<lambda>r. rd_where (served_reader nm (profile_db n) requester CtxProfile) r \<and> after_position \<lparr>po_ts = since, po_id = None\<rparr> r)
      (map profile_row [0..<n]) = map profile_row [0..<n]"
    using assms by (auto simp: served_reader_def reader_of_def profileReader_def after_position_def profile_row_def filter_id_conv)
  ultimately show ?thesis by (simp add: unread_def profile_db_def sort_key_id_if_sorted del: filter_map)
qed

lemma profile_payload: "json_parse (stringify (obj [(''profileUpdate'', obj [])])) = Some (obj [(''profileUpdate'', obj [])])"
  by code_simp

lemma profile_served: "all_served nm (profile_db n) m requester CtxProfile (map profile_row l)"
proof -
  have "parsePayload (Some (stringify (obj [(''profileUpdate'', obj [])]))) = Some (obj [(''profileUpdate'', obj [])])"
    using profile_payload by (simp add: parsePayload_def obj_def)
  moreover have "json_path (Some (obj [(''profileUpdate'', obj [])])) [''profileUpdate''] = Some (obj [])" by code_simp
  ultimately have "serializeSyncRow nm (profile_db n) m requester shared (profile_row i) \<noteq> None" for i shared
    by (simp add: serializeSyncRow_def profile_row_def EVENT_PAYLOAD_TYPES_def profile_event_def json_truthy_def obj_def Let_def)
  then show ?thesis
    by (auto simp: all_served_def list_all_iff served_reader_def reader_of_def profileReader_def)
qed

lemma pull_stalls_witness:
  "(\<forall>ts. cursor_at (passes counting_env (example_peer ''p'' ''k'') CtxProfile
      (\<lambda>t. serving example_names (profile_db 2001) (\<lambda>_. None) ''https://a'' t (0, ''9'') CtxProfile) ts (cursor_state 1999)) ''p'' CtxProfile
    = Some (row_position (profile_row 1999)))
   \<and> profile_row 2000 \<in> set (sy_log (profile_db 2001))"
proof -
  let ?pos = "row_position (profile_row 1999)"
  have at: "cursor_at (cursor_state 1999) (pe_id (example_peer ''p'' ''k'')) CtxProfile = Some ?pos"
    by (simp add: cursor_at_def cursor_state_def cursor_key_def row_position_def example_peer_def new_peer_row_def)
  have U: "map profile_row [0..<2001] = unread (served_reader example_names (profile_db 2001) ''https://a'' CtxProfile)
      (sy_log (profile_db 2001)) \<lparr>po_ts = max 0 (po_ts ?pos - FIRST_PAGE_OVERLAP_MS), po_id = None\<rparr>"
    by (rule profile_unread[symmetric]) (simp add: row_position_def profile_row_def FIRST_PAGE_OVERLAP_MS_def)
  have row: "map profile_row [0..<2001] ! 1999 = profile_row 1999" by (simp del: upt_Suc)
  have last: "\<not> isAfter (row_position (map profile_row [0..<2001] ! 1999)) ?pos"
    unfolding row by (simp add: isAfter_def row_position_def)
  have id: "pe_id (example_peer ''p'' ''k'') = ''p''" by (simp add: example_peer_def new_peer_row_def)
  show ?thesis
    using pull_stalls[where m = "\<lambda>_. None", OF profile_log_ready _ at U _ profile_served last, where tick = "(0, ''9'')"] unfolding id
    by (auto simp: profile_db_def simp del: upt_Suc)
qed

lemma pull_reads_log_witness:
  "\<exists>st'. pullContext counting_env (example_peer ''p'' ''k'') CtxProfile
      (serving example_names (profile_db 3) (\<lambda>_. None) ''https://a'' 5 (0, ''9'') CtxProfile) SYNC_PASS_BUDGET 5 (cursor_state 0)
      = (st', SyncOk) \<and> cursor_at st' ''p'' CtxProfile = Some (row_position (profile_row 2))"
proof -
  let ?pos = "row_position (profile_row 0)"
  have at: "cursor_at (cursor_state 0) (pe_id (example_peer ''p'' ''k'')) CtxProfile = Some ?pos"
    by (simp add: cursor_at_def cursor_state_def cursor_key_def row_position_def example_peer_def new_peer_row_def)
  have since: "firstRequestSince (en_ledgerStartedAt counting_env) CtxProfile ?pos 5 = 80000"
    by (simp add: firstRequestSince_def row_position_def profile_row_def FIRST_PAGE_OVERLAP_MS_def)
  have U: "map profile_row [0..<3] = unread (served_reader example_names (profile_db 3) ''https://a'' CtxProfile)
      (sy_log (profile_db 3)) \<lparr>po_ts = firstRequestSince (en_ledgerStartedAt counting_env) CtxProfile ?pos 5, po_id = None\<rparr>"
    unfolding since by (rule profile_unread[symmetric]) simp
  have rows: "map profile_row [0..<3] = [profile_row 0, profile_row 1, profile_row 2]" by (simp add: upt_rec numeral_2_eq_2)
  have three: "map profile_row [0..<3] \<noteq> []" "last (map profile_row [0..<3]) = profile_row 2" unfolding rows by simp_all
  have last: "cursor_after (map profile_row [0..<3]) ?pos = row_position (profile_row 2)"
    unfolding cursor_after_def three(2) using three(1) by (simp add: isAfter_def row_position_def profile_row_def)
  have id: "pe_id (example_peer ''p'' ''k'') = ''p''" by (simp add: example_peer_def new_peer_row_def)
  have ready: "log_ready counting_env (sy_log (profile_db 3)) 5 (5 + bu_timeMs SYNC_PASS_BUDGET)"
    using profile_log_ready[of 3 5] by (simp add: SYNC_PASS_BUDGET_def)
  have early: "firstRequestSince (en_ledgerStartedAt counting_env) CtxProfile ?pos 5 \<le> po_ts ?pos"
    unfolding since by (simp add: row_position_def profile_row_def)
  have room: "length (map profile_row [0..<3]) < bu_pages SYNC_PASS_BUDGET * SYNC_PAGE_LIMIT"
    by (simp add: SYNC_PASS_BUDGET_def SYNC_PAGE_LIMIT_def)
  show ?thesis
    using pull_reads_log[where m = "\<lambda>_. None", OF ready loaded_cursor[OF at] early U room, where tick = "(0, ''9'')"] unfolding id last by blast
qed

definition kept_example :: "nat pull_state" where
  "kept_example = (cursor_state 0)\<lparr>pl_kept := keepEvent counting_env ''p'' CtxProfile ''s'' JNull [] 9 9 ''1'' []\<rparr>"

lemma kept_events_in_order_witness:
  "\<exists>k. subject_queue ''p'' ''s'' (pl_kept (fst (retryPeerEvents counting_env (example_peer ''p'' ''k'') 10 kept_example)))
     = drop k (subject_queue ''p'' ''s'' (pl_kept kept_example))"
proof -
  have id: "pe_id (example_peer ''p'' ''k'') = ''p''" by (simp add: example_peer_def new_peer_row_def)
  have "distinct (map kr_id (pl_kept kept_example))" by (simp add: kept_example_def keepEvent_def)
  from kept_events_in_order[OF this, of "example_peer ''p'' ''k''"] show ?thesis unfolding id by blast
qed

lemma sync_request_answered_witness:
  "\<exists>resp. buildSyncResponse example_names (profile_db 3) (\<lambda>_. None) ''https://a'' \<lparr>sc_contextType = CtxProfile, sc_dmChannelId = None, sc_federatedId = None\<rparr>
     \<lparr>po_ts = 0, po_id = None\<rparr> 2 = Some resp"
proof -
  have "distinct (map mu_id (sy_log (profile_db 3)))" using profile_log_ready[of 3 0] by (simp add: log_ready_def)
  from sync_request_answered[OF this, of 2] show ?thesis by fastforce
qed

end
