(* ===== verification/Snowflake.thy ===== *)
theory Snowflake
  imports Prelude
begin

text \<open>
  Ids, \<open>packages/server/src/utils/snowflake.ts\<close>: the generator with its module state, over a clock given by its
  successive readings, and the time an id carries. \<open>bigint\<close> is \<open>int\<close>; ids are decimal text.
\<close>

section \<open>The generator\<close>

definition EPOCH :: int where
  "EPOCH = 1704067200000"

record snowflake_state =
  sf_workerId :: "int option"
  sf_sequence :: int
  sf_lastTimestamp :: int

definition boot :: snowflake_state where
  "boot = \<lparr>sf_workerId = None, sf_sequence = 0, sf_lastTimestamp = -1\<rparr>"

text \<open>\<open>None\<close> where the code throws.\<close>

definition setWorkerId :: "int \<Rightarrow> snowflake_state \<Rightarrow> snowflake_state option" where
  "setWorkerId i st = (if i < 0 \<or> 1023 < i then None else Some (st\<lparr>sf_workerId := Some i\<rparr>))"

text \<open>Waiting for the next millisecond: the clock reading that ends the loop, \<open>None\<close> when none of the readings does.\<close>

fun wait_past :: "int \<Rightarrow> int list \<Rightarrow> (int \<times> int list) option" where
  "wait_past last_ts [] = None"
| "wait_past last_ts (t # ts) = (if t \<le> last_ts then wait_past last_ts ts else Some (t, ts))"

text \<open>\<open>BigInt.toString\<close>.\<close>

definition bigint_text :: "int \<Rightarrow> string" where
  "bigint_text i = (if i < 0 then CHR ''-'' # nat_to_dec (nat (- i)) else nat_to_dec (nat i))"

definition compose_id :: "int \<Rightarrow> int \<Rightarrow> int \<Rightarrow> int" where
  "compose_id timestamp worker seq = push_bit 22 (timestamp - EPOCH) OR push_bit 12 worker OR seq"

datatype snowflake_result = NotInitialized | StillWaiting | Generated snowflake_state string "int list"

definition emit :: "snowflake_state \<Rightarrow> int \<Rightarrow> int \<Rightarrow> int \<Rightarrow> int list \<Rightarrow> snowflake_result" where
  "emit st worker timestamp seq readings =
    Generated (st\<lparr>sf_sequence := seq, sf_lastTimestamp := timestamp\<rparr>) (bigint_text (compose_id timestamp worker seq)) readings"

text \<open>One call: the clock readings it may consume come first in \<open>now # readings\<close>.\<close>

definition generateSnowflake :: "snowflake_state \<Rightarrow> int \<Rightarrow> int list \<Rightarrow> snowflake_result" where
  "generateSnowflake st now readings = (case sf_workerId st of
     None \<Rightarrow> NotInitialized
   | Some worker \<Rightarrow>
       if now = sf_lastTimestamp st then
         (let seq = (sf_sequence st + 1) AND 4095 in
          if seq = 0 then (case wait_past (sf_lastTimestamp st) (now # readings) of
              None \<Rightarrow> StillWaiting
            | Some (t, rest) \<Rightarrow> emit st worker t seq rest)
          else emit st worker now seq readings)
       else emit st worker now 0 readings)"

text \<open>\<open>BigInt\<close> of a decimal id.\<close>

definition snowflakeToTimestamp :: "string \<Rightarrow> int" where
  "snowflakeToTimestamp s = drop_bit 22 (int (dec_to_nat s)) + EPOCH"

text \<open>Many calls, each with the reading it starts with; the loop of an exhausted millisecond reads on.\<close>

fun generate_all :: "nat \<Rightarrow> snowflake_state \<Rightarrow> int list \<Rightarrow> string list" where
  "generate_all 0 st readings = []"
| "generate_all (Suc n) st [] = []"
| "generate_all (Suc n) st (now # readings) = (case generateSnowflake st now readings of
     Generated st' i rest \<Rightarrow> i # generate_all n st' rest | _ \<Rightarrow> [])"

section \<open>The fields of an id\<close>

lemma compose_sum:
  assumes "0 \<le> w" "w < 1024" "0 \<le> s" "s < 4096"
  shows "compose_id t w s = (t - EPOCH) * 2 ^ 22 + w * 2 ^ 12 + s"
proof -
  have s: "push_bit 12 w OR s = push_bit 12 w + s"
  proof (rule disjunctive_add[symmetric])
    fix n show "\<not> bit (push_bit 12 w) n \<or> \<not> bit s n"
    proof (cases "n < 12")
      case False
      then have "(2::int) ^ 12 \<le> 2 ^ n" by (intro power_increasing) auto
      then have "drop_bit n s = 0" using assms by (simp add: drop_bit_eq_div div_pos_pos_trivial)
      then show ?thesis by (simp add: bit_iff_odd_drop_bit)
    qed (simp add: bit_push_bit_iff)
  qed
  have "push_bit 22 (t - EPOCH) OR (push_bit 12 w + s) = push_bit 22 (t - EPOCH) + (push_bit 12 w + s)"
  proof (rule disjunctive_add[symmetric])
    fix n show "\<not> bit (push_bit 22 (t - EPOCH)) n \<or> \<not> bit (push_bit 12 w + s) n"
    proof (cases "n < 22")
      case False
      have "push_bit 12 w + s < 2 ^ 22" "0 \<le> push_bit 12 w + s" using assms by (auto simp: push_bit_eq_mult)
      moreover have "(2::int) ^ 22 \<le> 2 ^ n" using False by (intro power_increasing) auto
      ultimately have "drop_bit n (push_bit 12 w + s) = 0" by (simp add: drop_bit_eq_div div_pos_pos_trivial)
      then show ?thesis by (simp add: bit_iff_odd_drop_bit)
    qed (simp add: bit_push_bit_iff)
  qed
  with s show ?thesis by (simp add: compose_id_def push_bit_eq_mult)
qed


lemma compose_fields:
  assumes "0 \<le> w" "w < 1024" "0 \<le> s" "s < 4096" "EPOCH \<le> t"
  shows "0 \<le> compose_id t w s" "drop_bit 22 (compose_id t w s) = t - EPOCH"
    "drop_bit 12 (compose_id t w s) mod 1024 = w" "compose_id t w s mod 4096 = s"
proof -
  have sum: "compose_id t w s = (t - EPOCH) * 2 ^ 22 + w * 2 ^ 12 + s" by (rule compose_sum[OF assms(1-4)])
  then show "0 \<le> compose_id t w s" using assms by simp
  have "(w * 2 ^ 12 + s) div 2 ^ 22 = 0" using assms by (intro div_pos_pos_trivial) auto
  then show "drop_bit 22 (compose_id t w s) = t - EPOCH"
    unfolding sum by (simp add: drop_bit_eq_div add.assoc)
  have split: "(t - EPOCH) * 2 ^ 22 + w * 2 ^ 12 + s = s + ((t - EPOCH) * 1024 + w) * 4096" by simp
  have twelve: "(2::int) ^ 12 = 4096" by simp
  have "s div 4096 = 0" using assms by (intro div_pos_pos_trivial) auto
  then have place: "(s + ((t - EPOCH) * 1024 + w) * 4096) div 4096 = (t - EPOCH) * 1024 + w" by simp
  show "drop_bit 12 (compose_id t w s) mod 1024 = w"
    unfolding sum drop_bit_eq_div split unfolding twelve place mod_mult_self3 by (rule mod_pos_pos_trivial) (use assms in simp_all)
  show "compose_id t w s mod 4096 = s"
    unfolding sum split mod_mult_self1 by (rule mod_pos_pos_trivial) (use assms in simp_all)
qed

lemma compose_less:
  assumes "0 \<le> w" "w < 1024" "0 \<le> s" "s < 4096" "0 \<le> s'" "s' < 4096" "t < t' \<or> (t = t' \<and> s < s')"
  shows "compose_id t w s < compose_id t' w s'"
  using assms by (auto simp: compose_sum)

text \<open>A generator of an initialised instance: the sequence fits its 12 bits.\<close>

definition ready :: "int \<Rightarrow> snowflake_state \<Rightarrow> bool" where
  "ready w st \<longleftrightarrow> sf_workerId st = Some w \<and> 0 \<le> w \<and> w < 1024 \<and> 0 \<le> sf_sequence st \<and> sf_sequence st < 4096"

lemma wait_pastD: "wait_past l ts = Some (t, rest) \<Longrightarrow> l < t \<and> (\<exists>pre. ts = pre @ t # rest)"
proof (induction ts)
  case (Cons a ts)
  show ?case
  proof (cases "a \<le> l")
    case True
    then obtain pre where "l < t" "ts = pre @ t # rest" using Cons by auto
    then show ?thesis by (intro conjI exI[of _ "a # pre"]) auto
  qed (use Cons.prems in \<open>auto intro: exI[of _ "[]"]\<close>)
qed simp

lemma generated:
  assumes "ready w st" "generateSnowflake st now readings = Generated st' i rest"
  shows "ready w st' \<and> i = bigint_text (compose_id (sf_lastTimestamp st') w (sf_sequence st'))
    \<and> (now \<noteq> sf_lastTimestamp st \<longrightarrow> sf_lastTimestamp st' = now)
    \<and> (now = sf_lastTimestamp st \<longrightarrow> sf_lastTimestamp st < sf_lastTimestamp st'
        \<or> (sf_lastTimestamp st' = now \<and> sf_sequence st < sf_sequence st'))
    \<and> (\<exists>pre. now # readings = pre @ sf_lastTimestamp st' # rest)"
proof -
  have mask: "(sf_sequence st + 1) AND 4095 = (sf_sequence st + 1) mod 4096"
    using take_bit_eq_mask[of 12 "sf_sequence st + 1"] by (simp add: take_bit_eq_mod mask_eq_exp_minus_1)
  have seq: "0 \<le> sf_sequence st" "sf_sequence st < 4096" and w: "sf_workerId st = Some w" "0 \<le> w" "w < 1024"
    using assms(1) by (auto simp: ready_def)
  have next_seq: "(sf_sequence st + 1) mod 4096 = 0 \<or> (sf_sequence st + 1) mod 4096 = sf_sequence st + 1"
    using seq by (cases "sf_sequence st = 4095") auto
  show ?thesis
  proof (cases "now = sf_lastTimestamp st")
    case False
    then show ?thesis using assms(2) w seq by (auto simp: generateSnowflake_def emit_def ready_def intro: exI[of _ "[]"])
  next
    case same: True
    show ?thesis
    proof (cases "(sf_sequence st + 1) mod 4096 = 0")
      case True
      then obtain t where t: "wait_past (sf_lastTimestamp st) (now # readings) = Some (t, rest)"
        "st' = st\<lparr>sf_sequence := 0, sf_lastTimestamp := t\<rparr>" "i = bigint_text (compose_id t w 0)"
        using assms(2) w same mask by (auto simp: generateSnowflake_def emit_def Let_def split: option.splits)
      from wait_pastD[OF t(1)] show ?thesis using t w same by (auto simp: ready_def)
    next
      case False
      then show ?thesis
        using assms(2) w same mask next_seq seq by (auto simp: generateSnowflake_def emit_def ready_def Let_def intro: exI[of _ "[]"])
    qed
  qed
qed

text \<open>
  C33. An id says when, where and in which place it was made: it is the canonical decimal text of a non-negative number
  whose fields are the millisecond of the clock, the worker and the sequence, so that the time reads back from it.
\<close>
theorem snowflake_fields:
  assumes "ready w st" "generateSnowflake st now readings = Generated st' i rest" "EPOCH \<le> sf_lastTimestamp st'"
  shows "list_all is_digit i \<and> i \<noteq> [] \<and> nat_to_dec (dec_to_nat i) = i
    \<and> snowflakeToTimestamp i = sf_lastTimestamp st'
    \<and> drop_bit 12 (int (dec_to_nat i)) mod 1024 = w \<and> int (dec_to_nat i) mod 4096 = sf_sequence st' \<and> ready w st'"
proof -
  note g = generated[OF assms(1,2)]
  have r: "0 \<le> w" "w < 1024" "0 \<le> sf_sequence st'" "sf_sequence st' < 4096" using g by (auto simp: ready_def)
  note fields = compose_fields[OF r assms(3)]
  have i: "i = nat_to_dec (nat (compose_id (sf_lastTimestamp st') w (sf_sequence st')))"
    using g fields(1) by (simp add: bigint_text_def)
  have val: "int (dec_to_nat i) = compose_id (sf_lastTimestamp st') w (sf_sequence st')" unfolding i using fields(1) by simp
  have "list_all is_digit i" "i \<noteq> []" "nat_to_dec (dec_to_nat i) = i" unfolding i by (simp_all add: nat_to_dec_digits)
  then show ?thesis using fields g unfolding snowflakeToTimestamp_def val by simp
qed

text \<open>Under a clock that never steps back, an id is greater than every id before it.\<close>

lemma generate_all_increase:
  assumes "ready w st" "sorted readings" "\<forall>t\<in>set readings. EPOCH \<le> t \<and> sf_lastTimestamp st \<le> t"
  shows "sorted_wrt (<) (map dec_to_nat (generate_all n st readings))
    \<and> (\<forall>i\<in>set (generate_all n st readings). EPOCH \<le> sf_lastTimestamp st
        \<longrightarrow> nat (compose_id (sf_lastTimestamp st) w (sf_sequence st)) < dec_to_nat i)"
  using assms
proof (induction n st readings rule: generate_all.induct)
  case (3 n st now readings)
  show ?case
  proof (cases "generateSnowflake st now readings")
    case (Generated st' i rest)
    note g = generated[OF 3(2) Generated]
    have later: "sf_lastTimestamp st < sf_lastTimestamp st' \<or> (sf_lastTimestamp st = sf_lastTimestamp st' \<and> sf_sequence st < sf_sequence st')"
      and epoch: "EPOCH \<le> sf_lastTimestamp st'"
      using g 3(4) by force+
    have r: "0 \<le> w" "w < 1024" "0 \<le> sf_sequence st'" "sf_sequence st' < 4096" "0 \<le> sf_sequence st" "sf_sequence st < 4096"
      using g 3(2) by (auto simp: ready_def)
    have i: "dec_to_nat i = nat (compose_id (sf_lastTimestamp st') w (sf_sequence st'))"
      using g compose_fields(1)[OF r(1-4) epoch] by (simp add: bigint_text_def)
    obtain pre where pre: "now # readings = pre @ sf_lastTimestamp st' # rest" using g by blast
    have rest: "sorted rest" "\<forall>t\<in>set rest. EPOCH \<le> t \<and> sf_lastTimestamp st' \<le> t"
      using 3(3,4) unfolding pre by (auto simp: sorted_append)
    have less: "compose_id (sf_lastTimestamp st) w (sf_sequence st) < compose_id (sf_lastTimestamp st') w (sf_sequence st')"
      by (rule compose_less) (use r later in auto)
    have first: "EPOCH \<le> sf_lastTimestamp st \<Longrightarrow> nat (compose_id (sf_lastTimestamp st) w (sf_sequence st)) < dec_to_nat i"
      unfolding i using less compose_fields(1)[OF r(1,2,5,6)] by (metis nat_less_eq_zless)
    note IH = 3(1)[OF Generated _ rest(1) rest(2)]
    have IH: "sorted_wrt (<) (map dec_to_nat (generate_all n st' rest)) \<and> (\<forall>j\<in>set (generate_all n st' rest). dec_to_nat i < dec_to_nat j)"
      using 3(1)[OF Generated _ rest] g epoch unfolding i by blast
    show ?thesis using IH first Generated by fastforce
  qed simp_all
qed simp_all

text \<open>
  C32. Ids increase, so none repeats: over a clock that never steps back, every id an instance makes is greater than all
  it made before, even when thousands fall into one millisecond.
\<close>
theorem snowflakes_increase:
  assumes "0 \<le> w" "w < 1024" "setWorkerId w boot = Some st" "sorted readings" "\<forall>t\<in>set readings. EPOCH \<le> t"
  shows "sorted_wrt (<) (map dec_to_nat (generate_all n st readings)) \<and> distinct (generate_all n st readings)"
proof -
  have "ready w st" "\<forall>t\<in>set readings. EPOCH \<le> t \<and> sf_lastTimestamp st \<le> t"
    using assms by (auto simp: setWorkerId_def boot_def ready_def EPOCH_def split: if_splits)
  then have "sorted_wrt (<) (map dec_to_nat (generate_all n st readings))"
    using generate_all_increase[of w st readings n] assms(4) by blast
  moreover then have "distinct (map dec_to_nat (generate_all n st readings))" by (simp only: strict_sorted_iff)
  ultimately show ?thesis by (auto dest: distinct_map[THEN iffD1])
qed

text \<open>
  A clock that steps back repeats an id: the sequence starts at 0 again for a millisecond that already had ids, and
  the generator compares with its last millisecond only.
\<close>
theorem snowflake_repeats:
  "\<exists>i j. generate_all 3 \<lparr>sf_workerId = Some w, sf_sequence = 0, sf_lastTimestamp = -1\<rparr> [EPOCH + int t, EPOCH + int t + 1, EPOCH + int t] = [i, j, i]"
  by (simp add: numeral_3_eq_3 generateSnowflake_def emit_def EPOCH_def)

definition started :: snowflake_state where
  "started = \<lparr>sf_workerId = Some 3, sf_sequence = 0, sf_lastTimestamp = -1\<rparr>"

lemma snowflake_fields_witness:
  "snowflakeToTimestamp (bigint_text (compose_id (EPOCH + 5) 3 0)) = EPOCH + 5"
proof -
  have r: "ready 3 started" by (simp add: ready_def started_def)
  have g: "generateSnowflake started (EPOCH + 5) [] =
      Generated (started\<lparr>sf_lastTimestamp := EPOCH + 5\<rparr>) (bigint_text (compose_id (EPOCH + 5) 3 0)) []"
    by (simp add: generateSnowflake_def started_def emit_def EPOCH_def)
  from snowflake_fields[OF r g] show ?thesis by simp
qed

lemma snowflakes_increase_witness:
  "distinct (generate_all 3 started [EPOCH, EPOCH, EPOCH + 1])"
  using snowflakes_increase[of 3 started "[EPOCH, EPOCH, EPOCH + 1]" 3]
  by (simp add: setWorkerId_def boot_def started_def del: generate_all.simps)

end
