(* ===== verification/NetGuard.thy ===== *)
theory NetGuard
  imports Prelude
begin

text \<open>
  Where this instance may connect to: the address classes of \<open>utils/ipClass.ts\<close>, the fetch that follows redirects under
  their guard (\<open>utils/ssrf.ts\<close>) and the one to peers that follows none (\<open>utils/federationFetch.ts\<close>). A URL's parts, the
  resolver and the network are arguments; the resolver may answer differently each time it is asked.
\<close>

unbundle bit_operations_syntax

section \<open>Reading addresses\<close>

datatype AddressClass = Public | Loopback | Private | LinkLocal | Cgnat | Unspecified | Multicast | Reserved

text \<open>\<open>String.split\<close> at one character, and at two colons from the left.\<close>

fun split_char :: "char \<Rightarrow> string \<Rightarrow> string list" where
  "split_char c [] = [[]]"
| "split_char c (x # xs) = (if x = c then [] # split_char c xs
     else (x # hd (split_char c xs)) # tl (split_char c xs))"

fun split_colons :: "string \<Rightarrow> string list" where
  "split_colons [] = [[]]"
| "split_colons [x] = [[x]]"
| "split_colons (x # y # r) = (if x = CHR '':'' \<and> y = CHR '':'' then [] # split_colons r
     else (x # hd (split_colons (y # r))) # tl (split_colons (y # r)))"

definition octet_text :: "string \<Rightarrow> bool" where
  "octet_text s \<longleftrightarrow> s = ''0'' \<or> (s \<noteq> [] \<and> length s \<le> 3 \<and> list_all is_digit s \<and> hd s \<noteq> CHR ''0'')"

definition octet_of :: "string \<Rightarrow> nat option" where
  "octet_of part = (if \<not> octet_text part then None else if 255 < dec_to_nat part then None else Some (dec_to_nat part))"

fun parseIpv4 :: "string \<Rightarrow> (nat \<times> nat \<times> nat \<times> nat) option" where
  "parseIpv4 ip = (case map octet_of (split_char (CHR ''.'') ip) of
     [Some a, Some b, Some c, Some d] \<Rightarrow> Some (a, b, c, d) | _ \<Rightarrow> None)"

declare parseIpv4.simps [simp del]

definition ip_hex_digit :: "char \<Rightarrow> bool" where
  "ip_hex_digit c \<longleftrightarrow> (let n = (of_char c :: nat) in 48 \<le> n \<and> n \<le> 57 \<or> 65 \<le> n \<and> n \<le> 70 \<or> 97 \<le> n \<and> n \<le> 102)"

definition ip_hex_val :: "char \<Rightarrow> nat" where
  "ip_hex_val c = (let n = (of_char c :: nat) in if n \<le> 57 then n - 48 else if n \<le> 70 then n - 55 else n - 87)"

text \<open>\<open>/^[0-9a-f]{1,4}$/i\<close> and \<open>parseInt(group, 16)\<close>.\<close>

definition hex_group :: "string \<Rightarrow> bool" where
  "hex_group s \<longleftrightarrow> s \<noteq> [] \<and> length s \<le> 4 \<and> list_all ip_hex_digit s"

definition hex_to_nat :: "string \<Rightarrow> nat" where
  "hex_to_nat s = foldl (\<lambda>acc c. 16 * acc + ip_hex_val c) 0 s"

fun groups_of :: "string list \<Rightarrow> nat list option" where
  "groups_of [] = Some []"
| "groups_of (g # gs) = (if \<not> hex_group g then None else map_option ((#) (hex_to_nat g)) (groups_of gs))"

definition toGroups :: "string \<Rightarrow> nat list option" where
  "toGroups part = (if part = [] then Some [] else groups_of (split_char (CHR '':'') part))"

text \<open>\<open>::ffff:\<close> and what follows it, in either case.\<close>

definition mapped_prefix :: "string \<Rightarrow> bool" where
  "mapped_prefix p \<longleftrightarrow> length p = 7 \<and> take 2 p = ''::'' \<and> list_all (\<lambda>c. c \<in> {CHR ''f'', CHR ''F''}) (take 4 (drop 2 p)) \<and> drop 6 p = '':''"

definition join_dots :: "nat \<Rightarrow> nat \<Rightarrow> nat \<Rightarrow> nat \<Rightarrow> string" where
  "join_dots a b c d = nat_to_dec a @ ''.'' @ nat_to_dec b @ ''.'' @ nat_to_dec c @ ''.'' @ nat_to_dec d"

definition unmapIpv4 :: "string \<Rightarrow> string option" where
  "unmapIpv4 ip = (let tail = drop 7 ip in
     if \<not> (mapped_prefix (take 7 ip) \<and> tail \<noteq> [] \<and> list_all (\<lambda>c. ip_hex_digit c \<or> c = CHR ''.'' \<or> c = CHR '':'') tail) then None
     else if CHR ''.'' \<in> set tail then (if parseIpv4 tail \<noteq> None then Some tail else None)
     else (let groups = split_char (CHR '':'') tail in
       if length groups < 1 \<or> 2 < length groups then None
       else (case groups_of groups of
           None \<Rightarrow> None
         | Some values \<Rightarrow>
             let (hi, lo) = (if length values = 2 then (values ! 0, values ! 1) else (0, values ! 0))
             in Some (join_dots (drop_bit 8 hi) (hi AND 255) (drop_bit 8 lo) (lo AND 255)))))"

definition parseIpv6 :: "string \<Rightarrow> nat list option" where
  "parseIpv6 ip = (if ip = [] \<or> \<not> list_all (\<lambda>c. ip_hex_digit c \<or> c = CHR '':'') ip then None
     else (case split_colons ip of
         [only] \<Rightarrow> (case toGroups only of None \<Rightarrow> None | Some gs \<Rightarrow> if length gs = 8 then Some gs else None)
       | [l, r] \<Rightarrow> (case (toGroups l, toGroups r) of
             (Some head, Some tail) \<Rightarrow> if 8 < length head + length tail then None
               else Some (head @ replicate (8 - length head - length tail) 0 @ tail)
           | _ \<Rightarrow> None)
       | _ \<Rightarrow> None))"

section \<open>Classes\<close>

fun classifyIpv4 :: "nat \<times> nat \<times> nat \<times> nat \<Rightarrow> AddressClass" where
  "classifyIpv4 (a, b, c, d) =
    (if a = 0 then (if a = 0 \<and> b = 0 \<and> c = 0 \<and> d = 0 then Unspecified else Reserved)
     else if a = 127 then Loopback
     else if a = 10 then Private
     else if a = 172 \<and> 16 \<le> b \<and> b \<le> 31 then Private
     else if a = 192 \<and> b = 168 then Private
     else if a = 169 \<and> b = 254 then LinkLocal
     else if a = 100 \<and> 64 \<le> b \<and> b \<le> 127 then Cgnat
     else if a = 192 \<and> b = 0 \<and> c = 0 then Reserved
     else if a = 192 \<and> b = 0 \<and> c = 2 then Reserved
     else if a = 198 \<and> (b = 18 \<or> b = 19) then Reserved
     else if a = 198 \<and> b = 51 \<and> c = 100 then Reserved
     else if a = 203 \<and> b = 0 \<and> c = 113 then Reserved
     else if 224 \<le> a \<and> a \<le> 239 then Multicast
     else if 240 \<le> a then Reserved
     else Public)"

declare classifyIpv4.simps [simp del]

text \<open>\<open>replace(/^\[|\]$/g, '')\<close>.\<close>

definition unbracket :: "string \<Rightarrow> string" where
  "unbracket s = (let t = (if s \<noteq> [] \<and> hd s = CHR ''['' then tl s else s)
     in if t \<noteq> [] \<and> last t = CHR '']'' then butlast t else t)"

definition classify_groups :: "nat list \<Rightarrow> AddressClass" where
  "classify_groups groups =
    (if list_all (\<lambda>g. g = 0) groups then Unspecified
     else if list_all (\<lambda>g. g = 0) (take 7 groups) \<and> groups ! 7 = 1 then Loopback
     else let first = groups ! 0 in
       if first AND 0xfe00 = 0xfc00 then Private
       else if first AND 0xffc0 = 0xfe80 then LinkLocal
       else if first AND 0xff00 = 0xff00 then Multicast
       else Public)"

definition classifyAddress :: "string \<Rightarrow> AddressClass" where
  "classifyAddress ip = (if ip = [] then Reserved
     else let address = unbracket (js_trim ip) in
       case parseIpv4 address of
         Some v4 \<Rightarrow> classifyIpv4 v4
       | None \<Rightarrow> (case unmapIpv4 address of
           Some mapped \<Rightarrow> (if mapped \<noteq> [] then (case parseIpv4 mapped of Some v4 \<Rightarrow> classifyIpv4 v4 | None \<Rightarrow> Reserved)
             else (case parseIpv6 address of None \<Rightarrow> Reserved | Some groups \<Rightarrow> classify_groups groups))
         | None \<Rightarrow> (case parseIpv6 address of None \<Rightarrow> Reserved | Some groups \<Rightarrow> classify_groups groups)))"

definition isPublicAddress :: "string \<Rightarrow> bool" where
  "isPublicAddress ip \<longleftrightarrow> classifyAddress ip = Public"

section \<open>Requests\<close>

record url_parts =
  up_protocol :: string
  up_hostname :: string
  up_pathname :: string
  up_search :: string
  up_hash :: string

record response =
  rs_status :: int
  rs_location :: "string option"

text \<open>
  The platform: \<open>new URL(text)\<close>, \<open>new URL(location, base)\<close> as text, the resolver and the network by the hop that asks.
\<close>

record network =
  nw_url :: "string \<Rightarrow> url_parts option"
  nw_join :: "string \<Rightarrow> string \<Rightarrow> string option"
  nw_lookup :: "nat \<Rightarrow> string \<Rightarrow> string option"
  nw_fetch :: "nat \<Rightarrow> string \<Rightarrow> response option"

datatype fetch_error = InvalidUrl | InvalidScheme | NotAnOrigin | LookupFailed | PrivateAddress
  | NetworkError | InvalidRedirect | TooManyRedirects

definition isPrivateIp :: "string \<Rightarrow> bool" where
  "isPrivateIp ip \<longleftrightarrow> classifyAddress ip \<noteq> Public"

definition validateExternalUrl :: "network \<Rightarrow> nat \<Rightarrow> string \<Rightarrow> fetch_error option" where
  "validateExternalUrl nw hop url = (case nw_url nw url of
     None \<Rightarrow> Some InvalidUrl
   | Some parsed \<Rightarrow>
       if up_protocol parsed \<notin> {''http:'', ''https:''} then Some InvalidScheme
       else (case nw_lookup nw hop (unbracket (up_hostname parsed)) of
           None \<Rightarrow> Some LookupFailed
         | Some address \<Rightarrow> if isPrivateIp address then Some PrivateAddress else None))"

definition MAX_REDIRECTS :: nat where
  "MAX_REDIRECTS = 5"

text \<open>The requests sent, in order, and how the call ends; \<open>left\<close> hops remain.\<close>

fun follow :: "network \<Rightarrow> nat \<Rightarrow> nat \<Rightarrow> string \<Rightarrow> string list \<times> (fetch_error + response)" where
  "follow nw 0 hop currentUrl = ([], Inl TooManyRedirects)"
| "follow nw (Suc left) hop currentUrl = (case validateExternalUrl nw hop currentUrl of
     Some err \<Rightarrow> ([], Inl err)
   | None \<Rightarrow> (case nw_fetch nw hop currentUrl of
       None \<Rightarrow> ([currentUrl], Inl NetworkError)
     | Some response \<Rightarrow>
         if 300 \<le> rs_status response \<and> rs_status response < 400 then
           (if \<not> truthy (rs_location response) then ([currentUrl], Inr response)
            else (case nw_join nw (the (rs_location response)) currentUrl of
                None \<Rightarrow> ([currentUrl], Inl InvalidRedirect)
              | Some target \<Rightarrow> (let (sent, result) = follow nw left (Suc hop) target in (currentUrl # sent, result))))
         else ([currentUrl], Inr response)))"

definition safeFetch :: "network \<Rightarrow> string \<Rightarrow> string list \<times> (fetch_error + response)" where
  "safeFetch nw url = follow nw (MAX_REDIRECTS + 1) 0 url"

datatype OriginTrust = Approved | Asserted

definition assertPeerOriginAllowed :: "network \<Rightarrow> bool \<Rightarrow> string \<Rightarrow> OriginTrust \<Rightarrow> fetch_error option" where
  "assertPeerOriginAllowed nw allowPrivatePeers origin trust = (case nw_url nw origin of
     None \<Rightarrow> Some InvalidUrl
   | Some parsed \<Rightarrow>
       if up_protocol parsed \<noteq> ''http:'' \<and> up_protocol parsed \<noteq> ''https:'' then Some InvalidScheme
       else if up_pathname parsed \<noteq> ''/'' \<or> up_search parsed \<noteq> [] \<or> up_hash parsed \<noteq> [] then Some NotAnOrigin
       else if trust = Approved then None
       else if allowPrivatePeers then None
       else (case nw_lookup nw 0 (unbracket (up_hostname parsed)) of
           None \<Rightarrow> Some LookupFailed
         | Some address \<Rightarrow> if classifyAddress address \<noteq> Public then Some PrivateAddress else None))"

definition federationFetch :: "network \<Rightarrow> bool \<Rightarrow> string \<Rightarrow> string \<Rightarrow> OriginTrust \<Rightarrow> string list \<times> (fetch_error + response)" where
  "federationFetch nw allowPrivatePeers origin path trust = (case assertPeerOriginAllowed nw allowPrivatePeers origin trust of
     Some err \<Rightarrow> ([], Inl err)
   | None \<Rightarrow> (case nw_join nw path origin of
       None \<Rightarrow> ([], Inl InvalidUrl)
     | Some target \<Rightarrow> (case nw_fetch nw 0 target of
         None \<Rightarrow> ([target], Inl NetworkError) | Some response \<Rightarrow> ([target], Inr response))))"


section \<open>The reserved blocks\<close>

text \<open>
  The reference: the special-purpose blocks as base and prefix length, the narrower first; an address has the class of
  the first block it is in.
\<close>

definition addr :: "nat \<times> nat \<times> nat \<times> nat \<Rightarrow> nat" where
  "addr x = (case x of (a, b, c, d) \<Rightarrow> ((a * 256 + b) * 256 + c) * 256 + d)"

definition in_block :: "nat \<Rightarrow> (nat \<times> nat \<times> nat \<times> nat) \<times> nat \<Rightarrow> bool" where
  "in_block x blk \<longleftrightarrow> x div 2 ^ (32 - snd blk) = addr (fst blk) div 2 ^ (32 - snd blk)"

definition special_blocks :: "(((nat \<times> nat \<times> nat \<times> nat) \<times> nat) \<times> AddressClass) list" where
  "special_blocks =
    [(((0, 0, 0, 0), 32), Unspecified), (((0, 0, 0, 0), 8), Reserved), (((127, 0, 0, 0), 8), Loopback),
     (((10, 0, 0, 0), 8), Private), (((172, 16, 0, 0), 12), Private), (((192, 168, 0, 0), 16), Private),
     (((169, 254, 0, 0), 16), LinkLocal), (((100, 64, 0, 0), 10), Cgnat), (((192, 0, 0, 0), 24), Reserved),
     (((192, 0, 2, 0), 24), Reserved), (((198, 18, 0, 0), 15), Reserved), (((198, 51, 100, 0), 24), Reserved),
     (((203, 0, 113, 0), 24), Reserved), (((224, 0, 0, 0), 4), Multicast), (((240, 0, 0, 0), 4), Reserved)]"

definition block_class :: "nat \<Rightarrow> AddressClass" where
  "block_class x = (case filter (\<lambda>(blk, _). in_block x blk) special_blocks of [] \<Rightarrow> Public | (_, k) # _ \<Rightarrow> k)"

lemma div_block:
  assumes "(k::nat) < m" shows "(q * m + k) div m = q"
  using assms by simp

text \<open>What a block reads of an address: its first octet or octets, and the leading bits of the next.\<close>

lemma addr_reads:
  assumes "b < 256" "c < 256" "d < 256"
  shows "addr (a, b, c, d) div 16777216 = a" "addr (a, b, c, d) div 65536 = a * 256 + b"
    "addr (a, b, c, d) div 256 = (a * 256 + b) * 256 + c"
proof -
  show one: "addr (a, b, c, d) div 256 = (a * 256 + b) * 256 + c" unfolding addr_def prod.case by (rule div_block[OF assms(3)])
  have "addr (a, b, c, d) div 65536 = addr (a, b, c, d) div 256 div 256" by (simp add: div_mult2_eq[symmetric])
  then show two: "addr (a, b, c, d) div 65536 = a * 256 + b" unfolding one div_block[OF assms(2)] .
  have "addr (a, b, c, d) div 16777216 = addr (a, b, c, d) div 65536 div 256" by (simp add: div_mult2_eq[symmetric])
  then show "addr (a, b, c, d) div 16777216 = a" unfolding two div_block[OF assms(1)] .
qed

lemma addr_reads_part:
  assumes "b < 256" "c < 256" "d < 256"
  shows "addr (a, b, c, d) div 268435456 = a div 16" "addr (a, b, c, d) div 1048576 = a * 16 + b div 16"
    "addr (a, b, c, d) div 4194304 = a * 4 + b div 64" "addr (a, b, c, d) div 131072 = a * 128 + b div 2"
proof -
  have "x div 268435456 = x div 16777216 div 16" "x div 1048576 = x div 65536 div 16" "x div 4194304 = x div 65536 div 64"
    "x div 131072 = x div 65536 div 2" for x :: nat by (simp_all add: div_mult2_eq[symmetric])
  moreover have "(a * 256 + b) div 16 = a * 16 + b div 16" "(a * 256 + b) div 64 = a * 4 + b div 64" "(a * 256 + b) div 2 = a * 128 + b div 2"
    using div_mult_self1[of 16 b "a * 16"] div_mult_self1[of 64 b "a * 4"] div_mult_self1[of 2 b "a * 128"] by (simp_all add: add.commute)
  ultimately show "addr (a, b, c, d) div 268435456 = a div 16" "addr (a, b, c, d) div 1048576 = a * 16 + b div 16"
    "addr (a, b, c, d) div 4194304 = a * 4 + b div 64" "addr (a, b, c, d) div 131072 = a * 128 + b div 2"
    by (simp_all only: addr_reads[OF assms])
qed

lemma digits_eq:
  assumes "x < m" "y < m" shows "(a * m + x = k * m + y) = (a = k \<and> x = (y::nat))"
  using div_block[OF assms(1), of a] div_block[OF assms(2), of k] by (metis add_left_cancel)

lemmas pair_eq = digits_eq[where m = 256]

text \<open>Membership in every block of the list, in octets.\<close>

lemma in_blocks:
  assumes "a < 256" "b < 256" "c < 256" "d < 256"
  shows "in_block (addr (a, b, c, d)) ((0, 0, 0, 0), 32) \<longleftrightarrow> a = 0 \<and> b = 0 \<and> c = 0 \<and> d = 0"
    "in_block (addr (a, b, c, d)) ((k, 0, 0, 0), 8) \<longleftrightarrow> a = k"
    "m < 256 \<Longrightarrow> in_block (addr (a, b, c, d)) ((k, m, 0, 0), 16) \<longleftrightarrow> a = k \<and> b = m"
    "m < 256 \<Longrightarrow> n < 256 \<Longrightarrow> in_block (addr (a, b, c, d)) ((k, m, n, 0), 24) \<longleftrightarrow> a = k \<and> b = m \<and> c = n"
    "in_block (addr (a, b, c, d)) ((224, 0, 0, 0), 4) \<longleftrightarrow> 224 \<le> a \<and> a \<le> 239"
    "in_block (addr (a, b, c, d)) ((240, 0, 0, 0), 4) \<longleftrightarrow> 240 \<le> a"
proof -
  show "in_block (addr (a, b, c, d)) ((k, m, n, 0), 24) \<longleftrightarrow> a = k \<and> b = m \<and> c = n" if "m < 256" "n < 256"
  proof -
    have "in_block (addr (a, b, c, d)) ((k, m, n, 0), 24) = (addr (a, b, c, d) div 256 = addr (k, m, n, 0) div 256)" by (simp add: in_block_def)
    then show ?thesis using assms that by (simp only: addr_reads pair_eq) simp
  qed
  show "in_block (addr (a, b, c, d)) ((0, 0, 0, 0), 32) \<longleftrightarrow> a = 0 \<and> b = 0 \<and> c = 0 \<and> d = 0" by (auto simp: in_block_def addr_def)
qed (use assms in \<open>auto simp: in_block_def addr_reads addr_reads_part pair_eq\<close>)

lemma div_is: "0 < m \<Longrightarrow> (b div m = q) = (q * m \<le> b \<and> b < (q + 1) * (m::nat))"
  using less_eq_div_iff_mult_less_eq[of m q b] div_less_iff_less_mult[of m b "q + 1"] by auto

lemma in_blocks_part:
  assumes "a < 256" "b < 256" "c < 256" "d < 256"
  shows "in_block (addr (a, b, c, d)) ((172, 16, 0, 0), 12) \<longleftrightarrow> a = 172 \<and> 16 \<le> b \<and> b \<le> 31"
    "in_block (addr (a, b, c, d)) ((100, 64, 0, 0), 10) \<longleftrightarrow> a = 100 \<and> 64 \<le> b \<and> b \<le> 127"
    "in_block (addr (a, b, c, d)) ((198, 18, 0, 0), 15) \<longleftrightarrow> a = 198 \<and> (b = 18 \<or> b = 19)"
proof -
  have parts: "b div 16 < 16" "b div 64 < 4" "b div 2 < 128" using assms by auto
  have "in_block (addr (a, b, c, d)) ((172, 16, 0, 0), 12) = (a * 16 + b div 16 = 172 * 16 + 1)"
    "in_block (addr (a, b, c, d)) ((100, 64, 0, 0), 10) = (a * 4 + b div 64 = 100 * 4 + 1)"
    "in_block (addr (a, b, c, d)) ((198, 18, 0, 0), 15) = (a * 128 + b div 2 = 198 * 128 + 9)"
    using assms by (simp_all add: in_block_def addr_reads_part)
  then have "in_block (addr (a, b, c, d)) ((172, 16, 0, 0), 12) = (a = 172 \<and> b div 16 = 1)"
    "in_block (addr (a, b, c, d)) ((100, 64, 0, 0), 10) = (a = 100 \<and> b div 64 = 1)"
    "in_block (addr (a, b, c, d)) ((198, 18, 0, 0), 15) = (a = 198 \<and> b div 2 = 9)"
    using parts by (simp_all only: digits_eq)
  moreover have "(b div 16 = 1) = (16 \<le> b \<and> b \<le> 31)" "(b div 64 = 1) = (64 \<le> b \<and> b \<le> 127)" "(b div 2 = 9) = (b = 18 \<or> b = 19)"
    using div_is[of 16 b 1] div_is[of 64 b 1] div_is[of 2 b 9] by auto
  ultimately show "in_block (addr (a, b, c, d)) ((172, 16, 0, 0), 12) \<longleftrightarrow> a = 172 \<and> 16 \<le> b \<and> b \<le> 31"
    "in_block (addr (a, b, c, d)) ((100, 64, 0, 0), 10) \<longleftrightarrow> a = 100 \<and> 64 \<le> b \<and> b \<le> 127"
    "in_block (addr (a, b, c, d)) ((198, 18, 0, 0), 15) \<longleftrightarrow> a = 198 \<and> (b = 18 \<or> b = 19)" by simp_all
qed

lemma classifyIpv4_blocks:
  assumes "a < 256" "b < 256" "c < 256" "d < 256"
  shows "classifyIpv4 (a, b, c, d) = block_class (addr (a, b, c, d))"
  using assms by (simp add: classifyIpv4.simps block_class_def special_blocks_def in_blocks in_blocks_part) auto

section \<open>The spellings of an address\<close>

lemma split_char_nonempty [simp]: "split_char c s \<noteq> []"
  by (cases s) auto

lemma split_char_part: "c \<notin> set p \<Longrightarrow> split_char c (p @ c # r) = p # split_char c r"
  by (induction p) auto

lemma split_char_whole: "c \<notin> set p \<Longrightarrow> split_char c p = [p]"
  by (induction p) auto

lemma nat_to_dec_chars: "c \<in> set (nat_to_dec n) \<Longrightarrow> is_digit c"
  using nat_to_dec_digits by (auto simp: list_all_iff)

lemma nat_to_dec_no_dot [simp]: "CHR ''.'' \<notin> set (nat_to_dec n)"
  using nat_to_dec_chars[of "CHR ''.''" n] by (auto simp: is_digit_def)

lemma octet_roundtrip:
  assumes "n < 256" shows "octet_of (nat_to_dec n) = Some n"
proof -
  have "length (nat_to_dec n) \<le> 3"
    using assms by (simp add: nat_to_dec.simps[of n] nat_to_dec.simps[of "n div 10"] nat_to_dec.simps[of "n div 10 div 10"] del: div_mult2_eq[symmetric])
  moreover have "n = 0 \<or> hd (nat_to_dec n) \<noteq> CHR ''0''" using nat_to_dec_hd by blast
  ultimately have "octet_text (nat_to_dec n)" using nat_to_dec_digits[of n] by (auto simp: octet_text_def)
  then show ?thesis using assms by (simp add: octet_of_def)
qed

lemma parse_dots: "a < 256 \<Longrightarrow> b < 256 \<Longrightarrow> c < 256 \<Longrightarrow> d < 256 \<Longrightarrow> parseIpv4 (join_dots a b c d) = Some (a, b, c, d)"
  by (simp add: parseIpv4.simps join_dots_def split_char_part split_char_whole octet_roundtrip)

lemma octet_ofD: "octet_of s = Some n \<Longrightarrow> n < 256 \<and> s = nat_to_dec n"
proof -
  assume s: "octet_of s = Some n"
  then have t: "octet_text s" "n = dec_to_nat s" "n < 256" by (auto simp: octet_of_def split: if_splits)
  then have "s = ''0'' \<or> (s \<noteq> [] \<and> list_all is_digit s \<and> hd s \<noteq> CHR ''0'')" by (auto simp: octet_text_def)
  then show ?thesis using t nat_to_dec_dec_to_nat[of s] by (auto simp: is_digit_def)
qed

lemma split_char_join: "concat (map (\<lambda>p. c # p) (split_char c s)) = c # s"
proof (induction s)
  case (Cons x s)
  obtain p ps where "split_char c s = p # ps" by (cases "split_char c s") auto
  then show ?case using Cons by auto
qed simp

lemma parse_dotsD:
  assumes "parseIpv4 s = Some (a, b, c, d)"
  shows "s = join_dots a b c d \<and> a < 256 \<and> b < 256 \<and> c < 256 \<and> d < 256"
proof -
  obtain p q r t where parts: "split_char (CHR ''.'') s = [p, q, r, t]"
    "octet_of p = Some a" "octet_of q = Some b" "octet_of r = Some c" "octet_of t = Some d"
    using assms by (auto simp: parseIpv4.simps split: list.splits option.splits)
  then show ?thesis using split_char_join[of "CHR ''.''" s] octet_ofD[OF parts(2)] octet_ofD[OF parts(3)] octet_ofD[OF parts(4)] octet_ofD[OF parts(5)]
    by (simp add: join_dots_def)
qed


lemma dots_chars: "x \<in> set (join_dots a b c d) \<Longrightarrow> is_digit x \<or> x = CHR ''.''"
  by (auto simp: join_dots_def dest: nat_to_dec_chars)

lemma no_dots_parse: "x \<in> set s \<Longrightarrow> \<not> is_digit x \<Longrightarrow> x \<noteq> CHR ''.'' \<Longrightarrow> parseIpv4 s = None"
  using parse_dotsD dots_chars by (cases "parseIpv4 s") fastforce+

definition plain :: "char \<Rightarrow> bool" where
  "plain x \<longleftrightarrow> ip_hex_digit x \<or> x = CHR ''.'' \<or> x = CHR '':''"

lemma plain_inside: "plain x \<Longrightarrow> \<not> js_space x \<and> x \<noteq> CHR ''['' \<and> x \<noteq> CHR '']''"
  by (auto simp: plain_def ip_hex_digit_def js_space_def Let_def)

lemma plain_trim:
  assumes "list_all plain s" "s \<noteq> []"
  shows "unbracket (js_trim s) = s"
proof -
  have ends: "plain (hd s)" "plain (last s)" using assms by (auto simp: list_all_iff)
  have keeps: "dropWhile js_space t = t" if "t \<noteq> []" "plain (hd t)" for t
    using that plain_inside by (cases t) auto
  have "js_trim s = s" unfolding js_trim_def using keeps[OF assms(2) ends(1)] keeps[of "rev s"] assms(2) ends(2) by (simp add: hd_rev)
  then show ?thesis using ends plain_inside by (auto simp: unbracket_def)
qed

lemma digit_plain: "is_digit x \<Longrightarrow> plain x"
  by (auto simp: plain_def ip_hex_digit_def is_digit_def)

lemma dots_plain: "list_all plain (join_dots a b c d)"
  using dots_chars[of _ a b c d] digit_plain by (fastforce simp: list_all_iff plain_def[of "CHR ''.''"])

lemma prefix_plain: "mapped_prefix p \<Longrightarrow> list_all plain p \<and> CHR '':'' \<in> set p \<and> length p = 7"
proof -
  assume p: "mapped_prefix p"
  then have parts: "take 2 p = ''::''" "drop 6 p = '':''" "length p = 7" "list_all (\<lambda>c. c \<in> {CHR ''f'', CHR ''F''}) (take 4 (drop 2 p))"
    by (auto simp: mapped_prefix_def)
  have "list_all plain (take 4 (drop 2 p))"
    using parts(4) by (rule list.pred_mono_strong) (auto simp: plain_def ip_hex_digit_def)
  then have "list_all plain (''::'' @ take 4 (drop 2 p) @ '':'') \<and> CHR '':'' \<in> set (''::'' @ take 4 (drop 2 p) @ '':'')" by (simp add: plain_def)
  moreover have "''::'' @ take 4 (drop 2 p) @ '':'' = p"
    using append_take_drop_id[of 2 p] append_take_drop_id[of 4 "drop 2 p"] parts by simp
  ultimately show ?thesis using parts(3) by (simp only:)
qed

lemma hex_bounds:
  assumes "hex_group g" shows "hex_to_nat g < 65536" "list_all ip_hex_digit g" "g \<noteq> []"
proof -
  have val: "ip_hex_val x < 16" if "ip_hex_digit x" for x using that by (auto simp: ip_hex_digit_def ip_hex_val_def Let_def)
  have "foldl (\<lambda>acc c. 16 * acc + ip_hex_val c) n s < (n + 1) * 16 ^ length s" if "list_all ip_hex_digit s" for n s
    using that
  proof (induction s arbitrary: n)
    case (Cons x s)
    then have "foldl (\<lambda>acc c. 16 * acc + ip_hex_val c) (16 * n + ip_hex_val x) s < (16 * n + ip_hex_val x + 1) * 16 ^ length s" by simp
    also have "\<dots> \<le> (16 * n + 16) * 16 ^ length s" using val[of x] Cons.prems by (intro mult_right_mono) auto
    finally show ?case by (simp add: algebra_simps)
  qed simp
  from this[of g 0] have "hex_to_nat g < 16 ^ length g" using assms by (simp add: hex_to_nat_def hex_group_def)
  also have "(16::nat) ^ length g \<le> 16 ^ 4" using assms by (intro power_increasing) (auto simp: hex_group_def)
  finally show "hex_to_nat g < 65536" by simp
qed (use assms in \<open>auto simp: hex_group_def\<close>)

lemma hex_chars: "ip_hex_digit x \<Longrightarrow> x \<noteq> CHR '':'' \<and> x \<noteq> CHR ''.'' \<and> plain x"
  by (auto simp: ip_hex_digit_def plain_def Let_def)

lemma byte_parts:
  fixes a b :: nat assumes "b < 256" shows "drop_bit 8 (a * 256 + b) = a" "(a * 256 + b) AND 255 = b"
proof -
  show "drop_bit 8 (a * 256 + b) = a" using div_block[OF assms] by (simp add: drop_bit_eq_div)
  have "(a * 256 + b) AND mask 8 = (a * 256 + b) mod 2 ^ 8" by (simp only: take_bit_eq_mask[symmetric] take_bit_eq_mod)
  then show "(a * 256 + b) AND 255 = b" using assms by (simp add: mask_eq_exp_minus_1)
qed

lemma trim_dots: "unbracket (js_trim (join_dots a b c d)) = join_dots a b c d"
  by (rule plain_trim[OF dots_plain]) (simp add: join_dots_def)

lemma classify_dots:
  assumes "a < 256" "b < 256" "c < 256" "d < 256"
  shows "classifyAddress (join_dots a b c d) = block_class (addr (a, b, c, d))"
proof -
  have "join_dots a b c d \<noteq> []" by (simp add: join_dots_def)
  then show ?thesis unfolding classifyAddress_def trim_dots Let_def by (simp add: parse_dots[OF assms] classifyIpv4_blocks[OF assms])
qed

lemma parse_single:
  assumes "split_colons t = [t]" "t \<noteq> []" "list_all (\<lambda>c. ip_hex_digit c \<or> c = CHR '':'') t"
    and "groups_of (split_char (CHR '':'') t) = Some vs" "length vs = 8"
  shows "parseIpv6 t = Some vs"
  using assms by (simp add: parseIpv6_def toGroups_def)

text \<open>
  A mapped address spelled out in full is not unwrapped: whatever IPv4 address its last two groups carry, loopback and
  private ones included, the classifier calls it public.
\<close>
theorem spelled_out_mapped_is_public:
  assumes "hex_group g" "hex_group h"
  shows "isPublicAddress (''0:0:0:0:0:ffff:'' @ g @ CHR '':'' # h)"
proof -
  let ?p = "''0:0:0:0:0:ffff:''" let ?t = "?p @ g @ CHR '':'' # h"
  have hex: "x \<noteq> CHR '':'' \<and> x \<noteq> CHR ''.'' \<and> plain x \<and> ip_hex_digit x" if "x \<in> set g \<union> set h" for x
    using that hex_bounds(2)[OF assms(1)] hex_bounds(2)[OF assms(2)] hex_chars by (auto simp: list_all_iff)
  have chars: "list_all (\<lambda>c. ip_hex_digit c \<or> c = CHR '':'') ?t" "list_all plain ?t"
    using hex by (auto simp: list_all_iff plain_def ip_hex_digit_def)
  then have trim: "unbracket (js_trim ?t) = ?t" using plain_trim[of ?t] by simp
  have none: "parseIpv4 ?t = None" using no_dots_parse[of "CHR '':''" ?t] by (simp add: is_digit_def)
  have un: "unmapIpv4 ?t = None" by (simp add: unmapIpv4_def mapped_prefix_def)
  have gh: "CHR '':'' \<notin> set g" "CHR '':'' \<notin> set h" "g \<noteq> []" "h \<noteq> []" using hex assms by (auto simp: hex_group_def)
  have colons: "split_colons (q @ CHR '':'' # r) = (q @ CHR '':'' # hd (split_colons r)) # tl (split_colons r)"
    if "CHR '':'' \<notin> set q" "r \<noteq> []" "hd r \<noteq> CHR '':''" for q r
    using that
  proof (induction q rule: split_colons.induct)
    case 1
    then show ?case by (cases r) auto
  next
    case (2 x)
    then show ?case by (cases r) auto
  qed auto
  have whole: "split_colons q = [q]" if "CHR '':'' \<notin> set q" for q using that by (induction q rule: split_colons.induct) auto
  have step: "split_colons (q @ CHR '':'' # r) = [q @ CHR '':'' # r] \<and> q @ CHR '':'' # r \<noteq> [] \<and> hd (q @ CHR '':'' # r) \<noteq> CHR '':''"
    if "split_colons r = [r] \<and> r \<noteq> [] \<and> hd r \<noteq> CHR '':''" "CHR '':'' \<notin> set q" "q \<noteq> []" for q r
    using that colons[of q r] by (cases q) auto
  have h: "split_colons h = [h] \<and> h \<noteq> [] \<and> hd h \<noteq> CHR '':''" using gh whole by (cases h) auto
  have z: "CHR '':'' \<notin> set ''0''" "''0'' \<noteq> []" "CHR '':'' \<notin> set ''ffff''" "''ffff'' \<noteq> []" by simp_all
  have "?t = ''0'' @ CHR '':'' # ''0'' @ CHR '':'' # ''0'' @ CHR '':'' # ''0'' @ CHR '':'' # ''0'' @ CHR '':'' # ''ffff'' @ CHR '':'' # g @ CHR '':'' # h" by simp
  with step[OF step[OF step[OF step[OF step[OF step[OF step[OF h gh(1,3)] z(3,4)] z(1,2)] z(1,2)] z(1,2)] z(1,2)] z(1,2)]
  have "split_colons ?t = [?t]" by argo
  moreover have "split_char (CHR '':'') ?t = [''0'', ''0'', ''0'', ''0'', ''0'', ''ffff'', g, h]"
    using split_char_part[OF gh(1), of h] split_char_whole[OF gh(2)] by simp
  moreover have "hex_group ''0''" "hex_group ''ffff''" "hex_to_nat ''0'' = 0" "hex_to_nat ''ffff'' = 65535"
    by (simp_all add: hex_group_def ip_hex_digit_def hex_to_nat_def ip_hex_val_def)
  ultimately have "groups_of (split_char (CHR '':'') ?t) = Some [0, 0, 0, 0, 0, 65535, hex_to_nat g, hex_to_nat h]" "split_colons ?t = [?t]"
    using assms by (simp_all only: groups_of.simps if_True not_True_eq_False if_False option.map)
  from parse_single[OF this(2) _ chars(1) this(1)]
  have "parseIpv6 ?t = Some [0, 0, 0, 0, 0, 65535, hex_to_nat g, hex_to_nat h]" by simp
  then show ?thesis unfolding isPublicAddress_def classifyAddress_def trim Let_def none un by (simp add: classify_groups_def)
qed

text \<open>
  C34. An IPv4 address is given the class of the special-purpose block it lies in, public only outside all of them, in each of
  three spellings: plain, behind \<open>::ffff:\<close> with dots, and behind \<open>::ffff:\<close> as two groups of one
  to four hexadecimal digits. The prefix and the digits may be in either case. The same address with the prefix written out
  as \<open>0:0:0:0:0:ffff:\<close> is not read as IPv4 and is called public whatever block it lies in.
\<close>
theorem address_class_exact:
  assumes "a < 256" "b < 256" "c < 256" "d < 256" and "mapped_prefix p" and "hex_group g" "hex_group h"
    and "hex_to_nat g = a * 256 + b" "hex_to_nat h = c * 256 + d"
  shows "classifyAddress (join_dots a b c d) = block_class (addr (a, b, c, d))
    \<and> classifyAddress (p @ join_dots a b c d) = block_class (addr (a, b, c, d))
    \<and> classifyAddress (p @ g @ CHR '':'' # h) = block_class (addr (a, b, c, d))
    \<and> classifyAddress (''0:0:0:0:0:ffff:'' @ g @ CHR '':'' # h) = Public"
proof -
  note dots = parse_dots[OF assms(1-4)]
  note p = prefix_plain[OF assms(5)]
  have nonempty: "join_dots a b c d \<noteq> []" "p \<noteq> []" using p by (auto simp: join_dots_def)
  have colon: "\<not> is_digit (CHR '':'')" "CHR '':'' \<noteq> CHR ''.''" by (simp_all add: is_digit_def)
  have tail: "list_all (\<lambda>c. ip_hex_digit c \<or> c = CHR ''.'' \<or> c = CHR '':'') (join_dots a b c d)"
    using dots_plain by (auto simp: list_all_iff plain_def)
  have dot: "CHR ''.'' \<in> set (join_dots a b c d)" by (simp add: join_dots_def)
  have two: "classifyAddress (p @ join_dots a b c d) = classifyIpv4 (a, b, c, d)"
  proof -
    have "list_all plain (p @ join_dots a b c d)" using p dots_plain by simp
    then have trim: "unbracket (js_trim (p @ join_dots a b c d)) = p @ join_dots a b c d" using nonempty plain_trim by blast
    have none: "parseIpv4 (p @ join_dots a b c d) = None" using no_dots_parse[of "CHR '':''"] p colon by simp
    have un: "unmapIpv4 (p @ join_dots a b c d) = Some (join_dots a b c d)"
      using p assms(5) tail dot nonempty by (simp add: unmapIpv4_def dots)
    show ?thesis unfolding classifyAddress_def trim Let_def none un by (simp add: nonempty dots)
  qed
  have three: "classifyAddress (p @ g @ CHR '':'' # h) = classifyIpv4 (a, b, c, d)"
  proof -
    let ?t = "g @ CHR '':'' # h"
    have hex: "x \<noteq> CHR '':'' \<and> x \<noteq> CHR ''.'' \<and> plain x \<and> ip_hex_digit x" if "x \<in> set g \<union> set h" for x
      using that hex_bounds(2)[OF assms(6)] hex_bounds(2)[OF assms(7)] hex_chars by (auto simp: list_all_iff)
    have "list_all plain (p @ ?t)" using p hex by (auto simp: list_all_iff plain_def)
    then have trim: "unbracket (js_trim (p @ ?t)) = p @ ?t" using nonempty plain_trim by blast
    have none: "parseIpv4 (p @ ?t) = None" using no_dots_parse[of "CHR '':''"] colon by simp
    have "CHR '':'' \<notin> set g" "CHR '':'' \<notin> set h" using hex by blast+
    then have split: "split_char (CHR '':'') ?t = [g, h]" by (simp add: split_char_part split_char_whole)
    have chars: "list_all (\<lambda>c. ip_hex_digit c \<or> c = CHR ''.'' \<or> c = CHR '':'') ?t" "CHR ''.'' \<notin> set ?t" using hex by (auto simp: list_all_iff)
    have un: "unmapIpv4 (p @ ?t) = Some (join_dots a b c d)"
      using p assms chars by (simp add: unmapIpv4_def split byte_parts Let_def)
    show ?thesis unfolding classifyAddress_def trim Let_def none un by (simp add: nonempty dots)
  qed
  have four: "classifyAddress (''0:0:0:0:0:ffff:'' @ g @ CHR '':'' # h) = Public"
    using spelled_out_mapped_is_public[OF assms(6,7)] by (simp only: isPublicAddress_def)
  show ?thesis unfolding classify_dots[OF assms(1-4)] two three four classifyIpv4_blocks[OF assms(1-4)] by simp
qed


section \<open>What passes as public\<close>

text \<open>The octets a mapped address carries.\<close>

definition mapped_octets :: "string \<Rightarrow> nat \<times> nat \<times> nat \<times> nat \<Rightarrow> bool" where
  "mapped_octets t x \<longleftrightarrow> mapped_prefix (take 7 t) \<and> (case x of (a, b, c, d) \<Rightarrow> drop 7 t = join_dots a b c d
     \<or> (\<exists>g h. drop 7 t = g @ CHR '':'' # h \<and> hex_group g \<and> hex_group h \<and> hex_to_nat g = a * 256 + b \<and> hex_to_nat h = c * 256 + d)
     \<or> (hex_group (drop 7 t) \<and> hex_to_nat (drop 7 t) = c * 256 + d \<and> a = 0 \<and> b = 0))"

lemma byte_split: "n < 65536 \<Longrightarrow> drop_bit 8 n < 256 \<and> n AND 255 < 256 \<and> n = drop_bit 8 n * 256 + (n AND (255::nat))"
proof -
  assume n: "n < 65536"
  have "n AND mask 8 = n mod 2 ^ 8" by (simp only: take_bit_eq_mask[symmetric] take_bit_eq_mod)
  then have "n AND 255 = n mod 256" by (simp add: mask_eq_exp_minus_1)
  moreover have "drop_bit 8 n = n div 256" by (simp add: drop_bit_eq_div)
  ultimately show ?thesis using n by simp
qed

lemma groups_ofD: "groups_of gs = Some vs \<Longrightarrow> list_all hex_group gs \<and> vs = map hex_to_nat gs"
  by (induction gs arbitrary: vs) (auto split: if_splits)

lemma unmapD:
  assumes "unmapIpv4 t = Some m"
  shows "\<exists>a b c d. a < 256 \<and> b < 256 \<and> c < 256 \<and> d < 256 \<and> m = join_dots a b c d \<and> mapped_octets t (a, b, c, d)"
proof (cases "CHR ''.'' \<in> set (drop 7 t)")
  case True
  then obtain x where x: "m = drop 7 t" "parseIpv4 m = Some x" "mapped_prefix (take 7 t)"
    using assms by (auto simp: unmapIpv4_def Let_def split: if_splits)
  obtain a b c d where "x = (a, b, c, d)" by (cases x)
  with x parse_dotsD[of m a b c d] show ?thesis by (auto simp: mapped_octets_def)
next
  case False
  then have pre: "mapped_prefix (take 7 t)" and two: "\<not> 2 < length (split_char (CHR '':'') (drop 7 t))"
    and some: "groups_of (split_char (CHR '':'') (drop 7 t)) \<noteq> None"
    using assms by (auto simp: unmapIpv4_def Let_def split: if_splits option.splits)
  from some obtain vs where vs: "groups_of (split_char (CHR '':'') (drop 7 t)) = Some vs" by blast
  have m: "m = (let (hi, lo) = (if length vs = 2 then (vs ! 0, vs ! 1) else (0, vs ! 0)) in join_dots (drop_bit 8 hi) (hi AND 255) (drop_bit 8 lo) (lo AND 255))"
    using assms False vs by (simp add: unmapIpv4_def Let_def split: if_splits)
  have len: "1 \<le> length (split_char (CHR '':'') (drop 7 t))" "length (split_char (CHR '':'') (drop 7 t)) \<le> 2"
    using two by (simp_all add: Suc_le_eq)
  from groups_ofD[OF vs] len consider (one) g where "split_char (CHR '':'') (drop 7 t) = [g]" "hex_group g" "vs = [hex_to_nat g]"
    | (two) g h where "split_char (CHR '':'') (drop 7 t) = [g, h]" "hex_group g" "hex_group h" "vs = [hex_to_nat g, hex_to_nat h]"
    by (cases "split_char (CHR '':'') (drop 7 t)") (auto simp: length_Suc_conv le_Suc_eq)
  then show ?thesis
  proof cases
    case one
    have "drop 7 t = g" using split_char_join[of "CHR '':''" "drop 7 t"] one(1) by simp
    moreover note byte_split[OF hex_bounds(1)[OF one(2)]]
    ultimately show ?thesis using m one pre
      by (intro exI[of _ 0] exI[of _ "drop_bit 8 (hex_to_nat g)"] exI[of _ "hex_to_nat g AND 255"]) (simp add: mapped_octets_def)
  next
    case two
    have "drop 7 t = g @ CHR '':'' # h" using split_char_join[of "CHR '':''" "drop 7 t"] two(1) by simp
    moreover note byte_split[OF hex_bounds(1)[OF two(2)]] byte_split[OF hex_bounds(1)[OF two(3)]]
    ultimately show ?thesis using m two pre
      by (intro exI[of _ "drop_bit 8 (hex_to_nat g)"] exI[of _ "hex_to_nat g AND 255"] exI[of _ "drop_bit 8 (hex_to_nat h)"] exI[of _ "hex_to_nat h AND 255"])
        (auto simp: mapped_octets_def)
  qed
qed

lemma toGroups_bounds:
  assumes "toGroups p = Some vs" shows "\<forall>v\<in>set vs. v < 65536"
proof (cases "p = []")
  case False
  then have "groups_of (split_char (CHR '':'') p) = Some vs" using assms by (simp add: toGroups_def)
  from groups_ofD[OF this] show ?thesis using hex_bounds(1) by (auto simp: list_all_iff)
qed (use assms in \<open>simp add: toGroups_def\<close>)

lemma parseIpv6_shape: "parseIpv6 t = Some gs \<Longrightarrow> length gs = 8 \<and> (\<forall>v\<in>set gs. v < 65536)"
  by (fastforce simp: parseIpv6_def split: if_splits list.splits option.splits dest!: toGroups_bounds)

lemma high_bits:
  fixes n :: nat assumes "n < 65536"
  shows "n AND 0xfe00 = n div 512 * 512" "n AND 0xffc0 = n div 64 * 64" "n AND 0xff00 = n div 256 * 256"
proof -
  have hi: "n AND push_bit k (mask (16 - k)) = n div 2 ^ k * 2 ^ k" if "k \<le> 16" for k
  proof -
    have "n AND push_bit k (mask (16 - k)) = push_bit k (drop_bit k n)"
    proof (rule bit_eqI)
      fix i
      have "i < 16" if "bit n i"
      proof (rule ccontr)
        assume "\<not> i < 16"
        then have "(2::nat) ^ 16 \<le> 2 ^ i" by (intro power_increasing) auto
        then have "n div 2 ^ i = 0" using assms by simp
        then show False using that by (simp add: bit_iff_odd)
      qed
      then show "bit (n AND push_bit k (mask (16 - k))) i = bit (push_bit k (drop_bit k n)) i"
        using that by (auto simp: bit_simps)
    qed
    then show ?thesis by (simp add: push_bit_eq_mult drop_bit_eq_div)
  qed
  have "push_bit 9 (mask 7) = (0xfe00::nat)" "push_bit 6 (mask 10) = (0xffc0::nat)" "push_bit 8 (mask 8) = (0xff00::nat)"
    by (simp_all add: mask_eq_exp_minus_1 push_bit_eq_mult)
  then show "n AND 0xfe00 = n div 512 * 512" "n AND 0xffc0 = n div 64 * 64" "n AND 0xff00 = n div 256 * 256"
    using hi[of 9] hi[of 6] hi[of 8] by simp_all
qed

text \<open>
  The classifier fails closed: what it lets pass as public is, without blanks and brackets, the canonical text of an
  IPv4 address outside every special-purpose block, such an address mapped into IPv6, or eight IPv6 groups that are
  neither the unspecified nor the loopback address and whose first lies outside fc00::/7, fe80::/10 and ff00::/8.
\<close>
theorem public_fails_closed:
  assumes "isPublicAddress s"
  shows "(\<exists>a b c d. a < 256 \<and> b < 256 \<and> c < 256 \<and> d < 256 \<and> block_class (addr (a, b, c, d)) = Public
      \<and> (unbracket (js_trim s) = join_dots a b c d \<or> mapped_octets (unbracket (js_trim s)) (a, b, c, d)))
    \<or> (\<exists>gs. parseIpv6 (unbracket (js_trim s)) = Some gs \<and> length gs = 8 \<and> (\<forall>g\<in>set gs. g < 65536)
      \<and> gs \<noteq> replicate 8 0 \<and> gs \<noteq> replicate 7 0 @ [1]
      \<and> gs ! 0 div 512 \<noteq> 0xfc00 div 512 \<and> gs ! 0 div 64 \<noteq> 0xfe80 div 64 \<and> gs ! 0 div 256 \<noteq> 0xff00 div 256)"
proof -
  let ?t = "unbracket (js_trim s)"
  have pub: "classifyAddress s = Public" using assms by (simp add: isPublicAddress_def)
  consider (v4) x where "parseIpv4 ?t = Some x" "classifyIpv4 x = Public"
    | (mapped) m where "unmapIpv4 ?t = Some m" "\<And>x. parseIpv4 m = Some x \<Longrightarrow> classifyIpv4 x = Public" "m \<noteq> []"
    | (v6) gs where "parseIpv6 ?t = Some gs" "classify_groups gs = Public"
    using pub by (auto simp: classifyAddress_def Let_def split: if_splits option.splits)
  then show ?thesis
  proof cases
    case v4
    obtain a b c d where x: "x = (a, b, c, d)" by (cases x)
    from parse_dotsD[OF v4(1)[unfolded x]] show ?thesis using v4(2) classifyIpv4_blocks unfolding x by metis
  next
    case mapped
    from unmapD[OF mapped(1)] obtain a b c d where m: "a < 256" "b < 256" "c < 256" "d < 256" "m = join_dots a b c d" "mapped_octets ?t (a, b, c, d)"
      by blast
    have "block_class (addr (a, b, c, d)) = Public" using mapped(2) parse_dots classifyIpv4_blocks m by metis
    then show ?thesis using m by blast
  next
    case v6
    note shape = parseIpv6_shape[OF v6(1)]
    then have first: "gs ! 0 < 65536" by simp
    have zeros: "\<not> list_all (\<lambda>g. g = 0) gs" and one: "\<not> (list_all (\<lambda>g. g = 0) (take 7 gs) \<and> gs ! 7 = 1)"
      and bits: "gs ! 0 AND 0xfe00 \<noteq> 0xfc00" "gs ! 0 AND 0xffc0 \<noteq> 0xfe80" "gs ! 0 AND 0xff00 \<noteq> 0xff00"
      using v6(2) by (auto simp: classify_groups_def Let_def split: if_splits)
    have "gs \<noteq> replicate 8 0" using zeros by (auto simp: list_all_iff)
    moreover have "gs \<noteq> replicate 7 0 @ [1]" using one by (auto simp: list_all_iff nth_append)
    moreover have "gs ! 0 div 512 \<noteq> 0xfc00 div 512" "gs ! 0 div 64 \<noteq> 0xfe80 div 64" "gs ! 0 div 256 \<noteq> 0xff00 div 256"
      using bits unfolding high_bits[OF first] by auto
    ultimately show ?thesis using v6(1) shape by blast
  qed
qed

section \<open>Requests go to public addresses\<close>

text \<open>A URL that may be requested at a hop: http, and the resolver names a public address for its host.\<close>

definition guarded :: "network \<Rightarrow> nat \<Rightarrow> string \<Rightarrow> bool" where
  "guarded nw hop url \<longleftrightarrow> (\<exists>p a. nw_url nw url = Some p \<and> up_protocol p \<in> {''http:'', ''https:''}
     \<and> nw_lookup nw hop (unbracket (up_hostname p)) = Some a \<and> isPublicAddress a)"

lemma validate_guarded: "validateExternalUrl nw hop url = None \<longleftrightarrow> guarded nw hop url"
  by (auto simp: validateExternalUrl_def guarded_def isPrivateIp_def isPublicAddress_def split: option.splits)

lemma follow_guarded:
  assumes "follow nw left hop url = (sent, result)"
  shows "length sent \<le> left
    \<and> (\<forall>i < length sent. guarded nw (hop + i) (sent ! i)
        \<and> (i = 0 \<longrightarrow> sent ! i = url)
        \<and> (0 < i \<longrightarrow> (\<exists>r l. nw_fetch nw (hop + i - 1) (sent ! (i - 1)) = Some r \<and> rs_status r \<in> {300..<400}
             \<and> rs_location r = Some l \<and> nw_join nw l (sent ! (i - 1)) = Some (sent ! i))))
    \<and> (\<forall>r. result = Inr r \<longrightarrow> sent \<noteq> [] \<and> nw_fetch nw (hop + length sent - 1) (last sent) = Some r
        \<and> (rs_status r \<notin> {300..<400} \<or> \<not> truthy (rs_location r)))"
  using assms
proof (induction left arbitrary: hop url sent result)
  case (Suc left)
  show ?case
  proof (cases "guarded nw hop url")
    case ok: True
    then have valid: "validateExternalUrl nw hop url = None" by (simp add: validate_guarded)
    show ?thesis
    proof (cases "\<exists>r l u. nw_fetch nw hop url = Some r \<and> rs_status r \<in> {300..<400} \<and> rs_location r = Some l \<and> l \<noteq> [] \<and> nw_join nw l url = Some u")
      case False
      have "sent = [url] \<and> (\<forall>r. result = Inr r \<longrightarrow> nw_fetch nw hop url = Some r \<and> (rs_status r \<notin> {300..<400} \<or> \<not> truthy (rs_location r)))"
        using Suc.prems valid False by (cases "nw_fetch nw hop url"; cases "rs_location (the (nw_fetch nw hop url))") (auto split: option.splits if_splits)
      then show ?thesis using ok by auto
    next
      case True
      then obtain r l u where r: "nw_fetch nw hop url = Some r" "rs_status r \<in> {300..<400}" "rs_location r = Some l" "l \<noteq> []" "nw_join nw l url = Some u"
        by blast
      obtain rest where rest: "follow nw left (Suc hop) u = (rest, result)" "sent = url # rest"
        using Suc.prems valid r by (auto split: prod.splits)
      note IH = Suc.IH[OF rest(1)]
      show ?thesis
      proof (intro conjI allI impI)
        show "length sent \<le> Suc left" using IH rest(2) by simp
      next
        fix i assume i: "i < length sent"
        show "guarded nw (hop + i) (sent ! i)" "i = 0 \<Longrightarrow> sent ! i = url"
          using IH i ok rest(2) by (cases i; auto)+
        assume "0 < i"
        then obtain k where k: "i = Suc k" "k < length rest" using i rest(2) by (cases i) auto
        show "\<exists>r l. nw_fetch nw (hop + i - 1) (sent ! (i - 1)) = Some r \<and> rs_status r \<in> {300..<400}
             \<and> rs_location r = Some l \<and> nw_join nw l (sent ! (i - 1)) = Some (sent ! i)"
          using IH k r rest(2) by (cases k) auto
      next
        fix q assume q: "result = Inr q"
        then show "sent \<noteq> []" using rest(2) by simp
        have "rest \<noteq> []" using IH q by blast
        then show "nw_fetch nw (hop + length sent - 1) (last sent) = Some q" using IH q rest(2) by auto
        show "rs_status q \<notin> {300..<400} \<or> \<not> truthy (rs_location q)" using IH q by blast
      qed
    qed
  next
    case False
    then obtain err where "validateExternalUrl nw hop url = Some err" using validate_guarded by fastforce
    then show ?thesis using Suc.prems by auto
  qed
qed simp

text \<open>
  C17. No redirect leads inside: a fetch of a foreign URL sends at most six requests, each to a URL whose host the resolver
  named a public address when that hop was validated, the first the URL asked for and every other the one the answer
  before it pointed to; and the answer returned is that of the last request, not a redirect it could have followed.
\<close>
theorem redirects_stay_outside:
  assumes "safeFetch nw url = (sent, result)"
  shows "length sent \<le> 6
    \<and> (\<forall>i < length sent. guarded nw i (sent ! i)
        \<and> (i = 0 \<longrightarrow> sent ! i = url)
        \<and> (0 < i \<longrightarrow> (\<exists>r l. nw_fetch nw (i - 1) (sent ! (i - 1)) = Some r \<and> rs_status r \<in> {300..<400}
             \<and> rs_location r = Some l \<and> nw_join nw l (sent ! (i - 1)) = Some (sent ! i))))
    \<and> (\<forall>r. result = Inr r \<longrightarrow> sent \<noteq> [] \<and> nw_fetch nw (length sent - 1) (last sent) = Some r
        \<and> (rs_status r \<notin> {300..<400} \<or> \<not> truthy (rs_location r)))"
  using follow_guarded[OF assms[unfolded safeFetch_def]] by (simp add: MAX_REDIRECTS_def)

text \<open>
  A peer is asked only where it may be: a request to a peer is sent at most once, follows no redirect, and goes out
  only for an origin without a path, whose host, when nobody here approved it and private peers are off, is public.
\<close>
theorem peer_request_guarded:
  "\<exists>sent result. federationFetch nw allowPrivatePeers origin path trust = (sent, result)
    \<and> (sent = [] \<or> (\<exists>p target. sent = [target] \<and> nw_join nw path origin = Some target \<and> nw_url nw origin = Some p
        \<and> up_protocol p \<in> {''http:'', ''https:''} \<and> up_pathname p = ''/'' \<and> up_search p = [] \<and> up_hash p = []
        \<and> (trust = Approved \<or> allowPrivatePeers \<or> guarded nw 0 origin)))"
  by (auto simp: federationFetch_def assertPeerOriginAllowed_def guarded_def isPublicAddress_def split: option.splits if_splits)

section \<open>Witnesses\<close>

lemma address_class_exact_witness:
  "classifyAddress (''::FFFF:'' @ ''7f00'' @ CHR '':'' # ''1'') = Loopback"
proof -
  have "mapped_prefix ''::FFFF:''" "hex_group ''7f00''" "hex_group ''1''" "hex_to_nat ''7f00'' = 127 * 256 + 0" "hex_to_nat ''1'' = 0 * 256 + 1"
    by (simp_all add: mapped_prefix_def hex_group_def ip_hex_digit_def hex_to_nat_def ip_hex_val_def)
  then have "classifyAddress (''::FFFF:'' @ ''7f00'' @ CHR '':'' # ''1'') = block_class (addr (127, 0, 0, 1))"
    by (intro conjunct1[OF conjunct2[OF conjunct2[OF address_class_exact[of 127 0 0 1 "''::FFFF:''" "''7f00''" "''1''"]]]]) simp_all
  also have "\<dots> = Loopback" by (simp add: block_class_def special_blocks_def in_block_def addr_def)
  finally show ?thesis .
qed

lemma public_fails_closed_witness:
  "(\<exists>a b c d. block_class (addr (a, b, c, d)) = Public \<and> (''8.8.8.8'' = join_dots a b c d \<or> mapped_octets ''8.8.8.8'' (a, b, c, d)))
    \<or> (\<exists>gs. parseIpv6 ''8.8.8.8'' = Some gs)"
proof -
  have dots: "join_dots 8 8 8 8 = ''8.8.8.8''" by code_simp
  have public_block: "block_class (addr (8, 8, 8, 8)) = Public" by (simp add: block_class_def special_blocks_def in_block_def addr_def)
  have "isPublicAddress ''8.8.8.8''"
    using classify_dots[of 8 8 8 8] unfolding dots isPublicAddress_def by (simp only: public_block)
  moreover have "unbracket (js_trim ''8.8.8.8'') = ''8.8.8.8''" using trim_dots[of 8 8 8 8] unfolding dots .
  ultimately show ?thesis using public_fails_closed[of "''8.8.8.8''"] by metis
qed

lemma spelled_out_mapped_witness: "isPublicAddress (''0:0:0:0:0:ffff:'' @ ''7f00'' @ CHR '':'' # ''1'')"
  by (rule spelled_out_mapped_is_public) (simp_all add: hex_group_def ip_hex_digit_def)

definition example_network :: network where
  "example_network = \<lparr>nw_url = (\<lambda>u. Some \<lparr>up_protocol = ''https:'', up_hostname = u, up_pathname = ''/'', up_search = [], up_hash = []\<rparr>),
     nw_join = (\<lambda>l u. Some l), nw_lookup = (\<lambda>n h. if h = ''a'' then Some ''8.8.8.8'' else if h = ''b'' then Some ''10.0.0.1'' else None),
     nw_fetch = (\<lambda>n u. Some \<lparr>rs_status = 302, rs_location = Some ''b''\<rparr>)\<rparr>"

lemma redirects_stay_outside_witness:
  "guarded example_network 0 (fst (safeFetch example_network ''a'') ! 0) \<and> safeFetch example_network ''a'' = ([''a''], Inl PrivateAddress)"
proof -
  have s: "safeFetch example_network ''a'' = ([''a''], Inl PrivateAddress)" by code_simp
  from redirects_stay_outside[OF s] show ?thesis unfolding s by simp
qed

end
