(* ===== verification/Invites.thy ===== *)
theory Invites
  imports Schema
begin

text \<open>
  Invite links, \<open>packages/server/src/utils/inviteService.ts\<close>, over the tables they live in. Each function is one
  SQLite transaction: an error leaves the tables as they were. The clock is read as \<open>now\<close>, ids and tokens are
  arguments. What holds for every sequence of operations follows the operations.
\<close>

section \<open>Tables\<close>

record invite_row =
  in_id :: string
  in_token :: string
  in_name :: string
  in_createdBy :: user_id
  in_createdAt :: millis
  in_maxUses :: "int option"
  in_usedCount :: int
  in_expiresAt :: "millis option"
  in_revokedAt :: "millis option"

record redemption_row =
  rd_id :: string
  rd_inviteId :: string
  rd_userId :: "user_id option"
  rd_registrantUsername :: string
  rd_redeemedAt :: millis

record invite_db =
  iv_users :: "user_row list"
  iv_links :: "invite_row list"
  iv_redemptions :: "redemption_row list"

section \<open>Values and errors\<close>

datatype InviteStatus = Active | Expired | Exhausted | Revoked

datatype invite_error = InviteValidationError | InviteNotFoundError | InviteStateConflictError
  | InviteUnavailableError "InviteStatus option" | Thrown

text \<open>A field of a JSON body: absent, null, or a value; a number is whole or not, anything else is no whole number.\<close>

datatype 'a field = Absent | Null | Given 'a
datatype js_number = Whole int | NotWhole

text \<open>\<open>(name ?? '')\<close> of a text; of any other value \<open>trim\<close> throws.\<close>

datatype body_text = Text string | NotText

definition inviteStatus :: "invite_row \<Rightarrow> millis \<Rightarrow> InviteStatus" where
  "inviteStatus row now =
    (if in_revokedAt row \<noteq> None then Revoked
     else if in_expiresAt row \<noteq> None \<and> the (in_expiresAt row) < now then Expired
     else if in_maxUses row \<noteq> None \<and> the (in_maxUses row) \<le> in_usedCount row then Exhausted
     else Active)"

fun validateName :: "body_text field \<Rightarrow> invite_error + string" where
  "validateName (Given NotText) = Inl Thrown"
| "validateName (Given (Text name)) = (let trimmed = js_trim name in
     if length trimmed < 1 \<or> 64 < length trimmed then Inl InviteValidationError else Inr trimmed)"
| "validateName _ = Inl InviteValidationError"

fun validateMaxUses :: "js_number field \<Rightarrow> invite_error + int option" where
  "validateMaxUses Null = Inr None"
| "validateMaxUses (Given (Whole n)) = (if n < 1 then Inl InviteValidationError else Inr (Some n))"
| "validateMaxUses _ = Inl InviteValidationError"

fun validateExpiresAt :: "js_number field \<Rightarrow> bool \<Rightarrow> millis \<Rightarrow> invite_error + millis option" where
  "validateExpiresAt Null allowPast now = Inr None"
| "validateExpiresAt (Given (Whole t)) allowPast now = (if \<not> allowPast \<and> t \<le> now then Inl InviteValidationError else Inr (Some t))"
| "validateExpiresAt _ allowPast now = Inl InviteValidationError"

record InviteRequest =
  rq_name :: "body_text field"
  rq_maxUses :: "js_number field"
  rq_expiresAt :: "js_number field"

record InviteLinkSummary =
  sum_row :: invite_row
  sum_status :: InviteStatus
  sum_createdByUsername :: "string option"
  sum_lastRedeemedAt :: "millis option"
  sum_url :: string

record InviteRedemption =
  ir_id :: string
  ir_userId :: "user_id option"
  ir_registrantUsername :: string
  ir_currentUsername :: "string option"
  ir_isDeleted :: bool
  ir_redeemedAt :: millis

record link_config =
  lc_domain :: string
  lc_port :: int

definition buildInviteUrl :: "link_config \<Rightarrow> string \<Rightarrow> string" where
  "buildInviteUrl cfg token =
    (if lc_domain cfg \<noteq> [] then ''https://'' @ lc_domain cfg @ ''/register?invite='' @ token
     else ''http://localhost:'' @ nat_to_dec (nat (lc_port cfg)) @ ''/register?invite='' @ token)"

definition foldUsername :: "string option \<Rightarrow> int option \<Rightarrow> string option" where
  "foldUsername username isDeleted = (case username of None \<Rightarrow> None
     | Some u \<Rightarrow> if isDeleted = Some 1 then Some ''Deleted User'' else Some u)"

definition rowToSummary :: "link_config \<Rightarrow> millis \<Rightarrow> invite_row \<Rightarrow> string option \<Rightarrow> millis option \<Rightarrow> InviteLinkSummary" where
  "rowToSummary cfg now row createdByUsername lastRedeemedAt =
    \<lparr>sum_row = row, sum_status = inviteStatus row now, sum_createdByUsername = createdByUsername,
     sum_lastRedeemedAt = lastRedeemedAt, sum_url = buildInviteUrl cfg (in_token row)\<rparr>"

definition redemptions_of :: "string \<Rightarrow> invite_db \<Rightarrow> redemption_row list" where
  "redemptions_of i db = filter (\<lambda>r. rd_inviteId r = i) (iv_redemptions db)"

definition resolveLastRedeemedAt :: "string \<Rightarrow> invite_db \<Rightarrow> millis option" where
  "resolveLastRedeemedAt inviteId db = (case map rd_redeemedAt (redemptions_of inviteId db) of
     [] \<Rightarrow> None | t # ts \<Rightarrow> Some (foldl max t ts))"

definition resolveCreatorUsername :: "user_id \<Rightarrow> invite_db \<Rightarrow> string option" where
  "resolveCreatorUsername creatorId db = (let u = tbl_get us_id creatorId (iv_users db)
     in foldUsername (map_option us_username u) (case u of Some r \<Rightarrow> us_isDeleted r | None \<Rightarrow> None))"

definition summary :: "link_config \<Rightarrow> millis \<Rightarrow> invite_db \<Rightarrow> invite_row \<Rightarrow> InviteLinkSummary" where
  "summary cfg now db row = rowToSummary cfg now row (resolveCreatorUsername (in_createdBy row) db) (resolveLastRedeemedAt (in_id row) db)"

section \<open>Operations\<close>

text \<open>The insert fails on a taken id or token, or for a creator who does not exist.\<close>

definition createInvite ::
  "link_config \<Rightarrow> millis \<Rightarrow> string \<Rightarrow> string \<Rightarrow> InviteRequest \<Rightarrow> user_id \<Rightarrow> invite_db \<Rightarrow> (invite_error + InviteLinkSummary) \<times> invite_db" where
  "createInvite cfg now newId newToken req creatorId db =
    (case validateName (rq_name req) of Inl e \<Rightarrow> (Inl e, db)
     | Inr name \<Rightarrow> (case validateMaxUses (rq_maxUses req) of Inl e \<Rightarrow> (Inl e, db)
     | Inr maxUses \<Rightarrow> (case validateExpiresAt (rq_expiresAt req) False now of Inl e \<Rightarrow> (Inl e, db)
     | Inr expiresAt \<Rightarrow>
         if newId \<in> in_id ` set (iv_links db) \<or> newToken \<in> in_token ` set (iv_links db)
            \<or> creatorId \<notin> us_id ` set (iv_users db) then (Inl Thrown, db)
         else (let row = \<lparr>in_id = newId, in_token = newToken, in_name = name, in_createdBy = creatorId, in_createdAt = now,
                          in_maxUses = maxUses, in_usedCount = 0, in_expiresAt = expiresAt, in_revokedAt = None\<rparr>
               in (Inr (rowToSummary cfg now row (resolveCreatorUsername creatorId db) None),
                   db\<lparr>iv_links := iv_links db @ [row]\<rparr>)))))"

text \<open>\<open>/^[A-Za-z0-9_-]{22}$/\<close>.\<close>

definition token_char :: "char \<Rightarrow> bool" where
  "token_char c \<longleftrightarrow> (let n = of_char c :: nat in 65 \<le> n \<and> n \<le> 90 \<or> 97 \<le> n \<and> n \<le> 122 \<or> 48 \<le> n \<and> n \<le> 57) \<or> c = CHR ''_'' \<or> c = CHR ''-''"

definition getInviteByToken :: "string \<Rightarrow> invite_db \<Rightarrow> invite_row option" where
  "getInviteByToken token db = (if length token = 22 \<and> list_all token_char token then tbl_get in_token token (iv_links db) else None)"

text \<open>\<open>listInvites\<close>, the newest first.\<close>

definition listInvites :: "link_config \<Rightarrow> millis \<Rightarrow> bool \<Rightarrow> invite_db \<Rightarrow> InviteLinkSummary list" where
  "listInvites cfg now active db =
    (let summaries = map (summary cfg now db) (sort_key (\<lambda>r. - in_createdAt r) (iv_links db))
     in filter (\<lambda>s. (sum_status s = Active) = active) summaries)"

definition listRedemptions :: "string \<Rightarrow> invite_db \<Rightarrow> InviteRedemption list" where
  "listRedemptions inviteId db =
    map (\<lambda>r. let u = (case rd_userId r of None \<Rightarrow> None | Some i \<Rightarrow> tbl_get us_id i (iv_users db));
                 isDeleted = (case u of Some x \<Rightarrow> us_isDeleted x | None \<Rightarrow> None)
             in \<lparr>ir_id = rd_id r, ir_userId = rd_userId r, ir_registrantUsername = rd_registrantUsername r,
                 ir_currentUsername = (if rd_userId r = None then None else foldUsername (map_option us_username u) isDeleted),
                 ir_isDeleted = (isDeleted = Some 1), ir_redeemedAt = rd_redeemedAt r\<rparr>)
      (sort_key (\<lambda>r. - rd_redeemedAt r) (redemptions_of inviteId db))"

text \<open>The fields a patch or a reinstatement sets, over the row it read.\<close>

definition new_maxUses :: "InviteRequest \<Rightarrow> invite_row \<Rightarrow> invite_error + int option option" where
  "new_maxUses req row = (if rq_maxUses req = Absent then Inr None
     else (case validateMaxUses (rq_maxUses req) of Inl e \<Rightarrow> Inl e
       | Inr v \<Rightarrow> if v \<noteq> None \<and> the v < in_usedCount row then Inl InviteValidationError else Inr (Some v)))"

definition new_expiresAt :: "InviteRequest \<Rightarrow> millis \<Rightarrow> invite_error + millis option option" where
  "new_expiresAt req now = (if rq_expiresAt req = Absent then Inr None
     else (case validateExpiresAt (rq_expiresAt req) True now of Inl e \<Rightarrow> Inl e | Inr v \<Rightarrow> Inr (Some v)))"

definition new_name :: "InviteRequest \<Rightarrow> invite_error + string option" where
  "new_name req = (if rq_name req = Absent then Inr None
     else (case validateName (rq_name req) of Inl e \<Rightarrow> Inl e | Inr v \<Rightarrow> Inr (Some v)))"

definition setting :: "'a option \<Rightarrow> 'a \<Rightarrow> 'a" where
  "setting v old = (case v of Some x \<Rightarrow> x | None \<Rightarrow> old)"

definition patchInvite ::
  "link_config \<Rightarrow> millis \<Rightarrow> string \<Rightarrow> InviteRequest \<Rightarrow> invite_db \<Rightarrow> (invite_error + InviteLinkSummary) \<times> invite_db" where
  "patchInvite cfg now i req db = (case tbl_get in_id i (iv_links db) of
     None \<Rightarrow> (Inl InviteNotFoundError, db)
   | Some row \<Rightarrow>
       if in_revokedAt row \<noteq> None then (Inl InviteStateConflictError, db)
       else (case new_name req of Inl e \<Rightarrow> (Inl e, db)
        | Inr name \<Rightarrow> (case new_maxUses req row of Inl e \<Rightarrow> (Inl e, db)
        | Inr maxUses \<Rightarrow> (case new_expiresAt req now of Inl e \<Rightarrow> (Inl e, db)
        | Inr expiresAt \<Rightarrow>
            if name = None \<and> maxUses = None \<and> expiresAt = None then (Inr (summary cfg now db row), db)
            else (let write = (\<lambda>r. r\<lparr>in_name := setting name (in_name r), in_maxUses := setting maxUses (in_maxUses r),
                                     in_expiresAt := setting expiresAt (in_expiresAt r)\<rparr>);
                      db1 = db\<lparr>iv_links := tbl_update in_id i write (iv_links db)\<rparr>
                  in (case tbl_get in_id i (iv_links db1) of
                      None \<Rightarrow> (Inl Thrown, db)
                    | Some updated \<Rightarrow> (Inr (summary cfg now db1 updated), db1)))))))"

definition revokeInvite ::
  "link_config \<Rightarrow> millis \<Rightarrow> string \<Rightarrow> invite_db \<Rightarrow> (invite_error + InviteLinkSummary) \<times> invite_db" where
  "revokeInvite cfg now i db = (case tbl_get in_id i (iv_links db) of
     None \<Rightarrow> (Inl InviteNotFoundError, db)
   | Some row \<Rightarrow>
       if in_revokedAt row \<noteq> None then (Inl InviteStateConflictError, db)
       else (let db1 = db\<lparr>iv_links := tbl_update in_id i (\<lambda>r. r\<lparr>in_revokedAt := Some now\<rparr>) (iv_links db)\<rparr>
             in (case tbl_get in_id i (iv_links db1) of
                 None \<Rightarrow> (Inl Thrown, db)
               | Some updated \<Rightarrow> (Inr (summary cfg now db1 updated), db1))))"

text \<open>A revoked invite gets a new token; one that would not be active again is left as it was. A taken token throws.\<close>

definition reinstateInvite ::
  "link_config \<Rightarrow> millis \<Rightarrow> string \<Rightarrow> string \<Rightarrow> InviteRequest \<Rightarrow> invite_db
   \<Rightarrow> (invite_error + InviteLinkSummary \<times> bool) \<times> invite_db" where
  "reinstateInvite cfg now newToken i req db = (case tbl_get in_id i (iv_links db) of
     None \<Rightarrow> (Inl InviteNotFoundError, db)
   | Some row \<Rightarrow>
       (let currentStatus = inviteStatus row now; rotate = (currentStatus = Revoked) in
        if currentStatus = Active then (Inl InviteStateConflictError, db)
        else (case new_maxUses req row of Inl e \<Rightarrow> (Inl e, db)
        | Inr maxUses \<Rightarrow> (case new_expiresAt req now of Inl e \<Rightarrow> (Inl e, db)
        | Inr expiresAt \<Rightarrow>
            if rotate \<and> newToken \<in> in_token ` {r \<in> set (iv_links db). in_id r \<noteq> i} then (Inl Thrown, db)
            else (let write = (\<lambda>r. r\<lparr>in_revokedAt := (if rotate then None else in_revokedAt r),
                                     in_token := (if rotate then newToken else in_token r),
                                     in_maxUses := setting maxUses (in_maxUses r),
                                     in_expiresAt := setting expiresAt (in_expiresAt r)\<rparr>);
                      db1 = db\<lparr>iv_links := tbl_update in_id i write (iv_links db)\<rparr>
                  in (case tbl_get in_id i (iv_links db1) of
                      None \<Rightarrow> (Inl Thrown, db)
                    | Some updated \<Rightarrow>
                        if inviteStatus updated now \<noteq> Active then (Inl InviteValidationError, db)
                        else (Inr (summary cfg now db1 updated, rotate), db1)))))))"

text \<open>
  Redeeming: \<open>insertUser\<close> is the caller's step inside the transaction, \<open>None\<close> when it throws; it writes users only.
\<close>

definition redeemInvite ::
  "millis \<Rightarrow> string \<Rightarrow> string \<Rightarrow> (user_row list \<Rightarrow> ((user_id \<times> string) \<times> user_row list) option) \<Rightarrow> invite_db
   \<Rightarrow> (invite_error + user_id \<times> string) \<times> invite_db" where
  "redeemInvite now newId token insertUser db = (case tbl_get in_token token (iv_links db) of
     None \<Rightarrow> (Inl (InviteUnavailableError None), db)
   | Some row \<Rightarrow>
       (let status = inviteStatus row now in
        if status \<noteq> Active then (Inl (InviteUnavailableError (Some status)), db)
        else (case insertUser (iv_users db) of
            None \<Rightarrow> (Inl Thrown, db)
          | Some ((userId, username), users) \<Rightarrow>
              if newId \<in> rd_id ` set (iv_redemptions db) \<or> userId \<notin> us_id ` set users then (Inl Thrown, db)
              else (Inr (userId, username),
                \<lparr>iv_users = users,
                 iv_links = tbl_update in_id (in_id row) (\<lambda>r. r\<lparr>in_usedCount := in_usedCount row + 1\<rparr>) (iv_links db),
                 iv_redemptions = iv_redemptions db @ [\<lparr>rd_id = newId, rd_inviteId = in_id row, rd_userId = Some userId,
                    rd_registrantUsername = username, rd_redeemedAt = now\<rparr>]\<rparr>))))"

text \<open>The redemptions of a deleted invite go with it.\<close>

definition deleteInvite :: "string \<Rightarrow> invite_db \<Rightarrow> (invite_error + unit) \<times> invite_db" where
  "deleteInvite i db = (case tbl_get in_id i (iv_links db) of
     None \<Rightarrow> (Inl InviteNotFoundError, db)
   | Some _ \<Rightarrow> (Inr (), db\<lparr>iv_links := tbl_delete in_id i (iv_links db),
       iv_redemptions := tbl_delete rd_inviteId i (iv_redemptions db)\<rparr>))"


text \<open>Links are read and written by their id.\<close>

interpretation links_by_id: keyed_table in_id "tbl_get in_id" "tbl_update in_id" "tbl_delete in_id"
  by unfold_locales (auto simp: table_simps dest: tbl_get_SomeD)

section \<open>Every sequence of operations\<close>

text \<open>
  One operation, with tokens other than \<open>t\<close> for new and rotated links. Users come, change and go: the redemptions of one
  who is gone keep their row without a user.
\<close>

inductive invite_step :: "string \<Rightarrow> invite_db \<Rightarrow> invite_db \<Rightarrow> bool" for t :: string where
  create: "newToken \<noteq> t \<Longrightarrow> invite_step t db (snd (createInvite cfg now newId newToken req creatorId db))"
| patch: "invite_step t db (snd (patchInvite cfg now i req db))"
| revoke: "invite_step t db (snd (revokeInvite cfg now i db))"
| reinstate: "newToken \<noteq> t \<Longrightarrow> invite_step t db (snd (reinstateInvite cfg now newToken i req db))"
| redeem: "invite_step t db (snd (redeemInvite now newId token insertUser db))"
| delete: "invite_step t db (snd (deleteInvite i db))"
| users: "invite_step t db (db\<lparr>iv_users := us, iv_redemptions := map (\<lambda>r. r\<lparr>rd_userId :=
    (if rd_userId r \<in> Some ` us_id ` set us then rd_userId r else None)\<rparr>) (iv_redemptions db)\<rparr>)"

text \<open>What the tables keep: unique keys, and a count of every link's redemptions within its limit.\<close>

definition counts :: "invite_db \<Rightarrow> invite_row \<Rightarrow> bool" where
  "counts db r \<longleftrightarrow> in_usedCount r = int (length (redemptions_of (in_id r) db)) \<and> (\<forall>m. in_maxUses r = Some m \<longrightarrow> in_usedCount r \<le> m)"

definition invites_sound :: "invite_db \<Rightarrow> bool" where
  "invites_sound db \<longleftrightarrow> distinct (map in_id (iv_links db)) \<and> distinct (map in_token (iv_links db))
     \<and> rd_inviteId ` set (iv_redemptions db) \<subseteq> in_id ` set (iv_links db)
     \<and> (\<forall>r\<in>set (iv_links db). counts db r)"

lemma sound_unique: "invites_sound db \<Longrightarrow> x \<in> set (iv_links db) \<Longrightarrow> y \<in> set (iv_links db) \<Longrightarrow> in_id x = in_id y \<Longrightarrow> x = y"
  by (auto simp: invites_sound_def distinct_map inj_on_def)

text \<open>What an operation that succeeds writes.\<close>

lemma create_result:
  "snd (createInvite cfg now newId newToken req creatorId db) = db
   \<or> (\<exists>row. snd (createInvite cfg now newId newToken req creatorId db) = db\<lparr>iv_links := iv_links db @ [row]\<rparr>
      \<and> in_id row = newId \<and> in_token row = newToken \<and> in_usedCount row = 0 \<and> in_revokedAt row = None
      \<and> (\<forall>m. in_maxUses row = Some m \<longrightarrow> 1 \<le> m)
      \<and> newId \<notin> in_id ` set (iv_links db) \<and> newToken \<notin> in_token ` set (iv_links db))"
proof (cases "snd (createInvite cfg now newId newToken req creatorId db) = db")
  case False
  then obtain name maxUses expiresAt where uses: "validateMaxUses (rq_maxUses req) = Inr maxUses"
    and new: "newId \<notin> in_id ` set (iv_links db)" "newToken \<notin> in_token ` set (iv_links db)"
    and res: "snd (createInvite cfg now newId newToken req creatorId db) = db\<lparr>iv_links := iv_links db @
      [\<lparr>in_id = newId, in_token = newToken, in_name = name, in_createdBy = creatorId, in_createdAt = now,
        in_maxUses = maxUses, in_usedCount = 0, in_expiresAt = expiresAt, in_revokedAt = None\<rparr>]\<rparr>"
    by (auto simp: createInvite_def Let_def split: sum.splits if_splits)
  have "maxUses = Some m \<Longrightarrow> 1 \<le> m" for m
    using uses by (cases "rq_maxUses req" rule: validateMaxUses.cases) (auto split: if_splits)
  then show ?thesis using new res by (intro disjI2 exI) auto
qed simp

text \<open>An update of one link that keeps its id, count and limit in order.\<close>

definition touches :: "invite_row \<Rightarrow> (invite_row \<Rightarrow> invite_row) \<Rightarrow> bool" where
  "touches row f \<longleftrightarrow> in_id (f row) = in_id row \<and> in_usedCount (f row) = in_usedCount row
     \<and> ((\<forall>m. in_maxUses row = Some m \<longrightarrow> in_usedCount row \<le> m) \<longrightarrow> (\<forall>m. in_maxUses (f row) = Some m \<longrightarrow> in_usedCount row \<le> m))"

lemma new_maxUses_keeps: "new_maxUses req row = Inr v \<Longrightarrow> v = Some (Some m) \<Longrightarrow> in_usedCount row \<le> m"
  by (auto simp: new_maxUses_def split: if_splits sum.splits)

lemma update_one:
  assumes "tbl_get in_id i links = Some row" "distinct (map in_id links)"
  shows "tbl_update in_id i f links = map (\<lambda>r. if r = row then f row else r) links"
proof -
  have "row \<in> set links" "in_id row = i" using tbl_get_SomeD[OF assms(1)] by auto
  then have "in_id r = i \<longleftrightarrow> r = row" if "r \<in> set links" for r
    using that assms(2) by (auto simp: distinct_map inj_on_def)
  then show ?thesis by (auto simp: tbl_update_def)
qed

text \<open>What the writing operations on one link do to the tables.\<close>

lemma patch_result:
  "snd (patchInvite cfg now i req db) = db
   \<or> (\<exists>row f. tbl_get in_id i (iv_links db) = Some row \<and> touches row f \<and> in_revokedAt row = None
      \<and> in_token (f row) = in_token row \<and> in_revokedAt (f row) = None
      \<and> snd (patchInvite cfg now i req db) = db\<lparr>iv_links := tbl_update in_id i f (iv_links db)\<rparr>)"
proof (cases "snd (patchInvite cfg now i req db) = db")
  case False
  then obtain row name maxUses expiresAt where row: "tbl_get in_id i (iv_links db) = Some row" "in_revokedAt row = None"
    and new: "new_maxUses req row = Inr maxUses"
    and res: "snd (patchInvite cfg now i req db) = db\<lparr>iv_links := tbl_update in_id i
      (\<lambda>r. r\<lparr>in_name := setting name (in_name r), in_maxUses := setting maxUses (in_maxUses r), in_expiresAt := setting expiresAt (in_expiresAt r)\<rparr>) (iv_links db)\<rparr>"
    by (auto simp: patchInvite_def Let_def split: option.splits if_splits sum.splits)
  have "touches row (\<lambda>r. r\<lparr>in_name := setting name (in_name r), in_maxUses := setting maxUses (in_maxUses r), in_expiresAt := setting expiresAt (in_expiresAt r)\<rparr>)"
    using new_maxUses_keeps[OF new] by (auto simp: touches_def setting_def split: option.splits)
  then show ?thesis using row res by (intro disjI2 exI[of _ row] exI) (auto simp: row)
qed simp

lemma revoke_result:
  "snd (revokeInvite cfg now i db) = db
   \<or> (\<exists>row. tbl_get in_id i (iv_links db) = Some row
      \<and> snd (revokeInvite cfg now i db) = db\<lparr>iv_links := tbl_update in_id i (\<lambda>r. r\<lparr>in_revokedAt := Some now\<rparr>) (iv_links db)\<rparr>)"
  by (auto simp: revokeInvite_def Let_def split: option.splits)

lemma reinstate_result:
  "snd (reinstateInvite cfg now newToken i req db) = db
   \<or> (\<exists>row f. tbl_get in_id i (iv_links db) = Some row \<and> touches row f
      \<and> (if in_revokedAt row = None then in_token (f row) = in_token row
         else in_token (f row) = newToken \<and> newToken \<notin> in_token ` {r \<in> set (iv_links db). in_id r \<noteq> i})
      \<and> snd (reinstateInvite cfg now newToken i req db) = db\<lparr>iv_links := tbl_update in_id i f (iv_links db)\<rparr>)"
proof (cases "snd (reinstateInvite cfg now newToken i req db) = db")
  case False
  then obtain row maxUses expiresAt where row: "tbl_get in_id i (iv_links db) = Some row"
    and new: "new_maxUses req row = Inr maxUses"
    and tok: "inviteStatus row now = Revoked \<longrightarrow> newToken \<notin> in_token ` {r \<in> set (iv_links db). in_id r \<noteq> i}"
    and res: "snd (reinstateInvite cfg now newToken i req db) = db\<lparr>iv_links := tbl_update in_id i
      (\<lambda>r. r\<lparr>in_revokedAt := (if inviteStatus row now = Revoked then None else in_revokedAt r),
             in_token := (if inviteStatus row now = Revoked then newToken else in_token r),
             in_maxUses := setting maxUses (in_maxUses r), in_expiresAt := setting expiresAt (in_expiresAt r)\<rparr>) (iv_links db)\<rparr>"
    by (auto simp: reinstateInvite_def Let_def split: option.splits if_splits sum.splits)
  have rev: "inviteStatus row now = Revoked \<longleftrightarrow> in_revokedAt row \<noteq> None" by (simp add: inviteStatus_def)
  have "touches row (\<lambda>r. r\<lparr>in_revokedAt := (if inviteStatus row now = Revoked then None else in_revokedAt r),
             in_token := (if inviteStatus row now = Revoked then newToken else in_token r),
             in_maxUses := setting maxUses (in_maxUses r), in_expiresAt := setting expiresAt (in_expiresAt r)\<rparr>)"
    using new_maxUses_keeps[OF new] by (auto simp: touches_def setting_def split: option.splits)
  then show ?thesis using row res tok rev by (intro disjI2 exI[of _ row] exI) auto
qed simp

lemma redeem_result:
  "snd (redeemInvite now newId token insertUser db) = db
   \<or> (\<exists>row us red. tbl_get in_token token (iv_links db) = Some row \<and> inviteStatus row now = Active \<and> rd_inviteId red = in_id row
      \<and> snd (redeemInvite now newId token insertUser db) = \<lparr>iv_users = us,
          iv_links = tbl_update in_id (in_id row) (\<lambda>r. r\<lparr>in_usedCount := in_usedCount row + 1\<rparr>) (iv_links db),
          iv_redemptions = iv_redemptions db @ [red]\<rparr>)"
  by (auto simp: redeemInvite_def Let_def split: option.splits)


lemma redemptions_append [simp]:
  "redemptions_of i (db\<lparr>iv_links := l\<rparr>) = redemptions_of i db"
  by (simp add: redemptions_of_def)

lemma soundI:
  "iv_links db = l \<Longrightarrow> iv_redemptions db = reds \<Longrightarrow> distinct (map in_id l) \<Longrightarrow> distinct (map in_token l)
   \<Longrightarrow> rd_inviteId ` set reds \<subseteq> in_id ` set l \<Longrightarrow> \<forall>r\<in>set l. counts db r \<Longrightarrow> invites_sound db"
  by (simp add: invites_sound_def)

lemma counts_links [simp]: "counts (db\<lparr>iv_links := l\<rparr>) r = counts db r"
  by (simp add: counts_def)

lemma counts_touched: "counts db row \<Longrightarrow> touches row f \<Longrightarrow> counts db (f row)"
  unfolding counts_def touches_def by metis

lemma sound_update:
  assumes sound: "invites_sound db" and row: "tbl_get in_id i (iv_links db) = Some row" and f: "touches row f"
    and tok: "in_token (f row) \<notin> in_token ` {r \<in> set (iv_links db). in_id r \<noteq> i}"
  shows "invites_sound (db\<lparr>iv_links := tbl_update in_id i f (iv_links db)\<rparr>)"
proof -
  let ?g = "\<lambda>r. if r = row then f row else r"
  have ids: "distinct (map in_id (iv_links db))" and toks: "distinct (map in_token (iv_links db))" using sound by (auto simp: invites_sound_def)
  have mem: "row \<in> set (iv_links db)" "in_id row = i" using tbl_get_SomeD[OF row] by auto
  have upd: "tbl_update in_id i f (iv_links db) = map ?g (iv_links db)" by (rule update_one[OF row ids])
  have id: "map in_id (map ?g (iv_links db)) = map in_id (iv_links db)" using f by (auto simp: touches_def)
  have ids_set: "in_id ` (?g ` set (iv_links db)) = in_id ` set (iv_links db)" using id by (metis list.set_map)
  have "in_token (?g x) \<noteq> in_token (?g y)" if "x \<in> set (iv_links db)" "y \<in> set (iv_links db)" "x \<noteq> y" for x y
  proof -
    have neq: "in_id x \<noteq> in_id y" "in_token x \<noteq> in_token y" using that ids toks by (auto simp: distinct_map inj_on_def)
    then show ?thesis using tok that mem by (auto simp: image_iff)
  qed
  then have "inj_on (in_token \<circ> ?g) (set (iv_links db))" unfolding inj_on_def comp_def by blast
  moreover have "distinct (iv_links db)" using ids by (simp add: distinct_map)
  ultimately have k2: "distinct (map in_token (map ?g (iv_links db)))" by (simp add: distinct_map)
  have k4: "\<forall>r\<in>set (map ?g (iv_links db)). counts (db\<lparr>iv_links := map ?g (iv_links db)\<rparr>) r"
  proof
    fix x assume "x \<in> set (map ?g (iv_links db))"
    then obtain r where r: "r \<in> set (iv_links db)" "x = ?g r" by auto
    have "counts db r" using sound r(1) by (simp only: invites_sound_def)
    then show "counts (db\<lparr>iv_links := map ?g (iv_links db)\<rparr>) x"
      using counts_touched[OF _ f] unfolding r(2) counts_links by (cases "r = row") simp_all
  qed
  have k1: "distinct (map in_id (map ?g (iv_links db)))" unfolding id by (rule ids)
  have k3: "rd_inviteId ` set (iv_redemptions db) \<subseteq> in_id ` set (map ?g (iv_links db))"
    using sound ids_set by (simp only: invites_sound_def set_map)
  show ?thesis unfolding upd by (rule soundI[rotated 2, OF k1 k2 k3 k4]) simp_all
qed

lemma sound_step:
  assumes "invite_step t db db'" "invites_sound db" shows "invites_sound db'"
  using assms
proof (induction rule: invite_step.induct)
  case (create newToken db cfg now newId req creatorId)
  from create_result[of cfg now newId newToken req creatorId db] show ?case
  proof (elim disjE exE conjE)
    fix row
    assume row: "snd (createInvite cfg now newId newToken req creatorId db) = db\<lparr>iv_links := iv_links db @ [row]\<rparr>"
      "in_id row = newId" "in_token row = newToken" "in_usedCount row = 0" "\<forall>m. in_maxUses row = Some m \<longrightarrow> 1 \<le> m"
      "newId \<notin> in_id ` set (iv_links db)" "newToken \<notin> in_token ` set (iv_links db)"
    have "redemptions_of newId db = []"
      using create.prems row(6) by (force simp: invites_sound_def redemptions_of_def filter_empty_conv)
    then show ?thesis using create.prems row unfolding row(1) by (auto simp: invites_sound_def counts_def)
  qed (use create.prems in simp)
next
  case (patch db cfg now i req)
  from patch_result[of cfg now i req db] show ?case
  proof (elim disjE exE conjE)
    fix row f assume r: "tbl_get in_id i (iv_links db) = Some row" "touches row f" "in_token (f row) = in_token row"
      "snd (patchInvite cfg now i req db) = db\<lparr>iv_links := tbl_update in_id i f (iv_links db)\<rparr>"
    have "in_token row \<notin> in_token ` {x \<in> set (iv_links db). in_id x \<noteq> i}"
      using tbl_get_SomeD[OF r(1)] patch by (auto simp: invites_sound_def distinct_map inj_on_def)
    then show ?thesis unfolding r(4) using sound_update[OF patch(1) r(1,2)] r(3) by simp
  qed (use patch in simp)
next
  case (revoke db cfg now i)
  from revoke_result[of cfg now i db] show ?case
  proof (elim disjE exE conjE)
    fix row assume r: "tbl_get in_id i (iv_links db) = Some row"
      "snd (revokeInvite cfg now i db) = db\<lparr>iv_links := tbl_update in_id i (\<lambda>r. r\<lparr>in_revokedAt := Some now\<rparr>) (iv_links db)\<rparr>"
    have "in_token row \<notin> in_token ` {x \<in> set (iv_links db). in_id x \<noteq> i}"
      using tbl_get_SomeD[OF r(1)] revoke by (auto simp: invites_sound_def distinct_map inj_on_def)
    then show ?thesis unfolding r(2) by (intro sound_update[OF revoke(1) r(1)]) (auto simp: touches_def)
  qed (use revoke in simp)
next
  case (reinstate newToken db cfg now i req)
  from reinstate_result[of cfg now newToken i req db] show ?case
  proof (elim disjE exE conjE)
    fix row f assume r: "tbl_get in_id i (iv_links db) = Some row" "touches row f"
      "if in_revokedAt row = None then in_token (f row) = in_token row
         else in_token (f row) = newToken \<and> newToken \<notin> in_token ` {r \<in> set (iv_links db). in_id r \<noteq> i}"
      "snd (reinstateInvite cfg now newToken i req db) = db\<lparr>iv_links := tbl_update in_id i f (iv_links db)\<rparr>"
    have "in_token row \<notin> in_token ` {x \<in> set (iv_links db). in_id x \<noteq> i}"
      using tbl_get_SomeD[OF r(1)] reinstate by (auto simp: invites_sound_def distinct_map inj_on_def)
    then show ?thesis unfolding r(4) using sound_update[OF reinstate(2) r(1,2)] r(3) by (simp split: if_splits)
  qed (use reinstate in simp)
next
  case (redeem db now newId token insertUser)
  from redeem_result[of now newId token insertUser db] show ?case
  proof (elim disjE exE conjE)
    fix row us red assume r: "tbl_get in_token token (iv_links db) = Some row" "inviteStatus row now = Active" "rd_inviteId red = in_id row"
      and res: "snd (redeemInvite now newId token insertUser db) = \<lparr>iv_users = us,
          iv_links = tbl_update in_id (in_id row) (\<lambda>r. r\<lparr>in_usedCount := in_usedCount row + 1\<rparr>) (iv_links db),
          iv_redemptions = iv_redemptions db @ [red]\<rparr>"
    have mem: "row \<in> set (iv_links db)" using tbl_get_SomeD[OF r(1)] by simp
    have ids: "distinct (map in_id (iv_links db))" using redeem by (simp add: invites_sound_def)
    have row: "tbl_get in_id (in_id row) (iv_links db) = Some row" by (rule tbl_get_distinct[OF ids mem])
    let ?g = "\<lambda>r. if r = row then row\<lparr>in_usedCount := in_usedCount row + 1\<rparr> else r"
    have upd: "tbl_update in_id (in_id row) (\<lambda>r. r\<lparr>in_usedCount := in_usedCount row + 1\<rparr>) (iv_links db) = map ?g (iv_links db)"
      using update_one[OF row ids] by simp
    have keys: "map in_id (map ?g (iv_links db)) = map in_id (iv_links db)" "map in_token (map ?g (iv_links db)) = map in_token (iv_links db)" by auto
    have room: "in_maxUses row = Some m \<Longrightarrow> in_usedCount row + 1 \<le> m" for m
      using r(2) by (auto simp: inviteStatus_def split: if_splits)
    have other: "r \<in> set (iv_links db) \<Longrightarrow> r \<noteq> row \<Longrightarrow> in_id r \<noteq> in_id row" for r using ids mem by (auto simp: distinct_map inj_on_def)
    have k4: "counts \<lparr>iv_users = us, iv_links = map ?g (iv_links db), iv_redemptions = iv_redemptions db @ [red]\<rparr> (?g r)"
      if "r \<in> set (iv_links db)" for r
    proof -
      let ?db = "\<lparr>iv_users = us, iv_links = map ?g (iv_links db), iv_redemptions = iv_redemptions db @ [red]\<rparr>"
      have reds: "redemptions_of i ?db = redemptions_of i db @ (if i = in_id row then [red] else [])" for i
        using r(3) by (auto simp: redemptions_of_def)
      have old: "counts db r" using redeem that by (simp only: invites_sound_def)
      show ?thesis
      proof (cases "r = row")
        case True
        then show ?thesis using old room by (simp add: counts_def reds)
      next
        case False
        then have "counts ?db r = counts db r" using other[OF that] by (simp add: counts_def reds)
        then show ?thesis using old False by simp
      qed
    qed
    have k3: "rd_inviteId ` set (iv_redemptions db @ [red]) \<subseteq> in_id ` set (map ?g (iv_links db))"
    proof -
      have "in_id ` set (map ?g (iv_links db)) = in_id ` set (iv_links db)" using keys(1) by (metis list.set_map)
      then show ?thesis using redeem mem r(3) by (simp add: invites_sound_def)
    qed
    have k1: "distinct (map in_id (map ?g (iv_links db)))" and k2: "distinct (map in_token (map ?g (iv_links db)))"
      using redeem unfolding keys by (simp_all only: invites_sound_def)
    show ?thesis unfolding res upd by (rule soundI[rotated 2, OF k1 k2 k3]) (simp_all only: invite_db.simps list.set_map ball_simps simp_thms, intro ballI, rule k4)
  qed (use redeem in simp)
next
  case (delete db i)
  have same: "counts (db\<lparr>iv_links := l, iv_redemptions := tbl_delete rd_inviteId i (iv_redemptions db)\<rparr>) r \<longleftrightarrow> counts db r" if "in_id r \<noteq> i" for r l
  proof -
    have "redemptions_of (in_id r) (db\<lparr>iv_links := l, iv_redemptions := tbl_delete rd_inviteId i (iv_redemptions db)\<rparr>) = redemptions_of (in_id r) db"
      using that by (auto simp: redemptions_of_def tbl_delete_def intro: filter_cong)
    then show ?thesis by (simp add: counts_def)
  qed
  have k3: "rd_inviteId ` set (tbl_delete rd_inviteId i (iv_redemptions db)) \<subseteq> in_id ` set (tbl_delete in_id i (iv_links db))"
  proof
    fix k assume "k \<in> rd_inviteId ` set (tbl_delete rd_inviteId i (iv_redemptions db))"
    then have "k \<in> rd_inviteId ` set (iv_redemptions db)" "k \<noteq> i" by auto
    moreover have "rd_inviteId ` set (iv_redemptions db) \<subseteq> in_id ` set (iv_links db)" using delete by (simp only: invites_sound_def)
    ultimately obtain r where "r \<in> set (iv_links db)" "k = in_id r" "in_id r \<noteq> i" by blast
    then show "k \<in> in_id ` set (tbl_delete in_id i (iv_links db))" by simp
  qed
  have k2: "distinct (map in_token (tbl_delete in_id i (iv_links db)))"
    using delete by (simp add: invites_sound_def tbl_delete_def distinct_map_filter)
  have k0: "\<forall>r\<in>set (tbl_delete in_id i (iv_links db)). in_id r \<noteq> i \<and> counts db r" using delete by (simp add: invites_sound_def)
  have k1: "distinct (map in_id (tbl_delete in_id i (iv_links db)))"
    using delete by (simp add: invites_sound_def distinct_tbl_delete)
  show ?case
  proof (cases "tbl_get in_id i (iv_links db)")
    case Some
    then show ?thesis
      using k0 same by (simp add: deleteInvite_def) (rule soundI[rotated 2, OF k1 k2 k3], simp_all)
  qed (use delete in \<open>simp add: deleteInvite_def\<close>)
next
  case (users db us)
  have "length (redemptions_of i (db\<lparr>iv_users := us, iv_redemptions := map (\<lambda>r. r\<lparr>rd_userId := f r\<rparr>) (iv_redemptions db)\<rparr>)) = length (redemptions_of i db)" for i f
    by (simp add: redemptions_of_def filter_map o_def)
  then have "counts (db\<lparr>iv_users := us, iv_redemptions := map (\<lambda>r. r\<lparr>rd_userId := f r\<rparr>) (iv_redemptions db)\<rparr>) r = counts db r" for r f
    by (simp add: counts_def)
  then show ?case using users by (simp add: invites_sound_def image_image)
qed

definition invites_start :: "user_row list \<Rightarrow> invite_db" where
  "invites_start us = \<lparr>iv_users = us, iv_links = [], iv_redemptions = []\<rparr>"

text \<open>
  C23. The count of an invite is the number of its redemptions and never exceeds its limit, whatever admins and
  registrations do in whatever order: patches, revocations and reinstatements between redemptions included.
\<close>
theorem invite_uses_bounded:
  assumes "(invite_step t)\<^sup>*\<^sup>* (invites_start us) db"
  shows "invites_sound db
    \<and> (\<forall>r\<in>set (iv_links db). \<forall>m. in_maxUses r = Some m \<longrightarrow> int (length (redemptions_of (in_id r) db)) \<le> m)"
proof -
  have "invites_sound db"
    using assms
  proof (induction rule: rtranclp_induct)
    case base
    show ?case by (simp add: invites_start_def invites_sound_def)
  qed (rule sound_step)
  then show ?thesis by (auto simp: invites_sound_def counts_def)
qed

section \<open>A revoked token stays dead\<close>

definition dead_token :: "string \<Rightarrow> invite_db \<Rightarrow> bool" where
  "dead_token t db \<longleftrightarrow> (\<forall>r\<in>set (iv_links db). in_token r = t \<longrightarrow> in_revokedAt r \<noteq> None)"

lemma dead_step:
  assumes "invite_step t db db'" "invites_sound db" "dead_token t db" shows "dead_token t db'"
  using assms
proof (induction rule: invite_step.induct)
  case (create newToken db cfg now newId req creatorId)
  then show ?case using create_result[of cfg now newId newToken req creatorId db] by (auto simp: dead_token_def)
next
  case (patch db cfg now i req)
  have ids: "distinct (map in_id (iv_links db))" using patch by (simp add: invites_sound_def)
  from patch_result[of cfg now i req db] show ?case
  proof (elim disjE exE conjE)
    fix row f assume r: "tbl_get in_id i (iv_links db) = Some row" "in_token (f row) = in_token row" "in_revokedAt row = None"
      "snd (patchInvite cfg now i req db) = db\<lparr>iv_links := tbl_update in_id i f (iv_links db)\<rparr>"
    have "in_token row \<noteq> t" using tbl_get_SomeD[OF r(1)] r(3) patch(2) by (auto simp: dead_token_def)
    then show ?thesis using patch(2) r(2) unfolding r(4) update_one[OF r(1) ids] by (auto simp: dead_token_def)
  qed (use patch in simp)
next
  case (revoke db cfg now i)
  from revoke_result[of cfg now i db] show ?case using revoke by (auto simp: dead_token_def tbl_update_def)
next
  case (reinstate newToken db cfg now i req)
  have ids: "distinct (map in_id (iv_links db))" using reinstate by (simp add: invites_sound_def)
  from reinstate_result[of cfg now newToken i req db] show ?case
  proof (elim disjE exE conjE)
    fix row f assume r: "tbl_get in_id i (iv_links db) = Some row"
      "if in_revokedAt row = None then in_token (f row) = in_token row
         else in_token (f row) = newToken \<and> newToken \<notin> in_token ` {r \<in> set (iv_links db). in_id r \<noteq> i}"
      "snd (reinstateInvite cfg now newToken i req db) = db\<lparr>iv_links := tbl_update in_id i f (iv_links db)\<rparr>"
    have "in_token (f row) \<noteq> t"
      using tbl_get_SomeD[OF r(1)] r(2) reinstate by (auto simp: dead_token_def split: if_splits)
    then show ?thesis using reinstate unfolding r(3) update_one[OF r(1) ids] by (auto simp: dead_token_def)
  qed (use reinstate in simp)
next
  case (redeem db now newId token insertUser)
  from redeem_result[of now newId token insertUser db] show ?case using redeem by (auto simp: dead_token_def tbl_update_def)
next
  case (delete db i)
  then show ?case by (auto simp: deleteInvite_def dead_token_def split: option.splits)
qed (auto simp: dead_token_def)

text \<open>
  C24. Revoking a link is final for the token it was shared with: whatever happens to the invite afterwards, reinstating
  it with new limits included, that token registers nobody, as long as no random token repeats it.
\<close>
theorem revoked_token_never_redeems:
  assumes "invites_sound db" "tbl_get in_token t (iv_links db) = Some row" "in_revokedAt row \<noteq> None"
    and "(invite_step t)\<^sup>*\<^sup>* db db'"
  shows "\<exists>why. redeemInvite now newId t insertUser db' = (Inl (InviteUnavailableError why), db')"
proof -
  have "dead_token t db"
    using assms(1-3) tbl_get_SomeD[OF assms(2)] by (auto simp: dead_token_def invites_sound_def distinct_map inj_on_def)
  with assms(4,1) have "dead_token t db' \<and> invites_sound db'"
    by (induction rule: rtranclp_induct) (auto intro: dead_step sound_step)
  then show ?thesis using tbl_get_SomeD[of in_token t "iv_links db'"]
    by (cases "tbl_get in_token t (iv_links db')") (auto simp: redeemInvite_def dead_token_def inviteStatus_def)
qed


text \<open>
  A redemption is all or nothing: it succeeds exactly when the token's link is active and the caller's step creates
  the account (under a fresh redemption id), and then counts once and records who came; otherwise no table changes, so a
  failed registration burns no use.
\<close>
theorem redeem_all_or_nothing:
  "(case redeemInvite now newId token insertUser db of
      (Inr (uid, name), db') \<Rightarrow> (\<exists>row users. tbl_get in_token token (iv_links db) = Some row \<and> inviteStatus row now = Active
          \<and> insertUser (iv_users db) = Some ((uid, name), users) \<and> iv_users db' = users
          \<and> (invites_sound db \<longrightarrow> tbl_get in_token token (iv_links db') = Some (row\<lparr>in_usedCount := in_usedCount row + 1\<rparr>)
               \<and> (\<forall>i. i \<noteq> in_id row \<longrightarrow> tbl_get in_id i (iv_links db') = tbl_get in_id i (iv_links db)))
          \<and> redemptions_of (in_id row) db' = redemptions_of (in_id row) db @
              [\<lparr>rd_id = newId, rd_inviteId = in_id row, rd_userId = Some uid, rd_registrantUsername = name, rd_redeemedAt = now\<rparr>])
    | (Inl e, db') \<Rightarrow> db' = db)
   \<and> ((\<exists>uid name. fst (redeemInvite now newId token insertUser db) = Inr (uid, name))
      = (\<exists>row uid name users. tbl_get in_token token (iv_links db) = Some row \<and> inviteStatus row now = Active
          \<and> insertUser (iv_users db) = Some ((uid, name), users) \<and> uid \<in> us_id ` set users \<and> newId \<notin> rd_id ` set (iv_redemptions db)))"
proof (cases "\<exists>uid name. fst (redeemInvite now newId token insertUser db) = Inr (uid, name)")
  case False
  then show ?thesis by (auto simp: redeemInvite_def Let_def split: option.splits if_splits prod.splits)
next
  case True
  then obtain row uid name users where r: "tbl_get in_token token (iv_links db) = Some row" "inviteStatus row now = Active"
      "insertUser (iv_users db) = Some ((uid, name), users)" "uid \<in> us_id ` set users" "newId \<notin> rd_id ` set (iv_redemptions db)"
    by (auto simp: redeemInvite_def Let_def split: option.splits if_splits prod.splits)
  let ?red = "\<lparr>rd_id = newId, rd_inviteId = in_id row, rd_userId = Some uid, rd_registrantUsername = name, rd_redeemedAt = now\<rparr>"
  let ?links = "tbl_update in_id (in_id row) (\<lambda>r. r\<lparr>in_usedCount := in_usedCount row + 1\<rparr>) (iv_links db)"
  have res: "redeemInvite now newId token insertUser db = (Inr (uid, name), \<lparr>iv_users = users, iv_links = ?links, iv_redemptions = iv_redemptions db @ [?red]\<rparr>)"
    using r by (simp add: redeemInvite_def)
  have links: "tbl_get in_token token ?links = Some (row\<lparr>in_usedCount := in_usedCount row + 1\<rparr>)" if sound: "invites_sound db"
  proof -
    have mem: "row \<in> set (iv_links db)" "in_token row = token" using tbl_get_SomeD[OF r(1)] by auto
    have ids: "distinct (map in_id (iv_links db))" and toks: "distinct (map in_token (iv_links db))" using sound by (auto simp: invites_sound_def)
    let ?g = "\<lambda>r. if r = row then row\<lparr>in_usedCount := in_usedCount row + 1\<rparr> else r"
    have upd: "?links = map ?g (iv_links db)"
      using update_one[OF tbl_get_distinct[OF ids mem(1)] ids, where f = "\<lambda>r. r\<lparr>in_usedCount := in_usedCount row + 1\<rparr>"] by simp
    have same: "map in_token (map ?g (iv_links db)) = map in_token (iv_links db)" by auto
    have "distinct (map in_token (map ?g (iv_links db)))" unfolding same by (rule toks)
    moreover have "?g row \<in> set (map ?g (iv_links db))" using mem(1) by (simp only: set_map image_eqI)
    ultimately have "tbl_get in_token (in_token (?g row)) (map ?g (iv_links db)) = Some (?g row)" by (rule tbl_get_distinct)
    then show ?thesis unfolding upd using mem(2) by simp
  qed
  have others: "i \<noteq> in_id row \<longrightarrow> tbl_get in_id i ?links = tbl_get in_id i (iv_links db)" for i
    by (simp add: links_by_id.update_other)
  have reds: "redemptions_of (in_id row) \<lparr>iv_users = users, iv_links = ?links, iv_redemptions = iv_redemptions db @ [?red]\<rparr> = redemptions_of (in_id row) db @ [?red]"
    by (simp add: redemptions_of_def)
  show ?thesis unfolding res using r links others reds by (auto simp: image_iff)
qed

section \<open>Witnesses\<close>

definition blank_user :: "string \<Rightarrow> user_row" where
  "blank_user i = \<lparr>us_id = i, us_username = i, us_displayName = None, us_passwordHash = [], us_avatar = None, us_status = None,
    us_chosenStatus = ''online'', us_customStatus = None, us_isAdmin = Some 0, us_homeInstance = None, us_homeUserId = None,
    us_replicatedInstances = None, us_banner = None, us_accentColor = None, us_avatarColor = None, us_bio = None,
    us_isDeleted = Some 0, us_discoverable = Some 1, us_profileUpdatedAt = None, us_passwordChangedAt = None, us_showActivity = 1,
    us_federationRegistryUpdatedAt = None, us_federationHealPending = None, us_federationHomeOrphaned = None,
    us_detachedHomeInstance = None, us_detachedHomeUserId = None, us_lastActiveDay = None, us_lastClient = None, us_createdAt = 0\<rparr>"

definition one_link :: invite_db where
  "one_link = snd (createInvite \<lparr>lc_domain = ''a'', lc_port = 1\<rparr> 5 ''i'' ''t''
     \<lparr>rq_name = Given (Text ''x''), rq_maxUses = Given (Whole 1), rq_expiresAt = Null\<rparr> ''u'' (invites_start [blank_user ''u'']))"

definition one_row :: invite_row where
  "one_row = \<lparr>in_id = ''i'', in_token = ''t'', in_name = ''x'', in_createdBy = ''u'', in_createdAt = 5, in_maxUses = Some 1,
     in_usedCount = 0, in_expiresAt = None, in_revokedAt = None\<rparr>"

lemma one_link_simp: "one_link = \<lparr>iv_users = [blank_user ''u''], iv_links = [one_row], iv_redemptions = []\<rparr>"
proof -
  have "js_trim ''x'' = ''x''" by code_simp
  then show ?thesis by (simp add: one_link_def createInvite_def invites_start_def blank_user_def one_row_def Let_def)
qed

lemma invite_uses_bounded_witness:
  "int (length (redemptions_of ''i'' one_link)) \<le> 1"
proof -
  have "(invite_step ''z'')\<^sup>*\<^sup>* (invites_start [blank_user ''u'']) one_link"
    unfolding one_link_def by (intro r_into_rtranclp create) simp
  from invite_uses_bounded[OF this] show ?thesis by (simp add: one_link_simp one_row_def)
qed

lemma revoked_token_never_redeems_witness:
  "\<exists>why. redeemInvite 9 ''r'' ''t'' (\<lambda>us. Some ((''v'', ''v''), us @ [blank_user ''v''])) 
      (snd (reinstateInvite \<lparr>lc_domain = [], lc_port = 1\<rparr> 8 ''t2'' ''i'' \<lparr>rq_name = Absent, rq_maxUses = Absent, rq_expiresAt = Absent\<rparr>
        (one_link\<lparr>iv_links := [one_row\<lparr>in_revokedAt := Some 7\<rparr>]\<rparr>))) = (Inl (InviteUnavailableError why),
      snd (reinstateInvite \<lparr>lc_domain = [], lc_port = 1\<rparr> 8 ''t2'' ''i'' \<lparr>rq_name = Absent, rq_maxUses = Absent, rq_expiresAt = Absent\<rparr>
        (one_link\<lparr>iv_links := [one_row\<lparr>in_revokedAt := Some 7\<rparr>]\<rparr>)))"
proof (rule revoked_token_never_redeems)
  show "invites_sound (one_link\<lparr>iv_links := [one_row\<lparr>in_revokedAt := Some 7\<rparr>]\<rparr>)"
    by (simp add: invites_sound_def counts_def one_link_simp one_row_def redemptions_of_def)
  show "tbl_get in_token ''t'' (iv_links (one_link\<lparr>iv_links := [one_row\<lparr>in_revokedAt := Some 7\<rparr>]\<rparr>)) = Some (one_row\<lparr>in_revokedAt := Some 7\<rparr>)"
    by (simp add: one_row_def)
qed (simp_all add: r_into_rtranclp reinstate)

lemma redeem_all_or_nothing_witness:
  "redeemInvite 9 ''r'' ''t'' (\<lambda>us. None) one_link = (Inl Thrown, one_link)"
proof -
  have "fst (redeemInvite 9 ''r'' ''t'' (\<lambda>us. None) one_link) = Inl Thrown"
    by (simp add: redeemInvite_def one_link_simp one_row_def inviteStatus_def)
  with redeem_all_or_nothing[where db = one_link and now = 9 and newId = "''r''" and token = "''t''" and insertUser = "\<lambda>us. None"] show ?thesis
    by (cases "redeemInvite 9 ''r'' ''t'' (\<lambda>us. None) one_link") simp
qed

end
