(* ===== verification/Accounts.thy ===== *)
theory Accounts
  imports Invites StubName PeerState
begin

text \<open>
  Accounts and sessions: registration, login and attach proofs (\<open>routes/auth.ts\<close>), sessions (\<open>utils/auth.ts\<close>), password
  changes (\<open>routes/users.ts\<close>, \<open>routes/admin.ts\<close>) and the check of a proof (\<open>handlers/attach.ts\<close>). A handler that
  awaits is split there: what it reads before and what it writes after may see different tables. Password hashing,
  token signing and random choices are arguments; a session token is the claims \<open>jsonwebtoken\<close> signed.
\<close>

section \<open>Names\<close>

definition USERNAME_MIN :: nat where "USERNAME_MIN = 3"
definition USERNAME_MAX :: nat where "USERNAME_MAX = 32"
definition FEDERATED_USERNAME_MAX :: nat where "FEDERATED_USERNAME_MAX = 100"
definition PASSWORD_MIN_LENGTH :: nat where "PASSWORD_MIN_LENGTH = 8"

definition AVATAR_COLORS :: "string list" where
  "AVATAR_COLORS = [''mint'', ''sky'', ''lavender'', ''coral'', ''rose'', ''teal'', ''amber'']"

text \<open>\<open>/^[a-z0-9_]+$/\<close> and \<open>/^[a-zA-Z0-9._-]+$/\<close>.\<close>

definition username_text :: "string \<Rightarrow> bool" where
  "username_text s \<longleftrightarrow> s \<noteq> [] \<and> list_all (\<lambda>c. (let n = of_char c :: nat in 97 \<le> n \<and> n \<le> 122) \<or> is_digit c \<or> c = CHR ''_'') s"

definition domain_text :: "string \<Rightarrow> bool" where
  "domain_text s \<longleftrightarrow> s \<noteq> [] \<and> list_all (\<lambda>c. token_char c \<or> c = CHR ''.'') s"

section \<open>Registration\<close>

text \<open>The body: a field is \<open>None\<close> when it is absent or of another type, where the code tells the two apart no further.\<close>

record register_body =
  rg_username :: "string option"
  rg_password :: "string option"
  rg_displayName :: "body_text field"
  rg_avatarColor :: "string option"
  rg_homeInstance :: "body_text option"
  rg_homeUserId :: "string option"
  rg_inviteToken :: "string option"

record instance_settings =
  is_registrationOpen :: "int option"
  is_federatedRegistrationOpen :: int

text \<open>A truthy \<open>homeInstance\<close>.\<close>

definition is_replicated :: "register_body \<Rightarrow> bool" where
  "is_replicated b \<longleftrightarrow> (case rg_homeInstance b of None \<Rightarrow> False | Some (Text s) \<Rightarrow> s \<noteq> [] | Some NotText \<Rightarrow> True)"

definition home_text :: "register_body \<Rightarrow> string" where
  "home_text b = (case rg_homeInstance b of Some (Text s) \<Rightarrow> s | _ \<Rightarrow> [])"

definition trimmedUsername :: "register_body \<Rightarrow> string" where
  "trimmedUsername b = lower (js_trim (the (rg_username b)))"

definition username_refusal :: "register_body \<Rightarrow> (nat \<times> string) option" where
  "username_refusal b = (let u = trimmedUsername b in
     if is_replicated b then
       (if rg_homeInstance b = Some NotText \<or> 253 < length (home_text b) \<or> \<not> domain_text (home_text b) then Some (400, ''home_instance_invalid'')
        else if CHR ''@'' \<in> set u then
          (let localPart = takeWhile (\<lambda>c. c \<noteq> CHR ''@'') u; domainPart = tl (dropWhile (\<lambda>c. c \<noteq> CHR ''@'') u) in
           if length localPart < USERNAME_MIN \<or> USERNAME_MAX < length localPart \<or> \<not> username_text localPart then Some (400, ''username_local_part_invalid'')
           else if length domainPart = 0 \<or> 253 < length domainPart \<or> \<not> domain_text domainPart then Some (400, ''username_domain_part_invalid'')
           else if FEDERATED_USERNAME_MAX < length u then Some (400, ''username_too_long'')
           else None)
        else Some (400, ''replicated_username_format_required''))
     else if length u < USERNAME_MIN \<or> USERNAME_MAX < length u then Some (400, ''username_length_invalid'')
     else if \<not> username_text u then Some (400, ''username_characters_invalid'')
     else None)"

definition shape_refusal :: "register_body \<Rightarrow> (nat \<times> string) option" where
  "shape_refusal b =
    (if \<not> truthy (rg_username b) then Some (400, ''username_required'')
     else if \<not> truthy (rg_password b) then Some (400, ''password_required'')
     else (case username_refusal b of Some r \<Rightarrow> Some r
       | None \<Rightarrow> if length (the (rg_password b)) < PASSWORD_MIN_LENGTH then Some (400, ''password_too_short'') else None))"

definition registration_open :: "bool \<Rightarrow> instance_settings option \<Rightarrow> bool" where
  "registration_open configOpen row = (case row of
     Some r \<Rightarrow> (case is_registrationOpen r of Some v \<Rightarrow> v = 1 | None \<Rightarrow> configOpen) | None \<Rightarrow> configOpen)"

definition federated_open :: "instance_settings option \<Rightarrow> bool" where
  "federated_open row = (case row of Some r \<Rightarrow> is_federatedRegistrationOpen r = 1 | None \<Rightarrow> False)"

text \<open>What a request carries across the await of the password hash: its body and the gate it passed.\<close>

record pending_registration =
  pg_body :: register_body
  pg_open :: bool

definition register_request ::
  "bool \<Rightarrow> instance_settings option \<Rightarrow> millis \<Rightarrow> register_body \<Rightarrow> invite_db \<Rightarrow> (nat \<times> string) + pending_registration" where
  "register_request configOpen row now b db = (case shape_refusal b of Some r \<Rightarrow> Inl r
     | None \<Rightarrow> (let opened = registration_open configOpen row; ok = Inr \<lparr>pg_body = b, pg_open = opened\<rparr> in
        if is_replicated b then (if \<not> federated_open row then Inl (403, ''federated_registration_closed'') else ok)
        else if \<not> opened then
          (if \<not> truthy (rg_inviteToken b) then Inl (403, ''invite_required'')
           else (case getInviteByToken (the (rg_inviteToken b)) db of
               None \<Rightarrow> Inl (403, ''invite_invalid'')
             | Some row \<Rightarrow> if inviteStatus row now \<noteq> Active then Inl (403, ''invite_invalid'') else ok))
        else ok))"

record JwtPayload =
  jp_userId :: string
  jp_username :: string
  jp_iat :: "int option"

definition signJwt :: "millis \<Rightarrow> string \<Rightarrow> string \<Rightarrow> JwtPayload" where
  "signJwt now userId username = \<lparr>jp_userId = userId, jp_username = username, jp_iat = Some (now div 1000)\<rparr>"

datatype 'a answer = Answer 'a | Refused nat string | Crashed

text \<open>The row, with the column defaults of the schema for what it does not set.\<close>

definition new_user_row :: "string \<Rightarrow> string \<Rightarrow> string \<Rightarrow> string option \<Rightarrow> string \<Rightarrow> int \<Rightarrow> string option \<Rightarrow> string option \<Rightarrow> millis \<Rightarrow> user_row" where
  "new_user_row i username passwordHash displayName avatarColor isAdmin homeInstance homeUserId now =
    \<lparr>us_id = i, us_username = username, us_displayName = displayName, us_passwordHash = passwordHash, us_avatar = None,
     us_status = Some ''offline'', us_chosenStatus = ''online'', us_customStatus = None, us_isAdmin = Some isAdmin,
     us_homeInstance = homeInstance, us_homeUserId = homeUserId, us_replicatedInstances = Some ''[]'', us_banner = None,
     us_accentColor = None, us_avatarColor = Some avatarColor, us_bio = None, us_isDeleted = Some 0, us_discoverable = Some 1,
     us_profileUpdatedAt = None, us_passwordChangedAt = None, us_showActivity = 1, us_federationRegistryUpdatedAt = Some 0,
     us_federationHealPending = Some 0, us_federationHomeOrphaned = Some 0, us_detachedHomeInstance = None,
     us_detachedHomeUserId = None, us_lastActiveDay = None, us_lastClient = None, us_createdAt = now\<rparr>"

definition or_null :: "string \<Rightarrow> string option" where
  "or_null s = (if s = [] then None else Some s)"

text \<open>The insert, with the unique columns of the table.\<close>

definition insert_user :: "user_row \<Rightarrow> user_row list \<Rightarrow> ((user_id \<times> string) \<times> user_row list) option" where
  "insert_user row users = (if us_id row \<in> us_id ` set users \<or> us_username row \<in> us_username ` set users then None
     else Some ((us_id row, us_username row), users @ [row]))"

definition register_commit ::
  "string \<Rightarrow> millis \<Rightarrow> string \<Rightarrow> string \<Rightarrow> string \<Rightarrow> pending_registration \<Rightarrow> invite_db \<Rightarrow> (JwtPayload \<times> user_row) answer \<times> invite_db" where
  "register_commit passwordHash now userId redemptionId randomColor p db =
    (let b = pg_body p; name = trimmedUsername b in
     if tbl_get us_username name (iv_users db) \<noteq> None then (Refused 409 ''username_taken'', db)
     else if rg_displayName b = Given NotText then (Crashed, db)
     else
       (let isFirstUser = (length (iv_users db) = 0 \<and> \<not> is_replicated b);
            color = (if truthy (rg_avatarColor b) \<and> the (rg_avatarColor b) \<in> set AVATAR_COLORS then the (rg_avatarColor b) else randomColor);
            displayName = (case rg_displayName b of Given (Text s) \<Rightarrow> or_null (js_trim s) | _ \<Rightarrow> None);
            row = new_user_row userId name passwordHash displayName color (if isFirstUser then 1 else 0)
              (if is_replicated b then Some (home_text b) else None)
              (if is_replicated b \<and> truthy (rg_homeUserId b) then rg_homeUserId b else None) now;
            consumesInvite = (\<not> is_replicated b \<and> \<not> pg_open p \<and> truthy (rg_inviteToken b))
        in case (if consumesInvite then redeemInvite now redemptionId (the (rg_inviteToken b)) (insert_user row) db
                 else (case insert_user row (iv_users db) of None \<Rightarrow> (Inl Thrown, db) | Some (r, us) \<Rightarrow> (Inr r, db\<lparr>iv_users := us\<rparr>))) of
             (Inl (InviteUnavailableError _), _) \<Rightarrow> (Refused 403 ''invite_invalid'', db)
           | (Inl _, _) \<Rightarrow> (Crashed, db)
           | (Inr _, db1) \<Rightarrow> (case tbl_get us_id userId (iv_users db1) of
               None \<Rightarrow> (Refused 500 ''user_create_failed'', db1)
             | Some user \<Rightarrow> (Answer (signJwt now (us_id user) (us_username user), user), db1))))"

text \<open>\<open>check-username\<close> and \<open>check-invite\<close>.\<close>

definition check_username :: "bool \<Rightarrow> instance_settings option \<Rightarrow> string option \<Rightarrow> user_row list \<Rightarrow> bool answer" where
  "check_username configOpen row raw users =
    (if \<not> truthy raw then Refused 400 ''username_required''
     else (let u = lower (js_trim (the raw)) in
       if length u < USERNAME_MIN \<or> USERNAME_MAX < length u then Refused 200 ''username_length_invalid''
       else if \<not> username_text u then Refused 200 ''username_characters_invalid''
       else if \<not> registration_open configOpen row then Refused 403 ''registration_closed''
       else Answer (tbl_get us_username u users = None)))"

datatype invite_check = InviteValid string | InviteInvalid string

definition check_invite :: "millis \<Rightarrow> string option \<Rightarrow> invite_db \<Rightarrow> invite_check" where
  "check_invite now token db = (if \<not> truthy token then InviteInvalid ''invalid''
     else (case getInviteByToken (the token) db of
         None \<Rightarrow> InviteInvalid ''invalid''
       | Some row \<Rightarrow> (case inviteStatus row now of
           Active \<Rightarrow> InviteValid (in_name row) | Expired \<Rightarrow> InviteInvalid ''expired'' | Exhausted \<Rightarrow> InviteInvalid ''exhausted''
         | Revoked \<Rightarrow> InviteInvalid ''invalid'')))"

section \<open>Login\<close>

definition isSameHomeAccount :: "(string option \<times> string option) option \<Rightarrow> string option \<Rightarrow> bool" where
  "isSameHomeAccount account homeUserId \<longleftrightarrow> truthy homeUserId \<and> (case account of None \<Rightarrow> False
     | Some (accId, accHomeUserId) \<Rightarrow> accId = homeUserId \<or> accHomeUserId = homeUserId)"

text \<open>What asking the home came to: no answer, a refusal, or the \<open>user\<close> its answer names.\<close>

datatype home_answer = HomeUnreachable | HomeRefused | HomeSignedIn "(string option \<times> string option) option"

datatype login_start = LoginRefused nat string | LoginAccepted user_row | AskHome user_row string

definition truthy_int :: "int option \<Rightarrow> bool" where
  "truthy_int v \<longleftrightarrow> v \<noteq> None \<and> v \<noteq> Some 0"

definition login_request :: "(string \<Rightarrow> string \<Rightarrow> bool) \<Rightarrow> string option \<Rightarrow> string option \<Rightarrow> user_row list \<Rightarrow> login_start" where
  "login_request verifyPassword username password users =
    (if \<not> truthy username then LoginRefused 400 ''username_required''
     else if \<not> truthy password then LoginRefused 400 ''password_required''
     else (case tbl_get us_username (lower (js_trim (the username))) users of
         None \<Rightarrow> LoginRefused 401 ''invalid_credentials''
       | Some user \<Rightarrow>
           if truthy_int (us_isDeleted user) then LoginRefused 401 ''account_deleted''
           else if verifyPassword (the password) (us_passwordHash user) then LoginAccepted user
           else if truthy (us_homeInstance user) then
             (if us_federationHomeOrphaned user = Some 1 then LoginRefused 401 ''invalid_credentials''
              else AskHome user (takeWhile (\<lambda>c. c \<noteq> CHR ''@'') (us_username user)))
           else LoginRefused 401 ''invalid_credentials''))"

text \<open>The peer row whose epoch vouches for the home.\<close>

definition home_peer :: "names \<Rightarrow> string \<Rightarrow> peer_row list \<Rightarrow> peer_row option" where
  "home_peer nm home peers = (let d = extractDomain (nm_url_of nm home) home in
     case filter (\<lambda>p. pe_origin p = d \<or> pe_origin p = ''https://'' @ d \<or> pe_origin p = ''http://'' @ d) peers of [] \<Rightarrow> None | p # _ \<Rightarrow> Some p)"

text \<open>Whether the home's answer may replace the password: the same account, of the incarnation on record.\<close>

definition may_heal :: "names \<Rightarrow> user_row \<Rightarrow> home_answer \<Rightarrow> (peer_row \<Rightarrow> string option) \<Rightarrow> peer_row list \<Rightarrow> bool" where
  "may_heal nm user reply fetchPeerEpoch peers = (case reply of
     HomeSignedIn account \<Rightarrow>
       (if \<not> isSameHomeAccount account (us_homeUserId user) then False
        else (case home_peer nm (the (us_homeInstance user)) peers of
            Some peer \<Rightarrow> (if truthy (pe_peerInstanceId peer) then fetchPeerEpoch peer = pe_peerInstanceId peer else True)
          | None \<Rightarrow> True))
   | _ \<Rightarrow> False)"

definition login_healed ::
  "names \<Rightarrow> user_row \<Rightarrow> home_answer \<Rightarrow> (peer_row \<Rightarrow> string option) \<Rightarrow> peer_row list \<Rightarrow> string \<Rightarrow> millis \<Rightarrow> user_row list
   \<Rightarrow> (JwtPayload \<times> user_row) answer \<times> user_row list" where
  "login_healed nm user reply fetchPeerEpoch peers newHash now users =
    (if \<not> may_heal nm user reply fetchPeerEpoch peers then (Refused 401 ''invalid_credentials'', users)
     else (Answer (signJwt now (us_id user) (us_username user), user),
           tbl_update us_id (us_id user) (\<lambda>u. u\<lparr>us_passwordHash := newHash\<rparr>) users))"

section \<open>Sessions\<close>

record identity =
  id_userId :: string
  id_username :: string
  id_homeInstance :: "string option"

text \<open>\<open>payload\<close> is what \<open>jwt.verify\<close> returned, \<open>None\<close> when it threw.\<close>

definition verifyJwtAndUser :: "JwtPayload option \<Rightarrow> user_row list \<Rightarrow> identity answer" where
  "verifyJwtAndUser payload users = (case payload of
     None \<Rightarrow> Refused 401 ''unauthorized''
   | Some p \<Rightarrow> (case tbl_get us_id (jp_userId p) users of
       None \<Rightarrow> Refused 401 ''account_deleted''
     | Some user \<Rightarrow>
         if us_isDeleted user = Some 1 then Refused 401 ''account_deleted''
         else if truthy_int (us_passwordChangedAt user) \<and> truthy_int (jp_iat p)
            \<and> the (jp_iat p) < the (us_passwordChangedAt user) div 1000 then Refused 401 ''unauthorized''
         else Answer \<lparr>id_userId = jp_userId p, id_username = jp_username p, id_homeInstance = us_homeInstance user\<rparr>))"

definition authenticate :: "(string \<Rightarrow> JwtPayload option) \<Rightarrow> string option \<Rightarrow> user_row list \<Rightarrow> identity answer" where
  "authenticate verifyJwt authorization users =
    (if \<not> truthy authorization \<or> \<not> starts_with ''Bearer '' (the authorization) then Refused 401 ''unauthorized''
     else verifyJwtAndUser (verifyJwt (drop 7 (the authorization))) users)"

definition requireAdmin :: "string \<Rightarrow> user_row list \<Rightarrow> (nat \<times> string) option" where
  "requireAdmin userId users = (case tbl_get us_id userId users of
     Some caller \<Rightarrow> if us_isAdmin caller \<noteq> Some 1 then Some (403, ''forbidden'') else None | None \<Rightarrow> Some (403, ''forbidden''))"

definition requireLocalUser :: "identity \<Rightarrow> (nat \<times> string) option" where
  "requireLocalUser who = (if truthy (id_homeInstance who) then Some (403, ''forbidden'') else None)"

text \<open>Who changes the password read before the hash, written after it; the new session names the account as read.\<close>

definition local_rule :: "user_row \<Rightarrow> bool" where
  "local_rule user \<longleftrightarrow> \<not> truthy (us_homeInstance user) \<or> us_federationHomeOrphaned user = Some 1"

definition change_password_request ::
  "(string \<Rightarrow> string \<Rightarrow> bool) \<Rightarrow> string \<Rightarrow> string option \<Rightarrow> string option \<Rightarrow> user_row list \<Rightarrow> user_row answer" where
  "change_password_request verifyPassword userId currentPassword newPassword users =
    (if \<not> truthy newPassword \<or> length (the newPassword) < PASSWORD_MIN_LENGTH then Refused 400 ''password_too_short''
     else (case tbl_get us_id userId users of
         None \<Rightarrow> Refused 404 ''user_not_found''
       | Some user \<Rightarrow>
           if local_rule user \<and> \<not> truthy currentPassword then Refused 400 ''password_required''
           else if local_rule user \<and> \<not> verifyPassword (the currentPassword) (us_passwordHash user) then Refused 403 ''current_password_incorrect''
           else Answer user))"

definition set_password :: "string \<Rightarrow> millis \<Rightarrow> string \<Rightarrow> user_row list \<Rightarrow> user_row list" where
  "set_password newHash now userId users =
    tbl_update us_id userId (\<lambda>u. u\<lparr>us_passwordHash := newHash, us_passwordChangedAt := Some now\<rparr>) users"

definition change_password_commit :: "string \<Rightarrow> millis \<Rightarrow> user_row \<Rightarrow> user_row list \<Rightarrow> JwtPayload \<times> user_row list" where
  "change_password_commit newHash now user users =
    (signJwt now (us_id user) (us_username user), set_password newHash now (us_id user) users)"

definition reset_password_request :: "string \<Rightarrow> user_row list \<Rightarrow> unit answer" where
  "reset_password_request targetId users = (case tbl_get us_id targetId users of
     None \<Rightarrow> Refused 404 ''user_not_found''
   | Some target \<Rightarrow>
       if us_isDeleted target = Some 1 then Refused 400 ''deleted_user_password_reset''
       else if truthy (us_homeInstance target) then Refused 400 ''federated_user_password_managed_by_home''
       else Answer ())"

section \<open>Attach proofs\<close>

record proof_row =
  pf_token :: string
  pf_homeUserId :: string
  pf_targetDomain :: string
  pf_createdAt :: millis
  pf_expiresAt :: millis
  pf_usedAt :: "millis option"

text \<open>\<open>replace(/^https?:\/\//, '')\<close>, after lowering.\<close>

definition target_domain :: "string \<Rightarrow> string" where
  "target_domain raw = (let t = lower (js_trim raw) in
     stripTrailingSlashes (if starts_with ''https://'' t then drop 8 t else if starts_with ''http://'' t then drop 7 t else t))"

definition mint_proof ::
  "millis \<Rightarrow> string \<Rightarrow> identity \<Rightarrow> string option \<Rightarrow> proof_row list \<Rightarrow> string answer \<times> proof_row list" where
  "mint_proof now newToken who rawTarget proofs =
    (if rawTarget = None \<or> js_trim (the rawTarget) = [] \<or> 255 < length (the rawTarget) then (Refused 400 ''target_domain_required'', proofs)
     else if target_domain (the rawTarget) = [] then (Refused 400 ''target_domain_required'', proofs)
     else if truthy (id_homeInstance who) then (Refused 403 ''native_account_required'', proofs)
     else (let kept = filter (\<lambda>r. \<not> pf_expiresAt r < now) proofs in
       if newToken \<in> pf_token ` set kept then (Crashed, kept)
       else (Answer newToken, kept @ [\<lparr>pf_token = newToken, pf_homeUserId = id_userId who, pf_targetDomain = target_domain (the rawTarget),
               pf_createdAt = now, pf_expiresAt = now + 60000, pf_usedAt = None\<rparr>])))"

definition proof_token :: "string \<Rightarrow> bool" where
  "proof_token s \<longleftrightarrow> length s = 64 \<and> list_all (\<lambda>c. let n = of_char c :: nat in 48 \<le> n \<and> n \<le> 57 \<or> 65 \<le> n \<and> n \<le> 70 \<or> 97 \<le> n \<and> n \<le> 102) s"

definition claimable :: "millis \<Rightarrow> string \<Rightarrow> string \<Rightarrow> proof_row \<Rightarrow> bool" where
  "claimable now rawToken peerDomain r \<longleftrightarrow> pf_token r = rawToken \<and> pf_usedAt r = None \<and> now < pf_expiresAt r \<and> lower (pf_targetDomain r) = peerDomain"

text \<open>The check an authenticated peer asks for; \<open>None\<close> is the signed \<open>{ valid: false }\<close>.\<close>

definition verify_proof ::
  "names \<Rightarrow> millis \<Rightarrow> origin \<Rightarrow> string option \<Rightarrow> user_row list \<Rightarrow> proof_row list \<Rightarrow> (string \<times> string) option \<times> proof_row list" where
  "verify_proof nm now peerOrigin rawToken users proofs =
    (if rawToken = None \<or> \<not> proof_token (the rawToken) then (None, proofs)
     else (let peerDomain = lower (extractDomain (nm_url_of nm peerOrigin) peerOrigin) in
       case filter (claimable now (the rawToken) peerDomain) proofs of
         [] \<Rightarrow> (None, proofs)
       | claimed # _ \<Rightarrow>
           (let proofs1 = map (\<lambda>r. if claimable now (the rawToken) peerDomain r then r\<lparr>pf_usedAt := Some now\<rparr> else r) proofs
            in (case tbl_get us_id (pf_homeUserId claimed) users of
                Some u \<Rightarrow> (if us_isDeleted u = Some 0 \<and> us_homeInstance u = None
                  then (Some (us_id u, (case relayHandleOf u of Some h \<Rightarrow> h | None \<Rightarrow> us_username u)), proofs1) else (None, proofs1))
              | None \<Rightarrow> (None, proofs1)))))"

section \<open>Registration makes a new account and nothing else\<close>

lemma insert_user_some:
  "insert_user row users = Some (r, us) \<longleftrightarrow> r = (us_id row, us_username row) \<and> us = users @ [row]
     \<and> us_id row \<notin> us_id ` set users \<and> us_username row \<notin> us_username ` set users"
  by (auto simp: insert_user_def)

lemma new_user_fields [simp]:
  "us_id (new_user_row i n h d c a hi hu t) = i" "us_username (new_user_row i n h d c a hi hu t) = n"
  "us_passwordHash (new_user_row i n h d c a hi hu t) = h" "us_isAdmin (new_user_row i n h d c a hi hu t) = Some a"
  "us_homeInstance (new_user_row i n h d c a hi hu t) = hi" "us_homeUserId (new_user_row i n h d c a hi hu t) = hu"
  by (simp_all add: new_user_row_def)

text \<open>The account a registration would make.\<close>

definition registered :: "string \<Rightarrow> string \<Rightarrow> pending_registration \<Rightarrow> invite_db \<Rightarrow> user_row \<Rightarrow> bool" where
  "registered passwordHash userId p db row \<longleftrightarrow>
     us_id row = userId \<and> userId \<notin> us_id ` set (iv_users db)
     \<and> us_username row = trimmedUsername (pg_body p) \<and> us_username row \<notin> us_username ` set (iv_users db)
     \<and> us_passwordHash row = passwordHash
     \<and> us_homeInstance row = (if is_replicated (pg_body p) then Some (home_text (pg_body p)) else None)
     \<and> (us_isAdmin row = Some 1 \<longleftrightarrow> iv_users db = [] \<and> \<not> is_replicated (pg_body p))"

definition by_invite :: "pending_registration \<Rightarrow> bool" where
  "by_invite p \<longleftrightarrow> \<not> is_replicated (pg_body p) \<and> \<not> pg_open p \<and> truthy (rg_inviteToken (pg_body p))"

lemma get_appended: "us_id row \<notin> us_id ` set us \<Longrightarrow> tbl_get us_id (us_id row) (us @ [row]) = Some row"
  by (simp add: tbl_get_append tbl_get_None_iff[THEN iffD2])

lemma redeem_new_user:
  "redeemInvite now rid tok (insert_user row) db = (Inr r, db1) \<Longrightarrow>
     iv_users db1 = iv_users db @ [row] \<and> us_id row \<notin> us_id ` set (iv_users db) \<and> us_username row \<notin> us_username ` set (iv_users db)
     \<and> (\<exists>inv_row. tbl_get in_token tok (iv_links db) = Some inv_row \<and> inviteStatus inv_row now = Active
        \<and> length (redemptions_of (in_id inv_row) db1) = length (redemptions_of (in_id inv_row) db) + 1)"
  by (auto simp: redeemInvite_def Let_def insert_user_some redemptions_of_def split: option.splits if_splits prod.splits)

lemma commit_result:
  assumes "register_commit h now uid rid color p db = (res, db1)"
  shows "(\<exists>row. res = Answer (signJwt now uid (trimmedUsername (pg_body p)), row) \<and> iv_users db1 = iv_users db @ [row] \<and> registered h uid p db row
      \<and> (if by_invite p then (\<exists>inv_row. tbl_get in_token (the (rg_inviteToken (pg_body p))) (iv_links db) = Some inv_row \<and> inviteStatus inv_row now = Active
            \<and> length (redemptions_of (in_id inv_row) db1) = length (redemptions_of (in_id inv_row) db) + 1)
          else iv_links db1 = iv_links db \<and> iv_redemptions db1 = iv_redemptions db))
    \<or> ((\<forall>x. res \<noteq> Answer x) \<and> db1 = db)"
proof (cases "tbl_get us_username (trimmedUsername (pg_body p)) (iv_users db) \<noteq> None \<or> rg_displayName (pg_body p) = Given NotText")
  case True
  then show ?thesis using assms by (auto simp: register_commit_def Let_def split: if_splits)
next
  case False
  define row where "row = new_user_row uid (trimmedUsername (pg_body p)) h
      (case rg_displayName (pg_body p) of Given (Text s) \<Rightarrow> or_null (js_trim s) | _ \<Rightarrow> None)
      (if truthy (rg_avatarColor (pg_body p)) \<and> the (rg_avatarColor (pg_body p)) \<in> set AVATAR_COLORS then the (rg_avatarColor (pg_body p)) else color)
      (if length (iv_users db) = 0 \<and> \<not> is_replicated (pg_body p) then 1 else 0)
      (if is_replicated (pg_body p) then Some (home_text (pg_body p)) else None)
      (if is_replicated (pg_body p) \<and> truthy (rg_homeUserId (pg_body p)) then rg_homeUserId (pg_body p) else None) now"
  define out where "out = (if by_invite p then redeemInvite now rid (the (rg_inviteToken (pg_body p))) (insert_user row) db
      else (case insert_user row (iv_users db) of None \<Rightarrow> (Inl Thrown, db) | Some (r, us) \<Rightarrow> (Inr r, db\<lparr>iv_users := us\<rparr>)))"
  have step: "register_commit h now uid rid color p db = (case out of
             (Inl (InviteUnavailableError _), _) \<Rightarrow> (Refused 403 ''invite_invalid'', db)
           | (Inl _, _) \<Rightarrow> (Crashed, db)
           | (Inr _, db1) \<Rightarrow> (case tbl_get us_id uid (iv_users db1) of
               None \<Rightarrow> (Refused 500 ''user_create_failed'', db1)
             | Some user \<Rightarrow> (Answer (signJwt now (us_id user) (us_username user), user), db1)))"
    using False unfolding register_commit_def Let_def out_def row_def by_invite_def by (simp only: if_False de_Morgan_disj not_not simp_thms)
  have row: "us_id row = uid" "us_username row = trimmedUsername (pg_body p)" by (simp_all add: row_def)
  show ?thesis
  proof (cases "fst out")
    case (Inl e)
    then show ?thesis using assms unfolding step by (cases out; cases e) auto
  next
    case (Inr r)
    then obtain db2 where out: "out = (Inr r, db2)" by (cases out) auto
    have made: "iv_users db2 = iv_users db @ [row] \<and> us_id row \<notin> us_id ` set (iv_users db) \<and> us_username row \<notin> us_username ` set (iv_users db)
      \<and> (if by_invite p then (\<exists>inv_row. tbl_get in_token (the (rg_inviteToken (pg_body p))) (iv_links db) = Some inv_row \<and> inviteStatus inv_row now = Active
            \<and> length (redemptions_of (in_id inv_row) db2) = length (redemptions_of (in_id inv_row) db) + 1)
          else iv_links db2 = iv_links db \<and> iv_redemptions db2 = iv_redemptions db)"
    proof (cases "by_invite p")
      case True
      with out have "redeemInvite now rid (the (rg_inviteToken (pg_body p))) (insert_user row) db = (Inr r, db2)" by (simp add: out_def)
      from redeem_new_user[OF this] True show ?thesis by simp
    next
      case False
      with out show ?thesis by (auto simp: out_def insert_user_some split: option.splits)
    qed
    have "register_commit h now uid rid color p db = (Answer (signJwt now uid (trimmedUsername (pg_body p)), row), db2)"
      unfolding step out using made get_appended[of row "iv_users db"] row by simp
    moreover have "registered h uid p db row" using made row by (auto simp: registered_def row_def)
    ultimately show ?thesis using assms made by auto
  qed
qed

text \<open>Names a request may bring.\<close>

lemma lower_idem_at: "CHR ''@'' \<in> set u \<Longrightarrow> \<not> username_text u"
  by (force simp: username_text_def list_all_iff is_digit_def Let_def)

lemma request_names:
  assumes "register_request cfg settings now b db = Inr p"
  shows "pg_body p = b \<and> pg_open p = registration_open cfg settings
    \<and> (is_replicated b \<longrightarrow> CHR ''@'' \<in> set (trimmedUsername b) \<and> federated_open settings)
    \<and> (\<not> is_replicated b \<longrightarrow> username_text (trimmedUsername b) \<and> length (trimmedUsername b) \<in> {3..32}
         \<and> CHR ''@'' \<notin> set (trimmedUsername b) \<and> (\<not> registration_open cfg settings \<longrightarrow> truthy (rg_inviteToken b)))"
  using assms lower_idem_at
  by (auto simp: register_request_def shape_refusal_def username_refusal_def Let_def USERNAME_MIN_def USERNAME_MAX_def
      split: option.splits if_splits)

text \<open>
  C18. Registering makes one new account and touches no other: whatever else happened while the password was hashed, it
  appends one row under a fresh id and a name nobody has, with the password given, or changes nothing. The row belongs to
  the claimed home exactly when its name carries a domain; on a closed instance it took one use
  of an invite that was active; and it is the admin's exactly when it is the first account here.
\<close>
theorem registration_exact:
  assumes "register_request cfg settings t0 b db0 = Inr p" "register_commit h now uid rid color p db = (res, db1)"
  shows "(\<exists>row. res = Answer (signJwt now uid (trimmedUsername b), row) \<and> iv_users db1 = iv_users db @ [row]
      \<and> us_id row = uid \<and> uid \<notin> us_id ` set (iv_users db)
      \<and> us_username row = trimmedUsername b \<and> us_username row \<notin> us_username ` set (iv_users db)
      \<and> us_passwordHash row = h \<and> us_homeInstance row = (if is_replicated b then Some (home_text b) else None)
      \<and> (CHR ''@'' \<in> set (us_username row) \<longleftrightarrow> is_replicated b)
      \<and> (us_isAdmin row = Some 1 \<longleftrightarrow> iv_users db = [] \<and> \<not> is_replicated b)
      \<and> (if \<not> is_replicated b \<and> \<not> registration_open cfg settings
         then (\<exists>inv_row. tbl_get in_token (the (rg_inviteToken b)) (iv_links db) = Some inv_row \<and> inviteStatus inv_row now = Active
            \<and> length (redemptions_of (in_id inv_row) db1) = length (redemptions_of (in_id inv_row) db) + 1)
         else iv_links db1 = iv_links db \<and> iv_redemptions db1 = iv_redemptions db))
    \<or> ((\<forall>x. res \<noteq> Answer x) \<and> db1 = db)"
proof -
  note req = request_names[OF assms(1)]
  have inv: "by_invite p \<longleftrightarrow> \<not> is_replicated b \<and> \<not> registration_open cfg settings" using req by (auto simp: by_invite_def)
  show ?thesis using commit_result[OF assms(2)] req inv unfolding registered_def by (elim disjE exE conjE) (rule disjI1, auto)
qed

text \<open>Registrations over time; between them anything else, which never empties the table of users (a deleted account keeps its row).\<close>

inductive registrations :: "invite_db \<Rightarrow> nat \<Rightarrow> invite_db \<Rightarrow> bool" where
  none: "registrations db 0 db"
| commit: "registrations db n db1 \<Longrightarrow> register_commit h now uid rid color p db1 = (res, db2) \<Longrightarrow>
    registrations db (n + (case res of Answer (_, u) \<Rightarrow> if us_isAdmin u = Some 1 then 1 else 0 | _ \<Rightarrow> 0)) db2"
| other: "registrations db n db1 \<Longrightarrow> (iv_users db1 \<noteq> [] \<longrightarrow> iv_users db2 \<noteq> []) \<Longrightarrow> registrations db n db2"

text \<open>
  One admin comes from registering: however registrations interleave with each other and with the rest of the
  server, at most one of them makes an admin, and none does once there is any account.
\<close>
theorem first_account_only_admin:
  assumes "registrations db n db'"
  shows "n \<le> 1 \<and> (iv_users db \<noteq> [] \<longrightarrow> n = 0) \<and> (n = 1 \<longrightarrow> iv_users db' \<noteq> [])"
  using assms
proof -
  have "n \<le> 1 \<and> (iv_users db \<noteq> [] \<longrightarrow> n = 0 \<and> iv_users db' \<noteq> []) \<and> (n = 1 \<longrightarrow> iv_users db' \<noteq> [])"
    using assms
  proof (induction rule: registrations.induct)
    case (commit db n db1 h now uid rid color p res db2)
    from commit_result[OF commit.hyps(2)] show ?case
    proof (elim disjE exE conjE)
      fix row assume r: "res = Answer (signJwt now uid (trimmedUsername (pg_body p)), row)" "iv_users db2 = iv_users db1 @ [row]" "registered h uid p db1 row"
      have "us_isAdmin row = Some 1 \<Longrightarrow> iv_users db1 = []" using r(3) by (simp add: registered_def)
      then show ?thesis using commit.IH r(1,2) by (cases "us_isAdmin row = Some 1") auto
    next
      assume "\<forall>x. res \<noteq> Answer x" "db2 = db1"
      then show ?thesis using commit.IH by (cases res) auto
    qed
  qed auto
  then show ?thesis by blast
qed


section \<open>What ends a session\<close>

text \<open>Users are read and written by their id.\<close>

interpretation users_by_id: keyed_table us_id "tbl_get us_id" "tbl_update us_id" "tbl_delete us_id"
  by unfold_locales (auto simp: table_simps dest: tbl_get_SomeD)

text \<open>
  C21. Changing a password ends exactly the sessions of earlier seconds: a token is refused when the second it was signed
  in lies before the second of the change and accepted otherwise, the one signed with the change included; no other
  account's sessions are affected, and a deleted account has none.
\<close>
theorem password_change_ends_sessions:
  assumes "distinct (map us_id users)" "tbl_get us_id uid users = Some user" "1000 \<le> t" "1000 \<le> now"
  shows "verifyJwtAndUser (Some (signJwt t uid name)) (set_password h now uid users) =
      (if us_isDeleted user = Some 1 then Refused 401 ''account_deleted''
       else if t div 1000 < now div 1000 then Refused 401 ''unauthorized''
       else Answer \<lparr>id_userId = uid, id_username = name, id_homeInstance = us_homeInstance user\<rparr>)
    \<and> (\<forall>p. jp_userId p \<noteq> uid \<longrightarrow> verifyJwtAndUser (Some p) (set_password h now uid users) = verifyJwtAndUser (Some p) users)"
proof -
  have uid: "us_id user = uid" using tbl_get_SomeD[OF assms(2)] by simp
  have get: "tbl_get us_id i (set_password h now uid users) =
      (if i = uid then Some (user\<lparr>us_passwordHash := h, us_passwordChangedAt := Some now\<rparr>) else tbl_get us_id i users)" for i
    using assms(2) by (simp add: set_password_def users_by_id.get_update)
  show ?thesis using assms(3,4) by (simp add: verifyJwtAndUser_def get signJwt_def truthy_int_def)
qed

lemma truthy_some: "truthy v \<Longrightarrow> v \<noteq> None"
  by (cases v) simp_all

text \<open>
  C20. A password is healed only on the word of its own home: a login whose password does not match changes anything only
  for a live replicated account, when its home signed in the account this row stands for and, where an incarnation of
  that home is on record, the peer proved to be that incarnation; then the hash alone changes, and no session ends.
\<close>
theorem heal_needs_the_home:
  assumes "login_request verifyPassword (Some name) (Some password) users0 = AskHome user homeName"
    and "login_healed nm user reply fetchPeerEpoch peers h now users = (res, users')"
  shows "user \<in> set users0 \<and> \<not> verifyPassword password (us_passwordHash user) \<and> truthy (us_homeInstance user)
      \<and> us_federationHomeOrphaned user \<noteq> Some 1 \<and> \<not> truthy_int (us_isDeleted user)
      \<and> (if res = Refused 401 ''invalid_credentials'' then users' = users
         else (\<exists>account. reply = HomeSignedIn (Some account) \<and> us_homeUserId user \<noteq> None \<and> us_homeUserId user \<in> {fst account, snd account})
            \<and> (\<forall>peer. home_peer nm (the (us_homeInstance user)) peers = Some peer \<and> truthy (pe_peerInstanceId peer)
                 \<longrightarrow> fetchPeerEpoch peer = pe_peerInstanceId peer)
            \<and> res = Answer (signJwt now (us_id user) (us_username user), user)
            \<and> users' = tbl_update us_id (us_id user) (\<lambda>u. u\<lparr>us_passwordHash := h\<rparr>) users
            \<and> (\<forall>payload. verifyJwtAndUser payload users' = verifyJwtAndUser payload users))"
proof -
  have user: "tbl_get us_username (lower (js_trim name)) users0 = Some user" "\<not> truthy_int (us_isDeleted user)"
    "\<not> verifyPassword password (us_passwordHash user)" "truthy (us_homeInstance user)" "us_federationHomeOrphaned user \<noteq> Some 1"
    using assms(1) by (auto simp: login_request_def split: if_splits option.splits)
  have sessions: "verifyJwtAndUser payload (tbl_update us_id (us_id user) (\<lambda>u. u\<lparr>us_passwordHash := h\<rparr>) users) = verifyJwtAndUser payload users" for payload
    by (cases payload) (auto simp: verifyJwtAndUser_def users_by_id.get_update split: option.splits)
  show ?thesis
  proof (cases "may_heal nm user reply fetchPeerEpoch peers")
    case False
    then show ?thesis using assms(2) user tbl_get_SomeD[OF user(1)] by (simp add: login_healed_def)
  next
    case True
    then obtain account where acc: "reply = HomeSignedIn (Some account)" "us_homeUserId user \<noteq> None" "us_homeUserId user \<in> {fst account, snd account}"
      using truthy_some by (cases reply) (auto simp: may_heal_def isSameHomeAccount_def split: if_splits option.splits)
    have epoch: "home_peer nm (the (us_homeInstance user)) peers = Some peer \<Longrightarrow> truthy (pe_peerInstanceId peer) \<Longrightarrow> fetchPeerEpoch peer = pe_peerInstanceId peer" for peer
      using True acc(1) by (auto simp: may_heal_def split: if_splits)
    show ?thesis using assms(2) user tbl_get_SomeD[OF user(1)] True acc epoch sessions by (auto simp: login_healed_def)
  qed
qed

section \<open>Attach proofs are used once, by their target\<close>

text \<open>Mints of tokens other than \<open>t\<close> and checks of any token.\<close>

inductive proof_step :: "string \<Rightarrow> proof_row list \<Rightarrow> proof_row list \<Rightarrow> bool" for t :: string where
  mint: "newToken \<noteq> t \<Longrightarrow> proof_step t ps (snd (mint_proof now newToken who target ps))"
| verify: "proof_step t ps (snd (verify_proof nm now peer tok users ps))"

lemma mint_rows: "r \<in> set (snd (mint_proof now newToken who target ps)) \<Longrightarrow> r \<in> set ps \<or> pf_token r = newToken"
  by (auto simp: mint_proof_def Let_def split: if_splits)

lemma verify_rows: "r \<in> set (snd (verify_proof nm now peer tok users ps)) \<Longrightarrow> r \<in> set ps \<or> (pf_usedAt r \<noteq> None \<and> pf_token r = the tok)"
  by (auto simp: verify_proof_def claimable_def Let_def split: if_splits list.splits option.splits)

definition spent :: "string \<Rightarrow> proof_row list \<Rightarrow> bool" where
  "spent t ps \<longleftrightarrow> (\<forall>r\<in>set ps. pf_token r = t \<longrightarrow> pf_usedAt r \<noteq> None)"

lemma spent_step: "proof_step t ps ps' \<Longrightarrow> spent t ps \<Longrightarrow> spent t ps'"
  by (induction rule: proof_step.induct) (auto simp: spent_def dest: mint_rows verify_rows)

lemma spent_refused: "spent t ps \<Longrightarrow> fst (verify_proof nm now peer (Some t) users ps) = None"
  by (auto simp: verify_proof_def spent_def claimable_def Let_def filter_empty_conv split: list.splits)

text \<open>
  C19. A proof of identity works once, for its target, for a minute: what an authenticated peer learns from it is a live
  account homed here whose own session had it minted, for that peer's domain, no more than a minute before; and after
  that no peer learns anything from it again, whatever is minted or checked in between (no random token repeats it).
\<close>
theorem attach_proof_used_once:
  assumes "mint_proof t0 tok who (Some target) ps0 = (Answer tok, ps1)" and "\<forall>r\<in>set ps0. pf_token r \<noteq> tok"
    and "(proof_step tok)\<^sup>*\<^sup>* ps1 ps2" "verify_proof nm now peer (Some tok) users ps2 = (Some (uid, handle), ps3)"
    and "(proof_step tok)\<^sup>*\<^sup>* ps3 ps4"
  shows "uid = id_userId who \<and> \<not> truthy (id_homeInstance who) \<and> now < t0 + 60000
    \<and> lower (target_domain target) = lower (extractDomain (nm_url_of nm peer) peer)
    \<and> (\<exists>u. tbl_get us_id uid users = Some u \<and> us_isDeleted u = Some 0 \<and> us_homeInstance u = None)
    \<and> fst (verify_proof nm2 now2 peer2 (Some tok) users2 ps4) = None"
proof -
  let ?fresh = "\<lparr>pf_token = tok, pf_homeUserId = id_userId who, pf_targetDomain = target_domain target,
     pf_createdAt = t0, pf_expiresAt = t0 + 60000, pf_usedAt = None\<rparr>"
  have minted: "\<not> truthy (id_homeInstance who)" "\<forall>r\<in>set ps1. pf_token r = tok \<longrightarrow> r = ?fresh"
    using assms(1,2) by (auto simp: mint_proof_def Let_def split: if_splits)
  from assms(3) minted(2) have rows: "\<forall>r\<in>set ps2. pf_token r = tok \<longrightarrow> pf_usedAt r \<noteq> None \<or> r = ?fresh"
  proof (induction rule: rtranclp_induct)
    case (step y z)
    from step.hyps(2) show ?case
    proof cases
      case mint
      then show ?thesis using step.IH step.prems mint_rows by blast
    next
      case verify
      then show ?thesis using step.IH step.prems verify_rows by blast
    qed
  qed blast
  obtain claimed rest where c: "filter (claimable now tok (lower (extractDomain (nm_url_of nm peer) peer))) ps2 = claimed # rest"
    and u: "\<exists>u. tbl_get us_id (pf_homeUserId claimed) users = Some u \<and> us_isDeleted u = Some 0 \<and> us_homeInstance u = None \<and> uid = us_id u"
    and ps3: "ps3 = map (\<lambda>r. if claimable now tok (lower (extractDomain (nm_url_of nm peer) peer)) r then r\<lparr>pf_usedAt := Some now\<rparr> else r) ps2"
    using assms(4) by (auto simp: verify_proof_def Let_def split: if_splits list.splits option.splits)
  have mem: "claimed \<in> set ps2" and can: "claimable now tok (lower (extractDomain (nm_url_of nm peer) peer)) claimed"
    using arg_cong[OF c, of set] by auto
  from rows mem can have fresh: "claimed = ?fresh" by (auto simp: claimable_def)
  note claimed = fresh can[unfolded fresh]
  have "spent tok ps3"
    unfolding spent_def
  proof (intro ballI impI)
    fix x assume x: "x \<in> set ps3" "pf_token x = tok"
    then obtain r where r: "r \<in> set ps2" "x = (if claimable now tok (lower (extractDomain (nm_url_of nm peer) peer)) r then r\<lparr>pf_usedAt := Some now\<rparr> else r)"
      unfolding ps3 by auto
    show "pf_usedAt x \<noteq> None"
    proof (cases "claimable now tok (lower (extractDomain (nm_url_of nm peer) peer)) r")
      case False
      then have "pf_token r = tok" "r \<noteq> ?fresh" "x = r" using r x claimed(2) by auto
      then show ?thesis using rows r(1) by blast
    qed (use r in simp)
  qed
  with assms(5) have "spent tok ps4" by (induction rule: rtranclp_induct) (auto intro: spent_step)
  then have "fst (verify_proof nm2 now2 peer2 (Some tok) users2 ps4) = None" by (rule spent_refused)
  moreover obtain v where v: "tbl_get us_id (pf_homeUserId claimed) users = Some v" "us_isDeleted v = Some 0" "us_homeInstance v = None" "uid = us_id v"
    using u by blast
  moreover have "uid = id_userId who" using tbl_get_SomeD[OF v(1)] v(4) fresh by simp
  moreover have "pf_homeUserId claimed = uid" using tbl_get_SomeD[OF v(1)] v(4) by simp
  ultimately show ?thesis using minted(1) claimed(2) by (simp add: claimable_def)
qed

section \<open>Witnesses\<close>

definition sign_up :: register_body where
  "sign_up = \<lparr>rg_username = Some ''Ana'', rg_password = Some ''password'', rg_displayName = Absent, rg_avatarColor = None,
     rg_homeInstance = None, rg_homeUserId = None, rg_inviteToken = None\<rparr>"

lemma sign_up_request: "register_request True None 1 sign_up (invites_start []) = Inr \<lparr>pg_body = sign_up, pg_open = True\<rparr>"
proof -
  have "shape_refusal sign_up = None" by code_simp
  then show ?thesis by (simp add: register_request_def registration_open_def is_replicated_def sign_up_def)
qed

lemma sign_up_name: "trimmedUsername sign_up = ''ana''"
  by code_simp

lemma sign_up_commit:
  "\<exists>row. register_commit ''h'' 2000 ''u1'' ''r'' ''sky'' \<lparr>pg_body = sign_up, pg_open = True\<rparr> (invites_start [])
     = (Answer (signJwt 2000 ''u1'' ''ana'', row), (invites_start [])\<lparr>iv_users := [row]\<rparr>) \<and> us_isAdmin row = Some 1"
  unfolding register_commit_def pending_registration.simps sign_up_name Let_def
  by (simp add: invites_start_def is_replicated_def sign_up_def insert_user_def new_user_row_def AVATAR_COLORS_def)

lemma registration_exact_witness:
  "\<exists>row. register_commit ''h'' 2000 ''u1'' ''r'' ''sky'' \<lparr>pg_body = sign_up, pg_open = True\<rparr> (invites_start [])
     = (Answer (signJwt 2000 ''u1'' ''ana'', row), (invites_start [])\<lparr>iv_users := [row]\<rparr>) \<and> CHR ''@'' \<notin> set (us_username row)"
proof -
  obtain row where c: "register_commit ''h'' 2000 ''u1'' ''r'' ''sky'' \<lparr>pg_body = sign_up, pg_open = True\<rparr> (invites_start [])
     = (Answer (signJwt 2000 ''u1'' ''ana'', row), (invites_start [])\<lparr>iv_users := [row]\<rparr>)" using sign_up_commit by blast
  have "\<not> is_replicated sign_up" by (simp add: is_replicated_def sign_up_def)
  with registration_exact[OF sign_up_request c] c show ?thesis by (auto simp: invites_start_def)
qed

lemma first_account_only_admin_witness:
  "\<exists>db. registrations (invites_start []) 1 db \<and> iv_users db \<noteq> []"
proof -
  obtain row where c: "register_commit ''h'' 2000 ''u1'' ''r'' ''sky'' \<lparr>pg_body = sign_up, pg_open = True\<rparr> (invites_start [])
     = (Answer (signJwt 2000 ''u1'' ''ana'', row), (invites_start [])\<lparr>iv_users := [row]\<rparr>)" "us_isAdmin row = Some 1" using sign_up_commit by blast
  have "registrations (invites_start []) 1 ((invites_start [])\<lparr>iv_users := [row]\<rparr>)"
    using registrations.commit[OF registrations.none c(1)] c(2) by simp
  from this first_account_only_admin[OF this] show ?thesis by blast
qed

lemma password_change_ends_sessions_witness:
  "verifyJwtAndUser (Some (signJwt 1999 ''u'' ''u'')) (set_password ''h'' 2000 ''u'' [blank_user ''u'']) = Refused 401 ''unauthorized''"
  using password_change_ends_sessions[of "[blank_user ''u'']" "''u''" "blank_user ''u''" 1999 2000 "''u''" "''h''"]
  by (simp add: blank_user_def)

definition replica :: user_row where
  "replica = (blank_user ''u'')\<lparr>us_username := ''u@b'', us_homeInstance := Some ''b'', us_homeUserId := Some ''7''\<rparr>"

lemma heal_needs_the_home_witness:
  "login_healed \<lparr>nm_url_of = (\<lambda>_. None), nm_ourOrigin = ''https://a'', nm_domain = None\<rparr> replica (HomeSignedIn (Some (Some ''8'', None))) (\<lambda>_. None) [] ''h'' 9 [replica]
     = (Refused 401 ''invalid_credentials'', [replica])"
proof -
  let ?nm = "\<lparr>nm_url_of = (\<lambda>_. None), nm_ourOrigin = ''https://a'', nm_domain = None\<rparr>"
  have low: "lower (js_trim ''u@b'') = ''u@b''" by code_simp
  have ask: "login_request (\<lambda>p h. False) (Some ''u@b'') (Some ''p'') [replica] = AskHome replica ''u''"
    by (simp add: login_request_def low replica_def blank_user_def truthy_int_def)
  obtain res us where r: "login_healed ?nm replica (HomeSignedIn (Some (Some ''8'', None))) (\<lambda>_. None) [] ''h'' 9 [replica] = (res, us)" by fastforce
  from heal_needs_the_home[OF ask r] have "res = Refused 401 ''invalid_credentials'' \<and> us = [replica]"
    by (auto simp: replica_def split: if_splits)
  then show ?thesis using r by simp
qed

lemma attach_proof_used_once_witness:
  "fst (verify_proof \<lparr>nm_url_of = (\<lambda>_. None), nm_ourOrigin = ''https://a'', nm_domain = None\<rparr> 9 ''b'' (Some (replicate 64 (CHR ''a''))) [blank_user ''u'']
     (snd (verify_proof \<lparr>nm_url_of = (\<lambda>_. None), nm_ourOrigin = ''https://a'', nm_domain = None\<rparr> 8 ''b'' (Some (replicate 64 (CHR ''a''))) [blank_user ''u'']
       (snd (mint_proof 5 (replicate 64 (CHR ''a'')) \<lparr>id_userId = ''u'', id_username = ''u'', id_homeInstance = None\<rparr> (Some ''b'') []))))) = None"
proof -
  let ?nm = "\<lparr>nm_url_of = (\<lambda>_. None), nm_ourOrigin = ''https://a'', nm_domain = None\<rparr>"
  let ?tok = "replicate 64 (CHR ''a'')" let ?who = "\<lparr>id_userId = ''u'', id_username = ''u'', id_homeInstance = None\<rparr>"
  let ?p = "\<lparr>pf_token = ?tok, pf_homeUserId = ''u'', pf_targetDomain = ''b'', pf_createdAt = 5, pf_expiresAt = 60005, pf_usedAt = None\<rparr>"
  have texts: "js_trim ''b'' = ''b''" "target_domain ''b'' = ''b''" "lower ''b'' = ''b''" "extractDomain None ''b'' = ''b''" "proof_token ?tok" by code_simp+
  have m: "mint_proof 5 ?tok ?who (Some ''b'') [] = (Answer ?tok, [?p])" by (simp add: mint_proof_def texts)
  obtain h where v: "verify_proof ?nm 8 ''b'' (Some ?tok) [blank_user ''u''] [?p] = (Some (''u'', h), [?p\<lparr>pf_usedAt := Some 8\<rparr>])"
    using texts by (simp add: verify_proof_def claimable_def blank_user_def)
  from attach_proof_used_once[OF m _ _ v] have "fst (verify_proof ?nm 9 ''b'' (Some ?tok) [blank_user ''u''] [?p\<lparr>pf_usedAt := Some 8\<rparr>]) = None" by simp
  then show ?thesis unfolding m v snd_conv .
qed

end
