(* ===== verification/History.thy ===== *)
theory History
  imports Prelude "HOL-Library.Multiset"
begin

text \<open>
  Message history: the pages the server cuts (\<open>packages/server/src/utils/messagePaging.ts\<close>) and the window of them a
  client keeps per channel (\<open>packages/web/src/stores/chatStore.ts\<close>): the newest page, older and newer pages, a window
  around a message, and the live messages held while the window ends short of the newest. A message here is what
  ordering and deduplication read of it; \<open>ms_passive\<close> is a system message of a channel, which raises no event. A request is
  split where it awaits: the cursor it asks with, and the state change when the answer is there. SQLite compares ids as
  text; JavaScript's \<open>BigInt\<close> compares them as numbers. Live messages carry server ids, as \<open>BigInt\<close> of any other throws.
  Left out: the times channels were last opened and the caches they evict, load states, typing, read states and
  reactions, and the pending sends of \<open>pendingMessageStore\<close> that an arriving message answers.
\<close>

section \<open>Pages\<close>

definition HISTORY_PAGE_DEFAULT_LIMIT :: int where "HISTORY_PAGE_DEFAULT_LIMIT = 50"
definition HISTORY_PAGE_MAX_LIMIT :: int where "HISTORY_PAGE_MAX_LIMIT = 100"

datatype HistoryPage = Latest nat | Before string nat | After string nat

text \<open>A query value: absent, one text, or a repeated parameter.\<close>

datatype query_value = QAbsent | QText string | QOther

datatype CursorRead = NoCursor | Cursor string | BadCursor

definition readCursor :: "query_value \<Rightarrow> CursorRead" where
  "readCursor v = (case v of QAbsent \<Rightarrow> NoCursor | QText s \<Rightarrow> if s = [] then NoCursor else Cursor s | QOther \<Rightarrow> BadCursor)"

text \<open>\<open>number\<close> is \<open>Number(query.limit)\<close> when that is whole; \<open>NaN\<close> is \<open>None\<close>.\<close>

definition parseHistoryPage :: "query_value \<Rightarrow> query_value \<Rightarrow> int option \<Rightarrow> string + HistoryPage" where
  "parseHistoryPage before after number =
    (let n = (case number of None \<Rightarrow> HISTORY_PAGE_DEFAULT_LIMIT | Some n \<Rightarrow> if n = 0 then HISTORY_PAGE_DEFAULT_LIMIT else n);
         limit = nat (min (max n 1) HISTORY_PAGE_MAX_LIMIT);
         b = readCursor before; a = readCursor after
     in if b = BadCursor \<or> a = BadCursor then Inl ''validation_failed''
        else (case (b, a) of
            (Cursor _, Cursor _) \<Rightarrow> Inl ''paging_cursor_conflict''
          | (Cursor c, _) \<Rightarrow> Inr (Before c limit)
          | (_, Cursor c) \<Rightarrow> Inr (After c limit)
          | _ \<Rightarrow> Inr (Latest limit)))"

record message =
  ms_id :: string
  ms_createdAt :: millis
  ms_content :: "string option"
  ms_passive :: bool
  ms_sourceMessageId :: "string option"

text \<open>\<open>compareChronological\<close> as a key: the time, then the id as a number (its length, then its text).\<close>

definition chronological :: "message \<Rightarrow> millis \<times> nat \<times> string" where
  "chronological m = (ms_createdAt m, length (ms_id m), ms_id m)"

definition newest_first :: "message list \<Rightarrow> message list" where
  "newest_first rows = rev (sort_key (\<lambda>m. (ms_createdAt m, ms_id m)) rows)"

definition selectHistoryPage :: "HistoryPage \<Rightarrow> message list \<Rightarrow> message list" where
  "selectHistoryPage page rows = (case page of
     After cursor limit \<Rightarrow> sort_key chronological (take limit (sort_key ms_id (filter (\<lambda>m. cursor < ms_id m) rows)))
   | Before cursor limit \<Rightarrow> rev (take limit (newest_first (filter (\<lambda>m. ms_id m < cursor) rows)))
   | Latest limit \<Rightarrow> rev (take limit (newest_first rows)))"

section \<open>The client's window\<close>

definition MAX_MESSAGES_PER_CHANNEL :: nat where "MAX_MESSAGES_PER_CHANNEL = 200"
definition HISTORY_PAGE_LIMIT :: nat where "HISTORY_PAGE_LIMIT = 50"
definition MESSAGES_AROUND_LIMIT :: nat where "MESSAGES_AROUND_LIMIT = 50"
definition REALTIME_MESSAGE_EVENT_CAP :: nat where "REALTIME_MESSAGE_EVENT_CAP = 50"

definition isServerId :: "string \<Rightarrow> bool" where
  "isServerId i \<longleftrightarrow> i \<noteq> [] \<and> list_all is_digit i"

definition is_temp :: "message \<Rightarrow> bool" where
  "is_temp m \<longleftrightarrow> starts_with ''temp_'' (ms_id m)"

definition greater_id :: "string \<Rightarrow> string option \<Rightarrow> bool" where
  "greater_id i than \<longleftrightarrow> (case than of None \<Rightarrow> True | Some g \<Rightarrow> dec_to_nat g < dec_to_nat i)"

definition greatestServerId :: "message list \<Rightarrow> string option" where
  "greatestServerId messages = foldl (\<lambda>greatest m.
     if \<not> isServerId (ms_id m) then greatest
     else if greater_id (ms_id m) greatest then Some (ms_id m) else greatest) None messages"

definition withHeldMessages :: "message list \<Rightarrow> message list option \<Rightarrow> message list" where
  "withHeldMessages messages held = (case held of None \<Rightarrow> messages | Some hs \<Rightarrow>
     messages @ filter (\<lambda>m. ms_id m \<notin> ms_id ` set messages \<and> greater_id (ms_id m) (greatestServerId messages)) hs)"

text \<open>\<open>content || null\<close>.\<close>

definition content_of :: "message \<Rightarrow> string option" where
  "content_of m = (if truthy (ms_content m) then ms_content m else None)"

definition unconfirmedSends :: "message list option \<Rightarrow> message list \<Rightarrow> message list" where
  "unconfirmedSends previous page = (case previous of None \<Rightarrow> [] | Some ms \<Rightarrow>
     filter (\<lambda>m. is_temp m \<and> content_of m \<notin> content_of ` set page) ms)"

record chat_state =
  ch_messages :: "string \<Rightarrow> message list option"
  ch_hasMore :: "string \<Rightarrow> bool option"
  ch_detached :: "string \<Rightarrow> message list option"
  ch_presentReturns :: "string \<Rightarrow> nat option"
  ch_events :: "(string \<times> message) list"
  ch_replyTargets :: "string \<Rightarrow> message option"
  ch_editing :: "string option"

definition cached :: "chat_state \<Rightarrow> string \<Rightarrow> message list" where
  "cached st c = (case ch_messages st c of None \<Rightarrow> [] | Some ms \<Rightarrow> ms)"

definition newestPageState :: "chat_state \<Rightarrow> string \<Rightarrow> message list \<Rightarrow> bool \<Rightarrow> chat_state" where
  "newestPageState st c page present =
    (let held = ch_detached st c;
         st1 = st\<lparr>ch_messages := (ch_messages st)(c := Some (withHeldMessages page held @ unconfirmedSends (ch_messages st c) page)),
                  ch_hasMore := (ch_hasMore st)(c := Some (HISTORY_PAGE_LIMIT \<le> length page)),
                  ch_detached := (ch_detached st)(c := None)\<rparr>
     in if present then st1\<lparr>ch_presentReturns := (ch_presentReturns st)(c :=
          Some ((case ch_presentReturns st c of None \<Rightarrow> 0 | Some n \<Rightarrow> n) + 1))\<rparr> else st1)"

text \<open>\<open>loadMessages\<close>: whether it asks, and the newest page when it is there.\<close>

definition loadMessages_asks :: "chat_state \<Rightarrow> string \<Rightarrow> bool \<Rightarrow> bool" where
  "loadMessages_asks st c force \<longleftrightarrow> force \<or> ch_hasMore st c = None"

definition loadMessages_done :: "chat_state \<Rightarrow> string \<Rightarrow> message list \<Rightarrow> chat_state" where
  "loadMessages_done st c page = newestPageState st c page False"

definition returnToPresent_done :: "chat_state \<Rightarrow> string \<Rightarrow> message list \<Rightarrow> chat_state" where
  "returnToPresent_done st c page = (if ch_detached st c = None then st else newestPageState st c page True)"

text \<open>\<open>loadMoreMessages\<close>: the id older messages are asked before, and the older page when it is there.\<close>

definition loadMore_cursor :: "chat_state \<Rightarrow> string \<Rightarrow> string option" where
  "loadMore_cursor st c = (case ch_messages st c of
     Some (oldest # _) \<Rightarrow> if ch_hasMore st c = Some True then Some (ms_id oldest) else None | _ \<Rightarrow> None)"

definition loadMore_done :: "chat_state \<Rightarrow> string \<Rightarrow> message list \<Rightarrow> chat_state" where
  "loadMore_done st c older = st\<lparr>ch_messages := (ch_messages st)(c := Some (older @ cached st c)),
     ch_hasMore := (ch_hasMore st)(c := Some (HISTORY_PAGE_LIMIT \<le> length older))\<rparr>"

datatype LoadNewerResult = Paged | Attached | Present | Skipped

definition loadNewer_cursor :: "chat_state \<Rightarrow> string \<Rightarrow> string option" where
  "loadNewer_cursor st c = (if ch_detached st c = None then None else greatestServerId (cached st c))"

definition loadNewer_done :: "chat_state \<Rightarrow> string \<Rightarrow> string \<Rightarrow> message list \<Rightarrow> bool \<Rightarrow> chat_state \<times> LoadNewerResult" where
  "loadNewer_done st c cursor messages forward =
    (if ch_detached st c = None \<or> greatestServerId (cached st c) \<noteq> Some cursor then (st, Skipped)
     else if \<not> forward then (newestPageState st c messages True, Present)
     else (let reachedPresent = (length messages < HISTORY_PAGE_LIMIT);
               next1 = cached st c @ filter (\<lambda>m. ms_id m \<notin> ms_id ` set (cached st c)) messages;
               next2 = (if reachedPresent then withHeldMessages next1 (ch_detached st c) else next1)
           in (st\<lparr>ch_messages := (ch_messages st)(c := Some next2),
                  ch_detached := (if reachedPresent then (ch_detached st)(c := None) else ch_detached st)\<rparr>,
               if reachedPresent then Attached else Paged)))"

text \<open>\<open>loadMessagesAround\<close>, when the window around a message is there.\<close>

definition loadAround_done :: "chat_state \<Rightarrow> string \<Rightarrow> string \<Rightarrow> message list \<Rightarrow> chat_state" where
  "loadAround_done st c target messages =
    (let newerCount = length (dropWhile (\<lambda>m. ms_id m \<noteq> target) messages) - 1;
         reachesPresent = (newerCount < MESSAGES_AROUND_LIMIT div 2);
         held = ch_detached st c
     in st\<lparr>ch_messages := (ch_messages st)(c := Some (if reachesPresent then withHeldMessages messages held else messages)),
           ch_hasMore := (ch_hasMore st)(c := Some True),
           ch_detached := (ch_detached st)(c := (if reachesPresent then None else Some (case held of None \<Rightarrow> [] | Some hs \<Rightarrow> hs)))\<rparr>)"

definition capped :: "nat \<Rightarrow> 'a list \<Rightarrow> 'a list" where
  "capped n xs = drop (length xs - n) xs"

text \<open>The optimistic sends an arriving message replaces.\<close>

definition without_answered :: "message \<Rightarrow> message list \<Rightarrow> message list" where
  "without_answered m current = filter (\<lambda>x. \<not> is_temp x \<or> content_of x \<noteq> content_of m) current"

definition addMessage :: "chat_state \<Rightarrow> string \<Rightarrow> message \<Rightarrow> chat_state" where
  "addMessage st c m = (if ms_id m \<in> ms_id ` set (cached st c) then st
     else st\<lparr>ch_messages := (ch_messages st)(c := Some (capped MAX_MESSAGES_PER_CHANNEL (without_answered m (cached st c) @ [m])))\<rparr>)"

definition addRealtimeMessage :: "chat_state \<Rightarrow> string \<Rightarrow> message \<Rightarrow> chat_state" where
  "addRealtimeMessage st c m =
    (let current = cached st c; held = ch_detached st c;
         known = (case held of None \<Rightarrow> current | Some hs \<Rightarrow> current @ hs)
     in if ms_id m \<in> ms_id ` set known then st
        else if truthy (ms_sourceMessageId m) \<and> the (ms_sourceMessageId m) \<in> ms_id ` set known then st
        else if Some (ms_id m) \<in> ms_sourceMessageId ` set known then st
        else (let kept = without_answered m current;
                  st1 = (case held of
                      Some hs \<Rightarrow> st\<lparr>ch_messages := (if length kept \<noteq> length current then (ch_messages st)(c := Some kept) else ch_messages st),
                                     ch_detached := (ch_detached st)(c := Some (capped MAX_MESSAGES_PER_CHANNEL (hs @ [m])))\<rparr>
                    | None \<Rightarrow> st\<lparr>ch_messages := (ch_messages st)(c := Some (capped MAX_MESSAGES_PER_CHANNEL (kept @ [m])))\<rparr>)
              in if ms_passive m then st1
                 else st1\<lparr>ch_events := capped REALTIME_MESSAGE_EVENT_CAP (ch_events st @ [(c, m)])\<rparr>))"

definition updateMessage :: "chat_state \<Rightarrow> string \<Rightarrow> message \<Rightarrow> chat_state" where
  "updateMessage st c m = (let upd = map (\<lambda>x. if ms_id x = ms_id m then m else x) in
     st\<lparr>ch_detached := map_option upd \<circ> ch_detached st,
        ch_messages := (case ch_messages st c of None \<Rightarrow> ch_messages st | Some ms \<Rightarrow> (ch_messages st)(c := Some (upd ms)))\<rparr>)"

definition removeMessage :: "chat_state \<Rightarrow> string \<Rightarrow> string \<Rightarrow> chat_state" where
  "removeMessage st i c =
     (let st1 = st\<lparr>ch_detached := map_option (filter (\<lambda>x. ms_id x \<noteq> i)) \<circ> ch_detached st,
                    ch_replyTargets := (if map_option ms_id (ch_replyTargets st c) = Some i then (ch_replyTargets st)(c := None) else ch_replyTargets st)\<rparr>
      in case ch_messages st c of
           None \<Rightarrow> st1
         | Some ms \<Rightarrow> st1\<lparr>ch_messages := (ch_messages st)(c := Some (filter (\<lambda>x. ms_id x \<noteq> i) ms)),
                          ch_editing := (if ch_editing st = Some i then None else ch_editing st)\<rparr>)"

text \<open>Paging forward until the window ends at the newest message; \<open>table\<close> is what the server answers from.\<close>

fun catch_up :: "nat \<Rightarrow> message list \<Rightarrow> string \<Rightarrow> chat_state \<Rightarrow> chat_state \<times> LoadNewerResult" where
  "catch_up 0 table c st = (st, Paged)"
| "catch_up (Suc n) table c st = (case loadNewer_cursor st c of
     None \<Rightarrow> (st, Skipped)
   | Some cursor \<Rightarrow> (case loadNewer_done st c cursor (selectHistoryPage (After cursor HISTORY_PAGE_LIMIT) table) True of
       (st', Paged) \<Rightarrow> catch_up n table c st' | done \<Rightarrow> done))"

text \<open>Scrolling back until the start is reached.\<close>

fun page_back :: "nat \<Rightarrow> message list \<Rightarrow> string \<Rightarrow> chat_state \<Rightarrow> chat_state" where
  "page_back 0 table c st = st"
| "page_back (Suc n) table c st = (case loadMore_cursor st c of
     None \<Rightarrow> st
   | Some cursor \<Rightarrow> page_back n table c (loadMore_done st c (selectHistoryPage (Before cursor HISTORY_PAGE_LIMIT) table)))"

section \<open>Order of ids\<close>

lemma dec_to_nat_shift: "foldl (\<lambda>acc c. 10 * acc + digit_val c) n s = n * 10 ^ length s + dec_to_nat s"
proof (induction s rule: rev_induct)
  case (snoc c s)
  then show ?case by (simp add: dec_to_nat_snoc algebra_simps)
qed (simp add: dec_to_nat_def)

lemma dec_to_nat_Cons: "dec_to_nat (c # s) = digit_val c * 10 ^ length s + dec_to_nat s"
  using dec_to_nat_shift[of "digit_val c" s] by (simp add: dec_to_nat_def)

lemma dec_to_nat_bound: "list_all is_digit s \<Longrightarrow> dec_to_nat s < 10 ^ length s"
proof (induction s rule: rev_induct)
  case (snoc c s)
  then show ?case using digit_val_less[of c] by (simp add: dec_to_nat_snoc)
qed (simp add: dec_to_nat_def)

lemma digit_order: "is_digit a \<Longrightarrow> is_digit b \<Longrightarrow> a < b \<longleftrightarrow> digit_val a < digit_val b"
  unfolding is_digit_def digit_val_def less_char_def by linarith

lemma text_order:
  assumes "length a = length b" "list_all is_digit a" "list_all is_digit b"
  shows "a < b \<longleftrightarrow> dec_to_nat a < dec_to_nat b"
  using assms
proof (induction a b rule: list_induct2)
  case (Cons x xs y ys)
  have bx: "dec_to_nat xs < 10 ^ length ys" and by': "dec_to_nat ys < 10 ^ length ys"
    using Cons.prems Cons.hyps dec_to_nat_bound[of xs] dec_to_nat_bound[of ys] by auto
  have step: "u * p + v < w * p + z" if "u < w" "v < p" for u v w z p :: nat
  proof -
    have "u * p + v < Suc u * p" using that(2) by simp
    also have "\<dots> \<le> w * p" using that(1) by (intro mult_le_mono1) simp
    finally show ?thesis by simp
  qed
  consider "digit_val x < digit_val y" | "digit_val y < digit_val x" | "x = y"
    using Cons.prems digit_order[of x y] digit_order[of y x] by (metis linorder_neqE list.pred_inject(2))
  then show ?case
  proof cases
    case 1
    then show ?thesis using step[OF 1 bx] Cons digit_order[of x y] by (auto simp: dec_to_nat_Cons)
  next
    case 2
    then show ?thesis using step[OF 2 by', of "dec_to_nat xs"] Cons digit_order[of y x] by (auto simp: dec_to_nat_Cons)
  next
    case 3
    then show ?thesis using Cons by (auto simp: dec_to_nat_Cons)
  qed
qed (simp add: dec_to_nat_def)

lemma server_ids_order:
  assumes "isServerId a" "isServerId b" "length a = length b"
  shows "a < b \<longleftrightarrow> dec_to_nat a < dec_to_nat b" "dec_to_nat a = dec_to_nat b \<longleftrightarrow> a = b"
  using text_order[of a b] text_order[of b a] assms by (auto simp: isServerId_def)

lemma greatest_snoc: "greatestServerId (ms @ [m]) = (if \<not> isServerId (ms_id m) then greatestServerId ms
    else if greater_id (ms_id m) (greatestServerId ms) then Some (ms_id m) else greatestServerId ms)"
  by (simp add: greatestServerId_def)

lemma greatest_bound:
  assumes "greatestServerId ms = Some g"
  shows "isServerId g" "m \<in> set ms \<Longrightarrow> isServerId (ms_id m) \<Longrightarrow> dec_to_nat (ms_id m) \<le> dec_to_nat g"
  using assms
proof (induction ms arbitrary: g rule: rev_induct)
  case (snoc x ms)
  { case 1
    then show ?case using snoc.IH(1) by (auto simp: greatest_snoc split: if_splits) }
  { case 2
    have none: "\<not> isServerId (ms_id m')" if "greatestServerId ms = None" "m' \<in> set ms" for m'
      using that by (induction ms rule: rev_induct) (auto simp: greatest_snoc greater_id_def split: if_splits)
    show ?case
    proof (cases "greatestServerId ms")
      case None
      then show ?thesis using 2 none[OF None] by (auto simp: greatest_snoc greater_id_def split: if_splits)
    next
      case (Some h)
      then show ?thesis using 2 snoc.IH(2)[of h] by (force simp: greatest_snoc greater_id_def split: if_splits)
    qed }
qed (simp_all add: greatestServerId_def)

section \<open>Paging forward\<close>

abbreviation ids :: "message list \<Rightarrow> string list" where
  "ids ms \<equiv> map ms_id ms"

abbreviation past :: "string \<Rightarrow> message list \<Rightarrow> message list" where
  "past g table \<equiv> filter (\<lambda>m. g < ms_id m) table"

text \<open>Ids of one length: every id the generator of \<open>Snowflake\<close> makes while its digits do not grow.\<close>

definition uniform :: "nat \<Rightarrow> message list \<Rightarrow> bool" where
  "uniform k table \<longleftrightarrow> distinct (ids table) \<and> (\<forall>m \<in> set table. isServerId (ms_id m) \<and> length (ms_id m) = k)"

text \<open>What reading a table page by page relies on: a page holds the rows with the smallest keys past the cursor.\<close>

locale keyset_paging =
  fixes key :: "'r \<Rightarrow> 'k::linorder"
    and page :: "'k \<Rightarrow> nat \<Rightarrow> 'r list \<Rightarrow> 'r list"
  assumes page_rows: "mset (page g k table) = mset (take k (sort_key key (filter (\<lambda>m. g < key m) table)))"
begin

lemma after_page:
  fixes table g k
  defines "S \<equiv> sort_key key (filter (\<lambda>m. g < key m) table)"
  shows "mset (page g k table) = mset (take k S)"
    "set (page g k table) = set (take k S)"
    "length (page g k table) = min k (length (filter (\<lambda>m. g < key m) table))"
    "mset S = mset (filter (\<lambda>m. g < key m) table)" "sorted (map key S)" "length S = length (filter (\<lambda>m. g < key m) table)"
  using page_rows[of g k table] mset_eq_setD[OF page_rows[of g k table]] mset_eq_length[OF page_rows[of g k table]]
  by (simp_all add: S_def)

text \<open>After a full page, cut at its greatest key, exactly the other rows are left.\<close>

lemma past_full_page:
  assumes "distinct (map key table)" "k \<le> length (filter (\<lambda>m. g < key m) table)" "0 < k"
  defines "g' \<equiv> Max (insert g (key ` set (page g k table)))"
  shows "mset (filter (\<lambda>m. g < key m) table) = mset (page g k table) + mset (filter (\<lambda>m. g' < key m) table)"
    "length (filter (\<lambda>m. g' < key m) table) = length (filter (\<lambda>m. g < key m) table) - k"
proof -
  define S where "S = sort_key key (filter (\<lambda>m. g < key m) table)"
  note P = after_page[where ?g = g and ?table = table, folded S_def]
  let ?T = "take k S" and ?D = "drop k S"
  have dS: "distinct (map key S)" using assms(1) by (simp add: S_def distinct_map inj_on_def)
  have ne: "?T \<noteq> []" using assms(2,3) P(6) by auto
  have split: "sorted (map key ?T @ map key ?D)" "distinct (map key ?T @ map key ?D)" using P(5) dS by (simp_all flip: map_append)
  have mem: "set S = {m \<in> set table. g < key m}" using P(4) by (metis set_filter set_mset_mset)
  have g'T: "g' \<in> key ` set ?T"
  proof -
    have "hd ?T \<in> set S" using hd_in_set[OF ne] by (rule in_set_takeD)
    then have "g < key (hd ?T)" unfolding mem by simp
    moreover have "key (hd ?T) \<le> g'" unfolding g'_def P(2) using hd_in_set[OF ne] by (intro Max_ge) simp_all
    ultimately have "g' \<noteq> g" by simp
    moreover have "g' \<in> insert g (key ` set ?T)" unfolding g'_def P(2) by (rule Max_in) simp_all
    ultimately show ?thesis by blast
  qed
  have le: "\<forall>m \<in> set ?T. key m \<le> g'" unfolding g'_def P(2) by auto
  have D: "\<forall>m \<in> set ?D. g' < key m"
  proof
    fix m assume m: "m \<in> set ?D"
    obtain x where x: "x \<in> set ?T" "g' = key x" using g'T by blast
    have "key x \<le> key m" using split(1) x(1) m unfolding sorted_append by simp
    moreover have "key x \<noteq> key m" using split(2) x(1) m unfolding distinct_append by auto
    ultimately show "g' < key m" using x(2) by simp
  qed
  have gg': "g < g'"
  proof -
    obtain x where x: "x \<in> set ?T" "g' = key x" using g'T by blast
    have "x \<in> set S" using x(1) by (rule in_set_takeD)
    then show ?thesis unfolding mem x(2) by simp
  qed
  have "(filter (\<lambda>m. g' < key m) table) = filter (\<lambda>m. g' < key m) (filter (\<lambda>m. g < key m) table)"
    unfolding filter_filter using gg' by (intro filter_cong) (auto dest: less_trans)
  then have "mset (filter (\<lambda>m. g' < key m) table) = filter_mset (\<lambda>m. g' < key m) (mset S)" unfolding P(4) by (simp only: mset_filter)
  also have "mset S = mset ?T + mset ?D" by (metis append_take_drop_id mset_append)
  also have "filter_mset (\<lambda>m. g' < key m) (mset ?T + mset ?D) = mset ?D"
  proof -
    have "filter (\<lambda>m. g' < key m) ?T = []" using le by (simp add: filter_empty_conv not_less)
    moreover have "filter (\<lambda>m. g' < key m) ?D = ?D" using D by (simp add: filter_id_conv)
    ultimately show ?thesis by (simp del: filter_empty_conv flip: mset_filter)
  qed
  finally have rest: "mset (filter (\<lambda>m. g' < key m) table) = mset ?D" .
  then show "mset (filter (\<lambda>m. g < key m) table) = mset (page g k table) + mset (filter (\<lambda>m. g' < key m) table)"
    using P(1,4) by (metis append_take_drop_id mset_append)
  show "length (filter (\<lambda>m. g' < key m) table) = length (filter (\<lambda>m. g < key m) table) - k" using rest P(6) by (metis length_drop size_mset)
qed

end

interpretation forward: keyset_paging ms_id "\<lambda>g k. selectHistoryPage (After g k)"
  by unfold_locales (simp add: selectHistoryPage_def)

text \<open>The greatest id after a page of later ids is appended.\<close>

lemma greatest_append:
  assumes "greatestServerId w = Some g" "length g = n" "\<forall>m \<in> set page. isServerId (ms_id m) \<and> length (ms_id m) = n"
  shows "greatestServerId (w @ page) = Some (Max (insert g (ms_id ` set page)))
    \<and> isServerId (Max (insert g (ms_id ` set page))) \<and> length (Max (insert g (ms_id ` set page))) = n"
  using assms(3)
proof (induction page rule: rev_induct)
  case Nil
  then show ?case using assms(1,2) greatest_bound(1)[OF assms(1)] by simp
next
  case (snoc x page)
  define M where "M = Max (insert g (ms_id ` set page))"
  have IH: "greatestServerId (w @ page) = Some M" "isServerId M" "length M = n" using snoc by (auto simp: M_def)
  have x: "isServerId (ms_id x)" "length (ms_id x) = n" using snoc.prems by auto
  have "Max (insert g (ms_id ` set (page @ [x]))) = max (ms_id x) M"
    using Max_insert[of "insert g (ms_id ` set page)" "ms_id x"] by (simp add: insert_commute M_def del: Max_insert)
  moreover have "M < ms_id x \<longleftrightarrow> dec_to_nat M < dec_to_nat (ms_id x)" using server_ids_order(1) IH x by simp
  then have "greatestServerId (w @ page @ [x]) = Some (max (ms_id x) M)"
    using IH x greatest_snoc[of "w @ page" x] by (auto simp: greater_id_def max_def)
  ultimately show ?case using IH x by (simp only:) (simp add: max_def)
qed

lemma page_is_new:
  assumes "greatestServerId w = Some g" "length g = k" "uniform k table" "m \<in> set table" "g < ms_id m"
  shows "ms_id m \<notin> ms_id ` set w"
proof
  assume "ms_id m \<in> ms_id ` set w"
  then obtain x where x: "x \<in> set w" "ms_id m = ms_id x" by blast
  have id: "isServerId (ms_id m)" "length (ms_id m) = k" using assms(3,4) by (auto simp: uniform_def)
  have "dec_to_nat (ms_id m) \<le> dec_to_nat g" using greatest_bound(2)[OF assms(1) x(1)] id x(2) by simp
  moreover have "dec_to_nat g < dec_to_nat (ms_id m)"
    using server_ids_order(1)[OF greatest_bound(1)[OF assms(1)] id(1)] assms(2,5) id(2) by simp
  ultimately show False by simp
qed

lemma loadNewer_forward:
  assumes "ch_messages st c = Some w" "ch_detached st c = Some held" "greatestServerId w = Some g"
    and "\<forall>m \<in> set page. ms_id m \<notin> ms_id ` set w"
  shows "loadNewer_done st c g page True =
    (if length page < HISTORY_PAGE_LIMIT
     then (st\<lparr>ch_messages := (ch_messages st)(c := Some (withHeldMessages (w @ page) (Some held))),
              ch_detached := (ch_detached st)(c := None)\<rparr>, Attached)
     else (st\<lparr>ch_messages := (ch_messages st)(c := Some (w @ page))\<rparr>, Paged))"
proof -
  have "filter (\<lambda>m. ms_id m \<notin> ms_id ` set w) page = page" using assms(4) by (simp add: filter_id_conv)
  then show ?thesis using assms(1-3) by (simp add: loadNewer_done_def cached_def Let_def)
qed

lemma catch_up_from:
  assumes "uniform k table" "ch_messages st c = Some w" "ch_detached st c = Some held" "greatestServerId w = Some g" "length g = k"
    and "length (past g table) < HISTORY_PAGE_LIMIT * n"
  shows "\<exists>newer st'. catch_up n table c st = (st', Attached) \<and> ch_detached st' c = None
    \<and> ch_messages st' c = Some (withHeldMessages (w @ newer) (Some held)) \<and> mset newer = mset (past g table)"
  using assms(2-)
proof (induction n arbitrary: st w g)
  case (Suc n)
  define page where "page = selectHistoryPage (After g HISTORY_PAGE_LIMIT) table"
  note P = forward.after_page[where ?g = g and ?table = table]
  have in_table: "m \<in> set table \<and> g < ms_id m" if "m \<in> set page" for m
  proof -
    have "m \<in> set (sort_key ms_id (past g table))" using that unfolding page_def P(2) by (rule in_set_takeD)
    then show ?thesis by simp
  qed
  then have fresh: "\<forall>m \<in> set page. ms_id m \<notin> ms_id ` set w" using page_is_new[OF Suc.prems(3,4) assms(1)] by blast
  have cursor: "loadNewer_cursor st c = Some g" using Suc.prems by (simp add: loadNewer_cursor_def cached_def)
  note answered = loadNewer_forward[OF Suc.prems(1-3) fresh]
  show ?case
  proof (cases "length page < HISTORY_PAGE_LIMIT")
    case True
    then have "length (past g table) < HISTORY_PAGE_LIMIT" using P(3) unfolding page_def by simp
    then have "mset page = mset (past g table)" using P(1,4,6) unfolding page_def by simp
    then show ?thesis using True cursor answered by (simp add: page_def[symmetric]) blast
  next
    case False
    define g' where "g' = Max (insert g (ms_id ` set page))"
    let ?st = "st\<lparr>ch_messages := (ch_messages st)(c := Some (w @ page))\<rparr>"
    have full: "HISTORY_PAGE_LIMIT \<le> length (past g table)" using False P(3) unfolding page_def by simp
    have rest: "mset (past g table) = mset page + mset (past g' table)" "length (past g' table) = length (past g table) - HISTORY_PAGE_LIMIT"
      using forward.past_full_page[of table HISTORY_PAGE_LIMIT g] full assms(1) by (simp_all add: uniform_def page_def g'_def HISTORY_PAGE_LIMIT_def)
    have g': "greatestServerId (w @ page) = Some g'" "length g' = k"
      using greatest_append[OF Suc.prems(3,4), of page] in_table assms(1) by (auto simp: uniform_def g'_def)
    have "\<exists>newer st'. catch_up n table c ?st = (st', Attached) \<and> ch_detached st' c = None
      \<and> ch_messages st' c = Some (withHeldMessages ((w @ page) @ newer) (Some held)) \<and> mset newer = mset (past g' table)"
      using Suc.prems g' rest(2) full by (intro Suc.IH) (auto simp: HISTORY_PAGE_LIMIT_def)
    then obtain newer st' where r: "catch_up n table c ?st = (st', Attached)" "ch_detached st' c = None"
      "ch_messages st' c = Some (withHeldMessages (w @ page @ newer) (Some held))" "mset newer = mset (past g' table)" by auto
    have "catch_up (Suc n) table c st = (st', Attached)" using False cursor answered r(1) by (simp add: page_def[symmetric])
    moreover have "mset (page @ newer) = mset (past g table)" using rest(1) r(4) by simp
    ultimately show ?thesis using r(2,3) by blast
  qed
qed simp

section \<open>Paging back\<close>

text \<open>The table orders its rows alike by id and by time: no message came late.\<close>

definition in_step :: "message list \<Rightarrow> bool" where
  "in_step table \<longleftrightarrow> distinct (ids table) \<and> (\<forall>a \<in> set table. \<forall>b \<in> set table. ms_id a < ms_id b \<longrightarrow> ms_createdAt a \<le> ms_createdAt b)"

lemma newest_first_set [simp]: "set (newest_first rows) = set rows" "length (newest_first rows) = length rows"
  by (simp_all add: newest_first_def)

lemma newest_first_filter: "newest_first (filter P rows) = filter P (newest_first rows)"
  by (simp add: newest_first_def filter_sort flip: rev_filter)

lemma newest_first_distinct: "distinct (ids rows) \<Longrightarrow> distinct (ids (newest_first rows))"
  by (simp add: newest_first_def distinct_map inj_on_def)

lemma newest_first_in_step:
  assumes "in_step rows"
  shows "newest_first rows = rev (sort_key ms_id rows)"
proof -
  let ?f = "\<lambda>m. (ms_createdAt m, ms_id m)"
  have inj: "x = y" if "x \<in> set rows" "y \<in> set rows" "ms_id x = ms_id y" for x y
    using assms that by (auto simp: in_step_def distinct_map inj_on_def)
  have "sorted_wrt (\<lambda>x y. ?f x \<le> ?f y) (sort_key ms_id rows)"
  proof (rule sorted_wrt_mono_rel[of _ "\<lambda>x y. ms_id x \<le> ms_id y"])
    fix x y assume xy: "x \<in> set (sort_key ms_id rows)" "y \<in> set (sort_key ms_id rows)" "ms_id x \<le> ms_id y"
    show "?f x \<le> ?f y"
    proof (cases "ms_id x = ms_id y")
      case True
      then have "x = y" using inj xy by simp
      then show ?thesis by simp
    next
      case False
      then have "ms_createdAt x \<le> ms_createdAt y" using assms xy by (auto simp: in_step_def)
      then show ?thesis using xy(3) by (simp add: less_eq_prod_def le_less)
    qed
  next
    show "sorted_wrt (\<lambda>x y. ms_id x \<le> ms_id y) (sort_key ms_id rows)" using sorted_sort_key[of ms_id rows] by (simp only: sorted_map)
  qed
  then have "sorted (map ?f (sort_key ms_id rows))" by (simp only: sorted_map)
  then have "sort_key ?f rows = sort_key ms_id rows" using inj by (intro sort_key_inj_key_eq) (auto simp: inj_on_def)
  then show ?thesis by (simp add: newest_first_def)
qed

lemma latest_page: "in_step table \<Longrightarrow>
    selectHistoryPage (Latest k) table = drop (length table - k) (sort_key ms_id table)"
  by (simp add: selectHistoryPage_def newest_first_in_step take_rev)

lemma before_page:
  assumes "in_step table" "i < length table"
  defines "S \<equiv> sort_key ms_id table"
  shows "selectHistoryPage (Before (ms_id (S ! i)) k) table = drop (i - k) (take i S)"
proof -
  have len: "length S = length table" by (simp add: S_def)
  have S: "sorted (ids S)" "distinct (ids S)" using assms(1) by (simp_all add: S_def in_step_def distinct_map inj_on_def)
  have parts: "S = take i S @ S ! i # drop (Suc i) S" using assms(2) len by (simp add: id_take_nth_drop)
  have lt: "ms_id m < ms_id (S ! i)" if "m \<in> set (take i S)" for m
  proof -
    have "sorted (ids (take i S @ S ! i # drop (Suc i) S))" "distinct (ids (take i S @ S ! i # drop (Suc i) S))" using S parts by simp_all
    then have "ms_id m \<le> ms_id (S ! i)" "ms_id m \<noteq> ms_id (S ! i)" using that by (auto simp: sorted_append intro: rev_image_eqI)
    then show ?thesis by simp
  qed
  have ge: "\<not> ms_id m < ms_id (S ! i)" if "m \<in> set (drop (Suc i) S)" for m
  proof -
    have "sorted (ids (take i S @ S ! i # drop (Suc i) S))" using S parts by simp
    then show ?thesis using that by (auto simp: sorted_append not_less)
  qed
  have "filter (\<lambda>m. ms_id m < ms_id (S ! i)) S
      = filter (\<lambda>m. ms_id m < ms_id (S ! i)) (take i S) @ filter (\<lambda>m. ms_id m < ms_id (S ! i)) (S ! i # drop (Suc i) S)"
    by (subst parts) (simp only: filter_append)
  also have "\<dots> = take i S" using lt ge by (simp add: filter_id_conv filter_empty_conv)
  finally have "filter (\<lambda>m. ms_id m < ms_id (S ! i)) S = take i S" .
  then show ?thesis using assms(2) len
    by (simp add: selectHistoryPage_def newest_first_filter newest_first_in_step[OF assms(1)] flip: rev_filter S_def)
      (simp add: take_rev)
qed

lemma page_back_from:
  assumes "in_step table" "ch_messages st c = Some (drop i (sort_key ms_id table))" "ch_hasMore st c = Some b"
    and "b \<longrightarrow> i < length table" "\<not> b \<longrightarrow> i = 0" "b \<longrightarrow> i < HISTORY_PAGE_LIMIT * n"
  shows "ch_messages (page_back n table c st) c = Some (sort_key ms_id table) \<and> ch_hasMore (page_back n table c st) c = Some False"
  using assms(2-)
proof (induction n arbitrary: st i b)
  case (Suc n)
  define S where "S = sort_key ms_id table"
  show ?case
  proof (cases b)
    case False
    then show ?thesis using Suc.prems by (simp add: loadMore_cursor_def split: list.splits)
  next
    case True
    then have i: "i < length table" "i < length S" using Suc.prems by (simp_all add: S_def)
    have drop_i: "drop i S = S ! i # drop (Suc i) S" using i by (simp add: Cons_nth_drop_Suc)
    have cursor: "loadMore_cursor st c = Some (ms_id (S ! i))" using Suc.prems True drop_i by (simp add: loadMore_cursor_def flip: S_def)
    define older where "older = selectHistoryPage (Before (ms_id (S ! i)) HISTORY_PAGE_LIMIT) table"
    have older: "older = drop (i - HISTORY_PAGE_LIMIT) (take i S)" using before_page[OF assms(1) i(1)] by (simp add: older_def S_def)
    have join: "older @ drop i S = drop (i - HISTORY_PAGE_LIMIT) S"
    proof -
      have "drop (i - HISTORY_PAGE_LIMIT) (take i S @ drop i S) = older @ drop i S" using i older by (simp del: append_take_drop_id)
      then show ?thesis by (simp only: append_take_drop_id)
    qed
    have limit: "0 < HISTORY_PAGE_LIMIT" by (simp add: HISTORY_PAGE_LIMIT_def)
    have more: "(HISTORY_PAGE_LIMIT \<le> length older) = (HISTORY_PAGE_LIMIT \<le> i)" using i older by auto
    have "ch_messages (page_back n table c (loadMore_done st c older)) c = Some (sort_key ms_id table)
        \<and> ch_hasMore (page_back n table c (loadMore_done st c older)) c = Some False"
      using Suc.prems i more by (intro Suc.IH[where i = "i - HISTORY_PAGE_LIMIT" and b = "HISTORY_PAGE_LIMIT \<le> i"])
        (use limit in \<open>auto simp: loadMore_done_def cached_def join S_def[symmetric]\<close>)
    then show ?thesis using cursor by (simp add: older_def[symmetric])
  qed
qed simp

text \<open>A row of the newest page past the cursor is asked for again.\<close>

lemma filter_take_subset: "set (filter P (take k xs)) \<subseteq> set (take k (filter P xs))"
proof (induction xs arbitrary: k)
  case (Cons x xs)
  have up: "set (take j ys) \<subseteq> set (take (Suc j) ys)" for j and ys :: "'a list" by (rule set_take_subset_set_take) simp
  show ?case
  proof (cases k)
    case (Suc j)
    then show ?thesis using Cons.IH[of j] up[of j "filter P xs"] by (cases "P x") auto
  qed simp
qed simp

lemma older_page_repeats:
  fixes table k
  assumes "distinct (ids table)"
  defines "w \<equiv> selectHistoryPage (Latest k) table"
  shows "distinct (ids (selectHistoryPage (Before cursor k) table @ w)) \<longleftrightarrow> (\<forall>m \<in> set w. cursor \<le> ms_id m)"
proof -
  define older where "older = selectHistoryPage (Before cursor k) table"
  let ?N = "newest_first table"
  have older: "older = rev (take k (filter (\<lambda>m. ms_id m < cursor) ?N))" and w: "w = rev (take k ?N)"
    by (simp_all add: older_def w_def selectHistoryPage_def newest_first_filter)
  have dN: "distinct (ids ?N)" by (rule newest_first_distinct[OF assms(1)])
  have d: "distinct (ids older)" "distinct (ids w)"
    using dN by (auto simp: older w rev_map[symmetric] distinct_map_filter simp flip: take_map)
  have lt: "ms_id m < cursor" if "m \<in> set older" for m using that by (auto simp: older dest!: in_set_takeD)
  have again: "m \<in> set older" if "m \<in> set w" "ms_id m < cursor" for m
    using that filter_take_subset[of "\<lambda>m. ms_id m < cursor" k ?N] by (auto simp: older w)
  have "distinct (ids (older @ w)) \<longleftrightarrow> ms_id ` set older \<inter> ms_id ` set w = {}" using d by simp
  also have "\<dots> \<longleftrightarrow> (\<forall>m \<in> set w. cursor \<le> ms_id m)"
  proof
    assume "ms_id ` set older \<inter> ms_id ` set w = {}"
    then show "\<forall>m \<in> set w. cursor \<le> ms_id m" using again by (meson disjoint_iff imageI not_less)
  next
    assume "\<forall>m \<in> set w. cursor \<le> ms_id m"
    then show "ms_id ` set older \<inter> ms_id ` set w = {}" using lt by force
  qed
  finally show ?thesis by (simp add: older_def)
qed

lemma page_back_stays_below:
  assumes "cached st c = x # w" "ms_id x \<le> cursor" "m \<notin> set (x # w)" "cursor \<le> ms_id m"
  shows "m \<notin> set (cached (page_back n table c st) c)"
  using assms
proof (induction n arbitrary: st x w)
  case (Suc n)
  show ?case
  proof (cases "loadMore_cursor st c")
    case None
    then show ?thesis using Suc.prems by simp
  next
    case (Some i)
    then have i: "i = ms_id x" using Suc.prems(1) by (auto simp: loadMore_cursor_def cached_def split: option.splits list.splits if_splits)
    define older where "older = selectHistoryPage (Before i HISTORY_PAGE_LIMIT) table"
    have lt: "ms_id y < i" if "y \<in> set older" for y
      using that by (auto simp: older_def selectHistoryPage_def dest!: in_set_takeD)
    have c: "cached (loadMore_done st c older) c = older @ x # w" using Suc.prems(1) by (simp add: loadMore_done_def cached_def)
    obtain y v where yv: "older @ x # w = y # v" by (cases older) auto
    have "y \<in> set older \<or> y = x" using yv by (cases older) auto
    then have "ms_id y \<le> cursor" using lt[of y] i Suc.prems(2) by auto
    moreover have "m \<notin> set (y # v)" using lt[of m] i Suc.prems(2-4) yv[symmetric] by auto
    ultimately show ?thesis using Suc.IH[OF c[unfolded yv]] Suc.prems(4) Some by (simp add: older_def[symmetric])
  qed
qed simp

section \<open>Properties\<close>

text \<open>
  C35. Paging a detached window forward ends, and attaches it without a gap: with one request for every fifty rows after
  the window the window ends at the newest message, and to what it showed it has added every row past it exactly once and
  then the live messages held meanwhile that are newer than all of them.
\<close>
theorem catch_up_attaches:
  assumes "uniform k table" "ch_messages st c = Some w" "ch_detached st c = Some held"
    and "greatestServerId w = Some g" "length g = k" "length (filter (\<lambda>m. g < ms_id m) table) < 50 * n"
  shows "\<exists>newer st'. catch_up n table c st = (st', Attached) \<and> ch_detached st' c = None
    \<and> ch_messages st' c = Some (withHeldMessages (w @ newer) (Some held))
    \<and> mset newer = mset (filter (\<lambda>m. g < ms_id m) table) \<and> distinct (ids newer) \<and> ms_id ` set newer \<inter> ms_id ` set w = {}"
proof -
  from catch_up_from[OF assms(1-5), of n] assms(6) obtain newer st' where r: "catch_up n table c st = (st', Attached)"
    "ch_detached st' c = None" "ch_messages st' c = Some (withHeldMessages (w @ newer) (Some held))" "mset newer = mset (past g table)"
    by (auto simp: HISTORY_PAGE_LIMIT_def)
  have "distinct (ids (past g table))" using assms(1) by (simp add: uniform_def distinct_map_filter)
  then have "distinct (ids newer)" using r(4) by (metis mset_eq_imp_distinct_iff mset_map)
  moreover have "m \<in> set table \<and> g < ms_id m" if "m \<in> set newer" for m
    using that mset_eq_setD[OF r(4)] by auto
  then have "ms_id ` set newer \<inter> ms_id ` set w = {}" using page_is_new[OF assms(4,5,1)] by (auto simp: disjoint_iff)
  ultimately show ?thesis using r by blast
qed

text \<open>
  C36. Scrolling back shows the whole history: where no message came late, the newest page and the older pages before it
  put every message of the channel on screen exactly once, in the order of their ids, and the start is recognised.
\<close>
theorem history_shown_once:
  assumes "in_step table" "ch_messages st c = None" "ch_detached st c = None" "length table < 50 * n"
  defines "st' \<equiv> page_back n table c (loadMessages_done st c (selectHistoryPage (Latest HISTORY_PAGE_LIMIT) table))"
  shows "ch_messages st' c = Some (sort_key ms_id table) \<and> ch_hasMore st' c = Some False"
  unfolding st'_def
  by (rule page_back_from[OF assms(1), where i = "length table - HISTORY_PAGE_LIMIT" and b = "HISTORY_PAGE_LIMIT \<le> length table"])
    (use assms(2-4) in \<open>auto simp: latest_page[OF assms(1)] loadMessages_done_def newestPageState_def withHeldMessages_def
      unconfirmedSends_def HISTORY_PAGE_LIMIT_def\<close>)

text \<open>
  C37. A message that came late breaks it. Pages are ordered by time but cut by id, at the row the window starts
  with: the next older page repeats a message on screen exactly when one of the newest page has a smaller id than the
  oldest, and a message past that id that is not in the newest page is on no page before it, however far one scrolls.
\<close>
theorem late_message_breaks_paging:
  assumes "distinct (ids table)" "ch_messages st c = None" "ch_detached st c = None"
  defines "page \<equiv> selectHistoryPage (Latest HISTORY_PAGE_LIMIT) table"
  assumes "page = oldest # rest"
  shows "(distinct (ids (selectHistoryPage (Before (ms_id oldest) HISTORY_PAGE_LIMIT) table @ page)) \<longleftrightarrow> (\<forall>m \<in> set page. ms_id oldest \<le> ms_id m))
    \<and> (m \<in> set table - set page \<and> ms_id oldest < ms_id m \<longrightarrow>
       m \<notin> set (cached (page_back n table c (loadMessages_done st c page)) c))"
proof
  show "distinct (ids (selectHistoryPage (Before (ms_id oldest) HISTORY_PAGE_LIMIT) table @ page)) \<longleftrightarrow> (\<forall>m \<in> set page. ms_id oldest \<le> ms_id m)"
    unfolding page_def by (rule older_page_repeats[OF assms(1)])
  have "cached (loadMessages_done st c page) c = oldest # rest"
    using assms(2,3,5) by (simp add: cached_def loadMessages_done_def newestPageState_def withHeldMessages_def unconfirmedSends_def)
  from page_back_stays_below[OF this order_refl] assms(5)
  show "m \<in> set table - set page \<and> ms_id oldest < ms_id m \<longrightarrow> m \<notin> set (cached (page_back n table c (loadMessages_done st c page)) c)"
    by (auto simp: less_imp_le)
qed

text \<open>
  When ids gain a digit, text order is no longer the order of the numbers: after a cursor of eighteen digits that starts with
  a 9, no row whose id starts with a 1 is ever on a page, although its number is greater.
\<close>

lemma longer_ids_are_not_after:
  assumes "\<forall>m \<in> set table. ms_id m = CHR ''1'' # f m"
  shows "selectHistoryPage (After (CHR ''9'' # cursor) k) table = []"
proof -
  have "\<not> CHR ''9'' # cursor < ms_id m" if "m \<in> set table" for m
    using assms that by (simp add: less_char_def)
  then have "filter (\<lambda>m. CHR ''9'' # cursor < ms_id m) table = []" by (simp add: filter_empty_conv)
  then show ?thesis by (simp add: selectHistoryPage_def)
qed

lemma longer_id_is_greater: "list_all is_digit (CHR ''9'' # a) \<Longrightarrow> list_all is_digit b \<Longrightarrow> length b = Suc (length a)
    \<Longrightarrow> dec_to_nat (CHR ''9'' # a) < dec_to_nat (CHR ''1'' # b)"
  using dec_to_nat_bound[of "CHR ''9'' # a"] by (simp add: dec_to_nat_Cons[of "CHR ''1''"] digit_val_def)

section \<open>Witnesses\<close>

definition msg :: "string \<Rightarrow> millis \<Rightarrow> message" where
  "msg i t = \<lparr>ms_id = i, ms_createdAt = t, ms_content = None, ms_passive = False, ms_sourceMessageId = None\<rparr>"

definition empty_chat :: chat_state where
  "empty_chat = \<lparr>ch_messages = \<lambda>_. None, ch_hasMore = \<lambda>_. None, ch_detached = \<lambda>_. None, ch_presentReturns = \<lambda>_. None,
     ch_events = [], ch_replyTargets = \<lambda>_. None, ch_editing = None\<rparr>"

lemma msg_sel [simp]: "ms_id (msg i t) = i" "ms_createdAt (msg i t) = t"
  by (simp_all add: msg_def)

lemma catch_up_attaches_witness:
  "\<exists>newer st'. catch_up 1 [msg ''10'' 1, msg ''11'' 2] ''c''
      (empty_chat\<lparr>ch_messages := [''c'' \<mapsto> [msg ''10'' 1]], ch_detached := [''c'' \<mapsto> []]\<rparr>) = (st', Attached)
    \<and> mset newer = mset [msg ''11'' 2]"
proof -
  have u: "uniform 2 [msg ''10'' 1, msg ''11'' 2]" by (simp add: uniform_def isServerId_def is_digit_def)
  have g: "greatestServerId [msg ''10'' 1] = Some ''10''" by (simp add: greatestServerId_def isServerId_def is_digit_def greater_id_def)
  have p: "filter (\<lambda>m. ''10'' < ms_id m) [msg ''10'' 1, msg ''11'' 2] = [msg ''11'' 2]" by (simp add: less_char_def)
  show ?thesis
    using catch_up_attaches[OF u, of "empty_chat\<lparr>ch_messages := [''c'' \<mapsto> [msg ''10'' 1]], ch_detached := [''c'' \<mapsto> []]\<rparr>"
      "''c''" "[msg ''10'' 1]" "[]" "''10''" 1, OF _ _ g] unfolding p by simp blast
qed

lemma history_shown_once_witness:
  "ch_messages (page_back 1 [msg ''11'' 2, msg ''10'' 1] ''c'' (loadMessages_done empty_chat ''c''
      (selectHistoryPage (Latest HISTORY_PAGE_LIMIT) [msg ''11'' 2, msg ''10'' 1]))) ''c'' = Some [msg ''10'' 1, msg ''11'' 2]"
proof -
  have "in_step [msg ''11'' 2, msg ''10'' 1]" by (simp add: in_step_def less_char_def)
  moreover have "sort_key ms_id [msg ''11'' 2, msg ''10'' 1] = [msg ''10'' 1, msg ''11'' 2]"
    by (simp add: less_char_def less_eq_char_def)
  ultimately show ?thesis using history_shown_once[of "[msg ''11'' 2, msg ''10'' 1]" empty_chat "''c''" 1]
    by (simp add: empty_chat_def)
qed

text \<open>Fifty-one messages, the second oldest of which came last.\<close>

definition late_table :: "message list" where
  "late_table = msg ''0'' 0 # msg ''9'' 1 # map (\<lambda>i. msg (CHR ''1'' # nat_to_dec i) (2 + int i)) [0..<49]"

lemma late_message_breaks_paging_witness:
  "let page = selectHistoryPage (Latest HISTORY_PAGE_LIMIT) late_table in
   \<not> distinct (ids (selectHistoryPage (Before ''9'' HISTORY_PAGE_LIMIT) late_table @ page))"
proof -
  let ?f = "\<lambda>m. (ms_createdAt m, ms_id m)"
  have "sorted (map ?f late_table)"
    by (auto simp: late_table_def sorted_map sorted_wrt_map less_eq_prod_def intro!: sorted_wrt_mono_rel[OF _ sorted_wrt_upt])
  then have sorted: "sort_key ?f late_table = late_table" by (rule sort_key_id_if_sorted)
  have len: "length late_table = 51" by (simp add: late_table_def)
  have page: "selectHistoryPage (Latest HISTORY_PAGE_LIMIT) late_table = msg ''9'' 1 # map (\<lambda>i. msg (CHR ''1'' # nat_to_dec i) (2 + int i)) [0..<49]"
    unfolding selectHistoryPage_def newest_first_def HISTORY_PAGE_LIMIT_def by (simp add: sorted take_rev len) (simp add: late_table_def)
  have "inj nat_to_dec" by (rule inj_on_inverseI[where g = dec_to_nat]) simp
  then have d: "distinct (ids late_table)" by (auto simp: late_table_def distinct_map inj_on_def)
  have none: "ch_messages empty_chat ''c'' = None" "ch_detached empty_chat ''c'' = None" by (simp_all add: empty_chat_def)
  note repeats = conjunct1[OF late_message_breaks_paging[OF d none page], unfolded msg_sel]
  let ?r = "msg (CHR ''1'' # nat_to_dec 0) (2 + int 0)"
  have "?r \<in> set (selectHistoryPage (Latest HISTORY_PAGE_LIMIT) late_table)"
    unfolding page by (rule list.set_intros(2)) (simp only: set_map set_upt, rule image_eqI[where x = 0], simp_all)
  moreover have "\<not> ''9'' \<le> ms_id ?r" by (simp add: less_char_def less_eq_char_def)
  ultimately show ?thesis unfolding Let_def using repeats by blast
qed

end
