(* ===== verification/Replicas.thy ===== *)
theory Replicas
  imports Accounts
begin

text \<open>
  The rows of remote users: \<open>lookupFederatedUser\<close>, \<open>backfillHomeUserId\<close> and \<open>resolveOrCreateReplicatedUser\<close> of
  \<open>packages/server/src/routes/federation/identity.ts\<close>, over the names of \<open>StubName\<close>. A lookup is by identity first and
  by name among the rows that have none yet. The announcements to clients and the background pull from the home are left
  out; a new row has no session here, so the status it is created with is the one it shows.
\<close>

section \<open>Looking up\<close>

text \<open>SQLite's \<open>lower\<close> folds the ASCII letters alone.\<close>

definition sqlite_lower :: "string \<Rightarrow> string" where
  "sqlite_lower s = map (\<lambda>c. if c \<in> set ''ABCDEFGHIJKLMNOPQRSTUVWXYZ'' then char_of (of_char c + 32 :: nat) else c) s"

definition name_base :: "user_row \<Rightarrow> string" where
  "name_base u = sqlite_lower (takeWhile (\<lambda>c. c \<noteq> CHR ''@'') (us_username u))"

definition named_candidates :: "string \<Rightarrow> string \<Rightarrow> user_row list \<Rightarrow> user_row list" where
  "named_candidates domain hint users = filter (\<lambda>u. us_homeInstance u = Some domain \<and> us_isDeleted u = Some 0
     \<and> us_homeUserId u = None \<and> us_federationHomeOrphaned u = Some 0 \<and> name_base u = lower hint) users"

text \<open>A real account before a stub, then the row with more of a profile.\<close>

definition candidate_rank :: "user_row \<Rightarrow> nat \<times> nat" where
  "candidate_rank u = (if us_passwordHash u \<noteq> REPLICATED_PASSWORD_HASH then 0 else 1,
     4 - length (filter truthy [us_displayName u, us_avatar u, us_banner u, us_bio u]))"

definition lookupFederatedUser :: "names \<Rightarrow> user_row list \<Rightarrow> string \<Rightarrow> string \<Rightarrow> string option \<Rightarrow> RelayActorResolution" where
  "lookupFederatedUser nm users homeUserId homeInstance hint =
    (case resolveRelayActor nm users \<lparr>ra_homeUserId = homeUserId, ra_homeInstance = homeInstance\<rparr> of
       Unknown \<Rightarrow>
         (if \<not> truthy hint then Unknown
          else (case sort_key candidate_rank (named_candidates (extractDomain (nm_url_of nm homeInstance) homeInstance) (the hint) users) of
              [] \<Rightarrow> Unknown | best # _ \<Rightarrow> Found best))
     | identity \<Rightarrow> identity)"

definition backfillHomeUserId :: "user_row list \<Rightarrow> user_row \<Rightarrow> string \<Rightarrow> user_row list \<times> user_row" where
  "backfillHomeUserId users u homeUserId =
    (if us_homeUserId u = Some homeUserId then (users, u)
     else if us_federationHomeOrphaned u = Some 1 then (users, u)
     else if truthy (us_homeUserId u) then (users, u)
     else (tbl_update us_id (us_id u) (\<lambda>r. r\<lparr>us_homeUserId := Some homeUserId\<rparr>) users, u\<lparr>us_homeUserId := Some homeUserId\<rparr>))"

section \<open>Creating\<close>

record replica_hints =
  rh_username :: "string option"
  rh_status :: "string option"
  rh_deleted :: bool

definition tombstone_of :: "string \<Rightarrow> string \<Rightarrow> user_row \<Rightarrow> bool" where
  "tombstone_of homeUserId domain u \<longleftrightarrow>
     us_homeUserId u = Some homeUserId \<and> us_homeInstance u = Some domain
     \<or> us_detachedHomeUserId u = Some homeUserId \<and> us_detachedHomeInstance u = Some domain"

definition replica_row :: "string \<Rightarrow> string \<Rightarrow> string \<Rightarrow> string \<Rightarrow> millis \<Rightarrow> user_row" where
  "replica_row i username domain homeUserId now =
    (new_user_row i username REPLICATED_PASSWORD_HASH None [] 0 (Some domain) (Some homeUserId) now)\<lparr>us_avatarColor := None\<rparr>"

text \<open>What a projection shows on a row without a session here (\<open>replicaLiveStatus\<close>).\<close>

definition live_status :: "string \<Rightarrow> string" where
  "live_status projection = (if projection \<in> {''online'', ''idle'', ''dnd''} then projection else ''offline'')"

definition resolveOrCreateReplicatedUser ::
  "names \<Rightarrow> millis \<Rightarrow> string \<Rightarrow> string \<Rightarrow> user_row list \<Rightarrow> string \<Rightarrow> string \<Rightarrow> replica_hints \<Rightarrow> user_row option answer \<times> user_row list" where
  "resolveOrCreateReplicatedUser nm now newId random users homeUserId homeInstance hints =
    (case lookupFederatedUser nm users homeUserId homeInstance (rh_username hints) of
       Found u \<Rightarrow>
         (let (users1, u1) = backfillHomeUserId users u homeUserId;
              (users2, u2) = applyPlaceholderRename users1 u1 (rh_username hints) random
          in (Answer (Some u2), users2))
     | Mismatch \<Rightarrow> (Answer None, users)
     | Unknown \<Rightarrow>
         (let domain = extractDomain (nm_url_of nm homeInstance) homeInstance in
          if rh_deleted hints then (Answer None, users)
          else if truthy (getOurIdentityDomain nm) \<and> Some (lower domain) = getOurIdentityDomain nm then (Answer None, users)
          else if (case find (tombstone_of homeUserId domain) users of Some d \<Rightarrow> truthy_int (us_isDeleted d) | None \<Rightarrow> False)
          then (Answer None, users)
          else (let localPart = (case handleFromHint (rh_username hints) of Some h \<Rightarrow> h | None \<Rightarrow> lower homeUserId);
                    username = firstFreeUsername localPart domain users None random;
                    row = replica_row newId username domain homeUserId now;
                    shown = (if truthy (rh_status hints) \<and> domain \<noteq> [] then row\<lparr>us_status := Some (live_status (the (rh_status hints)))\<rparr> else row)
                in (case insert_user row users of
                     None \<Rightarrow> (Crashed, users)
                   | Some _ \<Rightarrow> (Answer (Some shown), users @ [shown])))))"

section \<open>One row per identity\<close>

definition may_be :: "RelayActor \<Rightarrow> user_row \<Rightarrow> bool" where
  "may_be actor u \<longleftrightarrow> (us_homeUserId u = Some (ra_homeUserId actor)
      \<or> (us_id u = ra_homeUserId actor \<and> us_homeInstance u = None)
      \<or> us_detachedHomeUserId u = Some (ra_homeUserId actor))
     \<and> us_isDeleted u = Some 0"

lemma candidates_filter: "actor_candidates actor users = filter (may_be actor) users"
  by (simp add: actor_candidates_def may_be_def[abs_def])

lemma find_map: "find P (map g xs) = map_option g (find (\<lambda>x. P (g x)) xs)"
  by (induction xs) auto

lemma resolve_update:
  assumes "distinct (map us_id users)" "u \<in> set users" "may_be actor (f u) = may_be actor u" "is_actor nm actor (f u) = is_actor nm actor u"
  shows "resolveRelayActor nm (tbl_update us_id (us_id u) f users) actor =
    (case resolveRelayActor nm users actor of Found v \<Rightarrow> Found (if us_id v = us_id u then f v else v) | r \<Rightarrow> r)"
proof -
  define g where "g = (\<lambda>r. if us_id r = us_id u then f r else r)"
  have only: "r = u" if "r \<in> set users" "us_id r = us_id u" for r
    using assms(1,2) that by (auto simp: distinct_map inj_on_def)
  have P: "may_be actor (g r) = may_be actor r" "is_actor nm actor (g r) = is_actor nm actor r" if "r \<in> set users" for r
    using only[OF that] assms(3,4) by (auto simp: g_def)
  have "filter (may_be actor) (map g users) = map g (filter (may_be actor) users)"
    unfolding filter_map by (rule arg_cong[where f = "map g"], rule filter_cong) (simp_all add: P)
  moreover have "find (is_actor nm actor) (map g (filter (may_be actor) users)) = map_option g (find (is_actor nm actor) (filter (may_be actor) users))"
    unfolding find_map by (rule arg_cong[where f = "map_option g"], rule find_cong) (auto simp: P)
  ultimately show ?thesis
    by (auto simp: resolveRelayActor_def candidates_filter tbl_update_def g_def[symmetric] Let_def split: option.splits)
      (auto simp: g_def)
qed

lemma resolve_found: "resolveRelayActor nm users actor = Found u \<Longrightarrow> u \<in> set users \<and> may_be actor u \<and> is_actor nm actor u"
  by (auto simp: resolveRelayActor_def candidates_filter Let_def dest!: find_SomeD split: if_splits option.splits)

lemma resolve_unknown: "resolveRelayActor nm users actor = Unknown \<longleftrightarrow> filter (may_be actor) users = []"
  by (auto simp: resolveRelayActor_def candidates_filter Let_def split: option.splits)

text \<open>Recording the home id, and renaming, keep who a row is.\<close>

lemma backfill_keeps:
  assumes "distinct (map us_id users)" "resolveRelayActor nm users \<lparr>ra_homeUserId = i, ra_homeInstance = h\<rparr> = Found u"
    and "backfillHomeUserId users u i = (users1, u1)" "i \<noteq> []"
  shows "resolveRelayActor nm users1 \<lparr>ra_homeUserId = i, ra_homeInstance = h\<rparr> = Found u1"
proof -
  let ?a = "\<lparr>ra_homeUserId = i, ra_homeInstance = h\<rparr>"
  note u = resolve_found[OF assms(2)]
  show ?thesis
  proof (cases "users1 = users \<and> u1 = u")
    case False
    then have new: "users1 = tbl_update us_id (us_id u) (\<lambda>r. r\<lparr>us_homeUserId := Some i\<rparr>) users" "u1 = u\<lparr>us_homeUserId := Some i\<rparr>"
      and none: "\<not> truthy (us_homeUserId u)"
      using assms(3) by (auto simp: backfillHomeUserId_def split: if_splits)
    have "may_be ?a (u\<lparr>us_homeUserId := Some i\<rparr>) = may_be ?a u" using u by (auto simp: may_be_def)
    moreover have "is_actor nm ?a (u\<lparr>us_homeUserId := Some i\<rparr>) = is_actor nm ?a u"
      using u none by (auto simp: is_actor_def formerIdentityOf_def relayActorOfUser_def split: option.splits if_splits)
    ultimately have "resolveRelayActor nm users1 ?a = Found (u\<lparr>us_homeUserId := Some i\<rparr>)"
      unfolding new(1) using u by (subst resolve_update[OF assms(1)]) (simp_all only: assms(2) RelayActorResolution.case if_True refl)
    then show ?thesis using new(2) by simp
  qed (use assms in simp)
qed

lemma rename_result: "\<exists>name. applyPlaceholderRename users u hint random \<in> {(users, u), (set_username (us_id u) name users, u\<lparr>us_username := name\<rparr>)}"
  unfolding applyPlaceholderRename_def Let_def by (cases "handleFromHint hint") (simp_all, blast)

lemma rename_keeps:
  assumes "distinct (map us_id users)" "resolveRelayActor nm users actor = Found u"
    and "applyPlaceholderRename users u hint random = (users1, u1)"
  shows "resolveRelayActor nm users1 actor = Found u1"
proof (cases "users1 = users \<and> u1 = u")
  case False
  then obtain name where new: "users1 = set_username (us_id u) name users" "u1 = u\<lparr>us_username := name\<rparr>"
    using rename_result[of users u hint random] unfolding assms(3) by blast
  have "may_be actor (u\<lparr>us_username := name\<rparr>) = may_be actor u" "is_actor nm actor (u\<lparr>us_username := name\<rparr>) = is_actor nm actor u"
    by (simp_all add: may_be_def is_actor_def formerIdentityOf_def relayActorOfUser_def)
  then have "resolveRelayActor nm users1 actor = Found (u\<lparr>us_username := name\<rparr>)"
    unfolding new(1) set_username_def using resolve_found[OF assms(2)]
    by (subst resolve_update[OF assms(1)]) (simp_all only: assms(2) RelayActorResolution.case if_True refl)
  then show ?thesis using new(2) by simp
qed (use assms in simp)

text \<open>What the URL parser is relied on for: the domain of a domain is itself.\<close>

definition domain_stable :: "names \<Rightarrow> string \<Rightarrow> bool" where
  "domain_stable nm h \<longleftrightarrow> domain_of nm h \<noteq> [] \<and> domain_of nm (extractDomain (nm_url_of nm h) h) = domain_of nm h"

lemma is_new_replica:
  assumes "us_homeUserId u = Some i" "us_homeInstance u = Some (extractDomain (nm_url_of nm h) h)" "i \<noteq> []" "domain_stable nm h"
  shows "is_actor nm \<lparr>ra_homeUserId = i, ra_homeInstance = h\<rparr> u"
proof -
  have "extractDomain (nm_url_of nm h) h \<noteq> []" using assms(4) by (auto simp: domain_stable_def domain_of_def lower_def)
  then show ?thesis using assms by (auto simp: is_actor_def relayActorOfUser_def sameRelayActor_def domain_stable_def truthy.simps)
qed

lemma unique_found:
  assumes "\<forall>x \<in> set users. may_be actor x \<longrightarrow> x = u" "u \<in> set users" "may_be actor u" "is_actor nm actor u"
  shows "resolveRelayActor nm users actor = Found u"
proof (cases "find (is_actor nm actor) (filter (may_be actor) users)")
  case None
  then show ?thesis using assms(2-4) by (auto simp: find_None_iff)
next
  case (Some x)
  then have "x = u" using assms(1) find_SomeD[OF Some] by simp
  then show ?thesis using Some assms(2,3) by (auto simp: resolveRelayActor_def candidates_filter Let_def filter_empty_conv)
qed

lemma bind_resolves:
  assumes "distinct (map us_id users)" "resolveRelayActor nm users \<lparr>ra_homeUserId = i, ra_homeInstance = h\<rparr> = Unknown"
    and "u \<in> set (named_candidates (extractDomain (nm_url_of nm h) h) hint users)" "i \<noteq> []" "domain_stable nm h"
  shows "\<exists>users1 u1. backfillHomeUserId users u i = (users1, u1) \<and> us_id u1 = us_id u
    \<and> users1 = tbl_update us_id (us_id u) (\<lambda>r. r\<lparr>us_homeUserId := Some i\<rparr>) users
    \<and> resolveRelayActor nm users1 \<lparr>ra_homeUserId = i, ra_homeInstance = h\<rparr> = Found u1"
proof -
  let ?a = "\<lparr>ra_homeUserId = i, ra_homeInstance = h\<rparr>" and ?u = "u\<lparr>us_homeUserId := Some i\<rparr>"
  let ?users = "tbl_update us_id (us_id u) (\<lambda>r. r\<lparr>us_homeUserId := Some i\<rparr>) users"
  have u: "u \<in> set users" "us_homeInstance u = Some (extractDomain (nm_url_of nm h) h)" "us_isDeleted u = Some 0"
    "us_homeUserId u = None" "us_federationHomeOrphaned u = Some 0" using assms(3) by (auto simp: named_candidates_def)
  have b: "backfillHomeUserId users u i = (?users, ?u)" using u by (simp add: backfillHomeUserId_def)
  have only: "r = u" if "r \<in> set users" "us_id r = us_id u" for r
    using assms(1) u(1) that by (auto simp: distinct_map inj_on_def)
  have none: "\<not> may_be ?a r" if "r \<in> set users" for r using assms(2) that by (simp add: resolve_unknown filter_empty_conv)
  have "resolveRelayActor nm ?users ?a = Found ?u"
  proof (rule unique_found)
    show "\<forall>x \<in> set ?users. may_be ?a x \<longrightarrow> x = ?u" using none only by (auto simp: tbl_update_def)
    show "?u \<in> set ?users" using u(1) by (auto simp: tbl_update_def)
    show "may_be ?a ?u" using u(3) by (simp add: may_be_def)
    show "is_actor nm ?a ?u" by (rule is_new_replica) (use u assms(4,5) in simp_all)
  qed
  with b show ?thesis by simp
qed

lemma rename_same:
  assumes "applyPlaceholderRename users u hint random = (users1, u1)"
  shows "us_id u1 = us_id u" "us_isDeleted u1 = us_isDeleted u" "map us_id users1 = map us_id users"
    "v \<in> set users \<Longrightarrow> us_id v \<noteq> us_id u \<Longrightarrow> v \<in> set users1"
proof -
  obtain name where "(users1, u1) \<in> {(users, u), (set_username (us_id u) name users, u\<lparr>us_username := name\<rparr>)}"
    using rename_result[of users u hint random] unfolding assms by blast
  then show "us_id u1 = us_id u" "us_isDeleted u1 = us_isDeleted u" "map us_id users1 = map us_id users"
    "v \<in> set users \<Longrightarrow> us_id v \<noteq> us_id u \<Longrightarrow> v \<in> set users1"
    by (auto simp: set_username_def tbl_update_def)
qed

lemma backfill_same:
  assumes "backfillHomeUserId users u i = (users1, u1)"
  shows "us_id u1 = us_id u" "map us_id users1 = map us_id users"
    "v \<in> set users \<Longrightarrow> us_id v \<noteq> us_id u \<Longrightarrow> v \<in> set users1"
  using assms by (auto simp: backfillHomeUserId_def tbl_update_def split: if_splits)

text \<open>An identity that resolves keeps its row on every later call.\<close>

lemma resolves_again:
  assumes "distinct (map us_id users)" "resolveRelayActor nm users \<lparr>ra_homeUserId = i, ra_homeInstance = h\<rparr> = Found u" "i \<noteq> []"
  shows "\<exists>u1 users1. resolveOrCreateReplicatedUser nm now newId random users i h hints = (Answer (Some u1), users1)
    \<and> us_id u1 = us_id u \<and> map us_id users1 = map us_id users
    \<and> resolveRelayActor nm users1 \<lparr>ra_homeUserId = i, ra_homeInstance = h\<rparr> = Found u1
    \<and> (\<forall>v \<in> set users. us_id v \<noteq> us_id u \<longrightarrow> v \<in> set users1)"
proof -
  obtain users1 u1 where b: "backfillHomeUserId users u i = (users1, u1)" by (cases "backfillHomeUserId users u i")
  obtain users2 u2 where r: "applyPlaceholderRename users1 u1 (rh_username hints) random = (users2, u2)"
    by (cases "applyPlaceholderRename users1 u1 (rh_username hints) random")
  note B = backfill_same[OF b] and R = rename_same[OF r]
  have "resolveRelayActor nm users1 \<lparr>ra_homeUserId = i, ra_homeInstance = h\<rparr> = Found u1" by (rule backfill_keeps[OF assms(1,2) b assms(3)])
  then have "resolveRelayActor nm users2 \<lparr>ra_homeUserId = i, ra_homeInstance = h\<rparr> = Found u2"
    using rename_keeps[OF _ _ r] assms(1) B(2) by simp
  moreover have "resolveOrCreateReplicatedUser nm now newId random users i h hints = (Answer (Some u2), users2)"
    by (simp add: resolveOrCreateReplicatedUser_def lookupFederatedUser_def assms(2) b r)
  moreover have "v \<in> set users2" if "v \<in> set users" "us_id v \<noteq> us_id u" for v
    using R(4)[of v] B(3)[OF that] B(1) that(2) by simp
  ultimately show ?thesis using B(1,2) R(1,3) by auto
qed

lemma replica_row:
  assumes "distinct (map us_id users)" "i \<noteq> []" "domain_stable nm h"
    and "resolveOrCreateReplicatedUser nm now newId random users i h hints = (Answer (Some u), users1)"
  shows "resolveRelayActor nm users1 \<lparr>ra_homeUserId = i, ra_homeInstance = h\<rparr> = Found u
    \<and> (map us_id users1 = map us_id users
       \<or> users1 = users @ [u] \<and> newId \<notin> us_id ` set users \<and> us_id u = newId
         \<and> resolveRelayActor nm users \<lparr>ra_homeUserId = i, ra_homeInstance = h\<rparr> = Unknown)
    \<and> (\<forall>v \<in> set users. us_id v \<noteq> us_id u \<longrightarrow> v \<in> set users1)"
proof -
  let ?a = "\<lparr>ra_homeUserId = i, ra_homeInstance = h\<rparr>" and ?domain = "extractDomain (nm_url_of nm h) h"
  show ?thesis
  proof (cases "resolveRelayActor nm users ?a")
    case (Found u0)
    from resolves_again[OF assms(1) Found assms(2), of now newId random hints] assms(4) show ?thesis by auto
  next
    case Mismatch
    then show ?thesis using assms(4) by (simp add: resolveOrCreateReplicatedUser_def lookupFederatedUser_def)
  next
    case Unknown
    show ?thesis
    proof (cases "lookupFederatedUser nm users i h (rh_username hints)")
      case (Found u0)
      then have "u0 \<in> set (named_candidates ?domain (the (rh_username hints)) users)"
        using Unknown by (auto simp: lookupFederatedUser_def split: if_splits list.splits) (metis list.set_intros(1) set_sort)
      from bind_resolves[OF assms(1) Unknown this assms(2,3)] obtain users2 u2 where
        b: "backfillHomeUserId users u0 i = (users2, u2)" "us_id u2 = us_id u0"
          "users2 = tbl_update us_id (us_id u0) (\<lambda>r. r\<lparr>us_homeUserId := Some i\<rparr>) users" "resolveRelayActor nm users2 ?a = Found u2" by blast
      have d: "distinct (map us_id users2)" "map us_id users2 = map us_id users" using backfill_same(2)[OF b(1)] assms(1) by simp_all
      have r: "applyPlaceholderRename users2 u2 (rh_username hints) random = (users1, u)"
        using assms(4) by (simp add: resolveOrCreateReplicatedUser_def Found b(1) split: prod.splits)
      note R = rename_same[OF r]
      have "v \<in> set users1" if "v \<in> set users" "us_id v \<noteq> us_id u" for v
        using R(4)[of v] R(1) backfill_same(3)[OF b(1) that(1)] b(2) that(2) by simp
      then show ?thesis using rename_keeps[OF d(1) b(4) r] R(3) d(2) by simp
    next
      case Mismatch
      then show ?thesis using assms(4) by (simp add: resolveOrCreateReplicatedUser_def)
    next
      case lookup: Unknown
      obtain name where row: "insert_user (replica_row newId name ?domain i now) users \<noteq> None" "users1 = users @ [u]"
        "u \<in> {replica_row newId name ?domain i now, (replica_row newId name ?domain i now)\<lparr>us_status := Some (live_status (the (rh_status hints)))\<rparr>}"
        using assms(4) lookup by (auto simp: resolveOrCreateReplicatedUser_def Let_def split: if_splits option.splits)
      have u: "us_id u = newId" "us_homeUserId u = Some i" "us_homeInstance u = Some ?domain" "us_isDeleted u = Some 0"
        using row(3) by (auto simp: replica_row_def new_user_row_def)
      have fresh: "newId \<notin> us_id ` set users" using row(1) by (auto simp: insert_user_def replica_row_def new_user_row_def split: if_splits)
      have "resolveRelayActor nm users1 ?a = Found u"
      proof (rule unique_found)
        show "\<forall>x \<in> set users1. may_be ?a x \<longrightarrow> x = u" using Unknown row(2) by (auto simp: resolve_unknown filter_empty_conv)
        show "u \<in> set users1" using row(2) by simp
        show "may_be ?a u" using u by (simp add: may_be_def)
        show "is_actor nm ?a u" by (rule is_new_replica) (use u assms(2,3) in simp_all)
      qed
      then show ?thesis using row(2) u(1) fresh Unknown by simp
    qed
  qed
qed

text \<open>
  C9. One person is one row. When an identity a peer names is given a row, that row is what the identity resolves to from
  then on, whatever names later hints carry; at most one row was added, and then no live row could have been it; every
  other row is as it was.
\<close>
theorem replica_resolves:
  assumes "distinct (map us_id users)" "i \<noteq> []" "domain_stable nm h"
    and "resolveOrCreateReplicatedUser nm now newId random users i h hints = (Answer (Some u), users1)"
  shows "resolveRelayActor nm users1 \<lparr>ra_homeUserId = i, ra_homeInstance = h\<rparr> = Found u
    \<and> (map us_id users1 = map us_id users
       \<or> users1 = users @ [u] \<and> newId \<notin> us_id ` set users \<and> us_id u = newId
         \<and> resolveRelayActor nm users \<lparr>ra_homeUserId = i, ra_homeInstance = h\<rparr> = Unknown)
    \<and> (\<forall>v \<in> set users. us_id v \<noteq> us_id u \<longrightarrow> v \<in> set users1)
    \<and> (\<forall>now' newId' random' hints'. \<exists>u2 users2.
         resolveOrCreateReplicatedUser nm now' newId' random' users1 i h hints' = (Answer (Some u2), users2)
         \<and> us_id u2 = us_id u \<and> map us_id users2 = map us_id users1)"
proof -
  note main = replica_row[OF assms]
  have "distinct (map us_id users1)" using main assms(1) by auto
  from resolves_again[OF this conjunct1[OF main] assms(2)] main show ?thesis by blast
qed

lemma replica_resolves_witness:
  "\<exists>u. resolveRelayActor example_names (example_users @ [u]) \<lparr>ra_homeUserId = ''7'', ra_homeInstance = ''https://c''\<rparr> = Found u
    \<and> us_username u = ''dan@c''"
proof -
  let ?hints = "\<lparr>rh_username = Some ''Dan'', rh_status = None, rh_deleted = False\<rparr>"
  let ?row = "replica_row ''8'' ''dan@c'' ''c'' ''7'' 5"
  have d: "distinct (map us_id example_users)" "domain_stable example_names ''https://c''" by code_simp+
  have "resolveOrCreateReplicatedUser example_names 5 ''8'' ''ff'' example_users ''7'' ''https://c'' ?hints = (Answer (Some ?row), example_users @ [?row])"
    by code_simp
  from replica_resolves[OF d(1) _ d(2) this] show ?thesis by (auto simp: replica_row_def new_user_row_def)
qed

end
