(* ===== verification/Friends.thy ===== *)
theory Friends
  imports Replicas Peering
begin

text \<open>
  Friend requests and friendships: the routes of \<open>packages/server/src/routes/social.ts\<close> that write them, the processors of
  relayed friend events (\<open>routes/federation/events/friends.ts\<close>) and the rollback of a request a peer refused
  (\<open>utils/federationRollback.ts\<close>). A handler that awaits is cut there: what a remote lookup, a peering or the hydration
  of a profile answered is an argument of the part after it, with the tables as they are then. A relayed event is what the
  handlers queue and log (\<open>queueOutboxEvent\<close> and \<open>appendMutationLog\<close> get the same one); frames to clients and presence
  are left out. A profile snapshot is its username, status and deletion mark, which are what an identity is resolved with.
\<close>

section \<open>State\<close>

record friend_row =
  fr_userId :: user_id
  fr_friendId :: user_id
  fr_createdAt :: millis

record request_row =
  rq_id :: string
  rq_fromId :: user_id
  rq_toId :: user_id
  rq_status :: string
  rq_createdAt :: millis
  rq_relayMessageId :: "string option"

record social_db =
  so_users :: "user_row list"
  so_friends :: "friend_row list"
  so_requests :: "request_row list"
  so_clocks :: "clock_row list"

record friendship =
  fs_from :: RelayActor
  fs_to :: RelayActor
  fs_fromProfile :: "replica_hints option"
  fs_toProfile :: "replica_hints option"
  fs_status :: "string option"
  fs_createdAt :: millis

record friend_event =
  fe_eventType :: string
  fe_messageId :: string
  fe_timestamp :: millis
  fe_friendship :: "friendship option"

text \<open>An event with the peers it is queued for.\<close>

type_synonym queued = "(friend_event \<times> origin list) list"

definition between :: "user_id \<Rightarrow> user_id \<Rightarrow> friend_row \<Rightarrow> bool" where
  "between a b r \<longleftrightarrow> fr_userId r = a \<and> fr_friendId r = b \<or> fr_userId r = b \<and> fr_friendId r = a"

definition are_friends :: "social_db \<Rightarrow> user_id \<Rightarrow> user_id \<Rightarrow> bool" where
  "are_friends db a b \<longleftrightarrow> list_ex (between a b) (so_friends db)"

definition pending_from :: "user_id \<Rightarrow> user_id \<Rightarrow> request_row \<Rightarrow> bool" where
  "pending_from a b r \<longleftrightarrow> rq_fromId r = a \<and> rq_toId r = b \<and> rq_status r = ''pending''"

definition pending_between :: "user_id \<Rightarrow> user_id \<Rightarrow> request_row \<Rightarrow> bool" where
  "pending_between a b r \<longleftrightarrow> pending_from a b r \<or> pending_from b a r"

text \<open>Inserts, with the primary keys of the tables.\<close>

definition insert_friend :: "user_id \<Rightarrow> user_id \<Rightarrow> millis \<Rightarrow> social_db \<Rightarrow> social_db option" where
  "insert_friend a b now db =
    (if list_ex (\<lambda>r. fr_userId r = a \<and> fr_friendId r = b) (so_friends db) then None
     else Some (db\<lparr>so_friends := so_friends db @ [\<lparr>fr_userId = a, fr_friendId = b, fr_createdAt = now\<rparr>]\<rparr>))"

definition insert_request :: "string \<Rightarrow> user_id \<Rightarrow> user_id \<Rightarrow> millis \<Rightarrow> string option \<Rightarrow> social_db \<Rightarrow> social_db option" where
  "insert_request i a b now relay db =
    (if tbl_get rq_id i (so_requests db) \<noteq> None then None
     else Some (db\<lparr>so_requests := so_requests db @ [\<lparr>rq_id = i, rq_fromId = a, rq_toId = b, rq_status = ''pending'',
       rq_createdAt = now, rq_relayMessageId = relay\<rparr>]\<rparr>))"

definition set_request_status :: "string \<Rightarrow> string \<Rightarrow> social_db \<Rightarrow> social_db" where
  "set_request_status i status db = db\<lparr>so_requests := tbl_update rq_id i (\<lambda>r. r\<lparr>rq_status := status\<rparr>) (so_requests db)\<rparr>"

section \<open>Relayed events\<close>

definition or_text :: "string option \<Rightarrow> string \<Rightarrow> string" where
  "or_text a b = (if truthy a then the a else b)"

definition identity_of :: "names \<Rightarrow> user_row \<Rightarrow> RelayActor" where
  "identity_of nm u = \<lparr>ra_homeUserId = or_text (us_homeUserId u) (us_id u), ra_homeInstance = or_text (us_homeInstance u) (nm_ourOrigin nm)\<rparr>"

definition buildProfileSnapshot :: "user_row \<Rightarrow> replica_hints" where
  "buildProfileSnapshot u = (if truthy_int (us_isDeleted u) then \<lparr>rh_username = None, rh_status = None, rh_deleted = True\<rparr>
     else \<lparr>rh_username = relayHandleOf u,
           rh_status = (if \<not> truthy (us_homeInstance u) \<and> truthy (us_status u) then us_status u else None), rh_deleted = False\<rparr>)"

text \<open>The pair of ids in text order, with what joins them.\<close>

definition sorted_ids :: "string \<Rightarrow> string \<Rightarrow> string" where
  "sorted_ids a b = (if b < a then b @ '':'' @ a else a @ '':'' @ b)"

definition event_name :: "string \<Rightarrow> RelayActor \<Rightarrow> RelayActor \<Rightarrow> millis \<Rightarrow> string" where
  "event_name kind a b now = kind @ '':'' @ sorted_ids (ra_homeUserId a) (ra_homeUserId b) @ '':'' @ nat_to_dec (nat now)"

definition as_origin :: "string \<Rightarrow> origin" where
  "as_origin h = (if starts_with ''http'' h then h else ''https://'' @ h)"

definition getFriendEventTargets :: "names \<Rightarrow> string \<Rightarrow> string \<Rightarrow> origin list" where
  "getFriendEventTargets nm a b = remdups (filter (\<lambda>h. h \<noteq> nm_ourOrigin nm) (map as_origin (filter (\<lambda>h. h \<noteq> []) [a, b])))"

definition friend_event_of ::
  "string \<Rightarrow> string \<Rightarrow> millis \<Rightarrow> RelayActor \<Rightarrow> RelayActor \<Rightarrow> replica_hints option \<Rightarrow> replica_hints option \<Rightarrow> string option \<Rightarrow> millis \<Rightarrow> friend_event" where
  "friend_event_of eventType kind now a b ap bp status createdAt =
    \<lparr>fe_eventType = eventType, fe_messageId = event_name kind a b now, fe_timestamp = now,
     fe_friendship = Some \<lparr>fs_from = a, fs_to = b, fs_fromProfile = ap, fs_toProfile = bp, fs_status = status, fs_createdAt = createdAt\<rparr>\<rparr>"

text \<open>What a local change queues: nothing when both are of this instance; else the pair's clock moves with it.\<close>

definition relay_change ::
  "names \<Rightarrow> millis \<Rightarrow> RelayActor \<Rightarrow> RelayActor \<Rightarrow> friend_event list \<Rightarrow> social_db \<Rightarrow> queued \<times> social_db" where
  "relay_change nm now a b events db =
    (let targets = getFriendEventTargets nm (ra_homeInstance a) (ra_homeInstance b) in
     if targets = [] then ([], db)
     else (map (\<lambda>e. (e, targets)) events, db\<lparr>so_clocks := recordLocalFriendPairChange nm (so_clocks db) a b now now\<rparr>))"

section \<open>Requests\<close>

definition findLocalUserByUsername :: "string \<Rightarrow> user_row list \<Rightarrow> user_row option" where
  "findLocalUserByUsername name users = tbl_get us_username (lower name) users"

definition findNativeUserByHomeId :: "string \<Rightarrow> user_row list \<Rightarrow> user_row option" where
  "findNativeUserByHomeId homeUserId users = find (\<lambda>u. us_isDeleted u = Some 0 \<and> us_homeInstance u = None
     \<and> (us_id u = homeUserId \<or> us_homeUserId u = Some homeUserId)) users"

section \<open>Whom a request names\<close>

text \<open>A member of the request body: absent or null, a text, or something else.\<close>

datatype body_member = BAbsent | BText string | BOther

datatype ParsedSendFriendRequest = ParsedIdentity string string "string option" | ParsedUsername string | ParsedInvalid string

definition MAX_HOME_USER_ID_LENGTH :: nat where "MAX_HOME_USER_ID_LENGTH = 128"

definition trimmed_member :: "body_member \<Rightarrow> string" where
  "trimmed_member v = (case v of BText s \<Rightarrow> js_trim s | _ \<Rightarrow> [])"

definition parseSendFriendRequest :: "body_member \<Rightarrow> body_member \<Rightarrow> body_member \<Rightarrow> ParsedSendFriendRequest" where
  "parseSendFriendRequest usernameField homeUserIdField homeInstanceField =
    (let username = (if trimmed_member usernameField = [] then None else Some (trimmed_member usernameField)) in
     if homeUserIdField \<noteq> BAbsent \<or> homeInstanceField \<noteq> BAbsent then
       (let homeUserId = trimmed_member homeUserIdField;
            homeInstance = (case homeInstanceField of BText s \<Rightarrow> normalizeOriginForCompare (Some s) | _ \<Rightarrow> None)
        in case homeInstance of
             Some h \<Rightarrow> if homeUserId = [] \<or> MAX_HOME_USER_ID_LENGTH < length homeUserId then ParsedInvalid ''validation_failed''
                       else ParsedIdentity homeUserId h username
           | None \<Rightarrow> ParsedInvalid ''validation_failed'')
     else (case username of None \<Rightarrow> ParsedInvalid ''username_required'' | Some u \<Rightarrow> ParsedUsername u))"

text \<open>What is before and after the last \<open>@\<close>, when there is one that is not the first character (\<open>atIndex > 0\<close>).\<close>

definition split_at :: "string \<Rightarrow> (string \<times> string) option" where
  "split_at s = (let after = rev (takeWhile (\<lambda>c. c \<noteq> CHR ''@'') (rev s)); n = length s - length after in
     if n < 2 then None else Some (take (n - 1) s, after))"

definition handleForIdentity :: "string \<Rightarrow> string \<Rightarrow> string option \<Rightarrow> string" where
  "handleForIdentity homeUserId homeInstance username = (case split_at (lower (given username [])) of
     Some (name, host) \<Rightarrow> if normalizeOriginForCompare (Some host) = Some homeInstance then name else homeUserId
   | None \<Rightarrow> homeUserId)"

text \<open>\<open>POST /api/social/requests\<close>: where the request goes, with the domain, the handle and the home id or name looked up there.\<close>

datatype request_target = RouteRefused nat string | RouteLocal "user_row option" user_row | RouteRemote string string string user_row

definition request_route :: "names \<Rightarrow> user_id \<Rightarrow> ParsedSendFriendRequest \<Rightarrow> user_row list \<Rightarrow> request_target" where
  "request_route nm userId target users = (case target of
     ParsedInvalid code \<Rightarrow> RouteRefused 400 code
   | _ \<Rightarrow> (case tbl_get us_id userId users of
       None \<Rightarrow> RouteRefused 401 ''unauthorized''
     | Some sender \<Rightarrow>
         (let ourHost = normalizeOriginForCompare (Some (nm_ourOrigin nm)); senderHome = normalizeOriginForCompare (us_homeInstance sender) in
          if senderHome \<noteq> None \<and> senderHome \<noteq> ourHost then RouteRefused 403 ''not_authoritative_for_sender''
          else (case target of
              ParsedIdentity homeUserId homeInstance username \<Rightarrow>
                if Some homeInstance = ourHost \<or> isOwnDomain nm homeInstance then RouteLocal (findNativeUserByHomeId homeUserId users) sender
                else RouteRemote homeInstance (handleForIdentity homeUserId homeInstance username) homeUserId sender
            | ParsedUsername raw \<Rightarrow> (case split_at raw of
                Some (name, host) \<Rightarrow>
                  if host \<noteq> [] \<and> normalizeOriginForCompare (Some host) \<noteq> ourHost
                  then RouteRemote (lower host) (lower name) (lower name) sender
                  else RouteLocal (findLocalUserByUsername name users) sender
              | None \<Rightarrow> RouteLocal (findLocalUserByUsername raw users) sender)
            | ParsedInvalid code \<Rightarrow> RouteRefused 400 code))))"

lemma split_at_ex: "split_at ''ann@b@c'' = Some (''ann@b'', ''c'')" "split_at ''@c'' = None" "split_at ''ann'' = None" "split_at ''ann@'' = Some (''ann'', [])"
  by code_simp+

definition handleLocalFriendRequest ::
  "names \<Rightarrow> millis \<Rightarrow> string \<Rightarrow> user_id \<Rightarrow> user_row option \<Rightarrow> user_row \<Rightarrow> social_db \<Rightarrow> string answer \<times> queued \<times> social_db" where
  "handleLocalFriendRequest nm now newId userId target sender db = (case target of
     None \<Rightarrow> (Refused 404 ''user_not_found'', [], db)
   | Some t \<Rightarrow>
       if us_id t = userId then (Refused 400 ''cannot_friend_self'', [], db)
       else if are_friends db userId (us_id t) then (Refused 400 ''already_friends'', [], db)
       else if list_ex (pending_between userId (us_id t)) (so_requests db) then (Refused 400 ''friend_request_pending'', [], db)
       else (case insert_request newId userId (us_id t) now None db of
           None \<Rightarrow> (Crashed, [], db)
         | Some db1 \<Rightarrow>
             (let a = identity_of nm sender; b = identity_of nm t;
                  (events, db2) = relay_change nm now a b [friend_event_of ''friend_request_create'' ''friend_req'' now a b
                    (Some (buildProfileSnapshot sender)) (Some (buildProfileSnapshot t)) (Some ''pending'') now] db1
              in (Answer newId, events, db2))))"

text \<open>\<open>handleFederatedFriendRequest\<close> up to the peering, \<open>reset\<close> being the unresolved reset events.\<close>

definition federated_start :: "origin option \<Rightarrow> origin list \<Rightarrow> (nat \<times> string) option" where
  "federated_start peerOrigin resets = (case peerOrigin of
     None \<Rightarrow> Some (400, ''invalid_target_domain'')
   | Some org \<Rightarrow> if org \<in> set resets then Some (409, ''peer_reset_pending'') else None)"

definition peering_refusal :: "EnsurePeeredResult \<Rightarrow> string option \<Rightarrow> (nat \<times> string) option" where
  "peering_refusal peering rowStatus = (case peering of
     ERejected _ \<Rightarrow> Some (403, ''peer_rejected'')
   | EFailed _ \<Rightarrow> Some (503, ''peer_unreachable'')
   | EPending _ \<Rightarrow> if rowStatus = Some ''awaiting_approval'' then Some (409, ''peer_pending_approval'') else Some (409, ''peer_pending'')
   | EAdminRequired _ \<Rightarrow> Some (409, ''peer_pending_local_admin'')
   | EActive _ \<Rightarrow> None)"

datatype LookupResult = LookupOk string replica_hints | LookupNotFound | LookupUnreachable | LookupRateLimited | LookupThrew

text \<open>From the lookup's answer to the row of the target; \<open>None\<close> as refusal means it goes on with the row.\<close>

definition federated_looked_up ::
  "names \<Rightarrow> millis \<Rightarrow> string \<Rightarrow> string \<Rightarrow> LookupResult \<Rightarrow> origin \<Rightarrow> string \<Rightarrow> user_row \<Rightarrow> social_db \<Rightarrow> user_row answer \<times> social_db" where
  "federated_looked_up nm now newId random result peerOrigin targetDomain sender db = (case result of
     LookupThrew \<Rightarrow> (Refused 503 ''peer_unreachable'', db)
   | LookupNotFound \<Rightarrow> (Refused 404 ''user_not_found'', db)
   | LookupUnreachable \<Rightarrow> (Refused 503 ''peer_unreachable'', db)
   | LookupRateLimited \<Rightarrow> (Refused 429 ''lookup_rate_limited'', db)
   | LookupOk homeUserId hints \<Rightarrow>
       if homeUserId = or_text (us_homeUserId sender) (us_id sender)
          \<and> normalizeOriginForCompare (Some peerOrigin) = normalizeOriginForCompare (Some (nm_ourOrigin nm))
       then (Refused 400 ''cannot_friend_self'', db)
       else (case resolveOrCreateReplicatedUser nm now newId random (so_users db) homeUserId targetDomain hints of
           (Answer (Some stub), users1) \<Rightarrow> (Answer stub, db\<lparr>so_users := users1\<rparr>)
         | (Answer None, users1) \<Rightarrow> (Refused 404 ''user_not_found'', db\<lparr>so_users := users1\<rparr>)
         | (_, users1) \<Rightarrow> (Crashed, db\<lparr>so_users := users1\<rparr>)))"

text \<open>After the stub's profile is filled: the request, whether it is new, and what it queues. The inserts are one transaction.\<close>

definition federated_commit ::
  "names \<Rightarrow> millis \<Rightarrow> string \<Rightarrow> origin \<Rightarrow> replica_hints \<Rightarrow> user_row \<Rightarrow> user_row \<Rightarrow> social_db \<Rightarrow> (nat \<times> string) answer \<times> queued \<times> social_db" where
  "federated_commit nm now newId peerOrigin toProfile sender stub db =
    (case find (pending_between (us_id sender) (us_id stub)) (so_requests db) of
       Some r \<Rightarrow> if rq_fromId r = us_id sender then (Answer (200, rq_id r), [], db) else (Refused 409 ''incoming_request_exists'', [], db)
     | None \<Rightarrow>
         if are_friends db (us_id sender) (us_id stub) then (Refused 409 ''already_friends'', [], db)
         else (let a = \<lparr>ra_homeUserId = or_text (us_homeUserId sender) (us_id sender), ra_homeInstance = nm_ourOrigin nm\<rparr>;
                   b = \<lparr>ra_homeUserId = given (us_homeUserId stub) [], ra_homeInstance = peerOrigin\<rparr>;
                   event = friend_event_of ''friend_request_create'' ''friend_req'' now a b
                     (Some (buildProfileSnapshot sender)) (Some toProfile) (Some ''pending'') now;
                   db1 = db\<lparr>so_clocks := recordLocalFriendPairChange nm (so_clocks db) a b now now\<rparr>
               in (case insert_request newId (us_id sender) (us_id stub) now (Some (fe_messageId event)) db1 of
                   None \<Rightarrow> (Crashed, [], db)
                 | Some db2 \<Rightarrow> (Answer (201, newId), [(event, [peerOrigin])], db2))))"

section \<open>Answers and removals\<close>

text \<open>\<open>PATCH /api/social/requests/:id\<close>.\<close>

definition patch_events :: "names \<Rightarrow> millis \<Rightarrow> string \<Rightarrow> request_row \<Rightarrow> social_db \<Rightarrow> queued \<times> social_db" where
  "patch_events nm now status r db =
    (case (tbl_get us_id (rq_fromId r) (so_users db), tbl_get us_id (rq_toId r) (so_users db)) of
       (Some fromUser, Some toUser) \<Rightarrow>
         (let a = identity_of nm fromUser; b = identity_of nm toUser;
              ap = Some (buildProfileSnapshot fromUser); bp = Some (buildProfileSnapshot toUser)
          in relay_change nm now a b
               (friend_event_of ''friend_request_update'' ''friend_req'' now a b ap bp (Some status) (rq_createdAt r)
                # (if status = ''accepted'' then [friend_event_of ''friend_add'' ''friend'' now a b ap bp None now] else [])) db)
     | _ \<Rightarrow> ([], db))"

definition patchRequest :: "names \<Rightarrow> millis \<Rightarrow> user_id \<Rightarrow> string \<Rightarrow> string \<Rightarrow> social_db \<Rightarrow> unit answer \<times> queued \<times> social_db" where
  "patchRequest nm now userId i status db =
    (if status \<notin> {''accepted'', ''declined''} then (Refused 400 ''validation_failed'', [], db)
     else (case tbl_get rq_id i (so_requests db) of
         None \<Rightarrow> (Refused 404 ''friend_request_not_found'', [], db)
       | Some r \<Rightarrow>
           if rq_toId r \<noteq> userId then (Refused 403 ''friend_request_not_recipient'', [], db)
           else (case (if status = ''accepted'' then insert_friend (rq_fromId r) (rq_toId r) now db else Some db) of
               None \<Rightarrow> (Crashed, [], db)
             | Some db1 \<Rightarrow> (let (events, db2) = patch_events nm now status r (set_request_status i status db1) in (Answer (), events, db2)))))"

text \<open>\<open>DELETE /api/social/requests/:id\<close>.\<close>

definition pair_events ::
  "names \<Rightarrow> millis \<Rightarrow> user_id \<Rightarrow> user_id \<Rightarrow> string \<Rightarrow> string \<Rightarrow> millis \<Rightarrow> social_db \<Rightarrow> queued \<times> social_db" where
  "pair_events nm now caller other eventType kind createdAt db =
    (case (tbl_get us_id caller (so_users db), tbl_get us_id other (so_users db)) of
       (Some c, Some t) \<Rightarrow> relay_change nm now (identity_of nm c) (identity_of nm t)
         [friend_event_of eventType kind now (identity_of nm c) (identity_of nm t) None None None createdAt] db
     | _ \<Rightarrow> ([], db))"

definition cancelRequest :: "names \<Rightarrow> millis \<Rightarrow> user_id \<Rightarrow> string \<Rightarrow> social_db \<Rightarrow> unit answer \<times> queued \<times> social_db" where
  "cancelRequest nm now userId i db = (case tbl_get rq_id i (so_requests db) of
     None \<Rightarrow> (Refused 404 ''friend_request_not_found'', [], db)
   | Some r \<Rightarrow>
       if rq_fromId r \<noteq> userId then (Refused 403 ''friend_request_not_sender'', [], db)
       else if rq_status r \<noteq> ''pending'' then (Refused 400 ''friend_request_not_pending'', [], db)
       else (let (events, db1) = pair_events nm now userId (rq_toId r) ''friend_request_cancel'' ''friend_req'' (rq_createdAt r)
                 (db\<lparr>so_requests := tbl_delete rq_id i (so_requests db)\<rparr>)
             in (Answer (), events, db1)))"

definition without_friendship :: "user_id \<Rightarrow> user_id \<Rightarrow> social_db \<Rightarrow> social_db" where
  "without_friendship a b db = db\<lparr>so_friends := filter (\<lambda>r. \<not> between a b r) (so_friends db)\<rparr>"

text \<open>\<open>DELETE /api/social/friends/:id\<close>.\<close>

definition removeFriend :: "names \<Rightarrow> millis \<Rightarrow> user_id \<Rightarrow> user_id \<Rightarrow> social_db \<Rightarrow> unit answer \<times> queued \<times> social_db" where
  "removeFriend nm now userId other db =
    (if \<not> are_friends db userId other then (Refused 404 ''not_friends'', [], db)
     else (let (events, db1) = pair_events nm now userId other ''friend_remove'' ''friend'' now (without_friendship userId other db)
           in (Answer (), events, db1)))"

text \<open>\<open>rollbackFriendRequestCreate\<close>: the first row the refused event came from.\<close>

definition rollbackFriendRequestCreate :: "string \<Rightarrow> social_db \<Rightarrow> social_db" where
  "rollbackFriendRequestCreate messageId db =
    (case find (\<lambda>r. rq_relayMessageId r = Some messageId) (so_requests db) of
       None \<Rightarrow> db | Some r \<Rightarrow> db\<lparr>so_requests := tbl_delete rq_id (rq_id r) (so_requests db)\<rparr>)"

section \<open>Relayed events arriving\<close>

datatype verdict = Accepted | Rejected string | Threw

definition refusal_reason :: "AttributionRefusal \<Rightarrow> string" where
  "refusal_reason x = (case x of Attribution_mismatch \<Rightarrow> ''attribution_mismatch'' | Attribution_unproven \<Rightarrow> ''attribution_unproven'')"

text \<open>Claims the pair's clock: the tables after it, and whether the event is stale.\<close>

definition claimFriendPair :: "names \<Rightarrow> millis \<Rightarrow> friend_event \<Rightarrow> friendship \<Rightarrow> social_db \<Rightarrow> social_db \<times> bool" where
  "claimFriendPair nm now e f db = (case friendPairClockSubject nm (Some (fs_from f)) (Some (fs_to f)) of
     None \<Rightarrow> (db, False)
   | Some subject \<Rightarrow> (let (clocks, ok) = claimSubjectChange (so_clocks db) subject (fe_timestamp e) now
                      in (db\<lparr>so_clocks := clocks\<rparr>, \<not> ok)))"

definition event_time :: "friendship \<Rightarrow> millis \<Rightarrow> millis" where
  "event_time f now = (if fs_createdAt f = 0 then now else fs_createdAt f)"

definition profile_hints :: "replica_hints option \<Rightarrow> replica_hints" where
  "profile_hints p = given p \<lparr>rh_username = None, rh_status = None, rh_deleted = False\<rparr>"

text \<open>\<open>friend_request_create\<close>: up to the hydration of the sender, whose row it names, and after it.\<close>

definition createEvent_start ::
  "names \<Rightarrow> registry \<Rightarrow> millis \<Rightarrow> string \<Rightarrow> string \<Rightarrow> origin \<Rightarrow> friend_event \<Rightarrow> social_db \<Rightarrow> (verdict + user_id) \<times> social_db" where
  "createEvent_start nm registry now newId random source e db = (case fe_friendship e of
     None \<Rightarrow> (Inl (Rejected ''missing_friendship_payload''), db)
   | Some f \<Rightarrow> (case attributionRefusal nm (so_users db) registry (Some (fs_from f)) source of
       Some refusal \<Rightarrow> (Inl (Rejected (refusal_reason refusal)), db)
     | None \<Rightarrow>
         if ra_homeUserId (fs_from f) = ra_homeUserId (fs_to f)
            \<and> normalizeOriginForCompare (Some (ra_homeInstance (fs_from f))) = normalizeOriginForCompare (Some (ra_homeInstance (fs_to f)))
         then (Inl (Rejected ''self_target_invalid''), db)
         else (case resolveOrCreateReplicatedUser nm now newId random (so_users db) (ra_homeUserId (fs_from f))
                 (ra_homeInstance (fs_from f)) (profile_hints (fs_fromProfile f)) of
             (Answer (Some u), users1) \<Rightarrow> (Inr (us_id u), db\<lparr>so_users := users1\<rparr>)
           | (Answer None, users1) \<Rightarrow> (Inl Accepted, db\<lparr>so_users := users1\<rparr>)
           | (_, users1) \<Rightarrow> (Inl Threw, db\<lparr>so_users := users1\<rparr>))))"

definition createEvent_settle ::
  "names \<Rightarrow> millis \<Rightarrow> string \<Rightarrow> user_id \<Rightarrow> friend_event \<Rightarrow> friendship \<Rightarrow> social_db \<Rightarrow> verdict \<times> social_db" where
  "createEvent_settle nm now newId fromId e f db = (case resolveRelayActor nm (so_users db) (fs_to f) of
     Found toUser \<Rightarrow>
       (let (db1, stale) = claimFriendPair nm now e f db in
        if stale then (Accepted, db1)
        else if are_friends db1 fromId (us_id toUser) then (Accepted, db1)
        else if list_ex (pending_between fromId (us_id toUser)) (so_requests db1) then (Accepted, db1)
        else (case insert_request newId fromId (us_id toUser) (event_time f now) None db1 of
            None \<Rightarrow> (Threw, db1) | Some db2 \<Rightarrow> (Accepted, db2)))
   | _ \<Rightarrow> (Rejected ''recipient_not_found'', db))"

definition updateEvent :: "names \<Rightarrow> registry \<Rightarrow> millis \<Rightarrow> origin \<Rightarrow> friend_event \<Rightarrow> social_db \<Rightarrow> verdict \<times> social_db" where
  "updateEvent nm registry now source e db = (case fe_friendship e of
     None \<Rightarrow> (Rejected ''missing_friendship_payload'', db)
   | Some f \<Rightarrow>
       if \<not> truthy (fs_status f) then (Rejected ''missing_friendship_payload'', db)
       else (case attributionRefusal nm (so_users db) registry (Some (fs_to f)) source of
         Some refusal \<Rightarrow> (Rejected (refusal_reason refusal), db)
       | None \<Rightarrow> (case resolveRelayActor nm (so_users db) (fs_from f) of
           Found fromUser \<Rightarrow>
             (let (db1, stale) = claimFriendPair nm now e f db in
              if stale then (Accepted, db1)
              else (case resolveRelayActor nm (so_users db1) (fs_to f) of
                  Found toUser \<Rightarrow> (case find (pending_from (us_id fromUser) (us_id toUser)) (so_requests db1) of
                      None \<Rightarrow> (Accepted, db1)
                    | Some r \<Rightarrow>
                        (let db2 = set_request_status (rq_id r) (the (fs_status f)) db1 in
                         if fs_status f = Some ''accepted'' \<and> \<not> are_friends db2 (us_id fromUser) (us_id toUser)
                         then (case insert_friend (us_id fromUser) (us_id toUser) (event_time f now) db2 of
                             None \<Rightarrow> (Threw, db1) | Some db3 \<Rightarrow> (Accepted, db3))
                         else (Accepted, db2)))
                | _ \<Rightarrow> (Accepted, db1)))
         | _ \<Rightarrow> (Rejected ''sender_not_found'', db))))"

definition cancelEvent :: "names \<Rightarrow> registry \<Rightarrow> millis \<Rightarrow> origin \<Rightarrow> friend_event \<Rightarrow> social_db \<Rightarrow> verdict \<times> social_db" where
  "cancelEvent nm registry now source e db = (case fe_friendship e of
     None \<Rightarrow> (Rejected ''missing_friendship_payload'', db)
   | Some f \<Rightarrow> (case attributionRefusal nm (so_users db) registry (Some (fs_from f)) source of
       Some refusal \<Rightarrow> (Rejected (refusal_reason refusal), db)
     | None \<Rightarrow>
         if resolveRelayActor nm (so_users db) (fs_from f) = Mismatch then (Rejected ''attribution_mismatch'', db)
         else (let (db1, stale) = claimFriendPair nm now e f db in
           if stale then (Accepted, db1)
           else (case (resolveRelayActor nm (so_users db) (fs_from f), resolveRelayActor nm (so_users db) (fs_to f)) of
               (Found fromUser, Found toUser) \<Rightarrow> (case find (pending_from (us_id fromUser) (us_id toUser)) (so_requests db1) of
                   None \<Rightarrow> (Accepted, db1)
                 | Some r \<Rightarrow> (Accepted, db1\<lparr>so_requests := tbl_delete rq_id (rq_id r) (so_requests db1)\<rparr>))
             | _ \<Rightarrow> (Accepted, db1)))))"

text \<open>\<open>friend_add\<close>: up to the hydration of the two rows it names, and after it.\<close>

definition addEvent_start ::
  "names \<Rightarrow> registry \<Rightarrow> millis \<Rightarrow> origin \<Rightarrow> friend_event \<Rightarrow> social_db \<Rightarrow> (verdict + user_id \<times> user_id) \<times> social_db" where
  "addEvent_start nm registry now source e db = (case fe_friendship e of
     None \<Rightarrow> (Inl (Rejected ''missing_friendship_payload''), db)
   | Some f \<Rightarrow> (case attributionRefusal nm (so_users db) registry (Some (fs_to f)) source of
       Some refusal \<Rightarrow> (Inl (Rejected (refusal_reason refusal)), db)
     | None \<Rightarrow>
         (let clockSubject = friendPairClockSubject nm (Some (fs_from f)) (Some (fs_to f)) in
          if (case clockSubject of Some subject \<Rightarrow> isSubjectChangeStale (so_clocks db) subject (fe_timestamp e) | None \<Rightarrow> False)
          then (Inl Accepted, db)
          else (case (resolveRelayActor nm (so_users db) (fs_from f), resolveRelayActor nm (so_users db) (fs_to f)) of
              (Found fromUser, Found toUser) \<Rightarrow>
                if are_friends db (us_id fromUser) (us_id toUser)
                then (Inl Accepted, (case clockSubject of None \<Rightarrow> db
                      | Some subject \<Rightarrow> db\<lparr>so_clocks := recordSubjectChange (so_clocks db) subject (fe_timestamp e) now\<rparr>))
                else if list_ex (pending_from (us_id fromUser) (us_id toUser)) (so_requests db)
                then (Inr (us_id fromUser, us_id toUser), db)
                else (Inl (Rejected ''invalid_target''), db)
            | _ \<Rightarrow> (Inl (Rejected ''invalid_target''), db)))))"

definition accept_pending :: "user_id \<Rightarrow> user_id \<Rightarrow> social_db \<Rightarrow> social_db" where
  "accept_pending a b db = db\<lparr>so_requests := map (\<lambda>r. if pending_between a b r then r\<lparr>rq_status := ''accepted''\<rparr> else r) (so_requests db)\<rparr>"

definition addEvent_settle ::
  "names \<Rightarrow> millis \<Rightarrow> user_id \<times> user_id \<Rightarrow> friend_event \<Rightarrow> friendship \<Rightarrow> social_db \<Rightarrow> verdict \<times> social_db" where
  "addEvent_settle nm now pair e f db =
    (let (db1, stale) = claimFriendPair nm now e f db in
     if stale then (Accepted, db1)
     else (case insert_friend (fst pair) (snd pair) (event_time f now) db1 of
         None \<Rightarrow> (Threw, db1)
       | Some db2 \<Rightarrow> (Accepted, accept_pending (fst pair) (snd pair) db2)))"

definition removeEvent :: "names \<Rightarrow> registry \<Rightarrow> millis \<Rightarrow> origin \<Rightarrow> friend_event \<Rightarrow> social_db \<Rightarrow> verdict \<times> social_db" where
  "removeEvent nm registry now source e db = (case fe_friendship e of
     None \<Rightarrow> (Rejected ''missing_friendship_payload'', db)
   | Some f \<Rightarrow>
       (let fromRefusal = attributionRefusal nm (so_users db) registry (Some (fs_from f)) source;
            toRefusal = (if fromRefusal \<noteq> None then attributionRefusal nm (so_users db) registry (Some (fs_to f)) source else None);
            fromResolved = resolveRelayActor nm (so_users db) (fs_from f); toResolved = resolveRelayActor nm (so_users db) (fs_to f)
        in if fromRefusal \<noteq> None \<and> toRefusal \<noteq> None
           then (Rejected (if fromRefusal = Some Attribution_unproven \<or> toRefusal = Some Attribution_unproven
                           then ''attribution_unproven'' else ''attribution_mismatch''), db)
           else if (if fromRefusal \<noteq> None then toResolved else fromResolved) = Mismatch then (Rejected ''attribution_mismatch'', db)
           else (let (db1, stale) = claimFriendPair nm now e f db in
             if stale then (Accepted, db1)
             else (case (fromResolved, toResolved) of
                 (Found fromUser, Found toUser) \<Rightarrow> (Accepted, without_friendship (us_id fromUser) (us_id toUser) db1)
               | _ \<Rightarrow> (Accepted, db1)))))"

section \<open>The table of requests\<close>

interpretation requests_by_id: keyed_table rq_id "tbl_get rq_id" "tbl_update rq_id" "tbl_delete rq_id"
  by unfold_locales (auto simp: table_simps dest: tbl_get_SomeD)

lemma relay_requests: "relay_change nm now a b es db = (events, db') \<Longrightarrow> so_requests db' = so_requests db"
  by (auto simp: relay_change_def Let_def split: if_splits)

text \<open>A request that was taken back is gone; one that was answered stays, with its answer.\<close>

lemma cancelled_is_gone: "cancelRequest nm now userId i db = (Answer (), events, db') \<Longrightarrow> tbl_get rq_id i (so_requests db') = None"
  by (auto simp: cancelRequest_def pair_events_def requests_by_id.get_delete dest!: relay_requests split: if_splits option.splits prod.splits)

lemma answer_is_kept:
  assumes "patchRequest nm now userId i status db = (Answer (), events, db')" "tbl_get rq_id i (so_requests db) = Some r"
  shows "tbl_get rq_id i (so_requests db') = Some (r\<lparr>rq_status := status\<rparr>)"
proof -
  obtain db1 where d: "(if status = ''accepted'' then insert_friend (rq_fromId r) (rq_toId r) now db else Some db) = Some db1"
    "patch_events nm now status r (set_request_status i status db1) = (events, db')"
    using assms by (auto simp: patchRequest_def split: if_splits option.splits prod.splits)
  have "so_requests db1 = so_requests db" using d(1) by (auto simp: insert_friend_def split: if_splits)
  moreover have "so_requests db' = so_requests (set_request_status i status db1)"
    using d(2) by (auto simp: patch_events_def Let_def dest!: relay_requests split: option.splits)
  ultimately show ?thesis using requests_by_id.update_same[OF _ assms(2)] by (simp add: set_request_status_def)
qed

section \<open>Who may make friends of whom\<close>

text \<open>
  Every way the tables change, and a history of what was asked and answered: by a session, which is its user's, or by an
  event a peer delivered. Of an event the history keeps what was there and nothing of what the handler thought of it: the peer,
  what the event names, the users at that time and the pair of rows it was applied to. Between the parts of a handler anything
  may happen, so what the first part found is an argument of the second (\<open>co_senders\<close>, \<open>co_pairs\<close>); users change freely.
\<close>

datatype deed =
    SessionAsked user_id user_id
  | SessionAnswered user_id user_id user_id string
  | PeerAsked origin friendship "user_row list" "user_row list" "user_row list" user_id user_id
  | PeerAnswered origin friendship "user_row list" user_id user_id
  | PeerAdded origin friendship "user_row list" user_id user_id

record consent =
  co_db :: social_db
  co_history :: "deed set"
  co_senders :: "(origin \<times> friend_event \<times> user_row list \<times> user_row list \<times> user_id) set"
  co_pairs :: "(origin \<times> friend_event \<times> user_row list \<times> user_id \<times> user_id) set"

definition same_tables :: "social_db \<Rightarrow> social_db \<Rightarrow> bool" where
  "same_tables db db' \<longleftrightarrow> so_friends db' = so_friends db \<and> so_requests db' = so_requests db"

definition happened :: "consent \<Rightarrow> social_db \<Rightarrow> deed set \<Rightarrow> consent" where
  "happened s db deeds = s\<lparr>co_db := db, co_history := deeds \<union> co_history s\<rparr>"

inductive social_step :: "names \<Rightarrow> registry \<Rightarrow> consent \<Rightarrow> consent \<Rightarrow> bool" for nm registry where
  request: "handleLocalFriendRequest nm now newId userId (Some t) sender (co_db s) = (Answer i, events, db) \<Longrightarrow>
    social_step nm registry s (happened s db {SessionAsked userId (us_id t)})"
| federated: "federated_commit nm now newId peerOrigin profile sender stub (co_db s) = (Answer r, events, db) \<Longrightarrow>
    social_step nm registry s (happened s db {SessionAsked (us_id sender) (us_id stub)})"
| patch: "patchRequest nm now userId i status (co_db s) = (Answer (), events, db) \<Longrightarrow> tbl_get rq_id i (so_requests (co_db s)) = Some r \<Longrightarrow>
    social_step nm registry s (happened s db {SessionAnswered userId (rq_fromId r) (rq_toId r) status})"
| cancel: "cancelRequest nm now userId i (co_db s) = (Answer (), events, db) \<Longrightarrow> social_step nm registry s (happened s db {})"
| remove: "removeFriend nm now userId other (co_db s) = (Answer (), events, db) \<Longrightarrow> social_step nm registry s (happened s db {})"
| rollback: "social_step nm registry s (happened s (rollbackFriendRequestCreate messageId (co_db s)) {})"
| create_starts: "createEvent_start nm registry now newId random source e (co_db s) = (Inr u, db) \<Longrightarrow> distinct (map us_id (so_users (co_db s))) \<Longrightarrow>
    social_step nm registry s ((happened s db {})\<lparr>co_senders := insert (source, e, so_users (co_db s), so_users db, u) (co_senders s)\<rparr>)"
| create_settles: "(source, e, users, users1, u) \<in> co_senders s \<Longrightarrow> fe_friendship e = Some f \<Longrightarrow>
    createEvent_settle nm now newId u e f (co_db s) = (Accepted, db) \<Longrightarrow> resolveRelayActor nm (so_users (co_db s)) (fs_to f) = Found t \<Longrightarrow>
    social_step nm registry s (happened s db {PeerAsked source f users users1 (so_users (co_db s)) u (us_id t)})"
| update: "updateEvent nm registry now source e (co_db s) = (Accepted, db) \<Longrightarrow> fe_friendship e = Some f \<Longrightarrow>
    resolveRelayActor nm (so_users (co_db s)) (fs_from f) = Found u \<Longrightarrow> resolveRelayActor nm (so_users (co_db s)) (fs_to f) = Found t \<Longrightarrow>
    social_step nm registry s (happened s db {PeerAnswered source f (so_users (co_db s)) (us_id u) (us_id t)})"
| cancel_event: "cancelEvent nm registry now source e (co_db s) = (v, db) \<Longrightarrow> social_step nm registry s (happened s db {})"
| add_starts: "addEvent_start nm registry now source e (co_db s) = (Inr (u, t), db) \<Longrightarrow>
    social_step nm registry s ((happened s db {})\<lparr>co_pairs := insert (source, e, so_users (co_db s), u, t) (co_pairs s)\<rparr>)"
| add_settles: "(source, e, users, u, t) \<in> co_pairs s \<Longrightarrow> fe_friendship e = Some f \<Longrightarrow> addEvent_settle nm now (u, t) e f (co_db s) = (Accepted, db) \<Longrightarrow>
    social_step nm registry s (happened s db {PeerAdded source f users u t})"
| remove_event: "removeEvent nm registry now source e (co_db s) = (v, db) \<Longrightarrow> social_step nm registry s (happened s db {})"
| users: "same_tables (co_db s) db \<Longrightarrow> social_step nm registry s (happened s db {})"

text \<open>
  Whom a peer may speak for, without regard to the code that decides it: the users of its own domain, but not one who was
  detached from it, and a native account of this instance that its own records place on that peer.
\<close>

definition speaks_for :: "names \<Rightarrow> user_row list \<Rightarrow> registry \<Rightarrow> origin \<Rightarrow> RelayActor \<Rightarrow> bool" where
  "speaks_for nm users registry source a \<longleftrightarrow> ra_homeUserId a \<noteq> [] \<and> domain_of nm (ra_homeInstance a) \<noteq> []
     \<and> (domain_of nm (ra_homeInstance a) = domain_of nm source
          \<and> (\<forall>u. resolveRelayActor nm users a = Found u \<longrightarrow> us_federationHomeOrphaned u \<noteq> Some 1)
        \<or> domain_of nm (ra_homeInstance a) = domain_of nm (nm_ourOrigin nm) \<and> holds_account users registry (ra_homeUserId a) source)"

definition row_of :: "names \<Rightarrow> user_row list \<Rightarrow> RelayActor \<Rightarrow> user_id \<Rightarrow> bool" where
  "row_of nm users a i \<longleftrightarrow> (\<exists>u. resolveRelayActor nm users a = Found u \<and> us_id u = i)"

text \<open>Who asked, and who said yes.\<close>

definition asked :: "names \<Rightarrow> registry \<Rightarrow> deed set \<Rightarrow> user_id \<Rightarrow> user_id \<Rightarrow> bool" where
  "asked nm registry H a b \<longleftrightarrow> SessionAsked a b \<in> H
     \<or> (\<exists>source f users users1 users2. PeerAsked source f users users1 users2 a b \<in> H \<and> speaks_for nm users registry source (fs_from f)
          \<and> (domain_stable nm (ra_homeInstance (fs_from f)) \<longrightarrow> row_of nm users1 (fs_from f) a) \<and> row_of nm users2 (fs_to f) b)"

definition agreed :: "names \<Rightarrow> registry \<Rightarrow> deed set \<Rightarrow> user_id \<Rightarrow> user_id \<Rightarrow> bool" where
  "agreed nm registry H a b \<longleftrightarrow> SessionAnswered b a b ''accepted'' \<in> H
     \<or> (\<exists>source f users. (PeerAnswered source f users a b \<in> H \<and> fs_status f = Some ''accepted'' \<or> PeerAdded source f users a b \<in> H)
          \<and> speaks_for nm users registry source (fs_to f) \<and> row_of nm users (fs_from f) a \<and> row_of nm users (fs_to f) b)"

lemma attribution_speaks: "attributionRefusal nm users registry (Some a) source = None \<Longrightarrow> speaks_for nm users registry source a"
  by (auto simp: attributionRefusal_def speaks_for_def Let_def intro: proven_standing
      split: if_splits RelayActorResolution.splits HomewardStanding.splits)

lemma asked_mono: "asked nm registry H a b \<Longrightarrow> H \<subseteq> H' \<Longrightarrow> asked nm registry H' a b"
  unfolding asked_def by blast

lemma agreed_mono: "agreed nm registry H a b \<Longrightarrow> H \<subseteq> H' \<Longrightarrow> agreed nm registry H' a b"
  unfolding agreed_def by blast

definition request_pairs :: "social_db \<Rightarrow> (user_id \<times> user_id) set" where
  "request_pairs db = (\<lambda>q. (rq_fromId q, rq_toId q)) ` set (so_requests db)"

definition friend_pairs :: "social_db \<Rightarrow> (user_id \<times> user_id) set" where
  "friend_pairs db = (\<lambda>r. (fr_userId r, fr_friendId r)) ` set (so_friends db)"

definition sender_ok :: "names \<Rightarrow> registry \<Rightarrow> origin \<times> friend_event \<times> user_row list \<times> user_row list \<times> user_id \<Rightarrow> bool" where
  "sender_ok nm registry x \<longleftrightarrow> (case x of (source, e, users, users1, u) \<Rightarrow> \<forall>f. fe_friendship e = Some f \<longrightarrow>
     speaks_for nm users registry source (fs_from f)
     \<and> (domain_stable nm (ra_homeInstance (fs_from f)) \<longrightarrow> row_of nm users1 (fs_from f) u))"

definition pair_ok :: "names \<Rightarrow> registry \<Rightarrow> deed set \<Rightarrow> origin \<times> friend_event \<times> user_row list \<times> user_id \<times> user_id \<Rightarrow> bool" where
  "pair_ok nm registry H x \<longleftrightarrow> (case x of (source, e, users, u, t) \<Rightarrow> asked nm registry H u t \<and> (\<forall>f. fe_friendship e = Some f \<longrightarrow>
     speaks_for nm users registry source (fs_to f) \<and> row_of nm users (fs_from f) u \<and> row_of nm users (fs_to f) t))"

definition asked_pairs :: "names \<Rightarrow> registry \<Rightarrow> consent \<Rightarrow> (user_id \<times> user_id) set" where
  "asked_pairs nm registry s = {(a, b). asked nm registry (co_history s) a b}"

definition agreed_pairs :: "names \<Rightarrow> registry \<Rightarrow> consent \<Rightarrow> (user_id \<times> user_id) set" where
  "agreed_pairs nm registry s = {(a, b). agreed nm registry (co_history s) a b}"

definition consented :: "names \<Rightarrow> registry \<Rightarrow> consent \<Rightarrow> bool" where
  "consented nm registry s \<longleftrightarrow> request_pairs (co_db s) \<subseteq> asked_pairs nm registry s
     \<and> friend_pairs (co_db s) \<subseteq> asked_pairs nm registry s \<inter> agreed_pairs nm registry s
     \<and> (\<forall>x \<in> co_senders s. sender_ok nm registry x) \<and> (\<forall>x \<in> co_pairs s. pair_ok nm registry (co_history s) x)"

text \<open>What an operation may add: nothing but the request or the friendship it is about.\<close>

definition adds :: "(user_id \<times> user_id) set \<Rightarrow> (user_id \<times> user_id) set \<Rightarrow> social_db \<Rightarrow> social_db \<Rightarrow> bool" where
  "adds A F db db' \<longleftrightarrow> request_pairs db' \<subseteq> A \<union> request_pairs db \<and> friend_pairs db' \<subseteq> F \<union> friend_pairs db"

lemma adds_same: "same_tables db db' \<Longrightarrow> adds A F db db'"
  by (auto simp: adds_def same_tables_def request_pairs_def friend_pairs_def)

lemma same_tables_refl [simp]: "same_tables db db"
  by (simp add: same_tables_def)

lemma adds_refl [simp]: "adds A F db db"
  by (simp add: adds_same)

lemma adds_trans: "adds A F db db1 \<Longrightarrow> adds A F db1 db2 \<Longrightarrow> adds A F db db2"
  unfolding adds_def by blast

lemma adds_mono: "adds A F db db' \<Longrightarrow> A \<subseteq> A' \<Longrightarrow> F \<subseteq> F' \<Longrightarrow> adds A' F' db db'"
  unfolding adds_def by blast

lemma pair_ok_mono: "pair_ok nm registry H x \<Longrightarrow> H \<subseteq> H' \<Longrightarrow> pair_ok nm registry H' x"
  using asked_mono by (fastforce simp: pair_ok_def split: prod.splits)

lemma happened_simps [simp]:
  "co_db (happened s db H) = db" "co_history (happened s db H) = H \<union> co_history s"
  "co_senders (happened s db H) = co_senders s" "co_pairs (happened s db H) = co_pairs s"
  by (simp_all add: happened_def)

text \<open>A step keeps consent when what it adds to the tables is covered by the history after it.\<close>

lemma adds_consented:
  assumes "consented nm registry s" "adds A F (co_db s) db" "A \<subseteq> asked_pairs nm registry (happened s db H)"
    and "F \<subseteq> asked_pairs nm registry (happened s db H) \<inter> agreed_pairs nm registry (happened s db H)"
  shows "consented nm registry (happened s db H)"
proof -
  have "asked_pairs nm registry s \<subseteq> asked_pairs nm registry (happened s db H)" "agreed_pairs nm registry s \<subseteq> agreed_pairs nm registry (happened s db H)"
    by (auto simp: asked_pairs_def agreed_pairs_def elim: asked_mono agreed_mono)
  moreover have "\<forall>x \<in> co_pairs s. pair_ok nm registry (co_history (happened s db H)) x" using assms(1) by (auto simp: consented_def elim: pair_ok_mono)
  ultimately show ?thesis using assms unfolding consented_def adds_def by (simp add: subset_iff) blast
qed

lemma same_consented: "consented nm registry s \<Longrightarrow> adds {} {} (co_db s) db \<Longrightarrow> consented nm registry (happened s db H)"
  by (rule adds_consented) auto

lemma relay_same: "relay_change nm now a b es db = (events, db') \<Longrightarrow> same_tables db db'"
  by (auto simp: relay_change_def same_tables_def Let_def split: if_splits)

lemma claim_same: "claimFriendPair nm now e f db = (db', stale) \<Longrightarrow> same_tables db db' \<and> so_users db' = so_users db"
  by (auto simp: claimFriendPair_def same_tables_def Let_def split: option.splits prod.splits)

lemma insert_request_adds: "insert_request i a b now relay db = Some db' \<Longrightarrow> adds {(a, b)} F db db'"
  by (auto simp: insert_request_def adds_def request_pairs_def friend_pairs_def split: if_splits)

lemma insert_friend_adds: "insert_friend a b now db = Some db' \<Longrightarrow> adds A {(a, b)} db db'"
  by (auto simp: insert_friend_def adds_def request_pairs_def friend_pairs_def split: if_splits)

lemma set_status_adds: "adds A F db (set_request_status i st db)"
  by (auto simp: adds_def set_request_status_def tbl_update_def request_pairs_def friend_pairs_def)

lemma accept_adds: "adds A F db (accept_pending a b db)"
  by (auto simp: adds_def accept_pending_def request_pairs_def friend_pairs_def)

lemma fewer_adds: "set (so_requests db') \<subseteq> set (so_requests db) \<Longrightarrow> set (so_friends db') \<subseteq> set (so_friends db) \<Longrightarrow> adds A F db db'"
  by (auto simp: adds_def request_pairs_def friend_pairs_def)

section \<open>What each operation adds\<close>

lemma patch_events_same: "patch_events nm now status r db = (events, db') \<Longrightarrow> same_tables db db'"
  by (auto simp: patch_events_def Let_def dest!: relay_same split: option.splits)

lemma pair_events_same: "pair_events nm now c t ty kind createdAt db = (events, db') \<Longrightarrow> same_tables db db'"
  by (auto simp: pair_events_def dest!: relay_same split: option.splits)

lemma local_adds:
  assumes "handleLocalFriendRequest nm now newId userId (Some t) sender db = (Answer i, events, db')"
  shows "adds {(userId, us_id t)} {} db db'"
proof -
  obtain db1 where "insert_request newId userId (us_id t) now None db = Some db1" "same_tables db1 db'"
    using assms by (auto simp: handleLocalFriendRequest_def Let_def dest!: relay_same split: if_splits option.splits prod.splits)
  then show ?thesis using adds_trans[OF insert_request_adds adds_same] by blast
qed

lemma federated_adds:
  assumes "federated_commit nm now newId org profile sender stub db = (Answer r, events, db')"
  shows "adds {(us_id sender, us_id stub)} {} db db'"
proof -
  have step: "adds {(us_id sender, us_id stub)} {} db db2"
    if "insert_request newId (us_id sender) (us_id stub) now relay (db\<lparr>so_clocks := clocks\<rparr>) = Some db2" for clocks relay db2
  proof -
    have "same_tables db (db\<lparr>so_clocks := clocks\<rparr>)" by (simp add: same_tables_def)
    then show ?thesis using adds_trans[OF adds_same insert_request_adds[OF that]] by blast
  qed
  show ?thesis using assms step by (auto simp: federated_commit_def Let_def split: option.splits if_splits)
qed

lemma patch_adds:
  assumes "patchRequest nm now userId i status db = (Answer (), events, db')" "tbl_get rq_id i (so_requests db) = Some r"
  shows "rq_toId r = userId \<and> adds {} (if status = ''accepted'' then {(rq_fromId r, userId)} else {}) db db'"
proof -
  let ?F = "if status = ''accepted'' then {(rq_fromId r, userId)} else {}"
  obtain db1 where d: "rq_toId r = userId" "(if status = ''accepted'' then insert_friend (rq_fromId r) (rq_toId r) now db else Some db) = Some db1"
    "same_tables (set_request_status i status db1) db'"
    using assms by (auto simp: patchRequest_def dest!: patch_events_same split: if_splits option.splits prod.splits)
  have "adds {} ?F db db1" using d(1,2) by (cases "status = ''accepted''") (auto dest: insert_friend_adds)
  then show ?thesis using d(1) adds_trans[OF adds_trans[OF _ set_status_adds] adds_same[OF d(3)]] by blast
qed

lemma cancel_adds: "cancelRequest nm now userId i db = (Answer (), events, db') \<Longrightarrow> adds {} {} db db'"
  by (auto simp: cancelRequest_def same_tables_def intro!: fewer_adds dest!: pair_events_same split: if_splits option.splits prod.splits)

lemma remove_adds: "removeFriend nm now userId t db = (Answer (), events, db') \<Longrightarrow> adds {} {} db db'"
  by (auto simp: removeFriend_def without_friendship_def same_tables_def intro!: fewer_adds dest!: pair_events_same split: if_splits prod.splits)

lemma rollback_adds: "adds {} {} db (rollbackFriendRequestCreate messageId db)"
  by (auto simp: rollbackFriendRequestCreate_def intro!: fewer_adds split: option.splits)

lemma create_start_same: "createEvent_start nm registry now newId random source e db = (v, db') \<Longrightarrow> same_tables db db'"
  by (auto simp: createEvent_start_def same_tables_def split: option.splits if_splits prod.splits answer.splits)

lemma create_settle_adds:
  assumes "createEvent_settle nm now newId u e f db = (v, db')" "resolveRelayActor nm (so_users db) (fs_to f) = Found t"
  shows "adds {(u, us_id t)} {} db db'"
proof -
  obtain db1 stale where c: "claimFriendPair nm now e f db = (db1, stale)" by (cases "claimFriendPair nm now e f db")
  have "adds {(u, us_id t)} {} db1 db'"
    using assms c by (auto simp: createEvent_settle_def dest: insert_request_adds split: if_splits option.splits)
  then show ?thesis using adds_trans[OF adds_same[OF conjunct1[OF claim_same[OF c]]]] by blast
qed

lemma update_adds:
  assumes "updateEvent nm registry now source e db = (Accepted, db')" "fe_friendship e = Some f"
  shows "same_tables db db' \<or> (\<exists>u t. resolveRelayActor nm (so_users db) (fs_from f) = Found u \<and> resolveRelayActor nm (so_users db) (fs_to f) = Found t
    \<and> (us_id u, us_id t) \<in> request_pairs db \<and> adds {} (if fs_status f = Some ''accepted'' then {(us_id u, us_id t)} else {}) db db')"
proof -
  obtain db1 stale where c: "claimFriendPair nm now e f db = (db1, stale)" by (cases "claimFriendPair nm now e f db")
  note same = claim_same[OF c]
  have step: "(us_id u, us_id t) \<in> request_pairs db \<and> adds {} (if fs_status f = Some ''accepted'' then {(us_id u, us_id t)} else {}) db db'"
    if "find (pending_from (us_id u) (us_id t)) (so_requests db1) = Some r"
      "(if fs_status f = Some ''accepted'' \<and> \<not> are_friends (set_request_status (rq_id r) st db1) (us_id u) (us_id t)
        then insert_friend (us_id u) (us_id t) (event_time f now) (set_request_status (rq_id r) st db1) = Some db'
        else db' = set_request_status (rq_id r) st db1)" for u t r st
  proof -
    have "(us_id u, us_id t) \<in> request_pairs db" using find_SomeD[OF that(1)] same
      by (force simp: request_pairs_def pending_from_def same_tables_def)
    moreover have "adds {} (if fs_status f = Some ''accepted'' then {(us_id u, us_id t)} else {}) (set_request_status (rq_id r) st db1) db'"
      using that(2) by (auto dest: insert_friend_adds split: if_splits)
    ultimately show ?thesis using adds_trans[OF adds_trans[OF adds_same[OF conjunct1[OF same]] set_status_adds]] by blast
  qed
  have ok: "truthy (fs_status f)" "attributionRefusal nm (so_users db) registry (Some (fs_to f)) source = None"
    using assms by (auto simp: updateEvent_def split: if_splits option.splits)
  obtain u where u: "resolveRelayActor nm (so_users db) (fs_from f) = Found u"
    using assms ok by (cases "resolveRelayActor nm (so_users db) (fs_from f)") (auto simp: updateEvent_def)
  show ?thesis
  proof (cases "stale \<or> (\<forall>t. resolveRelayActor nm (so_users db) (fs_to f) \<noteq> Found t)")
    case True
    then have "db' = db1" using assms ok u c same
      by (cases "resolveRelayActor nm (so_users db) (fs_to f)") (auto simp: updateEvent_def split: if_splits)
    then show ?thesis using same by simp
  next
    case False
    then obtain t where t: "\<not> stale" "resolveRelayActor nm (so_users db) (fs_to f) = Found t" by blast
    show ?thesis
    proof (cases "find (pending_from (us_id u) (us_id t)) (so_requests db1)")
      case None
      then have "db' = db1" using assms ok u c same t by (auto simp: updateEvent_def)
      then show ?thesis using same by simp
    next
      case (Some r)
      have "if fs_status f = Some ''accepted'' \<and> \<not> are_friends (set_request_status (rq_id r) (the (fs_status f)) db1) (us_id u) (us_id t)
        then insert_friend (us_id u) (us_id t) (event_time f now) (set_request_status (rq_id r) (the (fs_status f)) db1) = Some db'
        else db' = set_request_status (rq_id r) (the (fs_status f)) db1"
        using assms ok u c same t Some by (cases "fs_status f = Some ''accepted''") (auto simp: updateEvent_def Let_def split: if_splits option.splits)
      from step[OF Some this] u t(2) show ?thesis by blast
    qed
  qed
qed

lemma cancel_event_adds:
  assumes "cancelEvent nm registry now source e db = (v, db')"
  shows "adds {} {} db db'"
proof (cases "fe_friendship e")
  case (Some f)
  obtain db1 stale where c: "claimFriendPair nm now e f db = (db1, stale)" by (cases "claimFriendPair nm now e f db")
  have "adds {} {} db1 (db1\<lparr>so_requests := tbl_delete rq_id i (so_requests db1)\<rparr>)" for i by (auto intro!: fewer_adds)
  then have "adds {} {} db (db1\<lparr>so_requests := tbl_delete rq_id i (so_requests db1)\<rparr>)" "adds {} {} db db1" for i
    using adds_trans[OF adds_same[OF conjunct1[OF claim_same[OF c]]]] adds_same[OF conjunct1[OF claim_same[OF c]]] by blast+
  then show ?thesis using assms c Some by (auto simp: cancelEvent_def split: if_splits option.splits RelayActorResolution.splits)
qed (use assms in \<open>simp add: cancelEvent_def\<close>)

lemma remove_event_adds:
  assumes "removeEvent nm registry now source e db = (v, db')"
  shows "adds {} {} db db'"
proof (cases "fe_friendship e")
  case (Some f)
  obtain db1 stale where c: "claimFriendPair nm now e f db = (db1, stale)" by (cases "claimFriendPair nm now e f db")
  have "adds {} {} db1 (without_friendship a b db1)" for a b by (auto simp: without_friendship_def intro!: fewer_adds)
  then have "adds {} {} db (without_friendship a b db1)" "adds {} {} db db1" for a b
    using adds_trans[OF adds_same[OF conjunct1[OF claim_same[OF c]]]] adds_same[OF conjunct1[OF claim_same[OF c]]] by blast+
  then show ?thesis using assms c Some
    by (auto simp: removeEvent_def Let_def split: if_splits RelayActorResolution.splits)
qed (use assms in \<open>simp add: removeEvent_def\<close>)

lemma add_start_pair:
  assumes "addEvent_start nm registry now source e db = (Inr (u, t), db')"
  shows "db' = db \<and> (u, t) \<in> request_pairs db"
proof -
  have "list_ex (pending_from u t) (so_requests db) \<and> db' = db"
    using assms by (auto simp: addEvent_start_def Let_def split: option.splits if_splits RelayActorResolution.splits)
  then show ?thesis by (force simp: list_ex_iff pending_from_def request_pairs_def)
qed

lemma add_settle_adds:
  assumes "addEvent_settle nm now (u, t) e f db = (Accepted, db')"
  shows "adds {} {(u, t)} db db'"
proof -
  obtain db1 stale where c: "claimFriendPair nm now e f db = (db1, stale)" by (cases "claimFriendPair nm now e f db")
  have "adds {} {(u, t)} db1 db'" using assms c
    by (auto simp: addEvent_settle_def split: if_splits option.splits intro: adds_trans[OF insert_friend_adds accept_adds])
  then show ?thesis using adds_trans[OF adds_same[OF conjunct1[OF claim_same[OF c]]]] by blast
qed

lemma create_start_speaks:
  assumes "createEvent_start nm registry now newId random source e db = (Inr u, db')" "distinct (map us_id (so_users db))"
  shows "sender_ok nm registry (source, e, so_users db, so_users db', u)"
proof -
  have "speaks_for nm (so_users db) registry source (fs_from f)
      \<and> (domain_stable nm (ra_homeInstance (fs_from f)) \<longrightarrow> row_of nm (so_users db') (fs_from f) u)" if f: "fe_friendship e = Some f" for f
  proof -
    let ?a = "fs_from f"
    have ok: "attributionRefusal nm (so_users db) registry (Some ?a) source = None"
      using assms(1) f by (auto simp: createEvent_start_def split: option.splits)
    note speaks = attribution_speaks[OF ok]
    obtain r users1 where r: "resolveOrCreateReplicatedUser nm now newId random (so_users db) (ra_homeUserId ?a) (ra_homeInstance ?a)
        (profile_hints (fs_fromProfile f)) = (Answer (Some r), users1)" "us_id r = u" "so_users db' = users1"
      using assms(1) f ok by (auto simp: createEvent_start_def split: if_splits prod.splits answer.splits option.splits)
    have "?a = \<lparr>ra_homeUserId = ra_homeUserId ?a, ra_homeInstance = ra_homeInstance ?a\<rparr>" by simp
    then have "row_of nm users1 ?a u" if "domain_stable nm (ra_homeInstance ?a)"
      using replica_row[OF assms(2) _ that r(1)] speaks r(2) unfolding row_of_def speaks_for_def by metis
    then show ?thesis using speaks r(3) by simp
  qed
  then show ?thesis by (simp add: sender_ok_def)
qed

lemma update_speaks:
  assumes "updateEvent nm registry now source e db = (Accepted, db')" "fe_friendship e = Some f"
  shows "speaks_for nm (so_users db) registry source (fs_to f)"
proof (rule attribution_speaks)
  show "attributionRefusal nm (so_users db) registry (Some (fs_to f)) source = None"
    using assms by (auto simp: updateEvent_def split: if_splits option.splits)
qed

lemma add_start_speaks:
  assumes "addEvent_start nm registry now source e db = (Inr (u, t), db')" "fe_friendship e = Some f"
  shows "speaks_for nm (so_users db) registry source (fs_to f)" "row_of nm (so_users db) (fs_from f) u" "row_of nm (so_users db) (fs_to f) t"
proof -
  have "attributionRefusal nm (so_users db) registry (Some (fs_to f)) source = None"
    using assms by (auto simp: addEvent_start_def split: option.splits)
  then show "speaks_for nm (so_users db) registry source (fs_to f)" by (rule attribution_speaks)
  show "row_of nm (so_users db) (fs_from f) u" "row_of nm (so_users db) (fs_to f) t"
    using assms by (auto simp: addEvent_start_def row_of_def Let_def split: option.splits if_splits RelayActorResolution.splits)
qed

lemma step_consented:
  assumes "social_step nm registry s s'" "consented nm registry s"
  shows "consented nm registry s'"
  using assms
proof (induction rule: social_step.induct)
  case (request now newId userId t sender s i events db)
  show ?case by (rule adds_consented[OF request.prems local_adds[OF request.hyps]]) (auto simp: asked_pairs_def asked_def)
next
  case (federated now newId org profile sender stub s r events db)
  show ?case by (rule adds_consented[OF federated.prems federated_adds[OF federated.hyps]]) (auto simp: asked_pairs_def asked_def)
next
  case (patch now userId i status s events db r)
  note a = patch_adds[OF patch.hyps]
  have "(rq_fromId r, rq_toId r) \<in> request_pairs (co_db s)"
    using tbl_get_SomeD[OF patch.hyps(2)] by (auto simp: request_pairs_def)
  then have "asked nm registry (co_history s) (rq_fromId r) (rq_toId r)" using patch.prems by (auto simp: consented_def asked_pairs_def)
  then have "asked nm registry (insert d (co_history s)) (rq_fromId r) (rq_toId r)" for d by (rule asked_mono) auto
  then show ?case using a
    by (intro adds_consented[OF patch.prems conjunct2[OF a]]) (auto simp: asked_pairs_def agreed_pairs_def agreed_def)
next
  case (cancel now userId i s events db)
  show ?case by (rule same_consented[OF cancel.prems cancel_adds[OF cancel.hyps]])
next
  case (remove now userId t s events db)
  show ?case by (rule same_consented[OF remove.prems remove_adds[OF remove.hyps]])
next
  case (rollback s messageId)
  show ?case by (rule same_consented[OF rollback.prems rollback_adds])
next
  case (create_starts now newId random source e s u db)
  have "consented nm registry (happened s db {})"
    by (rule same_consented[OF create_starts.prems adds_same[OF create_start_same[OF create_starts.hyps(1)]]])
  then show ?case using create_start_speaks[OF create_starts.hyps] by (simp add: consented_def asked_pairs_def agreed_pairs_def)
next
  case (create_settles source e users users1 u s f now newId db t)
  have "sender_ok nm registry (source, e, users, users1, u)" using create_settles.hyps(1) create_settles.prems by (auto simp: consented_def)
  then have from_ok: "speaks_for nm users registry source (fs_from f)" "domain_stable nm (ra_homeInstance (fs_from f)) \<longrightarrow> row_of nm users1 (fs_from f) u"
    using create_settles.hyps(2) by (simp_all add: sender_ok_def)
  have to_ok: "row_of nm (so_users (co_db s)) (fs_to f) (us_id t)" using create_settles.hyps(4) by (simp add: row_of_def)
  have "asked nm registry (insert (PeerAsked source f users users1 (so_users (co_db s)) u (us_id t)) (co_history s)) u (us_id t)"
    unfolding asked_def using from_ok to_ok by blast
  then show ?case
    by (intro adds_consented[OF create_settles.prems create_settle_adds[OF create_settles.hyps(3,4)]]) (auto simp: asked_pairs_def)
next
  case (update now source e s db f u t)
  from update_adds[OF update.hyps(1,2)] show ?case
  proof
    assume "same_tables (co_db s) db"
    then show ?thesis by (intro same_consented[OF update.prems] adds_same)
  next
    assume "\<exists>u' t'. resolveRelayActor nm (so_users (co_db s)) (fs_from f) = Found u' \<and> resolveRelayActor nm (so_users (co_db s)) (fs_to f) = Found t'
      \<and> (us_id u', us_id t') \<in> request_pairs (co_db s)
      \<and> adds {} (if fs_status f = Some ''accepted'' then {(us_id u', us_id t')} else {}) (co_db s) db"
    then have p: "(us_id u, us_id t) \<in> request_pairs (co_db s)"
      "adds {} (if fs_status f = Some ''accepted'' then {(us_id u, us_id t)} else {}) (co_db s) db" using update.hyps by auto
    have "asked nm registry (co_history s) (us_id u) (us_id t)" using p(1) update.prems by (auto simp: consented_def asked_pairs_def)
    then have "asked nm registry (insert d (co_history s)) (us_id u) (us_id t)" for d by (rule asked_mono) auto
    moreover have "row_of nm (so_users (co_db s)) (fs_from f) (us_id u)" "row_of nm (so_users (co_db s)) (fs_to f) (us_id t)"
      using update.hyps(3,4) by (simp_all add: row_of_def)
    then have "fs_status f = Some ''accepted'' \<Longrightarrow> agreed nm registry (insert (PeerAnswered source f (so_users (co_db s)) (us_id u) (us_id t)) (co_history s)) (us_id u) (us_id t)"
      unfolding agreed_def using update_speaks[OF update.hyps(1,2)] by blast
    ultimately show ?thesis
      by (intro adds_consented[OF update.prems p(2)]) (auto simp: asked_pairs_def agreed_pairs_def)
  qed
next
  case (cancel_event now source e s v db)
  show ?case by (rule same_consented[OF cancel_event.prems cancel_event_adds[OF cancel_event.hyps]])
next
  case (add_starts now source e s u t db)
  note p = add_start_pair[OF add_starts.hyps]
  have "consented nm registry (happened s db {})" using p by (intro same_consented[OF add_starts.prems]) simp
  moreover have "asked nm registry (co_history s) u t" using p add_starts.prems by (auto simp: consented_def asked_pairs_def)
  then have "pair_ok nm registry (co_history s) (source, e, so_users (co_db s), u, t)"
    using add_start_speaks[OF add_starts.hyps] by (simp add: pair_ok_def)
  ultimately show ?case by (simp add: consented_def asked_pairs_def agreed_pairs_def)
next
  case (add_settles source e users u t s f now db)
  have "pair_ok nm registry (co_history s) (source, e, users, u, t)" using add_settles.hyps(1) add_settles.prems by (auto simp: consented_def)
  then have ok: "asked nm registry (co_history s) u t" "speaks_for nm users registry source (fs_to f)" "row_of nm users (fs_from f) u" "row_of nm users (fs_to f) t"
    using add_settles.hyps(2) by (simp_all add: pair_ok_def)
  have "asked nm registry (insert (PeerAdded source f users u t) (co_history s)) u t" using ok(1) by (rule asked_mono) auto
  moreover have "agreed nm registry (insert (PeerAdded source f users u t) (co_history s)) u t" unfolding agreed_def using ok(2-4) by blast
  ultimately show ?case
    by (intro adds_consented[OF add_settles.prems add_settle_adds[OF add_settles.hyps(3)]]) (auto simp: asked_pairs_def agreed_pairs_def)
next
  case (remove_event now source e s v db)
  show ?case by (rule same_consented[OF remove_event.prems remove_event_adds[OF remove_event.hyps]])
next
  case (users s db)
  show ?case by (rule same_consented[OF users.prems adds_same[OF users.hyps]])
qed

text \<open>
  C14. Nobody is made a friend without a part in it. However sessions, peers and deliveries interleave, for each friendship
  on this instance the history holds that it was asked for, by the session of the one who asks or by an event of a peer that may speak
  for the identity that asks, and that it was answered with yes, by the session of the one who was asked or by an event of a peer
  that may speak for the identity that answers; and those identities were these two rows. Who may speak for whom is \<open>speaks_for\<close>, which says it by
  domains, detachment and the records of native accounts. The row of a new asker is the one the identity resolves to
  where the URL parser names the domain of a domain by itself (\<open>domain_stable\<close>).
\<close>
theorem friends_consented:
  assumes "(social_step nm registry)\<^sup>*\<^sup>* s s'" "so_friends (co_db s) = []" "so_requests (co_db s) = []" "co_senders s = {}" "co_pairs s = {}"
    and "r \<in> set (so_friends (co_db s'))"
  shows "asked nm registry (co_history s') (fr_userId r) (fr_friendId r) \<and> agreed nm registry (co_history s') (fr_userId r) (fr_friendId r)"
proof -
  have "consented nm registry s" using assms(2-5) by (simp add: consented_def request_pairs_def friend_pairs_def)
  with assms(1) have "consented nm registry s'" by (induction rule: rtranclp_induct) (auto intro: step_consented)
  then show ?thesis using assms(6) by (auto simp: consented_def friend_pairs_def asked_pairs_def agreed_pairs_def)
qed

text \<open>
  C15. A request is never used up. Once a request was answered, its sender can no longer take it back, and its recipient can
  answer it again: when the sender ends the friendship, the recipient alone makes them friends again, as often as
  they like.
\<close>
theorem answered_request_reopens:
  assumes "tbl_get rq_id i (so_requests db) = Some r" "rq_status r \<noteq> ''pending''"
    and "removeFriend nm now (rq_fromId r) (rq_toId r) db = (Answer (), events, db1)"
  shows "\<not> are_friends db1 (rq_fromId r) (rq_toId r)
    \<and> cancelRequest nm now1 (rq_fromId r) i db1 = (Refused 400 ''friend_request_not_pending'', [], db1)
    \<and> (\<exists>events2 db2. patchRequest nm now2 (rq_toId r) i ''accepted'' db1 = (Answer (), events2, db2)
         \<and> are_friends db2 (rq_fromId r) (rq_toId r))"
proof -
  let ?db = "without_friendship (rq_fromId r) (rq_toId r) db"
  have same: "same_tables ?db db1"
    using assms(3) by (auto simp: removeFriend_def dest!: pair_events_same split: if_splits prod.splits)
  have ended: "\<not> are_friends db1 (rq_fromId r) (rq_toId r)"
    using same by (auto simp: same_tables_def are_friends_def list_ex_iff without_friendship_def)
  have r: "tbl_get rq_id i (so_requests db1) = Some r" using same assms(1) by (simp add: same_tables_def without_friendship_def)
  have "\<not> list_ex (\<lambda>x. fr_userId x = rq_fromId r \<and> fr_friendId x = rq_toId r) (so_friends db1)"
    using ended by (auto simp: are_friends_def list_ex_iff between_def)
  then have ins: "insert_friend (rq_fromId r) (rq_toId r) now2 db1 = Some (db1\<lparr>so_friends := so_friends db1 @
      [\<lparr>fr_userId = rq_fromId r, fr_friendId = rq_toId r, fr_createdAt = now2\<rparr>]\<rparr>)" by (simp add: insert_friend_def)
  obtain events2 db2 where p: "patch_events nm now2 ''accepted'' r (set_request_status i ''accepted'' (db1\<lparr>so_friends := so_friends db1 @
      [\<lparr>fr_userId = rq_fromId r, fr_friendId = rq_toId r, fr_createdAt = now2\<rparr>]\<rparr>)) = (events2, db2)" by fastforce
  have "patchRequest nm now2 (rq_toId r) i ''accepted'' db1 = (Answer (), events2, db2)" by (simp add: patchRequest_def r ins p)
  moreover have "are_friends db2 (rq_fromId r) (rq_toId r)"
    using patch_events_same[OF p] by (simp add: same_tables_def set_request_status_def are_friends_def between_def)
  moreover have "cancelRequest nm now1 (rq_fromId r) i db1 = (Refused 400 ''friend_request_not_pending'', [], db1)"
    using assms(2) by (simp add: cancelRequest_def r)
  ultimately show ?thesis using ended by blast
qed

text \<open>
  C16. Requests that cross leave both sides waiting. While a user's own request to someone is pending, that person's
  request to them is acknowledged and dropped, so there is none they could answer; asking again sends nothing; and the
  other side taking theirs back changes nothing. Each instance tells its own user they are the one who asked.
\<close>
theorem crossed_requests_wait:
  assumes "list_ex (pending_from me other) (so_requests db)" "\<not> list_ex (pending_from other me) (so_requests db)"
  shows "(\<forall>now newId (e :: friend_event) (f :: friendship) (t :: user_row). resolveRelayActor nm (so_users db) (fs_to f) = Found t \<and> us_id t = me \<longrightarrow>
       (\<exists>db'. createEvent_settle nm now newId other e f db = (Accepted, db') \<and> same_tables db db'))
    \<and> (\<forall>now newId org profile (sender :: user_row) (stub :: user_row). us_id sender = me \<and> us_id stub = other \<longrightarrow>
       (\<exists>i. federated_commit nm now newId org profile sender stub db = (Answer (200, i), [], db)))
    \<and> (\<forall>now source (e :: friend_event) f (u :: user_row). fe_friendship e = Some f \<and> resolveRelayActor nm (so_users db) (fs_from f) = Found u \<and> us_id u = other
         \<and> (\<exists>t. resolveRelayActor nm (so_users db) (fs_to f) = Found t \<and> us_id t = me) \<longrightarrow>
       same_tables db (snd (cancelEvent nm registry now source e db)))"
proof (intro conjI allI impI; (elim conjE)?)
  fix now newId and e :: friend_event and f :: friendship and t :: user_row assume t: "resolveRelayActor nm (so_users db) (fs_to f) = Found t" "us_id t = me"
  obtain db1 stale where c: "claimFriendPair nm now e f db = (db1, stale)" by (cases "claimFriendPair nm now e f db")
  have "list_ex (pending_between other (us_id t)) (so_requests db1)"
    using assms(1) claim_same[OF c] t(2) by (auto simp: same_tables_def list_ex_iff pending_between_def)
  then have "createEvent_settle nm now newId other e f db = (Accepted, db1)" using c t by (auto simp: createEvent_settle_def)
  then show "\<exists>db'. createEvent_settle nm now newId other e f db = (Accepted, db') \<and> same_tables db db'" using claim_same[OF c] by blast
next
  fix now newId org profile and sender stub :: user_row assume ids: "us_id sender = me" "us_id stub = other"
  obtain q where q: "find (pending_between me other) (so_requests db) = Some q"
    using assms(1) by (cases "find (pending_between me other) (so_requests db)") (auto simp: find_None_iff list_ex_iff pending_between_def)
  then have "pending_between me other q" "q \<in> set (so_requests db)" using find_SomeD[OF q] by auto
  then have "rq_fromId q = me" using assms(2) by (auto simp: pending_between_def pending_from_def list_ex_iff)
  then show "\<exists>i. federated_commit nm now newId org profile sender stub db = (Answer (200, i), [], db)"
    by (simp add: federated_commit_def ids q)
next
  fix now source and e :: friend_event and f :: friendship and u :: user_row assume e: "fe_friendship e = Some f" "resolveRelayActor nm (so_users db) (fs_from f) = Found u" "us_id u = other"
    "\<exists>t. resolveRelayActor nm (so_users db) (fs_to f) = Found t \<and> us_id t = me"
  obtain db1 stale where c: "claimFriendPair nm now e f db = (db1, stale)" by (cases "claimFriendPair nm now e f db")
  have "find (pending_from other me) (so_requests db1) = None"
    using assms(2) claim_same[OF c] by (auto simp: same_tables_def find_None_iff list_ex_iff)
  then show "same_tables db (snd (cancelEvent nm registry now source e db))"
    using e c claim_same[OF c] by (auto simp: cancelEvent_def split: option.splits)
qed

section \<open>Witnesses\<close>

definition two_users :: "user_row list" where
  "two_users = [plain_user ''1'' ''ann'' None None, plain_user ''3'' ''cat'' None None, plain_user ''2'' ''bob@b'' (Some ''b'') (Some ''9'')]"

definition quiet_db :: social_db where
  "quiet_db = \<lparr>so_users = two_users, so_friends = [], so_requests = [], so_clocks = []\<rparr>"

definition asked_row :: "string \<Rightarrow> string \<Rightarrow> request_row" where
  "asked_row b status = \<lparr>rq_id = ''r'', rq_fromId = ''1'', rq_toId = b, rq_status = status, rq_createdAt = 5, rq_relayMessageId = None\<rparr>"

definition friends_db :: social_db where
  "friends_db = quiet_db\<lparr>so_friends := [\<lparr>fr_userId = ''1'', fr_friendId = ''3'', fr_createdAt = 6\<rparr>], so_requests := [asked_row ''3'' ''accepted'']\<rparr>"

lemma answered_request_reopens_witness:
  "\<exists>events db1 events2 db2. removeFriend example_names 7 ''1'' ''3'' friends_db = (Answer (), events, db1)
    \<and> patchRequest example_names 8 ''3'' ''r'' ''accepted'' db1 = (Answer (), events2, db2) \<and> are_friends db2 ''1'' ''3''"
proof -
  have r: "tbl_get rq_id ''r'' (so_requests friends_db) = Some (asked_row ''3'' ''accepted'')" by code_simp
  have s: "rq_status (asked_row ''3'' ''accepted'') \<noteq> ''pending''" "rq_fromId (asked_row ''3'' ''accepted'') = ''1''"
    "rq_toId (asked_row ''3'' ''accepted'') = ''3''" by (simp_all add: asked_row_def)
  have "fst (removeFriend example_names 7 ''1'' ''3'' friends_db) = Answer ()" by code_simp
  then obtain events db1 where d: "removeFriend example_names 7 ''1'' ''3'' friends_db = (Answer (), events, db1)"
    by (cases "removeFriend example_names 7 ''1'' ''3'' friends_db") auto
  from answered_request_reopens[OF r s(1), unfolded s(2,3), OF d, of 0 8] d show ?thesis by blast
qed

lemma crossed_requests_wait_witness:
  "\<exists>i. federated_commit example_names 7 ''n'' ''https://b'' \<lparr>rh_username = None, rh_status = None, rh_deleted = False\<rparr>
      (two_users ! 0) (two_users ! 2) (quiet_db\<lparr>so_requests := [asked_row ''2'' ''pending'']\<rparr>)
    = (Answer (200, i), [], quiet_db\<lparr>so_requests := [asked_row ''2'' ''pending'']\<rparr>)"
proof -
  let ?db = "quiet_db\<lparr>so_requests := [asked_row ''2'' ''pending'']\<rparr>"
  have a: "list_ex (pending_from ''1'' ''2'') (so_requests ?db)" "\<not> list_ex (pending_from ''2'' ''1'') (so_requests ?db)" by code_simp+
  have ids: "us_id (two_users ! 0) = ''1''" "us_id (two_users ! 2) = ''2''" by (simp_all add: two_users_def plain_user_def)
  show ?thesis using crossed_requests_wait[OF a, of example_names] ids by blast
qed

text \<open>Bob of \<open>b\<close> asks Ann, who accepts.\<close>

definition bobs_event :: friend_event where
  "bobs_event = friend_event_of ''friend_request_create'' ''friend_req'' 5 \<lparr>ra_homeUserId = ''9'', ra_homeInstance = ''https://b''\<rparr>
     \<lparr>ra_homeUserId = ''1'', ra_homeInstance = ''https://a''\<rparr> None None (Some ''pending'') 5"

definition consent_of :: "social_db \<Rightarrow> consent" where
  "consent_of db = \<lparr>co_db = db, co_history = {}, co_senders = {}, co_pairs = {}\<rparr>"

lemma friends_consented_witness:
  "\<exists>s'. (social_step example_names [])\<^sup>*\<^sup>* (consent_of quiet_db) s' \<and> so_friends (co_db s') \<noteq> []
    \<and> asked example_names [] (co_history s') ''2'' ''1'' \<and> agreed example_names [] (co_history s') ''2'' ''1''"
proof -
  define s0 where "s0 = consent_of quiet_db"
  define db1 where "db1 = snd (createEvent_start example_names [] 6 ''n'' ''ff'' ''https://b'' bobs_event quiet_db)"
  define db2 where "db2 = snd (createEvent_settle example_names 6 ''r'' ''2'' bobs_event (the (fe_friendship bobs_event)) db1)"
  define db3 where "db3 = snd (snd (patchRequest example_names 7 ''1'' ''r'' ''accepted'' db2))"
  define events where "events = fst (snd (patchRequest example_names 7 ''1'' ''r'' ''accepted'' db2))"
  define heard where "heard = (''https://b'', bobs_event, so_users quiet_db, so_users db1, ''2'')"
  define s1 where "s1 = (happened s0 db1 {})\<lparr>co_senders := insert heard (co_senders s0)\<rparr>"
  have r1: "createEvent_start example_names [] 6 ''n'' ''ff'' ''https://b'' bobs_event quiet_db = (Inr ''2'', db1)" unfolding db1_def by code_simp
  have keys: "distinct (map us_id (so_users quiet_db))" by code_simp
  have start: "co_db s0 = quiet_db" "so_friends (co_db s0) = []" "so_requests (co_db s0) = []" "co_senders s0 = {}" "co_pairs s0 = {}"
    by (simp_all add: s0_def consent_of_def quiet_db_def)
  have one: "social_step example_names [] s0 s1"
    unfolding s1_def heard_def start(1)[symmetric] by (rule social_step.create_starts) (use r1 keys start(1) in simp_all)
  have f: "fe_friendship bobs_event = Some (the (fe_friendship bobs_event))" by (simp add: bobs_event_def friend_event_of_def)
  have r2: "createEvent_settle example_names 6 ''r'' ''2'' bobs_event (the (fe_friendship bobs_event)) db1 = (Accepted, db2)"
    "resolveRelayActor example_names (so_users db1) (fs_to (the (fe_friendship bobs_event))) = Found (two_users ! 0)"
    unfolding db2_def db1_def by code_simp+
  have at1: "co_db s1 = db1" "heard \<in> co_senders s1" by (simp_all add: s1_def)
  define s2 where "s2 = happened s1 db2 {PeerAsked ''https://b'' (the (fe_friendship bobs_event)) (so_users quiet_db) (so_users db1) (so_users (co_db s1)) ''2'' (us_id (two_users ! 0))}"
  have two: "social_step example_names [] s1 s2"
    unfolding s2_def by (rule social_step.create_settles[OF at1(2)[unfolded heard_def] f]) (use r2 at1(1) in simp_all)
  have r3: "fst (patchRequest example_names 7 ''1'' ''r'' ''accepted'' db2) = Answer ()" "tbl_get rq_id ''r'' (so_requests db2) \<noteq> None"
    unfolding db2_def db1_def by code_simp+
  then obtain q where q: "tbl_get rq_id ''r'' (so_requests db2) = Some q" by blast
  have at2: "co_db s2 = db2" by (simp add: s2_def)
  have "patchRequest example_names 7 ''1'' ''r'' ''accepted'' db2 = (Answer (), events, db3)"
    using r3(1) by (cases "patchRequest example_names 7 ''1'' ''r'' ''accepted'' db2") (simp add: events_def db3_def)
  then obtain s3 where three: "social_step example_names [] s2 s3" "co_db s3 = db3"
    using social_step.patch[of example_names 7 "''1''" "''r''" "''accepted''" s2 events db3 q "[]"] q at2 by force
  have steps: "(social_step example_names [])\<^sup>*\<^sup>* s0 s3" using one two three(1) by (meson converse_rtranclp_into_rtranclp r_into_rtranclp)
  have row: "\<lparr>fr_userId = ''2'', fr_friendId = ''1'', fr_createdAt = 7\<rparr> \<in> set (so_friends (co_db s3))"
    unfolding three(2) db3_def db2_def db1_def by code_simp
  have "asked example_names [] (co_history s3) ''2'' ''1'' \<and> agreed example_names [] (co_history s3) ''2'' ''1''"
    using friends_consented[OF steps start(2-5) row] by simp
  with steps row show ?thesis unfolding s0_def by (metis empty_iff list.set(1))
qed

end
