(* ===== verification/Spec2Isabelle.thy ===== *)
theory Spec2Isabelle
  imports Prelude Json Permissions Schema Hierarchy SpacePerms RoleRoutes RoleSafety Outbox OutboxDelivery
    PeerState Peering PeeringSafety PeerTable OutboxWorker FedAuth S2SGuard MutationLog FileQueue
    Identity StubName SyncServe PullSync SyncSafety
    Snowflake NetGuard Invites Accounts History Replicas Friends
begin

text \<open>
  Verification library of the Backspace server. Backspace is a chat server whose instances federate: each keeps
  its users, spaces and conversations in one SQLite database, and talks to its peers over signed requests. The sources are
  under \<open>src/packages\<close>; below, \<open>server\<close> is \<open>packages/server/src\<close>. The library models the parts that decide who may do
  what, whom the instance trusts, what it sends, believes and applies, and where it connects to.

  \<^bold>\<open>The parts and how they meet.\<close> A request of a signed-in user passes the session check (\<open>Accounts\<close>) and reaches a
  route. The routes of a space (\<open>RoleRoutes\<close>) ask for the standing and the permissions of the user (\<open>Hierarchy\<close>,
  \<open>SpacePerms\<close>, over the bit rules of \<open>Permissions\<close>) and write the tables of \<open>Schema\<close>. What must reach other instances
  is queued per entity (\<open>Outbox\<close>, \<open>Peering\<close>) and logged (\<open>MutationLog\<close>). The worker (\<open>OutboxWorker\<close>) sends queues to
  active peers and settles their answers; attachments of relayed messages are downloaded by \<open>FileQueue\<close>. Every row of the
  peer table is written by one state machine (\<open>PeerState\<close>), driven by handshakes, admins and failures (\<open>Peering\<close>). A
  request from a peer passes rate limits, signature, nonce and peer lookup (\<open>FedAuth\<close>, \<open>S2SGuard\<close>), its users are
  resolved (\<open>Identity\<close>, with the names of \<open>StubName\<close>) and late or repeated events are dropped by subject clocks and the
  ledger of applied events (\<open>Identity\<close>). What was missed while a peer was away is served from its log (\<open>SyncServe\<close>) and
  pulled (\<open>PullSync\<close>). New accounts come through registration and invite links (\<open>Accounts\<close>, \<open>Invites\<close>); every
  row's id comes from \<open>Snowflake\<close>; requests to hosts a user or a stranger named go through \<open>NetGuard\<close>.
  Friendships are asked for and answered by sessions here and by events from peers (\<open>Friends\<close>), over the rows kept for
  users homed elsewhere (\<open>Replicas\<close>).
  What a channel holds is served in pages and kept by the client as a window of them (\<open>History\<close>).

  \<^bold>\<open>Theories and sources.\<close>
  \<^item> \<open>Prelude\<close>, \<open>Json\<close>, \<open>Schema\<close>: identifiers and tables, the parts of JavaScript's strings and \<open>JSON\<close> the code uses, and
    the rows of \<open>server/db/schema.ts\<close> the other theories read. A table is the list of its rows in rowid order, with the
    constraints of the schema checked where a row is inserted; \<open>keyed_table\<close> is the interface of lookup, update and delete
    by a unique column, interpreted on the peer table by id and by origin and on the user, invite link and friend
    request tables by id.
  \<^item> \<open>Permissions\<close> (\<open>packages/shared/src/permissions.ts\<close>, \<open>server/utils/permissionDataView.ts\<close>), \<open>Hierarchy\<close>
    (\<open>server/utils/roleHierarchy.ts\<close>, \<open>server/db/rolePositions.ts\<close>), \<open>SpacePerms\<close> (\<open>server/utils/permissions.ts\<close>): the
    stored form of permission bits, the tiered override rule and who may act on whom; \<open>moderation_order\<close> states the last
    as an order and is interpreted on \<open>canActOnMember\<close>. \<open>computePermissions_bits\<close> shows that the staged computation of
    the code grants exactly the bits of the rule.
  \<^item> \<open>RoleRoutes\<close> (\<open>server/routes/spaces.ts\<close>, \<open>spaceMemberUpdate.ts\<close>, \<open>channels.ts\<close>): the handlers that change roles,
    members, bans and overrides. \<open>RoleSafety\<close> collects them in a step relation and shows what no sequence of requests does:
    give users that are neither owner nor admin a permission beyond those one of them had and those joining gives, touch a role at or above its author, change more of an override
    than its author may switch.
  \<^item> \<open>PeerState\<close> (\<open>server/utils/federationPeerState.ts\<close>), \<open>Peering\<close> (\<open>federationHandshake.ts\<close>, \<open>federationPeering.ts\<close>,
    \<open>federationPeerActivation.ts\<close>, \<open>federationReset.ts\<close>, \<open>federationRecovery.ts\<close>, \<open>queueOutboxEvent\<close> and the handlers
    \<open>approvals.ts\<close>, \<open>peerHandshake.ts\<close>, \<open>peerAdmin.ts\<close>): transitions of a peer row with a compare-and-set on its status,
    and every operation that asks for one. A handler that awaits is cut at the await: the part before gives a request and
    the state, the part after takes the answer and the state as it is then, so other operations fit in between.
    \<open>PeeringSafety\<close> shows that a settled peering is not rekeyed by a stranger, that a row becomes active only after a
    signed check of its secret, that with auto-accept off an admin stands behind every activation, and that a completed
    handshake leaves both sides active with one secret. \<open>PeerTable\<close> adds the writers that are left (epoch refresh, janitor,
    \<open>server/utils/federationEpoch.ts\<close>, \<open>storageJanitor.ts\<close>), lets every stretch of code that writes the peer table or the
    outbox interleave freely, and shows that the table stays sound.
  \<^item> \<open>Outbox\<close> (\<open>server/utils/federationOutboxQueue.ts\<close>): one queue per peer and entity, with the folding of a new event
    into what is still unsent. \<open>OutboxDelivery\<close> composes it, and the worker's settling, with what the handlers of
    \<open>server/routes/federation/events/dmMessages.ts\<close> make of one message's copy, over a network that loses, delays, repeats and
    reorders, and shows that, unless a row was refused for good, expired or purged, draining a folded queue brings the peer to
    the message as its author left it.
  \<^item> \<open>OutboxWorker\<close> and \<open>FileQueue\<close> (\<open>server/utils/federationWorker.ts\<close>, \<open>federationRejections.ts\<close>,
    \<open>federationAuthFailure.ts\<close>): picking a batch, settling each entry by the answer, back-off, failure thresholds, and the
    download of attachments.
  \<^item> \<open>FedAuth\<close> (\<open>server/utils/federationAuth.ts\<close>), \<open>S2SGuard\<close> (\<open>server/routes/federation/rateLimits.ts\<close>, \<open>s2sAuth.ts\<close>,
    \<open>relay.ts\<close>): signatures with a grace period for the old secret, sliding windows, nonces, and the preamble of every
    endpoint between servers.
  \<^item> \<open>Identity\<close> (\<open>server/routes/federation/identity.ts\<close>, \<open>server/utils/federationSubjectClock.ts\<close>,
    \<open>federationAppliedEvents.ts\<close>) and \<open>StubName\<close> (\<open>stubName.ts\<close>): which user an event speaks of, the last writer of a
    subject, and the local names of replicated users.
  \<^item> \<open>Replicas\<close> (\<open>server/routes/federation/identity.ts\<close>): looking up, binding, creating and renaming the row of a remote
    user; one identity is given one row and keeps it. \<open>Friends\<close> (\<open>server/routes/social.ts\<close>,
    \<open>server/routes/federation/events/friends.ts\<close>, \<open>server/utils/federationRollback.ts\<close>): requests and friendships from the
    routes and from relayed events, cut at their awaits and interleaved freely. Each friendship was asked for by one side
    and answered by the other: by a session of theirs here, or by an event of a peer that may speak for them.
  \<^item> \<open>MutationLog\<close> (\<open>server/utils/federationOutbox.ts\<close>), \<open>SyncServe\<close> (\<open>server/routes/federation/handlers/syncPage.ts\<close>),
    \<open>PullSync\<close> (\<open>server/utils/federationSync.ts\<close>): the log of changes, the page a peer is served and the loop that reads
    it. \<open>SyncSafety\<close> composes the two sides: a pass reads every row once and in order, and a burst within the overlap
    stops it.
  \<^item> \<open>Invites\<close> (\<open>server/utils/inviteService.ts\<close>), \<open>Accounts\<close> (\<open>server/routes/auth.ts\<close>, \<open>server/utils/auth.ts\<close>, the
    password routes of \<open>users.ts\<close> and \<open>admin.ts\<close>, the proof check of \<open>attach.ts\<close>): how accounts come to be, who a session
    speaks for, and proofs of identity towards a peer.
  \<^item> \<open>Snowflake\<close> (\<open>server/utils/snowflake.ts\<close>), \<open>NetGuard\<close> (\<open>server/utils/ipClass.ts\<close>, \<open>ssrf.ts\<close>,
    \<open>federationFetch.ts\<close>): ids, and the guard on outgoing requests.
  \<^item> \<open>History\<close> (\<open>server/utils/messagePaging.ts\<close>, \<open>packages/web/src/stores/chatStore.ts\<close>): pages of messages and the
    client's window. Paging forward attaches the window without a gap, scrolling back shows everything once, and a
    message that came late breaks the latter. \<open>keyset_paging\<close> states what paging by a key rests on and is interpreted
    on the forward page.

  \<^bold>\<open>How the code is read.\<close> A handler or function is one definition from state and arguments to its result and the new
  state; its early returns, refusals with their status and code, and exceptions are values (\<open>answer\<close>, option or a sum).
  Node runs a handler without interruption up to its next \<open>await\<close>, so a synchronous stretch is one step, and
  a SQLite transaction that throws leaves the state as it was. \<open>Date.now()\<close> is read once per synchronous stretch; the places
  where two readings matter (the retry loop of \<open>Snowflake\<close>) take a list of them. Times are integers in
  milliseconds. Strings are lists of 8-bit characters, so the library speaks of texts in Latin-1; permission bits are
  \<open>int\<close>, as \<open>bigint\<close> is unbounded; JavaScript numbers used as counters stay far below \<open>2^53\<close> and are \<open>nat\<close> or \<open>int\<close>.
  Random ids and secrets are arguments, with their freshness a named hypothesis where a theorem needs it.
  HMAC, bcrypt, \<open>jsonwebtoken\<close>, the URL parser, DNS and the network are arguments of the definitions that use them.

  \<^bold>\<open>Bounds.\<close> Loops of the sources are recursion on a list or on a bound the code has: \<open>MAX_REDIRECTS + 1\<close> requests of a
  guarded fetch, the page budget of a pull pass, the batch size and the attempts of the worker. A file is
  settled after at most eleven downloads (\<open>file_settles\<close>). The clock wait of the id generator runs over the given
  readings, and gives no id when they end before the clock passes. \<open>catch_up\<close> and \<open>page_back\<close> make at most
  as many requests as their first argument says; one for every fifty rows, and one more, is enough.

  \<^bold>\<open>What the theorems found.\<close> Several theorems state a flaw rather than a promise, exactly as the code has it: two peers
  that rotate their secrets refuse each other for a while (\<open>rotation_gap\<close>); a request stamped ahead of the clock is
  accepted twice (\<open>replay_of_a_stamp_ahead\<close>); a burst of changes within the overlap stops pull sync (\<open>pull_stalls\<close>); an answered friend request
  can be answered again after its sender ended the friendship (\<open>answered_request_reopens\<close>) and requests that cross leave both sides
  waiting (\<open>crossed_requests_wait\<close>); scrolling back
  repeats or misses messages that came late (\<open>late_message_breaks_paging\<close>). The others found are in lemmas of their theories: a kicked member who is
  readmitted has the old roles (\<open>kick_keeps_roles\<close>), an edit stamped no later than the last is dropped by every peer (\<open>old_stamp_is_dropped\<close>), a clock that steps back repeats an id (\<open>snowflake_repeats\<close>), and a mapped IPv4 address spelled out in full counts as public
  (\<open>spelled_out_mapped_is_public\<close>).

  \<^bold>\<open>Not modelled.\<close> The set of open WebSockets and all that is sent on it (\<open>server/ws\<close>), with presence; the conversation
  routes and what the processors of relayed events write to the conversation, call and profile tables, but for the copy of
  one message (pull sync and relay take the processor as an argument); re-attachment and account deletion, which rewrite rows of nearly every table;
  routes that read or write one settings table; uploads, thumbnails, previews, search, stickers, directory, telemetry,
  backups and migrations, which are calls of other systems; the web client but for its message window, and the desktop shell.
\<close>

end
